(* ===== verification/Prelude.thy ===== *)
theory Prelude
  imports Main "HOL-Library.Word" "HOL-Library.Sublist"
begin

section \<open>Shared vocabulary of the development\<close>

text \<open>
  What the components share: Go's fixed width integers, Go's string routines on
  byte strings, the theorem collections that the component theories fill, and
  the generic list lemmas they use.

  Go strings are byte sequences, so they are the char lists of HOL (a char is a
  byte). A Go \<open>int\<close>, \<open>int64\<close> or \<open>time.Duration\<close> is an \<open>int\<close> with the two's
  complement wrap-around written out by \<open>wrap64\<close> where the code can reach it.
\<close>

named_theorems inv_intros \<open>preservation facts: an operation keeps an invariant\<close>
named_theorems frame_simps \<open>what an operation leaves unchanged\<close>

subsection \<open>Machine integers\<close>

definition wrap64 :: "int \<Rightarrow> int" where
  "wrap64 z = signed_take_bit 63 z"

definition max_int64 :: int where
  "max_int64 = 2 ^ 63 - 1"

definition min_int64 :: int where
  "min_int64 = - (2 ^ 63)"

definition in_int64 :: "int \<Rightarrow> bool" where
  "in_int64 z \<longleftrightarrow> min_int64 \<le> z \<and> z \<le> max_int64"

lemma wrap64_id: "in_int64 z \<Longrightarrow> wrap64 z = z"
  by (simp add: wrap64_def in_int64_def min_int64_def max_int64_def signed_take_bit_int_eq_self)

lemma wrap64_range [simp]: "in_int64 (wrap64 z)"
  using signed_take_bit_int_greater_eq_minus_exp [of 63 z]
    signed_take_bit_int_less_exp [of 63 z]
  by (simp add: wrap64_def in_int64_def min_int64_def max_int64_def)

lemma wrap64_idem [simp]: "wrap64 (wrap64 z) = wrap64 z"
  by (simp add: wrap64_id)

definition wrap32 :: "int \<Rightarrow> int" where
  "wrap32 z = signed_take_bit 31 z"

lemma wrap32_id: "- (2 ^ 31) \<le> z \<Longrightarrow> z < 2 ^ 31 \<Longrightarrow> wrap32 z = z"
  by (simp add: wrap32_def signed_take_bit_int_eq_self)

text \<open>
  \<open>time.Time.Sub\<close> (and so \<open>time.Since\<close>) saturates at the ends of
  \<open>time.Duration\<close>, it does not wrap.
\<close>

definition time_sub :: "int \<Rightarrow> int \<Rightarrow> int" where
  "time_sub t u = max min_int64 (min max_int64 (t - u))"

definition second_ns :: int where "second_ns = 1000000000"
definition minute_ns :: int where "minute_ns = 60 * second_ns"
definition hour_ns :: int where "hour_ns = 60 * minute_ns"

text \<open>
  An instant is its number of nanoseconds since the Unix epoch; \<open>time.Time{}\<close> is
  midnight of January 1 of the year 1, UTC.
\<close>

definition zero_time :: int where
  "zero_time = - (62135596800 * second_ns)"

definition unix :: "int \<Rightarrow> int" where
  "unix t = t div second_ns"

subsection \<open>Strings\<close>

text \<open>
  \<open>strings.Split\<close> with a one byte separator: always at least one part.
\<close>

fun split_on :: "char \<Rightarrow> string \<Rightarrow> string list" where
  "split_on c [] = [[]]"
| "split_on c (x # xs) =
     (if x = c then [] # split_on c xs
      else (case split_on c xs of [] \<Rightarrow> [[x]] | p # ps \<Rightarrow> (x # p) # ps))"

fun join_with :: "string \<Rightarrow> string list \<Rightarrow> string" where
  "join_with sep [] = []"
| "join_with sep [x] = x"
| "join_with sep (x # y # ys) = x @ sep @ join_with sep (y # ys)"

text \<open>
  \<open>unicode.IsSpace\<close> on UTF-8 bytes: the number of bytes of the white space rune a
  string starts with, 0 when it starts with none. The multi-byte spaces are
  U+0085, U+00A0, U+1680, U+2000 to U+200A, U+2028, U+2029, U+202F, U+205F and
  U+3000. Their first bytes are never continuation bytes, so matching bytes from
  the left finds exactly the runes Go decodes.
\<close>

definition byte_in :: "nat \<Rightarrow> nat \<Rightarrow> char \<Rightarrow> bool" where
  "byte_in lo hi c \<longleftrightarrow> lo \<le> (of_char c :: nat) \<and> (of_char c :: nat) \<le> hi"

definition is_ascii_space :: "char \<Rightarrow> bool" where
  "is_ascii_space c \<longleftrightarrow> byte_in 9 13 c \<or> byte_in 32 32 c"

fun space_len :: "string \<Rightarrow> nat" where
  "space_len [] = 0"
| "space_len (a # s) =
     (if is_ascii_space a then 1
      else case s of
        [] \<Rightarrow> 0
      | b # t \<Rightarrow>
          if byte_in 194 194 a \<and> (byte_in 133 133 b \<or> byte_in 160 160 b) then 2
          else case t of
            [] \<Rightarrow> 0
          | c # _ \<Rightarrow>
              if (byte_in 225 225 a \<and> byte_in 154 154 b \<and> byte_in 128 128 c)
                \<or> (byte_in 226 226 a \<and> byte_in 128 128 b
                    \<and> (byte_in 128 138 c \<or> byte_in 168 169 c \<or> byte_in 175 175 c))
                \<or> (byte_in 226 226 a \<and> byte_in 129 129 b \<and> byte_in 159 159 c)
                \<or> (byte_in 227 227 a \<and> byte_in 128 128 b \<and> byte_in 128 128 c)
              then 3 else 0)"

lemma space_len_pos: "0 < space_len s \<Longrightarrow> 0 < length s"
  by (cases s) simp_all

text \<open>
  \<open>strings.Fields\<close>: the maximal runs of non-space. \<open>fields_aux\<close> carries the bytes
  of the current run.
\<close>

function fields_aux :: "string \<Rightarrow> string \<Rightarrow> string list" where
  "fields_aux cur [] = (if cur = [] then [] else [cur])"
| "fields_aux cur (c # s) =
     (let n = space_len (c # s) in
      if 0 < n then (if cur = [] then [] else [cur]) @ fields_aux [] (drop n (c # s))
      else fields_aux (cur @ [c]) s)"
  by pat_completeness auto
termination
  by (relation "measure (\<lambda>(cur, s). length s)") auto

definition fields_of :: "string \<Rightarrow> string list" where
  "fields_of s = fields_aux [] s"

text \<open>
  \<open>strings.TrimSpace\<close>: leading spaces are dropped from the left; the result ends
  with the last byte that does not belong to a space.
\<close>

function trim_left :: "string \<Rightarrow> string" where
  "trim_left s = (let n = space_len s in if 0 < n then trim_left (drop n s) else s)"
  by pat_completeness auto
termination
  by (relation "measure length") (auto dest: space_len_pos intro: diff_less)

declare trim_left.simps [simp del]

text \<open>\<open>trim_right_aux out pend s\<close>: \<open>pend\<close> holds spaces seen since the last non-space.\<close>

function trim_right_aux :: "string \<Rightarrow> string \<Rightarrow> string \<Rightarrow> string" where
  "trim_right_aux out pend [] = out"
| "trim_right_aux out pend (c # s) =
     (let n = space_len (c # s) in
      if 0 < n then trim_right_aux out (pend @ take n (c # s)) (drop n (c # s))
      else trim_right_aux (out @ pend @ [c]) [] s)"
  by pat_completeness auto
termination
  by (relation "measure (\<lambda>(out, pend, s). length s)") auto

definition trim_space :: "string \<Rightarrow> string" where
  "trim_space s = trim_right_aux [] [] (trim_left s)"

text \<open>
  \<open>strings.ToLower\<close>, as far as the code compares its result with ASCII words: ASCII
  letters, and the two runes outside ASCII whose lower case is an ASCII letter
  (U+0130 gives i, U+212A gives k). Other runes stay outside ASCII.
\<close>

definition lower_char :: "char \<Rightarrow> char" where
  "lower_char c = (if byte_in 65 90 c then char_of ((of_char c :: nat) + 32) else c)"

fun to_lower :: "string \<Rightarrow> string" where
  "to_lower [] = []"
| "to_lower (a # s) =
     (case s of
        b # t \<Rightarrow>
          if byte_in 196 196 a \<and> byte_in 176 176 b then CHR ''i'' # to_lower t
          else (case t of
            c # u \<Rightarrow>
              if byte_in 226 226 a \<and> byte_in 132 132 b \<and> byte_in 170 170 c
              then CHR ''k'' # to_lower u
              else lower_char a # to_lower s
          | [] \<Rightarrow> lower_char a # to_lower s)
      | [] \<Rightarrow> [lower_char a])"

subsection \<open>Decimal numbers\<close>

definition digit_value :: "char \<Rightarrow> int option" where
  "digit_value c =
     (if byte_in 48 57 c then Some (int ((of_char c :: nat) - 48)) else None)"

fun digits_value :: "int \<Rightarrow> string \<Rightarrow> int option" where
  "digits_value acc [] = Some acc"
| "digits_value acc (c # s) =
     (case digit_value c of
        None \<Rightarrow> None
      | Some d \<Rightarrow> digits_value (10 * acc + d) s)"

definition unsigned_value :: "string \<Rightarrow> int option" where
  "unsigned_value s = (if s = [] then None else digits_value 0 s)"

text \<open>
  \<open>strconv.Atoi\<close> on a 64-bit machine: an optional sign, then at least one decimal
  digit; \<open>None\<close> is \<open>ErrSyntax\<close> or \<open>ErrRange\<close>.
\<close>

definition atoi :: "string \<Rightarrow> int option" where
  "atoi s =
     (let r = (case s of
          [] \<Rightarrow> None
        | c # t \<Rightarrow>
            if c = CHR ''-'' then map_option uminus (unsigned_value t)
            else if c = CHR ''+'' then unsigned_value t
            else unsigned_value s)
      in case r of
           None \<Rightarrow> None
         | Some n \<Rightarrow> if in_int64 n then Some n else None)"

definition digit_char :: "nat \<Rightarrow> char" where
  "digit_char n = char_of (48 + n)"

fun nat_digits :: "nat \<Rightarrow> string" where
  "nat_digits n =
     (if n < 10 then [digit_char n] else nat_digits (n div 10) @ [digit_char (n mod 10)])"

declare nat_digits.simps [simp del]

text \<open>\<open>strconv.Itoa\<close>, and \<open>%d\<close> of \<open>fmt.Sprintf\<close>.\<close>

definition itoa :: "int \<Rightarrow> string" where
  "itoa z = (if z < 0 then CHR ''-'' # nat_digits (nat (- z)) else nat_digits (nat z))"

lemma digit_value_digit_char: "n < 10 \<Longrightarrow> digit_value (digit_char n) = Some (int n)"
  by (simp add: digit_value_def digit_char_def byte_in_def)

lemma digits_value_append:
  "digits_value acc (s @ t) =
     (case digits_value acc s of None \<Rightarrow> None | Some n \<Rightarrow> digits_value n t)"
  by (induction acc s rule: digits_value.induct) (auto split: option.splits)

lemma digits_value_nat_digits: "digits_value 0 (nat_digits n) = Some (int n)"
proof (induction n rule: nat_digits.induct)
  case (1 n)
  show ?case
  proof (cases "n < 10")
    case True
    then show ?thesis
      by (simp add: nat_digits.simps [of n] digit_value_digit_char)
  next
    case False
    have "10 * int (n div 10) + int (n mod 10) = int n" by presburger
    with False "1.IH" show ?thesis
      by (simp add: nat_digits.simps [of n] digits_value_append digit_value_digit_char)
  qed
qed

lemma nat_digits_nonempty [simp]: "nat_digits n \<noteq> []"
  by (subst nat_digits.simps) simp

lemma nat_digits_hd: "byte_in 48 57 (hd (nat_digits n))"
proof (induction n rule: nat_digits.induct)
  case (1 n)
  show ?case
  proof (cases "n < 10")
    case True
    then show ?thesis by (simp add: nat_digits.simps [of n] digit_char_def byte_in_def)
  next
    case False
    with "1.IH" show ?thesis by (simp add: nat_digits.simps [of n])
  qed
qed

text \<open>Printing a number and reading it back.\<close>

lemma atoi_itoa:
  assumes "in_int64 z"
  shows "atoi (itoa z) = Some z"
proof (cases "z < 0")
  case True
  with assms show ?thesis
    by (simp add: atoi_def itoa_def unsigned_value_def digits_value_nat_digits)
next
  case False
  obtain c t where ct: "nat_digits (nat z) = c # t"
    using nat_digits_nonempty by (meson neq_Nil_conv)
  then have "byte_in 48 57 c" using nat_digits_hd [of "nat z"] by simp
  then have "c \<noteq> CHR ''-''" "c \<noteq> CHR ''+''" by (auto simp: byte_in_def)
  moreover have "unsigned_value (c # t) = Some z"
    using digits_value_nat_digits [of "nat z"] ct False by (simp add: unsigned_value_def)
  ultimately show ?thesis
    using False assms ct by (simp add: atoi_def itoa_def)
qed

lemma nat_digits_all: "list_all (byte_in 48 57) (nat_digits n)"
proof (induction n rule: nat_digits.induct)
  case (1 n)
  then show ?case
    by (cases "n < 10")
      (simp_all add: nat_digits.simps [of n] digit_char_def byte_in_def)
qed

subsection \<open>Lists\<close>

lemma split_on_nonempty [simp]: "split_on c s \<noteq> []"
  by (induction s) (auto split: list.splits)

lemma length_split_on: "length (split_on c s) = Suc (count_list s c)"
  by (induction s) (auto split: list.splits)

lemma split_on_no_sep: "c \<notin> set s \<Longrightarrow> split_on c s = [s]"
  by (induction s) auto

lemma join_split_on: "join_with [c] (split_on c s) = s"
proof (induction s)
  case Nil
  then show ?case by simp
next
  case (Cons x xs)
  obtain p ps where p: "split_on c xs = p # ps"
    using split_on_nonempty by (meson neq_Nil_conv)
  with Cons show ?case by (cases ps) auto
qed

lemma filter_hd_Some:
  "filter P xs = y # ys \<Longrightarrow> y \<in> set xs \<and> P y"
  using filter_eq_ConsD by fastforce

lemma distinct_map_filter_le1:
  assumes "distinct (map f xs)"
  shows "length (filter (\<lambda>x. f x = k) xs) \<le> 1"
  using assms by (induction xs) (auto simp: filter_empty_conv image_iff)

subsection \<open>Invariants of step relations\<close>

text \<open>
  The contract of a component that moves in atomic steps: an invariant that the
  start states have and that every step keeps. The components with a step relation
  interpret it, and read off that every reachable state has the invariant.
\<close>

locale state_machine =
  fixes start :: "'s \<Rightarrow> bool"
    and step :: "'s \<Rightarrow> 's \<Rightarrow> bool"
    and inv :: "'s \<Rightarrow> bool"
  assumes inv_start: "start s \<Longrightarrow> inv s"
    and inv_step: "inv s \<Longrightarrow> step s t \<Longrightarrow> inv t"
begin

lemma inv_steps: "step\<^sup>*\<^sup>* s t \<Longrightarrow> inv s \<Longrightarrow> inv t"
  by (induction rule: rtranclp_induct) (auto intro: inv_step)

lemma inv_reachable: "start s \<Longrightarrow> step\<^sup>*\<^sup>* s t \<Longrightarrow> inv t"
  by (auto intro: inv_steps inv_start)

end

end
