(* ===== verification/SyncStore.thy ===== *)
theory SyncStore
  imports Prelude
begin

section \<open>The content sync state table and the world of the sync subsystem\<close>

text \<open>
  The table \<open>content_sync_state\<close> (store/content\_sync\_state.go, the driver
  store/db/sqlite/content\_sync\_state.go and its schema), and the world in which
  plugin/sync runs: the tables it reads and writes, the log of the calls it makes to
  the RAGFlow service, and the oracles for everything outside the program.

  Every database call, clock reading and service call advances \<open>w_tick\<close>, and the
  oracles of \<open>env\<close> are indexed by it: \<open>e_db_fails k\<close> makes the database call at tick
  \<open>k\<close> fail, \<open>e_rf k\<close> is the answer of the service call at tick \<open>k\<close> (\<open>None\<close> for an
  error, otherwise the id it returns), \<open>e_now k\<close> is the clock. So a theorem for all
  environments covers a failure at any point.
\<close>

subsection \<open>Data\<close>

datatype content_type = ContentTypeMemo | ContentTypeAttachment | OtherContentType string

datatype sync_status =
    RAGFlowSyncStatusPending
  | RAGFlowSyncStatusSynced
  | RAGFlowSyncStatusFailed
  | RAGFlowSyncStatusSkipped

datatype visibility = Public | Protected | Private

datatype row_status = Normal | Archived

text \<open>The errors of the subsystem, one constructor for each place that makes or wraps one.\<close>

datatype sync_error =
    EDriver | ENoFilter
  | EGetMemo | EMemoMissing | EMemoNoNotebook
  | EGetAttachment | EAttachmentMissing | EAttachmentNoMemo | EGetBlob | EEmptyBlob
  | EListAttachments
  | EGetNotebook | ENotebookMissing | ENoProvisioner
  | EGetUser | EUserMissing | EGetClient | ECreateDataset | ENoDataset
  | EGetState | ECreateState | EUpdateState | EDeleteState | EListPending
  | EListFailed | EListSkipped
  | EUpload | EUpdateDocument
  | EQueryMapping | EDeleteMapping
  | EUnknownContentType string | EUnknownEventType string

text \<open>The text column \<open>ragflow_error\<close>, by what is printed into it.\<close>

datatype error_text = NoErrorText | ErrorText sync_error | UnsupportedType string

record content_sync_state =
  cs_ID :: int
  cs_ContentType :: content_type
  cs_ContentUID :: string
  cs_OwnerID :: int
  cs_RAGFlowStatus :: sync_status
  cs_RAGFlowDatasetID :: string
  cs_RAGFlowDocumentID :: string
  cs_RAGFlowSyncedTs :: "int option"
  cs_RAGFlowError :: error_text
  cs_ContentHash :: string
  cs_RetryCount :: int
  cs_NextRetryTs :: "int option"
  cs_CreatedTs :: int
  cs_UpdatedTs :: int

record find_state =
  f_ID :: "int option"
  f_ContentType :: "content_type option"
  f_ContentUID :: "string option"
  f_OwnerID :: "int option"
  f_RAGFlowStatus :: "sync_status option"
  f_Limit :: "int option"
  f_Offset :: "int option"

record update_state =
  u_ID :: int
  u_RAGFlowStatus :: "sync_status option"
  u_RAGFlowDatasetID :: "string option"
  u_RAGFlowDocumentID :: "string option"
  u_RAGFlowSyncedTs :: "int option"
  u_RAGFlowError :: "error_text option"
  u_ContentHash :: "string option"
  u_RetryCount :: "int option"
  u_NextRetryTs :: "int option"
  u_UpdatedTs :: "int option"

record delete_state =
  d_ID :: "int option"
  d_ContentType :: "content_type option"
  d_ContentUID :: "string option"
  d_OwnerID :: "int option"

definition find_all :: find_state where
  "find_all = \<lparr>f_ID = None, f_ContentType = None, f_ContentUID = None, f_OwnerID = None,
     f_RAGFlowStatus = None, f_Limit = None, f_Offset = None\<rparr>"

definition update_nothing :: "int \<Rightarrow> update_state" where
  "update_nothing i = \<lparr>u_ID = i, u_RAGFlowStatus = None, u_RAGFlowDatasetID = None,
     u_RAGFlowDocumentID = None, u_RAGFlowSyncedTs = None, u_RAGFlowError = None,
     u_ContentHash = None, u_RetryCount = None, u_NextRetryTs = None, u_UpdatedTs = None\<rparr>"

definition delete_nothing :: delete_state where
  "delete_nothing = \<lparr>d_ID = None, d_ContentType = None, d_ContentUID = None, d_OwnerID = None\<rparr>"

subsection \<open>The SQLite driver\<close>

text \<open>
  The table with its AUTOINCREMENT counter. \<open>now\<close> is the second the database reads
  from \<open>strftime\<close>. \<open>None\<close> is a violated constraint: the CHECK on the content type,
  or UNIQUE(content\_type, content\_uid).
\<close>

record table =
  t_rows :: "content_sync_state list"
  t_next :: int

definition row_key :: "content_sync_state \<Rightarrow> content_type \<times> string" where
  "row_key s = (cs_ContentType s, cs_ContentUID s)"

definition valid_content_type :: "content_type \<Rightarrow> bool" where
  "valid_content_type ct \<longleftrightarrow> ct = ContentTypeMemo \<or> ct = ContentTypeAttachment"

definition find_key :: "content_type \<times> string \<Rightarrow> content_sync_state list \<Rightarrow> content_sync_state option" where
  "find_key k rows = List.find (\<lambda>s. row_key s = k) rows"

definition sqlite_create ::
  "int \<Rightarrow> content_sync_state \<Rightarrow> table \<Rightarrow> (content_sync_state \<times> table) option" where
  "sqlite_create now create t =
     (if \<not> valid_content_type (cs_ContentType create) \<or> find_key (row_key create) (t_rows t) \<noteq> None
      then None
      else let r = create\<lparr>cs_ID := t_next t, cs_CreatedTs := now, cs_UpdatedTs := now\<rparr>
           in Some (r, \<lparr>t_rows = t_rows t @ [r], t_next = t_next t + 1\<rparr>))"

definition upsert_row :: "int \<Rightarrow> content_sync_state \<Rightarrow> content_sync_state \<Rightarrow> content_sync_state" where
  "upsert_row now create old =
     old\<lparr>cs_RAGFlowStatus := cs_RAGFlowStatus create,
         cs_RAGFlowDatasetID := cs_RAGFlowDatasetID create,
         cs_RAGFlowDocumentID := cs_RAGFlowDocumentID create,
         cs_RAGFlowSyncedTs := cs_RAGFlowSyncedTs create,
         cs_RAGFlowError := cs_RAGFlowError create,
         cs_ContentHash := cs_ContentHash create,
         cs_RetryCount := cs_RetryCount create,
         cs_NextRetryTs := cs_NextRetryTs create,
         cs_UpdatedTs := now\<rparr>"

definition sqlite_upsert ::
  "int \<Rightarrow> content_sync_state \<Rightarrow> table \<Rightarrow> (content_sync_state \<times> table) option" where
  "sqlite_upsert now create t =
     (case find_key (row_key create) (t_rows t) of
        None \<Rightarrow> sqlite_create now create t
      | Some old \<Rightarrow>
          Some (create\<lparr>cs_ID := cs_ID old, cs_CreatedTs := cs_CreatedTs old, cs_UpdatedTs := now\<rparr>,
                t\<lparr>t_rows := map (\<lambda>s. if row_key s = row_key create
                                    then upsert_row now create s else s) (t_rows t)\<rparr>))"

definition opt_eq :: "'a option \<Rightarrow> 'a \<Rightarrow> bool" where
  "opt_eq f v \<longleftrightarrow> (case f of None \<Rightarrow> True | Some x \<Rightarrow> v = x)"

definition find_matches :: "find_state \<Rightarrow> content_sync_state \<Rightarrow> bool" where
  "find_matches f s \<longleftrightarrow>
     opt_eq (f_ID f) (cs_ID s) \<and> opt_eq (f_ContentType f) (cs_ContentType s) \<and>
     opt_eq (f_ContentUID f) (cs_ContentUID s) \<and> opt_eq (f_OwnerID f) (cs_OwnerID s) \<and>
     opt_eq (f_RAGFlowStatus f) (cs_RAGFlowStatus s)"

text \<open>
  \<open>LIMIT\<close> and \<open>OFFSET\<close>: an offset counts only with a limit, and SQLite reads a
  negative limit as none. Rows with equal \<open>created_ts\<close> keep the table's order.
\<close>

definition limit_rows :: "int option \<Rightarrow> int option \<Rightarrow> 'a list \<Rightarrow> 'a list" where
  "limit_rows lim off xs =
     (case lim of None \<Rightarrow> xs
      | Some l \<Rightarrow>
          (let ys = (case off of None \<Rightarrow> xs | Some k \<Rightarrow> drop (nat k) xs)
           in if l < 0 then ys else take (nat l) ys))"

definition sqlite_list :: "find_state \<Rightarrow> table \<Rightarrow> content_sync_state list" where
  "sqlite_list f t =
     limit_rows (f_Limit f) (f_Offset f)
       (sort_key (\<lambda>s. - cs_CreatedTs s) (filter (find_matches f) (t_rows t)))"

definition set_opt :: "'a option \<Rightarrow> 'a \<Rightarrow> 'a" where
  "set_opt f v = (case f of None \<Rightarrow> v | Some x \<Rightarrow> x)"

definition set_opt_some :: "'a option \<Rightarrow> 'a option \<Rightarrow> 'a option" where
  "set_opt_some f v = (case f of None \<Rightarrow> v | Some x \<Rightarrow> Some x)"

definition update_row :: "update_state \<Rightarrow> content_sync_state \<Rightarrow> content_sync_state" where
  "update_row u s =
     s\<lparr>cs_RAGFlowStatus := set_opt (u_RAGFlowStatus u) (cs_RAGFlowStatus s),
       cs_RAGFlowDatasetID := set_opt (u_RAGFlowDatasetID u) (cs_RAGFlowDatasetID s),
       cs_RAGFlowDocumentID := set_opt (u_RAGFlowDocumentID u) (cs_RAGFlowDocumentID s),
       cs_RAGFlowSyncedTs := set_opt_some (u_RAGFlowSyncedTs u) (cs_RAGFlowSyncedTs s),
       cs_RAGFlowError := set_opt (u_RAGFlowError u) (cs_RAGFlowError s),
       cs_ContentHash := set_opt (u_ContentHash u) (cs_ContentHash s),
       cs_RetryCount := set_opt (u_RetryCount u) (cs_RetryCount s),
       cs_NextRetryTs := set_opt_some (u_NextRetryTs u) (cs_NextRetryTs s),
       cs_UpdatedTs := set_opt (u_UpdatedTs u) (cs_UpdatedTs s)\<rparr>"

definition update_is_empty :: "update_state \<Rightarrow> bool" where
  "update_is_empty u \<longleftrightarrow>
     u_RAGFlowStatus u = None \<and> u_RAGFlowDatasetID u = None \<and> u_RAGFlowDocumentID u = None \<and>
     u_RAGFlowSyncedTs u = None \<and> u_RAGFlowError u = None \<and> u_ContentHash u = None \<and>
     u_RetryCount u = None \<and> u_NextRetryTs u = None \<and> u_UpdatedTs u = None"

definition sqlite_update :: "update_state \<Rightarrow> table \<Rightarrow> table" where
  "sqlite_update u t =
     t\<lparr>t_rows := map (\<lambda>s. if cs_ID s = u_ID u then update_row u s else s) (t_rows t)\<rparr>"

definition delete_is_empty :: "delete_state \<Rightarrow> bool" where
  "delete_is_empty d \<longleftrightarrow>
     d_ID d = None \<and> d_ContentType d = None \<and> d_ContentUID d = None \<and> d_OwnerID d = None"

definition delete_matches :: "delete_state \<Rightarrow> content_sync_state \<Rightarrow> bool" where
  "delete_matches d s \<longleftrightarrow>
     opt_eq (d_ID d) (cs_ID s) \<and> opt_eq (d_ContentType d) (cs_ContentType s) \<and>
     opt_eq (d_ContentUID d) (cs_ContentUID s) \<and> opt_eq (d_OwnerID d) (cs_OwnerID s)"

definition sqlite_delete :: "delete_state \<Rightarrow> table \<Rightarrow> table" where
  "sqlite_delete d t = t\<lparr>t_rows := filter (\<lambda>s. \<not> delete_matches d s) (t_rows t)\<rparr>"

subsection \<open>The contract of a driver\<close>

text \<open>
  What the state tracker relies on. \<open>look k t\<close> is the row with the content type and
  uid \<open>k\<close>; the laws say how each operation changes it.
\<close>

definition table_inv :: "table \<Rightarrow> bool" where
  "table_inv t \<longleftrightarrow>
     distinct (map row_key (t_rows t)) \<and> distinct (map cs_ID (t_rows t)) \<and>
     (\<forall>s \<in> set (t_rows t). cs_ID s < t_next t \<and> valid_content_type (cs_ContentType s))"

locale sync_driver =
  fixes create upsert :: "int \<Rightarrow> content_sync_state \<Rightarrow> 't \<Rightarrow> (content_sync_state \<times> 't) option"
    and list_states :: "find_state \<Rightarrow> 't \<Rightarrow> content_sync_state list"
    and update :: "update_state \<Rightarrow> 't \<Rightarrow> 't"
    and delete :: "delete_state \<Rightarrow> 't \<Rightarrow> 't"
    and look :: "content_type \<times> string \<Rightarrow> 't \<Rightarrow> content_sync_state option"
    and inv :: "'t \<Rightarrow> bool"
  assumes inv_create: "inv t \<Longrightarrow> create now c t = Some (r, t') \<Longrightarrow> inv t'"
    and inv_upsert: "inv t \<Longrightarrow> upsert now c t = Some (r, t') \<Longrightarrow> inv t'"
    and inv_update: "inv t \<Longrightarrow> inv (update u t)"
    and inv_delete: "inv t \<Longrightarrow> inv (delete d t)"
    and look_key: "look k t = Some s \<Longrightarrow> row_key s = k"
    and look_id: "inv t \<Longrightarrow> look k t = Some s \<Longrightarrow> look k' t = Some s' \<Longrightarrow>
      cs_ID s = cs_ID s' \<Longrightarrow> k = k'"
    and look_create: "inv t \<Longrightarrow> create now c t = Some (r, t') \<Longrightarrow>
      look (row_key c) t = None \<and> look k t' = (if k = row_key c then Some r else look k t)"
    and create_result: "create now c t = Some (r, t') \<Longrightarrow>
      \<exists>i. r = c\<lparr>cs_ID := i, cs_CreatedTs := now, cs_UpdatedTs := now\<rparr>"
    and create_defined: "valid_content_type (cs_ContentType c) \<Longrightarrow> look (row_key c) t = None \<Longrightarrow>
      create now c t \<noteq> None"
    and upsert_new: "look (row_key c) t = None \<Longrightarrow> upsert now c t = create now c t"
    and look_upsert: "inv t \<Longrightarrow> look (row_key c) t = Some old \<Longrightarrow>
      \<exists>r t'. upsert now c t = Some (r, t') \<and> cs_ID r = cs_ID old \<and>
        look k t' = (if k = row_key c then Some (upsert_row now c old) else look k t)"
    and look_update: "inv t \<Longrightarrow> look k (update u t) =
      map_option (\<lambda>s. if cs_ID s = u_ID u then update_row u s else s) (look k t)"
    and look_delete: "inv t \<Longrightarrow> look k (delete d t) =
      (case look k t of None \<Rightarrow> None | Some s \<Rightarrow> if delete_matches d s then None else Some s)"
    and set_list: "inv t \<Longrightarrow> f_Limit f = None \<Longrightarrow>
      (s \<in> set (list_states f t)) = (look (row_key s) t = Some s \<and> find_matches f s)"
    and set_list_limit: "inv t \<Longrightarrow> s \<in> set (list_states f t) \<Longrightarrow>
      look (row_key s) t = Some s \<and> find_matches f s"
    and list_by_key: "inv t \<Longrightarrow>
      list_states (find_all\<lparr>f_ContentType := Some ct, f_ContentUID := Some uid\<rparr>) t =
        (case look (ct, uid) t of None \<Rightarrow> [] | Some s \<Rightarrow> [s])"
begin

text \<open>An update by the id of a row that was looked up changes that row only.\<close>

lemma look_update_id:
  assumes "inv t" and "look k t = Some s" and "u_ID u = cs_ID s"
  shows "look k' (update u t) = (if k' = k then Some (update_row u s) else look k' t)"
proof (cases "look k' t")
  case None
  with assms show ?thesis by (auto simp: look_update)
next
  case (Some s')
  with assms look_id [OF assms(1,2) Some] show ?thesis by (auto simp: look_update)
qed

text \<open>After an upsert the row of its key is there and carries the given status and hash.\<close>

lemma look_after_upsert:
  assumes "inv t" and "upsert now c t = Some (r, t')"
  shows "\<exists>s. look (row_key c) t' = Some s \<and> cs_ID s = cs_ID r \<and>
    cs_RAGFlowStatus s = cs_RAGFlowStatus c \<and> cs_ContentHash s = cs_ContentHash c \<and>
    cs_RetryCount s = cs_RetryCount c"
proof (cases "look (row_key c) t")
  case None
  with assms have "create now c t = Some (r, t')" by (simp add: upsert_new)
  with look_create [OF assms(1) this] create_result [OF this] show ?thesis by auto
next
  case (Some old)
  with look_upsert [OF assms(1) this, of now "row_key c"] assms(2) show ?thesis
    by (auto simp: upsert_row_def)
qed

lemma upsert_other_keys:
  assumes "inv t" and "upsert now c t = Some (r, t')" and "k \<noteq> row_key c"
  shows "look k t' = look k t"
proof (cases "look (row_key c) t")
  case None
  with assms look_create show ?thesis by (simp add: upsert_new)
next
  case (Some old)
  with look_upsert [OF assms(1) this, of now k] assms(2,3) show ?thesis by auto
qed

text \<open>A valid key can always be upserted.\<close>

lemma upsert_defined:
  assumes "inv t" and "valid_content_type (cs_ContentType c)"
  shows "\<exists>r t'. upsert now c t = Some (r, t')"
proof (cases "look (row_key c) t")
  case None
  with create_defined [OF assms(2) this, of now] show ?thesis by (auto simp: upsert_new)
next
  case (Some old)
  with look_upsert [OF assms(1) this] show ?thesis by blast
qed

text \<open>Deleting by key removes exactly that row.\<close>

lemma look_delete_key:
  assumes "inv t"
  shows "look k (delete (delete_nothing\<lparr>d_ContentType := Some (fst k'), d_ContentUID := Some (snd k')\<rparr>) t)
    = (if k = k' then None else look k t)"
  using assms look_key [of k t]
  by (auto simp: look_delete delete_matches_def delete_nothing_def opt_eq_def row_key_def
      split: option.splits)

end

subsection \<open>The SQLite driver keeps the contract\<close>

definition sqlite_look :: "content_type \<times> string \<Rightarrow> table \<Rightarrow> content_sync_state option" where
  "sqlite_look k t = find_key k (t_rows t)"

lemma find_key_Some: "find_key k rows = Some s \<Longrightarrow> s \<in> set rows \<and> row_key s = k"
  by (auto simp: find_key_def find_Some_iff)

lemma find_key_None: "find_key k rows = None \<longleftrightarrow> k \<notin> row_key ` set rows"
  by (auto simp: find_key_def find_None_iff)

lemma find_key_member:
  "distinct (map row_key rows) \<Longrightarrow> (find_key k rows = Some s) = (s \<in> set rows \<and> row_key s = k)"
  by (induction rows) (auto simp: find_key_def image_iff)

lemma find_key_append:
  "find_key k (rows @ [r]) =
     (case find_key k rows of Some s \<Rightarrow> Some s | None \<Rightarrow> if row_key r = k then Some r else None)"
  by (induction rows) (auto simp: find_key_def)

lemma find_key_map:
  "(\<And>s. row_key (f s) = row_key s) \<Longrightarrow> find_key k (map f rows) = map_option f (find_key k rows)"
  by (induction rows) (auto simp: find_key_def)

lemma map_option_find_key_other:
  "k \<noteq> k' \<Longrightarrow> map_option (\<lambda>s. if row_key s = k' then f s else s) (find_key k rows) = find_key k rows"
  by (cases "find_key k rows") (auto dest: find_key_Some)

lemma find_key_filter:
  "distinct (map row_key rows) \<Longrightarrow> find_key k (filter P rows) =
     (case find_key k rows of None \<Rightarrow> None | Some s \<Rightarrow> if P s then Some s else None)"
proof (cases "find_key k rows")
  case None
  then have "find_key k (filter P rows) = None" by (auto simp: find_key_None)
  with None show ?thesis by simp
next
  case (Some s)
  assume d: "distinct (map row_key rows)"
  then have d': "distinct (map row_key (filter P rows))" by (rule distinct_map_filter)
  from d Some have s: "s \<in> set rows" "row_key s = k" by (simp_all add: find_key_member)
  show ?thesis
  proof (cases "P s")
    case True
    with s d' have "find_key k (filter P rows) = Some s" by (simp add: find_key_member)
    with Some True show ?thesis by simp
  next
    case False
    with s d have "k \<notin> row_key ` set (filter P rows)"
      by (auto simp: distinct_map dest: inj_onD)
    then have "find_key k (filter P rows) = None" by (simp only: find_key_None not_False_eq_True)
    with Some False show ?thesis by simp
  qed
qed

lemma filter_key_single:
  "distinct (map row_key rows) \<Longrightarrow> filter (\<lambda>s. row_key s = k) rows =
     (case find_key k rows of None \<Rightarrow> [] | Some s \<Rightarrow> [s])"
proof (induction rows)
  case Nil
  then show ?case by (simp add: find_key_def)
next
  case (Cons a rows)
  show ?case
  proof (cases "row_key a = k")
    case True
    with Cons.prems have "find_key k rows = None" by (auto simp: find_key_None)
    with Cons True show ?thesis by (simp add: find_key_def)
  next
    case False
    with Cons show ?thesis by (simp add: find_key_def)
  qed
qed

lemma update_row_key [simp]: "row_key (update_row u s) = row_key s"
  by (simp add: update_row_def row_key_def)

lemma update_row_id [simp]: "cs_ID (update_row u s) = cs_ID s"
  by (simp add: update_row_def)

lemma update_row_owner [simp]:
  "cs_ContentType (update_row u s) = cs_ContentType s" "cs_OwnerID (update_row u s) = cs_OwnerID s"
  "cs_ContentUID (update_row u s) = cs_ContentUID s"
  by (simp_all add: update_row_def)

lemma upsert_row_simps [simp]:
  "row_key (upsert_row now c s) = row_key s" "cs_ID (upsert_row now c s) = cs_ID s"
  "cs_ContentType (upsert_row now c s) = cs_ContentType s"
  by (simp_all add: upsert_row_def row_key_def)

lemma row_key_new [simp]:
  "row_key (c\<lparr>cs_ID := i, cs_CreatedTs := a, cs_UpdatedTs := b\<rparr>) = row_key c"
  by (simp add: row_key_def)

lemma set_limit_rows: "x \<in> set (limit_rows l k xs) \<Longrightarrow> x \<in> set xs"
  by (auto simp: limit_rows_def Let_def split: option.splits if_splits dest: in_set_takeD in_set_dropD)

lemma table_inv_map:
  assumes "table_inv t" and "\<And>s. row_key (f s) = row_key s" and "\<And>s. cs_ID (f s) = cs_ID s"
  shows "table_inv (t\<lparr>t_rows := map f (t_rows t)\<rparr>)"
proof -
  have "cs_ContentType (f s) = cs_ContentType s" for s
    using assms(2) [of s] by (simp add: row_key_def)
  then show ?thesis
    using assms by (auto simp: table_inv_def comp_def)
qed

lemma table_inv_create:
  assumes "table_inv t" and "sqlite_create now c t = Some (r, t')"
  shows "table_inv t'"
proof -
  have "find_key (row_key c) (t_rows t) = None"
    and v: "valid_content_type (cs_ContentType c)"
    and t': "t' = \<lparr>t_rows = t_rows t @ [r], t_next = t_next t + 1\<rparr>"
    and r: "r = c\<lparr>cs_ID := t_next t, cs_CreatedTs := now, cs_UpdatedTs := now\<rparr>"
    using assms(2) by (auto simp: sqlite_create_def Let_def split: if_splits)
  then have "row_key r \<notin> row_key ` set (t_rows t)" by (simp add: find_key_None)
  moreover have "cs_ID r \<notin> cs_ID ` set (t_rows t)"
    using assms(1) r by (auto simp: table_inv_def)
  ultimately show ?thesis
    using assms(1) v r unfolding t' table_inv_def by fastforce
qed

interpretation sq: sync_driver sqlite_create sqlite_upsert sqlite_list sqlite_update sqlite_delete
  sqlite_look table_inv
proof (unfold_locales, goal_cases)
  case (1 t now c r t')
  then show ?case by (rule table_inv_create)
next
  case (2 t now c r t')
  then show ?case
    by (auto simp: sqlite_upsert_def split: option.splits intro: table_inv_create table_inv_map)
next
  case (3 t u)
  then show ?case by (auto simp: sqlite_update_def intro!: table_inv_map)
next
  case (4 t d)
  then show ?case
    by (auto simp: sqlite_delete_def table_inv_def distinct_map_filter)
next
  case (5 k t s)
  then show ?case by (auto simp: sqlite_look_def dest: find_key_Some)
next
  case (6 t k s k' s')
  then show ?case
    by (auto simp: sqlite_look_def table_inv_def distinct_map dest!: find_key_Some dest: inj_onD)
next
  case (7 t now c r t' k)
  then show ?case
    by (auto simp: sqlite_create_def sqlite_look_def Let_def find_key_append split: if_splits option.splits)
next
  case (8 now c t r t')
  then show ?case by (auto simp: sqlite_create_def Let_def split: if_splits)
next
  case (9 c t now)
  then show ?case by (auto simp: sqlite_create_def sqlite_look_def Let_def)
next
  case (10 c t now)
  then show ?case by (simp add: sqlite_look_def sqlite_upsert_def)
next
  case (11 t c old now k)
  then show ?case
    by (auto simp: sqlite_look_def sqlite_upsert_def find_key_map map_option_find_key_other
        dest: find_key_Some)
next
  case (12 t k u)
  then show ?case by (auto simp: sqlite_look_def sqlite_update_def find_key_map)
next
  case (13 t k d)
  then show ?case
    by (auto simp: sqlite_look_def sqlite_delete_def find_key_filter table_inv_def split: option.splits)
next
  case (14 t f s)
  then show ?case
    by (auto simp: sqlite_list_def sqlite_look_def limit_rows_def find_key_member table_inv_def)
next
  case (15 t s f)
  then show ?case
    by (auto simp: sqlite_list_def sqlite_look_def find_key_member table_inv_def dest!: set_limit_rows)
next
  case (16 t uid ct)
  have "find_matches (find_all\<lparr>f_ContentType := Some ct, f_ContentUID := Some uid\<rparr>) =
      (\<lambda>s. row_key s = (ct, uid))"
    by (auto simp: find_matches_def find_all_def opt_eq_def row_key_def)
  with 16 show ?case
    by (auto simp: sqlite_list_def sqlite_look_def limit_rows_def filter_key_single table_inv_def
        find_all_def split: option.splits)
qed

end
