(* ===== verification/StateTracker.thy ===== *)
theory StateTracker
  imports SyncStore
begin

section \<open>The sync world and the state tracker (plugin/sync/state\_tracker.go)\<close>

text \<open>
  First the state and the effects of the subsystem: the tables, the log of service
  calls, the oracles, and one function per kind of effect. Then the operations of
  \<open>StateTracker\<close>, which keep one row of \<open>content_sync_state\<close> per memo or attachment.
\<close>

subsection \<open>World, oracles and effects\<close>

record memo =
  m_ID :: int
  m_UID :: string
  m_RowStatus :: row_status
  m_CreatorID :: int
  m_CreatedTs :: int
  m_Content :: string
  m_Visibility :: visibility
  m_NotebookID :: "int option"

record attachment =
  a_ID :: int
  a_UID :: string
  a_CreatorID :: int
  a_CreatedTs :: int
  a_UpdatedTs :: int
  a_Filename :: string
  a_Blob :: string
  a_Type :: string
  a_MemoID :: "int option"

record notebook =
  n_ID :: int
  n_UID :: string
  n_CreatorID :: int
  n_Title :: string
  n_DatasetID :: string

record user_mapping =
  um_UserID :: int
  um_DatasetID :: string
  um_AssistantID :: string

datatype client = SystemClient | UserClient int

record document =
  doc_Name :: string
  doc_Content :: string
  doc_MimeType :: string

text \<open>The calls the subsystem makes to the RAGFlow service, with their arguments.\<close>

datatype rf_call =
    UploadDocument client string document
  | DeleteDocuments client string "string list"
  | ParseDocuments client string "string list"
  | UpdateDocument client string string visibility
  | CreateDataset client string string
  | DeleteDataset client string
  | DeleteChatAssistant client string

record world =
  w_tick :: nat
  w_table :: table
  w_memos :: "memo list"
  w_attachments :: "attachment list"
  w_notebooks :: "notebook list"
  w_mappings :: "user_mapping list"
  w_calls :: "rf_call list"

text \<open>
  \<open>e_get_user\<close> is the \<open>UserGetter\<close> interface (\<open>None\<close> for an error, \<open>Some None\<close> for
  no user), \<open>e_get_client\<close> says whether \<open>GetClientForUser\<close> of the provisioner
  succeeds, \<open>e_blob\<close> is \<open>Store.GetAttachmentBlob\<close> (a file, S3 or the database;
  \<open>None\<close> for an error), \<open>e_hash\<close> is \<open>ComputeContentHash\<close> (hex SHA-256),
  \<open>e_bind\<close> says whether \<open>EnsureAssistantDatasetBinding\<close> succeeds, and
  \<open>e_map_order\<close> is the order in which Go walks the keys of a map.
\<close>

record env =
  e_now :: "nat \<Rightarrow> int"
  e_db_fails :: "nat \<Rightarrow> bool"
  e_rf :: "nat \<Rightarrow> string option"
  e_probe :: "nat \<Rightarrow> bool"
  e_get_user :: "nat \<Rightarrow> int \<Rightarrow> string option option"
  e_has_provisioner :: bool
  e_get_client :: "nat \<Rightarrow> int \<Rightarrow> bool"
  e_bind :: "nat \<Rightarrow> int \<Rightarrow> bool"
  e_blob :: "nat \<Rightarrow> attachment \<Rightarrow> string option"
  e_hash :: "string \<Rightarrow> string"
  e_map_order :: "nat \<Rightarrow> int list \<Rightarrow> int list"
  e_maxRetries :: int
  e_baseRetryDelay :: int
  e_batchSize :: int

text \<open>
  What a call gives back: a value, an error, or a Go panic (which no
  \<open>if err != nil\<close> catches).
\<close>

datatype 'a res = Ok 'a | Err sync_error | Panics

definition tick :: "world \<Rightarrow> world" where
  "tick w = w\<lparr>w_tick := w_tick w + 1\<rparr>"

definition now :: "env \<Rightarrow> world \<Rightarrow> int \<times> world" where
  "now E w = (e_now E (w_tick w), tick w)"

definition db_read :: "env \<Rightarrow> (world \<Rightarrow> 'a) \<Rightarrow> world \<Rightarrow> 'a res \<times> world" where
  "db_read E f w = (if e_db_fails E (w_tick w) then Err EDriver else Ok (f w), tick w)"

definition db_write :: "env \<Rightarrow> (world \<Rightarrow> ('a \<times> world) option) \<Rightarrow> world \<Rightarrow> 'a res \<times> world" where
  "db_write E f w =
     (if e_db_fails E (w_tick w) then (Err EDriver, tick w)
      else case f w of None \<Rightarrow> (Err EDriver, tick w) | Some (a, w') \<Rightarrow> (Ok a, tick w'))"

definition rf :: "env \<Rightarrow> rf_call \<Rightarrow> world \<Rightarrow> string option \<times> world" where
  "rf E c w = (e_rf E (w_tick w), tick (w\<lparr>w_calls := w_calls w @ [c]\<rparr>))"

definition on_table :: "(table \<Rightarrow> ('a \<times> table) option) \<Rightarrow> world \<Rightarrow> ('a \<times> world) option" where
  "on_table f w = map_option (\<lambda>(a, t). (a, w\<lparr>w_table := t\<rparr>)) (f (w_table w))"

subsection \<open>Store operations on the state table (store/content\_sync\_state.go)\<close>

definition CreateContentSyncState ::
  "env \<Rightarrow> content_sync_state \<Rightarrow> world \<Rightarrow> content_sync_state res \<times> world" where
  "CreateContentSyncState E c w =
     db_write E (on_table (sqlite_create (unix (e_now E (w_tick w))) c)) w"

definition UpsertContentSyncState ::
  "env \<Rightarrow> content_sync_state \<Rightarrow> world \<Rightarrow> content_sync_state res \<times> world" where
  "UpsertContentSyncState E c w =
     db_write E (on_table (sqlite_upsert (unix (e_now E (w_tick w))) c)) w"

definition ListContentSyncStates ::
  "env \<Rightarrow> find_state \<Rightarrow> world \<Rightarrow> content_sync_state list res \<times> world" where
  "ListContentSyncStates E f w = db_read E (\<lambda>w. sqlite_list f (w_table w)) w"

definition GetContentSyncState ::
  "env \<Rightarrow> find_state \<Rightarrow> world \<Rightarrow> content_sync_state option res \<times> world" where
  "GetContentSyncState E f w =
     (case ListContentSyncStates E f w of
        (Err e, w1) \<Rightarrow> (Err e, w1)
      | (Panics, w1) \<Rightarrow> (Panics, w1)
      | (Ok [], w1) \<Rightarrow> (Ok None, w1)
      | (Ok (s # _), w1) \<Rightarrow> (Ok (Some s), w1))"

definition UpdateContentSyncState :: "env \<Rightarrow> update_state \<Rightarrow> world \<Rightarrow> unit res \<times> world" where
  "UpdateContentSyncState E u w =
     (if update_is_empty u then (Ok (), w)
      else db_write E (on_table (\<lambda>t. Some ((), sqlite_update u t))) w)"

definition DeleteContentSyncState :: "env \<Rightarrow> delete_state \<Rightarrow> world \<Rightarrow> unit res \<times> world" where
  "DeleteContentSyncState E d w =
     (if delete_is_empty d then (Err ENoFilter, w)
      else db_write E (on_table (\<lambda>t. Some ((), sqlite_delete d t))) w)"

subsection \<open>StateTracker\<close>

definition new_state :: "content_type \<Rightarrow> string \<Rightarrow> int \<Rightarrow> string \<Rightarrow> content_sync_state" where
  "new_state ct uid owner hash =
     \<lparr>cs_ID = 0, cs_ContentType = ct, cs_ContentUID = uid, cs_OwnerID = owner,
      cs_RAGFlowStatus = RAGFlowSyncStatusPending, cs_RAGFlowDatasetID = [],
      cs_RAGFlowDocumentID = [], cs_RAGFlowSyncedTs = None, cs_RAGFlowError = NoErrorText,
      cs_ContentHash = hash, cs_RetryCount = 0, cs_NextRetryTs = None,
      cs_CreatedTs = 0, cs_UpdatedTs = 0\<rparr>"

definition GetSyncState ::
  "env \<Rightarrow> content_type \<Rightarrow> string \<Rightarrow> world \<Rightarrow> content_sync_state option res \<times> world" where
  "GetSyncState E ct uid w =
     GetContentSyncState E (find_all\<lparr>f_ContentType := Some ct, f_ContentUID := Some uid\<rparr>) w"

definition CreatePendingState ::
  "env \<Rightarrow> content_type \<Rightarrow> string \<Rightarrow> int \<Rightarrow> string \<Rightarrow> world \<Rightarrow> content_sync_state res \<times> world" where
  "CreatePendingState E ct uid owner hash w = UpsertContentSyncState E (new_state ct uid owner hash) w"

definition EnsurePendingState ::
  "env \<Rightarrow> content_type \<Rightarrow> string \<Rightarrow> int \<Rightarrow> world \<Rightarrow> bool res \<times> world" where
  "EnsurePendingState E ct uid owner w =
     (case GetSyncState E ct uid w of
        (Err _, w1) \<Rightarrow> (Err EGetState, w1)
      | (Panics, w1) \<Rightarrow> (Panics, w1)
      | (Ok (Some _), w1) \<Rightarrow> (Ok False, w1)
      | (Ok None, w1) \<Rightarrow>
          (case CreateContentSyncState E (new_state ct uid owner []) w1 of
             (Err e, w2) \<Rightarrow> (Err e, w2)
           | (Panics, w2) \<Rightarrow> (Panics, w2)
           | (Ok _, w2) \<Rightarrow> (Ok True, w2)))"

definition ResetForResync :: "env \<Rightarrow> int \<Rightarrow> string \<Rightarrow> world \<Rightarrow> unit res \<times> world" where
  "ResetForResync E stateID newHash w =
     (let (n, w1) = now E w in
      UpdateContentSyncState E
        ((update_nothing stateID)\<lparr>u_RAGFlowStatus := Some RAGFlowSyncStatusPending,
           u_ContentHash := Some newHash, u_RetryCount := Some 0,
           u_UpdatedTs := Some (unix n)\<rparr>) w1)"

text \<open>The loop of \<open>ResetNonPendingStates\<close>: a row that cannot be reset is skipped.\<close>

fun reset_all :: "env \<Rightarrow> content_sync_state list \<Rightarrow> world \<Rightarrow> int \<Rightarrow> int res \<times> world" where
  "reset_all E [] w n = (Ok n, w)"
| "reset_all E (s # ss) w n =
     (case ResetForResync E (cs_ID s) (cs_ContentHash s) w of
        (Err _, w1) \<Rightarrow> reset_all E ss w1 n
      | (Panics, w1) \<Rightarrow> (Panics, w1)
      | (Ok _, w1) \<Rightarrow> reset_all E ss w1 (n + 1))"

definition ResetNonPendingStates :: "env \<Rightarrow> world \<Rightarrow> int res \<times> world" where
  "ResetNonPendingStates E w =
     (case ListContentSyncStates E (find_all\<lparr>f_RAGFlowStatus := Some RAGFlowSyncStatusFailed\<rparr>) w of
        (Err _, w1) \<Rightarrow> (Err EListFailed, w1)
      | (Panics, w1) \<Rightarrow> (Panics, w1)
      | (Ok failed, w1) \<Rightarrow>
          (case ListContentSyncStates E (find_all\<lparr>f_RAGFlowStatus := Some RAGFlowSyncStatusSkipped\<rparr>) w1 of
             (Err _, w2) \<Rightarrow> (Err EListSkipped, w2)
           | (Panics, w2) \<Rightarrow> (Panics, w2)
           | (Ok skipped, w2) \<Rightarrow> reset_all E (failed @ skipped) w2 0))"

definition MarkAsSynced :: "env \<Rightarrow> int \<Rightarrow> string \<Rightarrow> string \<Rightarrow> world \<Rightarrow> unit res \<times> world" where
  "MarkAsSynced E stateID datasetID documentID w =
     (let (n, w1) = now E w in
      UpdateContentSyncState E
        ((update_nothing stateID)\<lparr>u_RAGFlowStatus := Some RAGFlowSyncStatusSynced,
           u_RAGFlowDatasetID := Some datasetID, u_RAGFlowDocumentID := Some documentID,
           u_RAGFlowSyncedTs := Some (unix n), u_RAGFlowError := Some NoErrorText,
           u_UpdatedTs := Some (unix n)\<rparr>) w1)"

text \<open>
  \<open>time.Duration(1<<newRetryCount)\<close> is a 64-bit shift, which panics for a negative
  count, and the product with the base delay is a 64-bit product. The clock is read a
  second time for the retry time. Past the last retry the update leaves
  \<open>next_retry_ts\<close> as it was.
\<close>

definition retry_delay :: "int \<Rightarrow> int \<Rightarrow> int" where
  "retry_delay base n = wrap64 (base * wrap64 (2 ^ nat n))"

definition MarkAsFailed :: "env \<Rightarrow> int \<Rightarrow> int \<Rightarrow> error_text \<Rightarrow> world \<Rightarrow> unit res \<times> world" where
  "MarkAsFailed E stateID retryCount errMsg w =
     (let (n, w1) = now E w;
          newRetryCount = wrap32 (retryCount + 1);
          u = (update_nothing stateID)\<lparr>u_RAGFlowStatus := Some RAGFlowSyncStatusFailed,
                u_RAGFlowError := Some errMsg, u_RetryCount := Some newRetryCount,
                u_UpdatedTs := Some (unix n)\<rparr>
      in if newRetryCount < e_maxRetries E then
           if newRetryCount < 0 then (Panics, w1)
           else (let (m, w2) = now E w1;
                nextRetry = unix (m + retry_delay (e_baseRetryDelay E) newRetryCount)
            in UpdateContentSyncState E (u\<lparr>u_NextRetryTs := Some nextRetry\<rparr>) w2)
         else UpdateContentSyncState E u w1)"

definition MarkAsSkipped :: "env \<Rightarrow> int \<Rightarrow> error_text \<Rightarrow> world \<Rightarrow> unit res \<times> world" where
  "MarkAsSkipped E stateID reason w =
     (let (n, w1) = now E w in
      UpdateContentSyncState E
        ((update_nothing stateID)\<lparr>u_RAGFlowStatus := Some RAGFlowSyncStatusSkipped,
           u_RAGFlowError := Some reason, u_UpdatedTs := Some (unix n)\<rparr>) w1)"

definition ListPendingStates :: "env \<Rightarrow> int \<Rightarrow> world \<Rightarrow> content_sync_state list res \<times> world" where
  "ListPendingStates E limit w =
     ListContentSyncStates E
       (find_all\<lparr>f_RAGFlowStatus := Some RAGFlowSyncStatusPending, f_Limit := Some limit\<rparr>) w"

definition retryable :: "int \<Rightarrow> int \<Rightarrow> content_sync_state \<Rightarrow> bool" where
  "retryable maxRetries n s \<longleftrightarrow>
     cs_RetryCount s < maxRetries \<and>
     (case cs_NextRetryTs s of None \<Rightarrow> False | Some ts \<Rightarrow> ts \<le> n)"

definition ListRetryableStates :: "env \<Rightarrow> int \<Rightarrow> world \<Rightarrow> content_sync_state list res \<times> world" where
  "ListRetryableStates E limit w =
     (case ListContentSyncStates E
        (find_all\<lparr>f_RAGFlowStatus := Some RAGFlowSyncStatusFailed, f_Limit := Some limit\<rparr>) w of
        (Err e, w1) \<Rightarrow> (Err e, w1)
      | (Panics, w1) \<Rightarrow> (Panics, w1)
      | (Ok states, w1) \<Rightarrow>
          (let (n, w2) = now E w1
           in (Ok (filter (retryable (e_maxRetries E) (unix n)) states), w2)))"

definition ListStatesByOwner :: "env \<Rightarrow> int \<Rightarrow> world \<Rightarrow> content_sync_state list res \<times> world" where
  "ListStatesByOwner E owner w = ListContentSyncStates E (find_all\<lparr>f_OwnerID := Some owner\<rparr>) w"

definition HasContentChanged :: "env \<Rightarrow> content_type \<Rightarrow> string \<Rightarrow> string \<Rightarrow> world \<Rightarrow> bool res \<times> world" where
  "HasContentChanged E ct uid newHash w =
     (case GetSyncState E ct uid w of
        (Err _, w1) \<Rightarrow> (Err EGetState, w1)
      | (Panics, w1) \<Rightarrow> (Panics, w1)
      | (Ok None, w1) \<Rightarrow> (Ok True, w1)
      | (Ok (Some s), w1) \<Rightarrow> (Ok (cs_ContentHash s \<noteq> newHash), w1))"

definition DeleteState :: "env \<Rightarrow> content_type \<Rightarrow> string \<Rightarrow> world \<Rightarrow> unit res \<times> world" where
  "DeleteState E ct uid w =
     DeleteContentSyncState E
       (delete_nothing\<lparr>d_ContentType := Some ct, d_ContentUID := Some uid\<rparr>) w"

definition DeleteStatesByOwner :: "env \<Rightarrow> int \<Rightarrow> world \<Rightarrow> unit res \<times> world" where
  "DeleteStatesByOwner E owner w = DeleteContentSyncState E (delete_nothing\<lparr>d_OwnerID := Some owner\<rparr>) w"

subsection \<open>What the operations do to the table\<close>

abbreviation look :: "content_type \<Rightarrow> string \<Rightarrow> world \<Rightarrow> content_sync_state option" where
  "look ct uid w \<equiv> sqlite_look (ct, uid) (w_table w)"

definition world_inv :: "world \<Rightarrow> bool" where
  "world_inv w \<longleftrightarrow> table_inv (w_table w)"

text \<open>The parts of the world that only other components write.\<close>

definition same_content :: "world \<Rightarrow> world \<Rightarrow> bool" where
  "same_content w w' \<longleftrightarrow>
     w_memos w' = w_memos w \<and> w_attachments w' = w_attachments w \<and>
     w_notebooks w' = w_notebooks w \<and> w_mappings w' = w_mappings w \<and> w_calls w' = w_calls w"

lemma same_content_refl [simp]: "same_content w w"
  by (simp add: same_content_def)

lemma same_content_trans [trans]:
  "same_content w w' \<Longrightarrow> same_content w' w'' \<Longrightarrow> same_content w w''"
  by (simp add: same_content_def)

lemma tick_simps [simp]:
  "w_table (tick w) = w_table w" "w_memos (tick w) = w_memos w"
  "w_attachments (tick w) = w_attachments w" "w_notebooks (tick w) = w_notebooks w"
  "w_mappings (tick w) = w_mappings w" "w_calls (tick w) = w_calls w"
  "w_tick (tick w) = w_tick w + 1" "world_inv (tick w) = world_inv w"
  "same_content w0 (tick w) = same_content w0 w" "same_content (tick w) w0 = same_content w w0"
  by (simp_all add: tick_def world_inv_def same_content_def)

lemma same_content_table [simp]: "same_content w (w'\<lparr>w_table := t\<rparr>) = same_content w w'"
  by (simp add: same_content_def)

lemma GetSyncState_eq:
  assumes "world_inv w"
  shows "GetSyncState E ct uid w =
    (if e_db_fails E (w_tick w) then Err EDriver else Ok (look ct uid w), tick w)"
  using assms sq.list_by_key [where t = "w_table w" and ct = ct and uid = uid]
  by (auto simp: GetSyncState_def GetContentSyncState_def ListContentSyncStates_def db_read_def
      world_inv_def split: option.splits)

lemma ListContentSyncStates_eq:
  "ListContentSyncStates E f w =
    (if e_db_fails E (w_tick w) then Err EDriver else Ok (sqlite_list f (w_table w)), tick w)"
  by (simp add: ListContentSyncStates_def db_read_def)

lemma UpdateContentSyncState_eq:
  "UpdateContentSyncState E u w =
    (if update_is_empty u then (Ok (), w)
     else if e_db_fails E (w_tick w) then (Err EDriver, tick w)
     else (Ok (), tick (w\<lparr>w_table := sqlite_update u (w_table w)\<rparr>)))"
  by (simp add: UpdateContentSyncState_def db_write_def on_table_def)

lemma DeleteState_eq:
  "DeleteState E ct uid w =
    (if e_db_fails E (w_tick w) then (Err EDriver, tick w)
     else (Ok (), tick (w\<lparr>w_table := sqlite_delete
        (delete_nothing\<lparr>d_ContentType := Some ct, d_ContentUID := Some uid\<rparr>) (w_table w)\<rparr>)))"
  by (simp add: DeleteState_def DeleteContentSyncState_def db_write_def on_table_def
      delete_is_empty_def delete_nothing_def)

lemma new_state_key [simp]: "row_key (new_state ct uid owner hash) = (ct, uid)"
  "cs_ContentType (new_state ct uid owner hash) = ct"
  by (simp_all add: new_state_def row_key_def)

lemma update_not_empty [simp]:
  "\<not> update_is_empty (u\<lparr>u_RAGFlowStatus := Some st\<rparr>)"
  by (simp_all add: update_is_empty_def)

lemma world_inv_update [inv_intros]:
  "world_inv w \<Longrightarrow> world_inv (w\<lparr>w_table := sqlite_update u (w_table w)\<rparr>)"
  by (simp add: world_inv_def sq.inv_update)

lemma UpdateContentSyncState_inv [inv_intros]:
  "world_inv w \<Longrightarrow> world_inv (snd (UpdateContentSyncState E u w))"
  by (simp add: UpdateContentSyncState_eq world_inv_update)

lemma UpdateContentSyncState_frame [frame_simps]:
  "same_content w (snd (UpdateContentSyncState E u w))"
  "fst (UpdateContentSyncState E u w) \<noteq> Panics"
  by (simp_all add: UpdateContentSyncState_eq)

text \<open>
  Each operation that marks a row by id is one clock reading and one update; so the
  facts of the update carry over to all of them.
\<close>

lemmas mark_defs = MarkAsSynced_def MarkAsSkipped_def ResetForResync_def now_def

lemma mark_inv [inv_intros]:
  assumes "world_inv w"
  shows "world_inv (snd (MarkAsSynced E i d x w))" "world_inv (snd (MarkAsSkipped E i r w))"
    "world_inv (snd (ResetForResync E i h w))" "world_inv (snd (MarkAsFailed E i n msg w))"
  using assms UpdateContentSyncState_inv [of "tick w" E] UpdateContentSyncState_inv [of "tick (tick w)" E]
  by (simp_all add: mark_defs MarkAsFailed_def Let_def)

lemma mark_frame [frame_simps]:
  "same_content w (snd (MarkAsSynced E i d x w))" "same_content w (snd (MarkAsSkipped E i r w))"
  "same_content w (snd (ResetForResync E i h w))" "same_content w (snd (MarkAsFailed E i n msg w))"
  using UpdateContentSyncState_frame(1) [of "tick w" E]
    UpdateContentSyncState_frame(1) [of "tick (tick w)" E]
  by (simp_all add: mark_defs MarkAsFailed_def Let_def)

lemma mark_no_panic [simp]:
  "fst (MarkAsSynced E i d x w) \<noteq> Panics" "fst (MarkAsSkipped E i r w) \<noteq> Panics"
  "fst (ResetForResync E i h w) \<noteq> Panics"
  by (simp_all add: mark_defs frame_simps)

lemma MarkAsFailed_no_panic: "0 \<le> wrap32 (n + 1) \<Longrightarrow> fst (MarkAsFailed E i n msg w) \<noteq> Panics"
  by (simp add: MarkAsFailed_def now_def Let_def frame_simps)

lemma DeleteState_inv [inv_intros]: "world_inv w \<Longrightarrow> world_inv (snd (DeleteState E ct uid w))"
  by (simp add: DeleteState_eq world_inv_def sq.inv_delete)

lemma DeleteState_frame [frame_simps]:
  "same_content w (snd (DeleteState E ct uid w))" "fst (DeleteState E ct uid w) \<noteq> Panics"
  by (simp_all add: DeleteState_eq)

lemma db_write_cases:
  assumes "db_write E f w = (r, w')"
  obtains "r = Err EDriver" "w' = tick w"
  | a v where "f w = Some (a, v)" "r = Ok a" "w' = tick v"
  using assms by (auto simp: db_write_def split: if_splits option.splits)

lemma CreatePendingState_cases:
  assumes "CreatePendingState E ct uid owner hash w = (r, w')"
  obtains "r = Err EDriver" "w' = tick w"
  | s t n where "sqlite_upsert n (new_state ct uid owner hash) (w_table w) = Some (s, t)"
      "r = Ok s" "w' = tick (w\<lparr>w_table := t\<rparr>)"
  using assms unfolding CreatePendingState_def UpsertContentSyncState_def
  by (elim db_write_cases) (auto simp: on_table_def)

lemma EnsurePendingState_cases:
  assumes "world_inv w" and "EnsurePendingState E ct uid owner w = (r, w')"
  obtains "r = Err EGetState \<or> r = Err EDriver" "w' = tick w \<or> w' = tick (tick w)"
  | s where "look ct uid w = Some s" "r = Ok False" "w' = tick w"
  | s t n where "look ct uid w = None"
      "sqlite_create n (new_state ct uid owner []) (w_table w) = Some (s, t)"
      "r = Ok True" "w' = tick (tick (w\<lparr>w_table := t\<rparr>))"
  using assms
  by (auto simp: EnsurePendingState_def GetSyncState_eq CreateContentSyncState_def db_write_def
      on_table_def tick_def split: if_splits option.splits res.splits prod.splits)

lemma CreatePendingState_inv [inv_intros]:
  "world_inv w \<Longrightarrow> world_inv (snd (CreatePendingState E ct uid owner hash w))"
  by (cases "CreatePendingState E ct uid owner hash w")
    (auto elim!: CreatePendingState_cases simp: world_inv_def intro: sq.inv_upsert)

lemma EnsurePendingState_inv [inv_intros]:
  "world_inv w \<Longrightarrow> world_inv (snd (EnsurePendingState E ct uid owner w))"
proof (cases "EnsurePendingState E ct uid owner w")
  assume inv: "world_inv w"
  case (Pair r w')
  with inv have "world_inv w'"
    by (elim EnsurePendingState_cases [OF inv]) (auto simp: world_inv_def intro: sq.inv_create)
  with Pair show ?thesis by simp
qed

lemma CreatePendingState_frame [frame_simps]:
  "same_content w (snd (CreatePendingState E ct uid owner hash w))"
  "fst (CreatePendingState E ct uid owner hash w) \<noteq> Panics"
  by (cases "CreatePendingState E ct uid owner hash w"; auto elim!: CreatePendingState_cases)+

lemma EnsurePendingState_frame [frame_simps]:
  assumes "world_inv w"
  shows "same_content w (snd (EnsurePendingState E ct uid owner w))"
    "fst (EnsurePendingState E ct uid owner w) \<noteq> Panics"
  using assms by (cases "EnsurePendingState E ct uid owner w"; auto elim!: EnsurePendingState_cases)+

lemma CreatePendingState_look:
  assumes "world_inv w" and "CreatePendingState E ct uid owner hash w = (Ok r, w')"
  shows "\<exists>s. look ct uid w' = Some s \<and> cs_ID s = cs_ID r \<and>
      cs_RAGFlowStatus s = RAGFlowSyncStatusPending \<and> cs_ContentHash s = hash \<and> cs_RetryCount s = 0"
    and "k \<noteq> (ct, uid) \<Longrightarrow> sqlite_look k (w_table w') = sqlite_look k (w_table w)"
proof -
  obtain t n where up: "sqlite_upsert n (new_state ct uid owner hash) (w_table w) = Some (r, t)"
    and w': "w' = tick (w\<lparr>w_table := t\<rparr>)"
    using assms(2) by (elim CreatePendingState_cases) auto
  have inv: "table_inv (w_table w)" using assms(1) by (simp add: world_inv_def)
  show "\<exists>s. look ct uid w' = Some s \<and> cs_ID s = cs_ID r \<and>
      cs_RAGFlowStatus s = RAGFlowSyncStatusPending \<and> cs_ContentHash s = hash \<and> cs_RetryCount s = 0"
    using sq.look_after_upsert [OF inv up] w' by (simp add: new_state_def row_key_def)
  show "k \<noteq> (ct, uid) \<Longrightarrow> sqlite_look k (w_table w') = sqlite_look k (w_table w)"
    using sq.upsert_other_keys [OF inv up] w' by simp
qed

lemma EnsurePendingState_look:
  assumes "world_inv w" and "EnsurePendingState E ct uid owner w = (r, w')"
    and "sqlite_look k (w_table w) = Some s"
  shows "sqlite_look k (w_table w') = Some s"
  using assms(2,3) sq.look_create [of "w_table w"] assms(1)
  by (elim EnsurePendingState_cases [OF assms(1)]) (auto simp: world_inv_def)

text \<open>
  C8. \<open>EnsurePendingState\<close> never changes a row that exists, whatever fails: every row
  found before is found after, unchanged. If it reports that it created the record,
  there was none, and now there is a pending one with no hash and no retries; if it
  reports that it did not, the record was there already.
\<close>

theorem ensure_pending_non_destructive:
  assumes "world_inv w" and "EnsurePendingState E ct uid owner w = (r, w')"
  shows "(\<forall>k s. sqlite_look k (w_table w) = Some s \<longrightarrow> sqlite_look k (w_table w') = Some s) \<and>
    (r = Ok True \<longrightarrow> look ct uid w = None \<and>
       (\<exists>s. look ct uid w' = Some s \<and> cs_RAGFlowStatus s = RAGFlowSyncStatusPending \<and>
          cs_OwnerID s = owner \<and> cs_ContentHash s = [] \<and> cs_RetryCount s = 0)) \<and>
    (r = Ok False \<longrightarrow> look ct uid w \<noteq> None)"
proof -
  have "r = Ok True \<longrightarrow> look ct uid w = None \<and>
       (\<exists>s. look ct uid w' = Some s \<and> cs_RAGFlowStatus s = RAGFlowSyncStatusPending \<and>
          cs_OwnerID s = owner \<and> cs_ContentHash s = [] \<and> cs_RetryCount s = 0)"
    using assms(2) sq.look_create [of "w_table w"] sq.create_result assms(1)
    by (elim EnsurePendingState_cases [OF assms(1)])
      (fastforce simp: world_inv_def new_state_def row_key_def)+
  moreover have "r = Ok False \<longrightarrow> look ct uid w \<noteq> None"
    using assms(2) by (elim EnsurePendingState_cases [OF assms(1)]) auto
  ultimately show ?thesis
    using EnsurePendingState_look [OF assms] by blast
qed

definition empty_table :: table where
  "empty_table = \<lparr>t_rows = [], t_next = 1\<rparr>"

definition empty_world :: world where
  "empty_world = \<lparr>w_tick = 0, w_table = empty_table, w_memos = [], w_attachments = [],
     w_notebooks = [], w_mappings = [], w_calls = []\<rparr>"

lemma world_inv_empty: "world_inv empty_world"
  by (simp add: world_inv_def empty_world_def empty_table_def table_inv_def)

lemma empty_world_simps [simp]:
  "w_table empty_world = empty_table" "w_tick empty_world = 0" "look ct uid empty_world = None"
  "w_calls empty_world = []"
  by (simp_all add: empty_world_def empty_table_def sqlite_look_def find_key_def)

text \<open>
  An environment for witnesses: a clock that advances, nothing fails, the service
  returns the id \<open>doc\<close>, the configuration is the default one.
\<close>

definition calm :: env where
  "calm = \<lparr>e_now = (\<lambda>k. int k * second_ns), e_db_fails = (\<lambda>_. False),
     e_rf = (\<lambda>_. Some ''doc''), e_probe = (\<lambda>_. True),
     e_get_user = (\<lambda>_ _. Some (Some ''ann'')), e_has_provisioner = True,
     e_get_client = (\<lambda>_ _. True), e_bind = (\<lambda>_ _. True), e_blob = (\<lambda>_ a. Some (a_Blob a)),
     e_hash = (\<lambda>s. s), e_map_order = (\<lambda>_ ks. ks), e_maxRetries = 3, e_baseRetryDelay = minute_ns, e_batchSize = 50\<rparr>"

lemma calm_simps [simp]:
  "e_now calm k = int k * second_ns" "\<not> e_db_fails calm k" "e_rf calm k = Some ''doc''"
  "e_probe calm k" "e_get_user calm k i = Some (Some ''ann'')" "e_has_provisioner calm"
  "e_get_client calm k i" "e_bind calm k i" "e_blob calm k a = Some (a_Blob a)"
  "e_hash calm h = h" "e_map_order calm k ks = ks" "e_maxRetries calm = 3" "e_baseRetryDelay calm = minute_ns"
  "e_batchSize calm = 50"
  by (simp_all add: calm_def)

theorem ensure_pending_non_destructive_witness:
  "look ContentTypeMemo ''m1'' (snd (EnsurePendingState calm ContentTypeMemo ''m1'' 7 empty_world)) \<noteq> None"
proof -
  have "fst (EnsurePendingState calm ContentTypeMemo ''m1'' 7 empty_world) = Ok True"
    by (simp add: EnsurePendingState_def GetSyncState_eq world_inv_empty CreateContentSyncState_def
        db_write_def on_table_def sqlite_create_def valid_content_type_def find_key_def
        sqlite_look_def empty_table_def Let_def)
  then have "EnsurePendingState calm ContentTypeMemo ''m1'' 7 empty_world =
      (Ok True, snd (EnsurePendingState calm ContentTypeMemo ''m1'' 7 empty_world))"
    by (metis prod.collapse)
  from ensure_pending_non_destructive [OF world_inv_empty this] show ?thesis by auto
qed

subsection \<open>Retries\<close>

lemma retry_delay_exact:
  assumes "0 \<le> n" and "n < 62" and "in_int64 (base * 2 ^ nat n)"
  shows "retry_delay base n = base * 2 ^ nat n"
proof -
  have "nat n \<le> 62" using assms by simp
  then have "(2::int) ^ nat n \<le> 2 ^ 62" by (rule power_increasing) simp
  then have "in_int64 (2 ^ nat n)"
    by (simp add: in_int64_def min_int64_def max_int64_def order_trans [of _ 0])
  with assms show ?thesis by (simp add: retry_delay_def wrap64_id)
qed

lemma MarkAsFailed_look:
  assumes "world_inv w" and "look ct uid w = Some s" and "0 \<le> cs_RetryCount s" and "cs_RetryCount s + 1 < 2 ^ 31"
    and "MarkAsFailed E (cs_ID s) (cs_RetryCount s) msg w = (Ok (), w')"
  shows "\<exists>s'. look ct uid w' = Some s' \<and> cs_RAGFlowStatus s' = RAGFlowSyncStatusFailed \<and>
      cs_RAGFlowError s' = msg \<and> cs_RetryCount s' = cs_RetryCount s + 1 \<and>
      cs_ContentHash s' = cs_ContentHash s \<and>
      cs_NextRetryTs s' =
        (if cs_RetryCount s + 1 < e_maxRetries E
         then Some (unix (e_now E (w_tick w + 1) +
                retry_delay (e_baseRetryDelay E) (cs_RetryCount s + 1)))
         else cs_NextRetryTs s)"
    and "k \<noteq> (ct, uid) \<Longrightarrow> sqlite_look k (w_table w') = sqlite_look k (w_table w)"
proof -
  have inv: "table_inv (w_table w)" using assms(1) by (simp add: world_inv_def)
  let ?next = "if cs_RetryCount s + 1 < e_maxRetries E
         then Some (unix (e_now E (w_tick w + 1) +
                retry_delay (e_baseRetryDelay E) (cs_RetryCount s + 1))) else None"
  let ?u = "(update_nothing (cs_ID s))\<lparr>u_RAGFlowStatus := Some RAGFlowSyncStatusFailed,
      u_RAGFlowError := Some msg, u_RetryCount := Some (cs_RetryCount s + 1),
      u_NextRetryTs := ?next, u_UpdatedTs := Some (unix (e_now E (w_tick w)))\<rparr>"
  have u: "w_table w' = sqlite_update ?u (w_table w)"
    using assms(3-5) wrap32_id [of "cs_RetryCount s + 1"]
    by (auto simp: MarkAsFailed_def now_def Let_def UpdateContentSyncState_eq update_nothing_def
        update_is_empty_def split: if_splits)
  have id: "u_ID ?u = cs_ID s" by (simp add: update_nothing_def)
  note look' = sq.look_update_id [OF inv assms(2) id]
  show "\<exists>s'. look ct uid w' = Some s' \<and> cs_RAGFlowStatus s' = RAGFlowSyncStatusFailed \<and>
      cs_RAGFlowError s' = msg \<and> cs_RetryCount s' = cs_RetryCount s + 1 \<and>
      cs_ContentHash s' = cs_ContentHash s \<and>
      cs_NextRetryTs s' =
        (if cs_RetryCount s + 1 < e_maxRetries E
         then Some (unix (e_now E (w_tick w + 1) +
                retry_delay (e_baseRetryDelay E) (cs_RetryCount s + 1)))
         else cs_NextRetryTs s)"
    unfolding u look' by (simp add: update_row_def set_opt_def set_opt_some_def update_nothing_def)
  show "k \<noteq> (ct, uid) \<Longrightarrow> sqlite_look k (w_table w') = sqlite_look k (w_table w)"
    unfolding u look' by simp
qed

text \<open>
  C9. A failure that is recorded makes the row retryable exactly from the back-off
  time on, and never again once the retries are used up: for every later second \<open>n\<close>,
  the row passes the retry filter iff its new count is below the maximum and \<open>n\<close> has
  reached the clock reading plus the base delay times two to the new count.
\<close>

theorem failure_backs_off:
  assumes "world_inv w" and "look ct uid w = Some s" and "0 \<le> cs_RetryCount s"
    and "cs_RetryCount s + 1 < 62"
    and "in_int64 (e_baseRetryDelay E * 2 ^ nat (cs_RetryCount s + 1))"
    and "MarkAsFailed E (cs_ID s) (cs_RetryCount s) msg w = (Ok (), w')"
  shows "\<exists>s'. look ct uid w' = Some s' \<and> cs_RAGFlowStatus s' = RAGFlowSyncStatusFailed \<and>
    (\<forall>n. retryable (e_maxRetries E) n s' \<longleftrightarrow>
       cs_RetryCount s + 1 < e_maxRetries E \<and>
       unix (e_now E (w_tick w + 1) + e_baseRetryDelay E * 2 ^ nat (cs_RetryCount s + 1)) \<le> n)"
  using MarkAsFailed_look(1) [OF assms(1-3) _ assms(6)] retry_delay_exact [of "cs_RetryCount s + 1"] assms(3-5)
  by (auto simp: retryable_def)

definition failing_row :: content_sync_state where
  "failing_row = (new_state ContentTypeMemo ''m1'' 7 [])\<lparr>cs_ID := 1\<rparr>"

definition failing_world :: world where
  "failing_world = empty_world\<lparr>w_table := \<lparr>t_rows = [failing_row], t_next = 2\<rparr>\<rparr>"

lemma failing_world_facts [simp]:
  "world_inv failing_world" "look ContentTypeMemo ''m1'' failing_world = Some failing_row"
  "w_tick failing_world = 0" "cs_RetryCount failing_row = 0" "cs_ID failing_row = 1"
  by (simp_all add: world_inv_def failing_world_def failing_row_def table_inv_def new_state_def
      valid_content_type_def sqlite_look_def find_key_def row_key_def empty_world_def)

theorem failure_backs_off_witness:
  "\<exists>w' s'. MarkAsFailed calm 1 0 (ErrorText EUpload) failing_world = (Ok (), w') \<and>
     look ContentTypeMemo ''m1'' w' = Some s' \<and>
     \<not> retryable 3 120 s' \<and> retryable 3 121 s'"
proof -
  obtain w' where w': "MarkAsFailed calm 1 0 (ErrorText EUpload) failing_world = (Ok (), w')"
    by (auto simp: MarkAsFailed_def now_def Let_def UpdateContentSyncState_eq update_is_empty_def wrap32_id)
  have "in_int64 (e_baseRetryDelay calm * 2 ^ nat (0 + 1))"
    by (simp add: in_int64_def min_int64_def max_int64_def minute_ns_def second_ns_def)
  with failure_backs_off [of failing_world ContentTypeMemo "''m1''" failing_row calm
      "ErrorText EUpload" w'] w'
  show ?thesis
    by (auto simp: minute_ns_def second_ns_def unix_def)
qed

end
