(* ===== verification/MemoSyncer.thy ===== *)
theory MemoSyncer
  imports StateTracker
begin

section \<open>Memo syncer (plugin/sync/memo\_syncer.go)\<close>

text \<open>
  \<open>SyncMemo\<close> uploads one memo to a RAGFlow dataset and records the result in the state
  table. From its step 6 on it is the same text as \<open>SyncAttachment\<close>: \<open>sync_document\<close>
  models those lines for both.
\<close>

subsection \<open>Reads of the store\<close>

definition GetMemoByUID :: "env \<Rightarrow> string \<Rightarrow> world \<Rightarrow> memo option res \<times> world" where
  "GetMemoByUID E uid w = db_read E (\<lambda>w. List.find (\<lambda>m. m_UID m = uid) (w_memos w)) w"

definition GetMemoByID :: "env \<Rightarrow> int \<Rightarrow> world \<Rightarrow> memo option res \<times> world" where
  "GetMemoByID E i w = db_read E (\<lambda>w. List.find (\<lambda>m. m_ID m = i) (w_memos w)) w"

definition visibility_string :: "visibility \<Rightarrow> string" where
  "visibility_string v =
     (case v of Public \<Rightarrow> ''PUBLIC'' | Protected \<Rightarrow> ''PROTECTED'' | Private \<Rightarrow> ''PRIVATE'')"

subsection \<open>Documents\<close>

definition newline :: string where "newline = [CHR 0x0A]"

definition memo_doc_name :: "string \<Rightarrow> string" where
  "memo_doc_name uid = ''memo_'' @ uid @ ''.md''"

definition buildMemoDocument :: "memo \<Rightarrow> document" where
  "buildMemoDocument m =
     \<lparr>doc_Name = memo_doc_name (m_UID m),
      doc_Content = ''---'' @ newline @ ''memo_uid: '' @ m_UID m @ newline @
        ''creator_id: '' @ itoa (m_CreatorID m) @ newline @
        ''visibility: '' @ visibility_string (m_Visibility m) @ newline @
        ''created_ts: '' @ itoa (m_CreatedTs m) @ newline @ ''---'' @ newline @ newline @ m_Content m,
      doc_MimeType = ''text/markdown''\<rparr>"

subsection \<open>Upload and record\<close>

definition updateContentHash :: "env \<Rightarrow> int \<Rightarrow> string \<Rightarrow> world \<Rightarrow> unit res \<times> world" where
  "updateContentHash E stateID hash w =
     UpdateContentSyncState E ((update_nothing stateID)\<lparr>u_ContentHash := Some hash\<rparr>) w"

definition record_synced :: "env \<Rightarrow> int \<Rightarrow> string \<Rightarrow> string \<Rightarrow> string \<Rightarrow> world \<Rightarrow> unit res \<times> world" where
  "record_synced E stateID datasetID docID hash w =
     (case MarkAsSynced E stateID datasetID docID w of
        (Err _, w1) \<Rightarrow> (Err EUpdateState, w1)
      | (Panics, w1) \<Rightarrow> (Panics, w1)
      | (Ok _, w1) \<Rightarrow> (Ok (), snd (updateContentHash E stateID hash w1)))"

definition delete_old_document ::
  "env \<Rightarrow> content_sync_state option \<Rightarrow> string \<Rightarrow> client \<Rightarrow> world \<Rightarrow> world" where
  "delete_old_document E st datasetID c w =
     (case st of
        None \<Rightarrow> w
      | Some s \<Rightarrow>
          if cs_RAGFlowDocumentID s \<noteq> []
          then snd (rf E (DeleteDocuments c datasetID [cs_RAGFlowDocumentID s]) w) else w)"

text \<open>
  Where the state is missing the code creates it and reads it back, ignoring the error
  of the read: with no row it dereferences a nil pointer.
\<close>

definition record_document ::
  "env \<Rightarrow> content_type \<Rightarrow> string \<Rightarrow> int \<Rightarrow> content_sync_state option \<Rightarrow> string \<Rightarrow> string \<Rightarrow>
   string \<Rightarrow> world \<Rightarrow> unit res \<times> world" where
  "record_document E ct uid owner st docID hash datasetID w =
     (case st of
        Some s \<Rightarrow> record_synced E (cs_ID s) datasetID docID hash w
      | None \<Rightarrow>
          (case CreatePendingState E ct uid owner hash w of
             (Err _, w1) \<Rightarrow> (Err ECreateState, w1)
           | (Panics, w1) \<Rightarrow> (Panics, w1)
           | (Ok _, w1) \<Rightarrow>
               (case GetSyncState E ct uid w1 of
                  (Ok (Some s), w2) \<Rightarrow> record_synced E (cs_ID s) datasetID docID hash w2
                | (_, w2) \<Rightarrow> (Panics, w2))))"

definition sync_document ::
  "env \<Rightarrow> content_type \<Rightarrow> string \<Rightarrow> int \<Rightarrow> content_sync_state option \<Rightarrow> document \<Rightarrow> string \<Rightarrow>
   string \<Rightarrow> client \<Rightarrow> world \<Rightarrow> unit res \<times> world" where
  "sync_document E ct uid owner st doc hash datasetID c w =
     (let w1 = delete_old_document E st datasetID c w in
      case rf E (UploadDocument c datasetID doc) w1 of
        (None, w2) \<Rightarrow> (Err EUpload, w2)
      | (Some docID, w2) \<Rightarrow>
          (let w3 = snd (rf E (ParseDocuments c datasetID [docID]) w2) in
           record_document E ct uid owner st docID hash datasetID w3))"

definition up_to_date :: "content_sync_state option \<Rightarrow> string \<Rightarrow> bool" where
  "up_to_date st hash \<longleftrightarrow>
     (case st of None \<Rightarrow> False
      | Some s \<Rightarrow> cs_RAGFlowStatus s = RAGFlowSyncStatusSynced \<and> cs_ContentHash s = hash)"

definition SyncMemo :: "env \<Rightarrow> string \<Rightarrow> string \<Rightarrow> client \<Rightarrow> world \<Rightarrow> unit res \<times> world" where
  "SyncMemo E memoUID datasetID c w =
     (case GetMemoByUID E memoUID w of
        (Err _, w1) \<Rightarrow> (Err EGetMemo, w1)
      | (Panics, w1) \<Rightarrow> (Panics, w1)
      | (Ok None, w1) \<Rightarrow> (Err EMemoMissing, w1)
      | (Ok (Some m), w1) \<Rightarrow>
          (let contentHash = e_hash E (m_Content m) in
           case GetSyncState E ContentTypeMemo memoUID w1 of
             (Err _, w2) \<Rightarrow> (Err EGetState, w2)
           | (Panics, w2) \<Rightarrow> (Panics, w2)
           | (Ok st, w2) \<Rightarrow>
               if up_to_date st contentHash then (Ok (), w2)
               else sync_document E ContentTypeMemo memoUID (m_CreatorID m) st (buildMemoDocument m)
                      contentHash datasetID c w2))"

definition delete_remote_and_state ::
  "env \<Rightarrow> content_type \<Rightarrow> string \<Rightarrow> client \<Rightarrow> world \<Rightarrow> unit res \<times> world" where
  "delete_remote_and_state E ct uid c w =
     (case GetSyncState E ct uid w of
        (Err _, w1) \<Rightarrow> (Err EGetState, w1)
      | (Panics, w1) \<Rightarrow> (Panics, w1)
      | (Ok None, w1) \<Rightarrow> (Ok (), w1)
      | (Ok (Some s), w1) \<Rightarrow>
          (let w2 = (if cs_RAGFlowDocumentID s \<noteq> [] \<and> cs_RAGFlowDatasetID s \<noteq> []
                     then snd (rf E (DeleteDocuments c (cs_RAGFlowDatasetID s) [cs_RAGFlowDocumentID s]) w1)
                     else w1)
           in case DeleteState E ct uid w2 of
                (Err _, w3) \<Rightarrow> (Err EDeleteState, w3)
              | (Panics, w3) \<Rightarrow> (Panics, w3)
              | (Ok _, w3) \<Rightarrow> (Ok (), w3)))"

definition DeleteMemoFromRAGFlow :: "env \<Rightarrow> string \<Rightarrow> client \<Rightarrow> world \<Rightarrow> unit res \<times> world" where
  "DeleteMemoFromRAGFlow E memoUID c w = delete_remote_and_state E ContentTypeMemo memoUID c w"

subsection \<open>Batches\<close>

text \<open>
  The loop of \<open>SyncPendingMemos\<close> and of \<open>SyncPendingAttachments\<close>: \<open>getter\<close> is the
  \<open>resourceGetter\<close> argument and \<open>sync\<close> the method that syncs one item. A row whose
  resources cannot be found is counted and left as it is; a row whose sync fails is
  marked as failed with the retry count the listing had.
\<close>

type_synonym resource_getter =
  "int \<Rightarrow> content_type \<Rightarrow> string \<Rightarrow> world \<Rightarrow> (client \<times> string) res \<times> world"

fun sync_rows ::
  "env \<Rightarrow> resource_getter \<Rightarrow> (string \<Rightarrow> string \<Rightarrow> client \<Rightarrow> world \<Rightarrow> unit res \<times> world) \<Rightarrow>
   content_sync_state list \<Rightarrow> int \<Rightarrow> int \<Rightarrow> world \<Rightarrow> (int \<times> int) res \<times> world" where
  "sync_rows E getter sync [] ok bad w = (Ok (ok, bad), w)"
| "sync_rows E getter sync (s # ss) ok bad w =
     (case getter (cs_OwnerID s) (cs_ContentType s) (cs_ContentUID s) w of
        (Panics, w1) \<Rightarrow> (Panics, w1)
      | (Err _, w1) \<Rightarrow> sync_rows E getter sync ss ok (bad + 1) w1
      | (Ok (c, datasetID), w1) \<Rightarrow>
          (case sync (cs_ContentUID s) datasetID c w1 of
             (Panics, w2) \<Rightarrow> (Panics, w2)
           | (Err e, w2) \<Rightarrow>
               (case MarkAsFailed E (cs_ID s) (cs_RetryCount s) (ErrorText e) w2 of
                  (Panics, w3) \<Rightarrow> (Panics, w3)
                | (_, w3) \<Rightarrow> sync_rows E getter sync ss ok (bad + 1) w3)
           | (Ok _, w2) \<Rightarrow> sync_rows E getter sync ss (ok + 1) bad w2))"

definition SyncPendingMemos :: "env \<Rightarrow> resource_getter \<Rightarrow> int \<Rightarrow> world \<Rightarrow> (int \<times> int) res \<times> world" where
  "SyncPendingMemos E getter limit w =
     (case ListPendingStates E limit w of
        (Err _, w1) \<Rightarrow> (Err EListPending, w1)
      | (Panics, w1) \<Rightarrow> (Panics, w1)
      | (Ok pending, w1) \<Rightarrow>
          sync_rows E getter (SyncMemo E)
            (filter (\<lambda>s. cs_ContentType s = ContentTypeMemo) pending) 0 0 w1)"

definition CreateSyncStateForNewMemo :: "env \<Rightarrow> memo \<Rightarrow> world \<Rightarrow> content_sync_state res \<times> world" where
  "CreateSyncStateForNewMemo E m w =
     CreatePendingState E ContentTypeMemo (m_UID m) (m_CreatorID m) (e_hash E (m_Content m)) w"

definition MarkMemoForResync :: "env \<Rightarrow> string \<Rightarrow> string \<Rightarrow> world \<Rightarrow> unit res \<times> world" where
  "MarkMemoForResync E memoUID newContent w =
     (case GetSyncState E ContentTypeMemo memoUID w of
        (Err _, w1) \<Rightarrow> (Err EGetState, w1)
      | (Panics, w1) \<Rightarrow> (Panics, w1)
      | (Ok (Some s), w1) \<Rightarrow> ResetForResync E (cs_ID s) (e_hash E newContent) w1
      | (Ok None, w1) \<Rightarrow>
          (case GetMemoByUID E memoUID w1 of
             (Err _, w2) \<Rightarrow> (Err EGetMemo, w2)
           | (Panics, w2) \<Rightarrow> (Panics, w2)
           | (Ok None, w2) \<Rightarrow> (Err EMemoMissing, w2)
           | (Ok (Some m), w2) \<Rightarrow>
               (case CreatePendingState E ContentTypeMemo memoUID (m_CreatorID m) (e_hash E newContent) w2 of
                  (Err e, w3) \<Rightarrow> (Err e, w3)
                | (Panics, w3) \<Rightarrow> (Panics, w3)
                | (Ok _, w3) \<Rightarrow> (Ok (), w3))))"

subsection \<open>What a sync does\<close>

lemma rf_simps [simp]:
  "w_table (snd (rf E c w)) = w_table w" "w_calls (snd (rf E c w)) = w_calls w @ [c]"
  "w_tick (snd (rf E c w)) = w_tick w + 1" "world_inv (snd (rf E c w)) = world_inv w"
  "w_memos (snd (rf E c w)) = w_memos w" "w_attachments (snd (rf E c w)) = w_attachments w"
  "w_notebooks (snd (rf E c w)) = w_notebooks w" "w_mappings (snd (rf E c w)) = w_mappings w"
  by (simp_all add: rf_def tick_def world_inv_def)

lemma db_read_simps [simp]:
  "w_table (snd (db_read E f w)) = w_table w" "w_calls (snd (db_read E f w)) = w_calls w"
  "world_inv (snd (db_read E f w)) = world_inv w"
  by (simp_all add: db_read_def)

lemma MarkAsSynced_look:
  assumes "world_inv w" and "look ct uid w = Some s"
    and "MarkAsSynced E (cs_ID s) ds doc w = (Ok (), w')"
  shows "\<exists>s'. look ct uid w' = Some s' \<and> cs_ID s' = cs_ID s \<and>
      cs_RAGFlowStatus s' = RAGFlowSyncStatusSynced \<and> cs_RAGFlowDatasetID s' = ds \<and>
      cs_RAGFlowDocumentID s' = doc \<and> cs_ContentHash s' = cs_ContentHash s \<and>
      cs_RAGFlowError s' = NoErrorText"
    and "k \<noteq> (ct, uid) \<Longrightarrow> sqlite_look k (w_table w') = sqlite_look k (w_table w)"
proof -
  let ?u = "(update_nothing (cs_ID s))\<lparr>u_RAGFlowStatus := Some RAGFlowSyncStatusSynced,
           u_RAGFlowDatasetID := Some ds, u_RAGFlowDocumentID := Some doc,
           u_RAGFlowSyncedTs := Some (unix (e_now E (w_tick w))), u_RAGFlowError := Some NoErrorText,
           u_UpdatedTs := Some (unix (e_now E (w_tick w)))\<rparr>"
  have u: "w_table w' = sqlite_update ?u (w_table w)"
    using assms(3)
    by (auto simp: MarkAsSynced_def now_def UpdateContentSyncState_eq update_is_empty_def split: if_splits)
  have inv: "table_inv (w_table w)" using assms(1) by (simp add: world_inv_def)
  have "u_ID ?u = cs_ID s" by (simp add: update_nothing_def)
  note look' = sq.look_update_id [OF inv assms(2) this]
  show "\<exists>s'. look ct uid w' = Some s' \<and> cs_ID s' = cs_ID s \<and>
      cs_RAGFlowStatus s' = RAGFlowSyncStatusSynced \<and> cs_RAGFlowDatasetID s' = ds \<and>
      cs_RAGFlowDocumentID s' = doc \<and> cs_ContentHash s' = cs_ContentHash s \<and>
      cs_RAGFlowError s' = NoErrorText"
    unfolding u look' by (simp add: update_row_def set_opt_def update_nothing_def)
  show "k \<noteq> (ct, uid) \<Longrightarrow> sqlite_look k (w_table w') = sqlite_look k (w_table w)"
    unfolding u look' by simp
qed

lemma MarkAsSynced_Err:
  "MarkAsSynced E i ds doc w = (Err e, w') \<Longrightarrow> w_table w' = w_table w"
  by (auto simp: MarkAsSynced_def now_def UpdateContentSyncState_eq split: if_splits)

lemma MarkAsSynced_tick:
  "MarkAsSynced E i ds doc w = (Ok (), w') \<Longrightarrow> w_tick w' = w_tick w + 2"
  by (auto simp: MarkAsSynced_def now_def UpdateContentSyncState_eq update_is_empty_def split: if_splits)

lemma updateContentHash_look:
  assumes "world_inv w" and "look ct uid w = Some s"
  shows "look ct uid (snd (updateContentHash E (cs_ID s) hash w)) =
      Some (if e_db_fails E (w_tick w) then s else s\<lparr>cs_ContentHash := hash\<rparr>)"
    and "k \<noteq> (ct, uid) \<Longrightarrow>
      sqlite_look k (w_table (snd (updateContentHash E (cs_ID s) hash w))) = sqlite_look k (w_table w)"
proof -
  let ?u = "(update_nothing (cs_ID s))\<lparr>u_ContentHash := Some hash\<rparr>"
  have inv: "table_inv (w_table w)" using assms(1) by (simp add: world_inv_def)
  have "u_ID ?u = cs_ID s" by (simp add: update_nothing_def)
  note look' = sq.look_update_id [OF inv assms(2) this]
  have ne: "\<not> update_is_empty ?u" by (simp add: update_is_empty_def)
  have row: "update_row ?u s = s\<lparr>cs_ContentHash := hash\<rparr>"
    by (simp add: update_row_def set_opt_def set_opt_some_def update_nothing_def)
  show "look ct uid (snd (updateContentHash E (cs_ID s) hash w)) =
      Some (if e_db_fails E (w_tick w) then s else s\<lparr>cs_ContentHash := hash\<rparr>)"
    using assms(2) ne by (simp add: updateContentHash_def UpdateContentSyncState_eq look' row)
  show "k \<noteq> (ct, uid) \<Longrightarrow>
      sqlite_look k (w_table (snd (updateContentHash E (cs_ID s) hash w))) = sqlite_look k (w_table w)"
    using ne by (simp add: updateContentHash_def UpdateContentSyncState_eq look')
qed

lemma record_synced_inv [inv_intros]:
  assumes "world_inv w"
  shows "world_inv (snd (record_synced E i ds doc hash w))"
  using mark_inv(1) [OF assms, of E i ds doc]
  by (auto simp: record_synced_def updateContentHash_def split: res.splits prod.splits
      intro!: UpdateContentSyncState_inv)

lemma record_synced_frame [frame_simps]:
  "same_content w (snd (record_synced E i ds doc hash w))"
  "fst (record_synced E i ds doc hash w) \<noteq> Panics"
proof -
  obtain r w1 where m: "MarkAsSynced E i ds doc w = (r, w1)" by (cases "MarkAsSynced E i ds doc w")
  then have "same_content w w1" and "r \<noteq> Panics"
    using mark_frame(1) [of w E i ds doc] mark_no_panic(1) [of E i ds doc w] by simp_all
  then show "same_content w (snd (record_synced E i ds doc hash w))"
    and "fst (record_synced E i ds doc hash w) \<noteq> Panics"
    using UpdateContentSyncState_frame(1) m
    by (auto simp: record_synced_def updateContentHash_def split: res.splits
        intro: same_content_trans)
qed

text \<open>
  The state a successful sync records: the row of the item is synced, points to the
  uploaded document, and has the uploaded content's hash unless exactly the last write
  failed (that error is only logged).
\<close>

definition synced_as :: "env \<Rightarrow> content_type \<Rightarrow> string \<Rightarrow> string \<Rightarrow> string \<Rightarrow> string \<Rightarrow> world \<Rightarrow> bool" where
  "synced_as E ct uid ds doc hash w \<longleftrightarrow>
     (\<exists>s. look ct uid w = Some s \<and> cs_RAGFlowStatus s = RAGFlowSyncStatusSynced \<and>
        cs_RAGFlowDatasetID s = ds \<and> cs_RAGFlowDocumentID s = doc \<and>
        (cs_ContentHash s = hash \<or> e_db_fails E (w_tick w - 1)))"

lemma record_synced_Ok:
  assumes "world_inv w" and "look ct uid w = Some s"
    and "record_synced E (cs_ID s) ds doc hash w = (Ok (), w')"
  shows "synced_as E ct uid ds doc hash w'"
    and "k \<noteq> (ct, uid) \<Longrightarrow> sqlite_look k (w_table w') = sqlite_look k (w_table w)"
proof -
  obtain w1 where m: "MarkAsSynced E (cs_ID s) ds doc w = (Ok (), w1)"
    and w': "w' = snd (updateContentHash E (cs_ID s) hash w1)"
    using assms(3) by (auto simp: record_synced_def split: res.splits prod.splits)
  have inv1: "world_inv w1" using mark_inv(1) [OF assms(1), of E "cs_ID s" ds doc] m by simp
  obtain s1 where s1: "look ct uid w1 = Some s1" "cs_ID s1 = cs_ID s"
      "cs_RAGFlowStatus s1 = RAGFlowSyncStatusSynced" "cs_RAGFlowDatasetID s1 = ds"
      "cs_RAGFlowDocumentID s1 = doc"
    using MarkAsSynced_look(1) [OF assms(1,2) m] by blast
  have "w_tick w' = w_tick w1 + 1"
    using w' by (simp add: updateContentHash_def UpdateContentSyncState_eq update_is_empty_def)
  with s1 updateContentHash_look(1) [OF inv1 s1(1), of E hash] w'
  show "synced_as E ct uid ds doc hash w'" by (auto simp: synced_as_def)
  show "k \<noteq> (ct, uid) \<Longrightarrow> sqlite_look k (w_table w') = sqlite_look k (w_table w)"
    using updateContentHash_look(2) [OF inv1 s1(1)] MarkAsSynced_look(2) [OF assms(1,2) m] w' s1(2)
    by simp
qed

lemma record_synced_Err:
  "record_synced E i ds doc hash w = (Err e, w') \<Longrightarrow> w_table w' = w_table w"
  by (auto simp: record_synced_def split: res.splits prod.splits dest: MarkAsSynced_Err)

text \<open>
  The outcomes of a call that works on one row: other rows stay, and if the call does
  not succeed the row is as before or was newly created as pending. So nothing is
  recorded as synced by mistake.
\<close>

definition row_outcome ::
  "env \<Rightarrow> content_type \<Rightarrow> string \<Rightarrow> string \<Rightarrow> string \<Rightarrow> string \<Rightarrow> world \<Rightarrow> unit res \<Rightarrow> world \<Rightarrow> bool" where
  "row_outcome E ct uid ds docID hash w r w' \<longleftrightarrow>
     world_inv w' \<and> same_content w w' \<and>
     (\<forall>k. k \<noteq> (ct, uid) \<longrightarrow> sqlite_look k (w_table w') = sqlite_look k (w_table w)) \<and>
     (r = Ok () \<longrightarrow> synced_as E ct uid ds docID hash w') \<and>
     (r \<noteq> Ok () \<longrightarrow> look ct uid w' = look ct uid w \<or>
        look ct uid w = None \<and>
        (\<exists>s. look ct uid w' = Some s \<and> cs_RAGFlowStatus s = RAGFlowSyncStatusPending)) \<and>
     (look ct uid w \<noteq> None \<longrightarrow> r \<noteq> Panics)"

lemma record_synced_outcome:
  assumes "world_inv w" and "look ct uid w = Some s"
    and "record_synced E (cs_ID s) ds docID hash w = (r, w')"
  shows "row_outcome E ct uid ds docID hash w r w'"
proof (cases r)
  case (Ok u)
  then show ?thesis
    using assms record_synced_Ok [OF assms(1,2), of E ds docID hash w'] record_synced_inv [OF assms(1)]
      record_synced_frame(1) [of w E "cs_ID s" ds docID hash]
    by (auto simp: row_outcome_def) (metis record_synced_inv snd_conv)
next
  case (Err e)
  then show ?thesis
    using assms record_synced_Err record_synced_inv [OF assms(1), of E "cs_ID s" ds docID hash]
      record_synced_frame(1) [of w E "cs_ID s" ds docID hash]
    by (auto simp: row_outcome_def)
next
  case Panics
  then show ?thesis
    using assms record_synced_frame(2) [of E "cs_ID s" ds docID hash w] by simp
qed

lemma record_document_outcome:
  assumes "world_inv w" and "record_document E ct uid owner (look ct uid w) docID hash ds w = (r, w')"
  shows "row_outcome E ct uid ds docID hash w r w'"
proof (cases "look ct uid w")
  case (Some s)
  with assms show ?thesis by (auto simp: record_document_def intro: record_synced_outcome)
next
  case None
  obtain q w1 where q: "CreatePendingState E ct uid owner hash w = (q, w1)"
    by (cases "CreatePendingState E ct uid owner hash w")
  have inv1: "world_inv w1" and same1: "same_content w w1" and np: "q \<noteq> Panics"
    using CreatePendingState_inv [OF assms(1), of E ct uid owner hash]
      CreatePendingState_frame(1) [of w E ct uid owner hash]
      CreatePendingState_frame(2) [of E ct uid owner hash w] q by simp_all
  show ?thesis
  proof (cases q)
    case (Ok p)
    then obtain s1 where s1: "look ct uid w1 = Some s1" "cs_RAGFlowStatus s1 = RAGFlowSyncStatusPending"
      and oth: "\<And>k. k \<noteq> (ct, uid) \<Longrightarrow> sqlite_look k (w_table w1) = sqlite_look k (w_table w)"
      using CreatePendingState_look [OF assms(1)] q by (metis (no_types))
    show ?thesis
    proof (cases "e_db_fails E (w_tick w1)")
      case True
      with assms(2) q None Ok inv1 have "r = Panics" "w' = tick w1"
        by (simp_all add: record_document_def GetSyncState_eq)
      with None s1 oth inv1 same1 show ?thesis by (simp add: row_outcome_def)
    next
      case False
      with assms(2) q None Ok inv1 s1(1)
      have rs: "record_synced E (cs_ID s1) ds docID hash (tick w1) = (r, w')"
        by (simp add: record_document_def GetSyncState_eq)
      have "row_outcome E ct uid ds docID hash (tick w1) r w'"
        using rs inv1 s1(1) by (intro record_synced_outcome [where s = s1]) simp_all
      with None s1 oth same1 show ?thesis by (auto simp: row_outcome_def intro: same_content_trans)
    qed
  next
    case (Err e)
    with q have "w_table w1 = w_table w" by (auto elim: CreatePendingState_cases)
    with assms(2) q None Err inv1 same1 show ?thesis
      by (auto simp: record_document_def row_outcome_def)
  qed (use np in simp)
qed

definition old_document_calls :: "content_sync_state option \<Rightarrow> string \<Rightarrow> client \<Rightarrow> rf_call list" where
  "old_document_calls st ds c =
     (case st of None \<Rightarrow> []
      | Some s \<Rightarrow> if cs_RAGFlowDocumentID s \<noteq> []
                 then [DeleteDocuments c ds [cs_RAGFlowDocumentID s]] else [])"

definition same_tables :: "world \<Rightarrow> world \<Rightarrow> bool" where
  "same_tables w w' \<longleftrightarrow>
     w_memos w' = w_memos w \<and> w_attachments w' = w_attachments w \<and>
     w_notebooks w' = w_notebooks w \<and> w_mappings w' = w_mappings w"

lemma same_tables_refl [simp]: "same_tables w w"
  by (simp add: same_tables_def)

lemma same_tables_trans [trans]:
  "same_tables w w' \<Longrightarrow> same_tables w' w'' \<Longrightarrow> same_tables w w''"
  by (simp add: same_tables_def)

lemma same_content_tables: "same_content w w' \<Longrightarrow> same_tables w w'"
  by (simp add: same_content_def same_tables_def)

lemma same_tables_effects [simp]:
  "same_tables w (tick w') = same_tables w w'" "same_tables w (snd (rf E c w')) = same_tables w w'"
  by (simp_all add: same_tables_def)

lemma delete_old_document_tables [simp]:
  "same_tables w (delete_old_document E st ds c w') = same_tables w w'"
  by (auto simp: delete_old_document_def split: option.splits)

lemma delete_old_document_simps [simp]:
  "w_table (delete_old_document E st ds c w) = w_table w"
  "w_calls (delete_old_document E st ds c w) = w_calls w @ old_document_calls st ds c"
  "world_inv (delete_old_document E st ds c w) = world_inv w"
  "w_memos (delete_old_document E st ds c w) = w_memos w"
  "w_attachments (delete_old_document E st ds c w) = w_attachments w"
  by (auto simp: delete_old_document_def old_document_calls_def split: option.splits)

lemma delete_old_document_tick:
  "w_tick (delete_old_document E st ds c w) = w_tick w + length (old_document_calls st ds c)"
  by (auto simp: delete_old_document_def old_document_calls_def split: option.splits)

text \<open>
  \<open>sync_document\<close> on the current row: it fails at the upload with nothing recorded, or
  makes exactly the calls delete (if there was a document), upload, parse, and then
  records the result.
\<close>

lemma sync_document_cases:
  assumes "world_inv w"
    and "sync_document E ct uid owner (look ct uid w) doc hash ds c w = (r, w')"
  obtains "r = Err EUpload" "w_table w' = w_table w" "world_inv w'" "same_tables w w'"
      "w_calls w' = w_calls w @ old_document_calls (look ct uid w) ds c @ [UploadDocument c ds doc]"
  | docID v where "w_table v = w_table w" "row_outcome E ct uid ds docID hash v r w'" "same_tables w w'"
      "w_calls w' = w_calls w @ old_document_calls (look ct uid w) ds c
         @ [UploadDocument c ds doc, ParseDocuments c ds [docID]]"
      "e_rf E (w_tick w + length (old_document_calls (look ct uid w) ds c)) = Some docID"
proof -
  let ?w1 = "delete_old_document E (look ct uid w) ds c w"
  obtain a w2 where a: "rf E (UploadDocument c ds doc) ?w1 = (a, w2)" by (cases "rf E (UploadDocument c ds doc) ?w1")
  then have w2: "w_table w2 = w_table w" "world_inv w2" "same_tables w w2"
      "w_calls w2 = w_calls w @ old_document_calls (look ct uid w) ds c @ [UploadDocument c ds doc]"
    using rf_simps(1,2,4) [of E "UploadDocument c ds doc" ?w1] assms(1)
      same_tables_effects(2) [of w E "UploadDocument c ds doc" ?w1] by simp_all
  show thesis
  proof (cases a)
    case None
    with a assms(2) w2 show thesis by (intro that(1)) (auto simp: sync_document_def Let_def)
  next
    case (Some docID)
    let ?v = "snd (rf E (ParseDocuments c ds [docID]) w2)"
    from a Some assms(2) w2
    have "record_document E ct uid owner (look ct uid ?v) docID hash ds ?v = (r, w')"
      by (simp add: sync_document_def Let_def)
    moreover have "world_inv ?v" using w2 by simp
    ultimately have out: "row_outcome E ct uid ds docID hash ?v r w'"
      by (intro record_document_outcome)
    have "same_tables w ?v" using w2 by simp
    also have "same_tables ?v w'" using out by (intro same_content_tables) (simp add: row_outcome_def)
    finally have same: "same_tables w w'" .
    have "e_rf E (w_tick w + length (old_document_calls (look ct uid w) ds c)) = Some docID"
      using a Some delete_old_document_tick [of E "look ct uid w" ds c w] by (simp add: rf_def)
    then show thesis
      using same out w2 by (intro that(2) [of ?v docID]) (simp_all add: row_outcome_def same_content_def)
  qed
qed

subsection \<open>SyncMemo\<close>

abbreviation memo_of :: "string \<Rightarrow> world \<Rightarrow> memo option" where
  "memo_of uid w \<equiv> List.find (\<lambda>m. m_UID m = uid) (w_memos w)"

lemma GetMemoByUID_eq:
  "GetMemoByUID E uid w = (if e_db_fails E (w_tick w) then Err EDriver else Ok (memo_of uid w), tick w)"
  by (simp add: GetMemoByUID_def db_read_def)

text \<open>The four ways through \<open>SyncMemo\<close>.\<close>

lemma SyncMemo_cases:
  assumes "world_inv w" and "SyncMemo E uid ds c w = (r, w')"
  obtains e where "r = Err e" "w_table w' = w_table w" "w_calls w' = w_calls w" "world_inv w'"
      "same_tables w w'"
  | m where "memo_of uid w = Some m" "up_to_date (look ContentTypeMemo uid w) (e_hash E (m_Content m))"
      "r = Ok ()" "w_table w' = w_table w" "w_calls w' = w_calls w" "world_inv w'"
      "same_tables w w'"
  | m v where "memo_of uid w = Some m"
      "\<not> up_to_date (look ContentTypeMemo uid w) (e_hash E (m_Content m))"
      "w_table v = w_table w" "w_calls v = w_calls w" "world_inv v" "same_tables w v"
      "sync_document E ContentTypeMemo uid (m_CreatorID m) (look ContentTypeMemo uid v)
         (buildMemoDocument m) (e_hash E (m_Content m)) ds c v = (r, w')"
      "w_tick v = w_tick w + 2"
proof (cases "e_db_fails E (w_tick w) \<or> memo_of uid w = None \<or> e_db_fails E (w_tick w + 1)")
  case True
  with assms have "\<exists>e. r = Err e \<and> w_table w' = w_table w \<and> w_calls w' = w_calls w \<and> world_inv w' \<and>
      same_tables w w'"
    by (auto simp: SyncMemo_def GetMemoByUID_eq GetSyncState_eq split: option.splits if_splits)
  then show thesis using that(1) by blast
next
  case False
  then obtain m where m: "memo_of uid w = Some m" by auto
  show thesis
  proof (cases "up_to_date (look ContentTypeMemo uid w) (e_hash E (m_Content m))")
    case True
    with False m assms show thesis
      by (intro that(2)) (auto simp: SyncMemo_def GetMemoByUID_eq GetSyncState_eq)
  next
    case nu: False
    with False m assms show thesis
      by (intro that(3) [of m "tick (tick w)"]) (simp_all add: SyncMemo_def GetMemoByUID_eq GetSyncState_eq)
  qed
qed

lemma sync_document_inv [inv_intros]:
  assumes "world_inv w"
  shows "world_inv (snd (sync_document E ct uid owner (look ct uid w) doc hash ds c w))"
  using assms
  by (cases "sync_document E ct uid owner (look ct uid w) doc hash ds c w")
    (auto elim!: sync_document_cases [OF assms] simp: row_outcome_def)

lemma SyncMemo_inv [inv_intros]:
  assumes "world_inv w"
  shows "world_inv (snd (SyncMemo E uid ds c w))"
proof (cases "SyncMemo E uid ds c w")
  case (Pair r w')
  then have "world_inv w'"
  proof (elim SyncMemo_cases [OF assms])
    fix m v
    assume "world_inv v"
      and "sync_document E ContentTypeMemo uid (m_CreatorID m) (look ContentTypeMemo uid v)
         (buildMemoDocument m) (e_hash E (m_Content m)) ds c v = (r, w')"
    then show "world_inv w'" using sync_document_inv by (metis snd_conv)
  qed
  with Pair show ?thesis by simp
qed

lemma SyncMemo_tables [frame_simps]:
  assumes "world_inv w"
  shows "same_tables w (snd (SyncMemo E uid ds c w))"
proof (cases "SyncMemo E uid ds c w")
  case (Pair r w')
  then have "same_tables w w'"
  proof (elim SyncMemo_cases [OF assms])
    fix m v
    assume v: "world_inv v" "same_tables w v"
      and "sync_document E ContentTypeMemo uid (m_CreatorID m) (look ContentTypeMemo uid v)
         (buildMemoDocument m) (e_hash E (m_Content m)) ds c v = (r, w')"
    from this(3) have "same_tables v w'" by (elim sync_document_cases [OF v(1)])
    with v(2) show "same_tables w w'" by (rule same_tables_trans)
  qed
  with Pair show ?thesis by simp
qed

lemma SyncMemo_Ok:
  assumes "world_inv w" and "SyncMemo E uid ds c w = (Ok (), w')"
  shows "\<exists>m. memo_of uid w = Some m \<and>
    (if up_to_date (look ContentTypeMemo uid w) (e_hash E (m_Content m))
     then w_table w' = w_table w \<and> w_calls w' = w_calls w
     else \<exists>docID.
       e_rf E (w_tick w + 2 + length (old_document_calls (look ContentTypeMemo uid w) ds c)) = Some docID \<and>
       w_calls w' = w_calls w @ old_document_calls (look ContentTypeMemo uid w) ds c
         @ [UploadDocument c ds (buildMemoDocument m), ParseDocuments c ds [docID]] \<and>
       synced_as E ContentTypeMemo uid ds docID (e_hash E (m_Content m)) w')"
  using assms(2)
proof (elim SyncMemo_cases [OF assms(1)])
  fix m v
  assume m: "memo_of uid w = Some m" "\<not> up_to_date (look ContentTypeMemo uid w) (e_hash E (m_Content m))"
    and v: "w_table v = w_table w" "w_calls v = w_calls w" "world_inv v" "w_tick v = w_tick w + 2"
    and sd: "sync_document E ContentTypeMemo uid (m_CreatorID m) (look ContentTypeMemo uid v)
         (buildMemoDocument m) (e_hash E (m_Content m)) ds c v = (Ok (), w')"
  from sd show ?thesis
  proof (elim sync_document_cases [OF v(3)])
    fix docID x
    assume "row_outcome E ContentTypeMemo uid ds docID (e_hash E (m_Content m)) x (Ok ()) w'"
      and "w_calls w' = w_calls v @ old_document_calls (look ContentTypeMemo uid v) ds c
         @ [UploadDocument c ds (buildMemoDocument m), ParseDocuments c ds [docID]]"
      and "e_rf E (w_tick v + length (old_document_calls (look ContentTypeMemo uid v) ds c)) = Some docID"
    with m v show ?thesis by (auto simp: row_outcome_def)
  qed simp
qed auto

text \<open>
  C2. When \<open>SyncMemo\<close> succeeds the memo exists, and either its row was already synced
  with the hash of its content, and nothing at all was done, or the service saw
  exactly: delete the previous document if there was one, upload the memo's document,
  parse the document whose id the service answered to the upload; and the row is now synced
  and points to that document of that dataset (its hash is the memo's, unless the last write
  to the database failed, which the code only logs).
\<close>

theorem sync_memo_success:
  assumes "world_inv w" and "SyncMemo E uid ds c w = (Ok (), w')"
  shows "\<exists>m. memo_of uid w = Some m \<and>
    (if up_to_date (look ContentTypeMemo uid w) (e_hash E (m_Content m))
     then w_table w' = w_table w \<and> w_calls w' = w_calls w
     else \<exists>docID.
       e_rf E (w_tick w + 2 + length (old_document_calls (look ContentTypeMemo uid w) ds c)) = Some docID \<and>
       w_calls w' = w_calls w @ old_document_calls (look ContentTypeMemo uid w) ds c
         @ [UploadDocument c ds (buildMemoDocument m), ParseDocuments c ds [docID]] \<and>
       synced_as E ContentTypeMemo uid ds docID (e_hash E (m_Content m)) w')"
  using SyncMemo_Ok [OF assms] .

text \<open>
  Syncing is idempotent: once a memo was synced and the database did not fail, a
  second sync of the unchanged memo, to any dataset and through any client, succeeds
  without a single service call and leaves every row as it is.
\<close>

theorem sync_memo_idempotent:
  assumes "world_inv w" and "\<And>k. \<not> e_db_fails E k"
    and "SyncMemo E uid ds c w = (Ok (), w1)" and "SyncMemo E uid ds' c' w1 = (r, w2)"
  shows "r = Ok () \<and> w_table w2 = w_table w1 \<and> w_calls w2 = w_calls w1"
proof -
  obtain m where m: "memo_of uid w = Some m"
    and ok: "up_to_date (look ContentTypeMemo uid w1) (e_hash E (m_Content m))"
    using SyncMemo_Ok [OF assms(1,3)] assms(2)
    by (auto simp: synced_as_def up_to_date_def split: if_splits)
  moreover have "world_inv w1" using SyncMemo_inv [OF assms(1), of E uid ds c] assms(3) by simp
  moreover have "memo_of uid w1 = Some m"
    using m SyncMemo_tables [OF assms(1), of E uid ds c] assms(3) by (simp add: same_tables_def)
  ultimately show ?thesis
    using assms(2,4) by (auto simp: SyncMemo_def GetMemoByUID_eq GetSyncState_eq)
qed

text \<open>
  C10. A failed sync never records success: whatever call fails, rows of other items are
  unchanged, and the memo's own row is as it was, or was missing and is now pending.
  With a row in the table the method does not panic.
\<close>

theorem sync_memo_failure_records_nothing:
  assumes "world_inv w" and "SyncMemo E uid ds c w = (r, w')" and "r \<noteq> Ok ()"
  shows "(\<forall>k. k \<noteq> (ContentTypeMemo, uid) \<longrightarrow> sqlite_look k (w_table w') = sqlite_look k (w_table w)) \<and>
    (look ContentTypeMemo uid w' = look ContentTypeMemo uid w \<or>
     look ContentTypeMemo uid w = None \<and>
     (\<exists>s. look ContentTypeMemo uid w' = Some s \<and> cs_RAGFlowStatus s = RAGFlowSyncStatusPending)) \<and>
    (r = Panics \<longrightarrow> look ContentTypeMemo uid w = None)"
  using assms(2)
proof (elim SyncMemo_cases [OF assms(1)])
  fix m v
  assume v: "w_table v = w_table w" "world_inv v"
    and sd: "sync_document E ContentTypeMemo uid (m_CreatorID m) (look ContentTypeMemo uid v)
         (buildMemoDocument m) (e_hash E (m_Content m)) ds c v = (r, w')"
  from sd assms(3) v(1) show ?thesis
    by (elim sync_document_cases [OF v(2)]) (auto simp: row_outcome_def)
qed (use assms(3) in auto)

subsection \<open>Witnesses\<close>

definition sample_memo :: memo where
  "sample_memo = \<lparr>m_ID = 4, m_UID = ''m1'', m_RowStatus = Normal, m_CreatorID = 7, m_CreatedTs = 9,
     m_Content = ''hello'', m_Visibility = Private, m_NotebookID = Some 2\<rparr>"

definition memo_world :: world where
  "memo_world = empty_world\<lparr>w_memos := [sample_memo]\<rparr>"

lemma memo_world_inv [simp]: "world_inv memo_world"
  using world_inv_empty by (simp add: memo_world_def world_inv_def)

lemma sample_sync: "fst (SyncMemo calm ''m1'' ''ds'' SystemClient memo_world) = Ok ()"
  by code_simp

lemma sample_sync_pair:
  "SyncMemo calm ''m1'' ''ds'' SystemClient memo_world =
     (Ok (), snd (SyncMemo calm ''m1'' ''ds'' SystemClient memo_world))"
  using sample_sync by (metis prod.collapse)

theorem sync_memo_success_witness:
  "\<exists>docID. e_rf calm 2 = Some docID \<and>
   w_calls (snd (SyncMemo calm ''m1'' ''ds'' SystemClient memo_world)) =
     [UploadDocument SystemClient ''ds'' (buildMemoDocument sample_memo),
      ParseDocuments SystemClient ''ds'' [docID]] \<and>
   synced_as calm ContentTypeMemo ''m1'' ''ds'' docID (e_hash calm ''hello'')
     (snd (SyncMemo calm ''m1'' ''ds'' SystemClient memo_world))"
  using sync_memo_success [OF memo_world_inv sample_sync_pair]
  by (auto simp: memo_world_def sample_memo_def up_to_date_def old_document_calls_def
      empty_table_def sqlite_look_def find_key_def)

theorem sync_memo_idempotent_witness:
  "w_calls (snd (SyncMemo calm ''m1'' ''ds2'' (UserClient 7)
      (snd (SyncMemo calm ''m1'' ''ds'' SystemClient memo_world)))) =
   w_calls (snd (SyncMemo calm ''m1'' ''ds'' SystemClient memo_world))"
  using sync_memo_idempotent [OF memo_world_inv _ sample_sync_pair prod.collapse [symmetric]]
  by simp

text \<open>An environment in which the service refuses every call.\<close>

definition refusing :: env where
  "refusing = calm\<lparr>e_rf := (\<lambda>_. None)\<rparr>"

theorem sync_memo_failure_records_nothing_witness:
  "look ContentTypeMemo ''m1'' (snd (SyncMemo refusing ''m1'' ''ds'' SystemClient memo_world)) = None"
proof -
  have f: "fst (SyncMemo refusing ''m1'' ''ds'' SystemClient memo_world) = Err EUpload"
    by code_simp
  have "w_table (snd (SyncMemo refusing ''m1'' ''ds'' SystemClient memo_world)) = empty_table"
    by code_simp
  then show ?thesis
    using sync_memo_failure_records_nothing [OF memo_world_inv prod.collapse [symmetric],
        of refusing "''m1''" "''ds''" SystemClient] f
    by (simp add: empty_table_def sqlite_look_def find_key_def)
qed

end
