(* ===== verification/AttachmentSyncer.thy ===== *)
theory AttachmentSyncer
  imports MemoSyncer
begin

section \<open>Attachment syncer (plugin/sync/attachment\_syncer.go)\<close>

text \<open>
  Attachments of a parseable MIME type are uploaded with \<open>sync_document\<close>; the others
  are marked as skipped. \<open>Store.GetAttachmentBlob\<close> is the oracle \<open>e_blob\<close>.
\<close>

definition parseableMimeTypes :: "string list" where
  "parseableMimeTypes =
     [''application/pdf'', ''text/plain'', ''text/markdown'', ''text/html'', ''application/msword'',
      ''application/vnd.openxmlformats-officedocument.wordprocessingml.document'',
      ''application/vnd.ms-excel'',
      ''application/vnd.openxmlformats-officedocument.spreadsheetml.sheet'',
      ''application/vnd.ms-powerpoint'',
      ''application/vnd.openxmlformats-officedocument.presentationml.presentation'',
      ''image/png'', ''image/jpeg'', ''image/jpg'', ''image/tiff'', ''image/bmp'', ''image/webp'']"

definition IsParseableAttachment :: "string \<Rightarrow> bool" where
  "IsParseableAttachment mime \<longleftrightarrow> List.member parseableMimeTypes mime"

abbreviation attachment_of :: "string \<Rightarrow> world \<Rightarrow> attachment option" where
  "attachment_of uid w \<equiv> List.find (\<lambda>a. a_UID a = uid) (w_attachments w)"

definition GetAttachmentByUID :: "env \<Rightarrow> string \<Rightarrow> world \<Rightarrow> attachment option res \<times> world" where
  "GetAttachmentByUID E uid w = db_read E (\<lambda>w. attachment_of uid w) w"

definition GetAttachmentBlob :: "env \<Rightarrow> attachment \<Rightarrow> world \<Rightarrow> string option \<times> world" where
  "GetAttachmentBlob E a w = (e_blob E (w_tick w) a, tick w)"

definition buildAttachmentDocument :: "attachment \<Rightarrow> document" where
  "buildAttachmentDocument a =
     \<lparr>doc_Name = ''attachment_'' @ a_UID a @ ''_'' @ a_Filename a, doc_Content = a_Blob a,
      doc_MimeType = a_Type a\<rparr>"

definition skip_unparseable :: "env \<Rightarrow> attachment \<Rightarrow> world \<Rightarrow> world" where
  "skip_unparseable E a w =
     (case GetSyncState E ContentTypeAttachment (a_UID a) w of
        (Ok (Some s), w1) \<Rightarrow> snd (MarkAsSkipped E (cs_ID s) (UnsupportedType (a_Type a)) w1)
      | (_, w1) \<Rightarrow> w1)"

definition SyncAttachment :: "env \<Rightarrow> string \<Rightarrow> string \<Rightarrow> client \<Rightarrow> world \<Rightarrow> unit res \<times> world" where
  "SyncAttachment E uid datasetID c w =
     (case GetAttachmentByUID E uid w of
        (Err _, w1) \<Rightarrow> (Err EGetAttachment, w1)
      | (Panics, w1) \<Rightarrow> (Panics, w1)
      | (Ok None, w1) \<Rightarrow> (Err EAttachmentMissing, w1)
      | (Ok (Some a), w1) \<Rightarrow>
          if \<not> IsParseableAttachment (a_Type a) then (Ok (), skip_unparseable E a w1)
          else
            (case GetAttachmentBlob E a w1 of
               (None, w2) \<Rightarrow> (Err EGetBlob, w2)
             | (Some blob, w2) \<Rightarrow>
                 if blob = [] then (Err EEmptyBlob, w2)
                 else
                   (let a' = a\<lparr>a_Blob := blob\<rparr> in
                    case GetSyncState E ContentTypeAttachment uid w2 of
                      (Err _, w3) \<Rightarrow> (Err EGetState, w3)
                    | (Panics, w3) \<Rightarrow> (Panics, w3)
                    | (Ok st, w3) \<Rightarrow>
                        (let contentHash = e_hash E blob in
                         if up_to_date st contentHash then (Ok (), w3)
                         else sync_document E ContentTypeAttachment uid (a_CreatorID a') st
                                (buildAttachmentDocument a') contentHash datasetID c w3))))"

definition DeleteAttachmentFromRAGFlow :: "env \<Rightarrow> string \<Rightarrow> client \<Rightarrow> world \<Rightarrow> unit res \<times> world" where
  "DeleteAttachmentFromRAGFlow E uid c w = delete_remote_and_state E ContentTypeAttachment uid c w"

definition SyncPendingAttachments :: "env \<Rightarrow> resource_getter \<Rightarrow> int \<Rightarrow> world \<Rightarrow> (int \<times> int) res \<times> world" where
  "SyncPendingAttachments E getter limit w =
     (case ListPendingStates E limit w of
        (Err _, w1) \<Rightarrow> (Err EListPending, w1)
      | (Panics, w1) \<Rightarrow> (Panics, w1)
      | (Ok pending, w1) \<Rightarrow>
          sync_rows E getter (SyncAttachment E)
            (filter (\<lambda>s. cs_ContentType s = ContentTypeAttachment) pending) 0 0 w1)"

definition CreateSyncStateForNewAttachment :: "env \<Rightarrow> attachment \<Rightarrow> world \<Rightarrow> unit res \<times> world" where
  "CreateSyncStateForNewAttachment E a w =
     (if \<not> IsParseableAttachment (a_Type a) then
        (case CreatePendingState E ContentTypeAttachment (a_UID a) (a_CreatorID a) [] w of
           (Err e, w1) \<Rightarrow> (Err e, w1)
         | (Panics, w1) \<Rightarrow> (Panics, w1)
         | (Ok s, w1) \<Rightarrow> MarkAsSkipped E (cs_ID s) (UnsupportedType (a_Type a)) w1)
      else
        (case CreatePendingState E ContentTypeAttachment (a_UID a) (a_CreatorID a) [] w of
           (Err e, w1) \<Rightarrow> (Err e, w1)
         | (Panics, w1) \<Rightarrow> (Panics, w1)
         | (Ok _, w1) \<Rightarrow> (Ok (), w1)))"

subsection \<open>What the attachment syncer does\<close>

lemma GetAttachmentByUID_eq:
  "GetAttachmentByUID E uid w =
    (if e_db_fails E (w_tick w) then Err EDriver else Ok (attachment_of uid w), tick w)"
  by (simp add: GetAttachmentByUID_def db_read_def)

lemma skip_unparseable_simps [simp]:
  assumes "world_inv w"
  shows "world_inv (skip_unparseable E a w)" "same_content w (skip_unparseable E a w)"
    "w_calls (skip_unparseable E a w) = w_calls w"
  using assms mark_inv(2) [of "tick w" E] mark_frame(2) [of "tick w" E]
  by (auto simp: skip_unparseable_def GetSyncState_eq same_content_def split: option.splits)

lemma SyncAttachment_cases:
  assumes "world_inv w" and "SyncAttachment E uid ds c w = (r, w')"
  obtains e where "r = Err e" "w_table w' = w_table w" "w_calls w' = w_calls w" "world_inv w'"
      "same_tables w w'"
  | a v where "attachment_of uid w = Some a" "\<not> IsParseableAttachment (a_Type a)" "r = Ok ()"
      "w' = skip_unparseable E a (tick w)"
  | a blob where "attachment_of uid w = Some a" "e_blob E (w_tick w + 1) a = Some blob"
      "up_to_date (look ContentTypeAttachment uid w) (e_hash E blob)"
      "r = Ok ()" "w_table w' = w_table w" "w_calls w' = w_calls w" "world_inv w'"
      "same_tables w w'"
  | a blob v where "attachment_of uid w = Some a" "IsParseableAttachment (a_Type a)"
      "e_blob E (w_tick w + 1) a = Some blob" "blob \<noteq> []"
      "\<not> up_to_date (look ContentTypeAttachment uid w) (e_hash E blob)"
      "w_table v = w_table w" "w_calls v = w_calls w" "world_inv v" "same_tables w v"
      "sync_document E ContentTypeAttachment uid (a_CreatorID a) (look ContentTypeAttachment uid v)
         (buildAttachmentDocument (a\<lparr>a_Blob := blob\<rparr>)) (e_hash E blob) ds c v = (r, w')"
proof (cases "e_db_fails E (w_tick w) \<or> attachment_of uid w = None")
  case True
  with assms have "\<exists>e. r = Err e \<and> w_table w' = w_table w \<and> w_calls w' = w_calls w \<and> world_inv w' \<and>
      same_tables w w'"
    by (auto simp: SyncAttachment_def GetAttachmentByUID_eq split: if_splits)
  then show thesis using that(1) by blast
next
  case False
  then obtain a where a: "attachment_of uid w = Some a" by auto
  have eq: "SyncAttachment E uid ds c w =
      (if \<not> IsParseableAttachment (a_Type a) then (Ok (), skip_unparseable E a (tick w))
       else case e_blob E (w_tick w + 1) a of
          None \<Rightarrow> (Err EGetBlob, tick (tick w))
        | Some blob \<Rightarrow>
            if blob = [] then (Err EEmptyBlob, tick (tick w))
            else if e_db_fails E (w_tick w + 2) then (Err EGetState, tick (tick (tick w)))
            else if up_to_date (look ContentTypeAttachment uid w) (e_hash E blob)
            then (Ok (), tick (tick (tick w)))
            else sync_document E ContentTypeAttachment uid (a_CreatorID a)
                   (look ContentTypeAttachment uid (tick (tick (tick w))))
                   (buildAttachmentDocument (a\<lparr>a_Blob := blob\<rparr>)) (e_hash E blob) ds c (tick (tick (tick w))))"
    using False a assms(1)
    by (auto simp: SyncAttachment_def GetAttachmentByUID_eq GetAttachmentBlob_def GetSyncState_eq Let_def
        split: option.splits)
  show thesis
  proof (cases "IsParseableAttachment (a_Type a)")
    case False
    with a assms(2) eq show thesis by (intro that(2)) auto
  next
    case True
    show thesis
    proof (cases "e_blob E (w_tick w + 1) a = None \<or> e_blob E (w_tick w + 1) a = Some [] \<or>
        e_db_fails E (w_tick w + 2)")
      case bad: True
      with True assms eq have "\<exists>e. r = Err e \<and> w_table w' = w_table w \<and> w_calls w' = w_calls w \<and>
          world_inv w' \<and> same_tables w w'"
        by (auto split: if_splits option.splits)
      then show thesis using that(1) by blast
    next
      case good: False
      then obtain blob where b: "e_blob E (w_tick w + 1) a = Some blob" "blob \<noteq> []" by auto
      show thesis
      proof (cases "up_to_date (look ContentTypeAttachment uid w) (e_hash E blob)")
        case u: True
        with True b good assms eq a show thesis by (intro that(3)) auto
      next
        case nu: False
        with True b good assms eq a show thesis
          by (intro that(4) [of a blob "tick (tick (tick w))"]) simp_all
      qed
    qed
  qed
qed

lemma SyncAttachment_inv [inv_intros]:
  assumes "world_inv w"
  shows "world_inv (snd (SyncAttachment E uid ds c w))"
proof (cases "SyncAttachment E uid ds c w")
  case (Pair r w')
  then have "world_inv w'"
  proof (elim SyncAttachment_cases [OF assms])
    fix a blob v
    assume "world_inv v"
      and "sync_document E ContentTypeAttachment uid (a_CreatorID a) (look ContentTypeAttachment uid v)
         (buildAttachmentDocument (a\<lparr>a_Blob := blob\<rparr>)) (e_hash E blob) ds c v = (r, w')"
    then show "world_inv w'" using sync_document_inv by (metis snd_conv)
  qed (use assms in simp_all)
  with Pair show ?thesis by simp
qed

lemma SyncAttachment_tables [frame_simps]:
  assumes "world_inv w"
  shows "same_tables w (snd (SyncAttachment E uid ds c w))"
proof (cases "SyncAttachment E uid ds c w")
  case (Pair r w')
  then have "same_tables w w'"
  proof (elim SyncAttachment_cases [OF assms])
    fix a blob v
    assume v: "world_inv v" "same_tables w v"
      and "sync_document E ContentTypeAttachment uid (a_CreatorID a) (look ContentTypeAttachment uid v)
         (buildAttachmentDocument (a\<lparr>a_Blob := blob\<rparr>)) (e_hash E blob) ds c v = (r, w')"
    from this(3) have "same_tables v w'" by (elim sync_document_cases [OF v(1)])
    with v(2) show "same_tables w w'" by (rule same_tables_trans)
  next
    fix a :: attachment
    assume "w' = skip_unparseable E a (tick w)"
    then show "same_tables w w'"
      using skip_unparseable_simps(2) [of "tick w" E a] assms by (auto intro: same_content_tables)
  qed
  with Pair show ?thesis by simp
qed

text \<open>
  Only parseable, non-empty attachments are uploaded: any upload that a call of
  \<open>SyncAttachment\<close> makes is of the document built from the attachment with that uid,
  with the bytes its storage back end returned, to the given dataset.
\<close>

theorem attachment_upload_guarded:
  assumes "world_inv w" and "SyncAttachment E uid ds c w = (r, w')"
    and "UploadDocument c' ds' doc \<in> set (drop (length (w_calls w)) (w_calls w'))"
  shows "\<exists>a blob. attachment_of uid w = Some a \<and> IsParseableAttachment (a_Type a) \<and> blob \<noteq> [] \<and>
    e_blob E (w_tick w + 1) a = Some blob \<and> c' = c \<and> ds' = ds \<and>
    doc = buildAttachmentDocument (a\<lparr>a_Blob := blob\<rparr>)"
  using assms(2)
proof (elim SyncAttachment_cases [OF assms(1)])
  fix a blob v
  assume a: "attachment_of uid w = Some a" "IsParseableAttachment (a_Type a)"
      "e_blob E (w_tick w + 1) a = Some blob" "blob \<noteq> []"
    and v: "w_calls v = w_calls w" "world_inv v"
    and sd: "sync_document E ContentTypeAttachment uid (a_CreatorID a) (look ContentTypeAttachment uid v)
         (buildAttachmentDocument (a\<lparr>a_Blob := blob\<rparr>)) (e_hash E blob) ds c v = (r, w')"
  from sd have "UploadDocument c' ds' doc =
      UploadDocument c ds (buildAttachmentDocument (a\<lparr>a_Blob := blob\<rparr>))"
    using assms(3) v(1)
    by (elim sync_document_cases [OF v(2)])
      (auto simp: old_document_calls_def split: option.splits if_splits)
  with a show ?thesis by blast
next
  fix a :: attachment
  assume "w' = skip_unparseable E a (tick w)"
  with assms(1,3) show ?thesis by simp
qed (use assms(3) in auto)

lemma MarkAsSkipped_look:
  assumes "world_inv w" and "look ct uid w = Some s"
    and "MarkAsSkipped E (cs_ID s) reason w = (Ok (), w')"
  shows "\<exists>s'. look ct uid w' = Some s' \<and> cs_RAGFlowStatus s' = RAGFlowSyncStatusSkipped \<and>
      cs_RAGFlowError s' = reason"
    and "k \<noteq> (ct, uid) \<Longrightarrow> sqlite_look k (w_table w') = sqlite_look k (w_table w)"
proof -
  let ?u = "(update_nothing (cs_ID s))\<lparr>u_RAGFlowStatus := Some RAGFlowSyncStatusSkipped,
           u_RAGFlowError := Some reason, u_UpdatedTs := Some (unix (e_now E (w_tick w)))\<rparr>"
  have u: "w_table w' = sqlite_update ?u (w_table w)"
    using assms(3)
    by (auto simp: MarkAsSkipped_def now_def UpdateContentSyncState_eq update_is_empty_def split: if_splits)
  have inv: "table_inv (w_table w)" using assms(1) by (simp add: world_inv_def)
  have "u_ID ?u = cs_ID s" by (simp add: update_nothing_def)
  note look' = sq.look_update_id [OF inv assms(2) this]
  show "\<exists>s'. look ct uid w' = Some s' \<and> cs_RAGFlowStatus s' = RAGFlowSyncStatusSkipped \<and>
      cs_RAGFlowError s' = reason"
    unfolding u look' by (simp add: update_row_def set_opt_def update_nothing_def)
  show "k \<noteq> (ct, uid) \<Longrightarrow> sqlite_look k (w_table w') = sqlite_look k (w_table w)"
    unfolding u look' by simp
qed

text \<open>
  An attachment of an unsupported type is skipped, not uploaded: the call succeeds,
  makes no service call, and its row, when it has one, is marked as skipped with the
  type as the reason.
\<close>

theorem unsupported_attachment_skipped:
  assumes "world_inv w" and "\<And>k. \<not> e_db_fails E k"
    and "attachment_of uid w = Some a" and "\<not> IsParseableAttachment (a_Type a)"
    and "look ContentTypeAttachment uid w = Some s"
  shows "\<exists>w' s'. SyncAttachment E uid ds c w = (Ok (), w') \<and> w_calls w' = w_calls w \<and>
    look ContentTypeAttachment uid w' = Some s' \<and> cs_RAGFlowStatus s' = RAGFlowSyncStatusSkipped \<and>
    cs_RAGFlowError s' = UnsupportedType (a_Type a)"
proof -
  have uid: "a_UID a = uid" using assms(3) by (auto simp: find_Some_iff)
  let ?w1 = "tick (tick w)"
  obtain w' where m: "MarkAsSkipped E (cs_ID s) (UnsupportedType (a_Type a)) ?w1 = (Ok (), w')"
    using assms(2) by (simp add: MarkAsSkipped_def now_def UpdateContentSyncState_eq)
      (auto simp: update_is_empty_def)
  have "SyncAttachment E uid ds c w = (Ok (), w')"
    using assms uid m
    by (simp add: SyncAttachment_def GetAttachmentByUID_eq skip_unparseable_def GetSyncState_eq)
  moreover have "w_calls w' = w_calls w"
    using mark_frame(2) [of ?w1 E "cs_ID s" "UnsupportedType (a_Type a)"] m
    by (simp add: same_content_def)
  moreover have "\<exists>s'. look ContentTypeAttachment uid w' = Some s' \<and>
      cs_RAGFlowStatus s' = RAGFlowSyncStatusSkipped \<and> cs_RAGFlowError s' = UnsupportedType (a_Type a)"
    using MarkAsSkipped_look(1) [of ?w1, OF _ _ m] assms(1,5) by simp
  ultimately show ?thesis by blast
qed

subsection \<open>Deleting an item\<close>

text \<open>
  Deleting an item from RAGFlow, with a working database: the call succeeds
  whatever the service answers, asks it to delete exactly the recorded document of the
  recorded dataset, and forgets the row; every other row stays.
\<close>

theorem delete_forgets_item:
  assumes "world_inv w" and "\<And>k. \<not> e_db_fails E k"
  shows "\<exists>w'. delete_remote_and_state E ct uid c w = (Ok (), w') \<and> world_inv w' \<and>
    look ct uid w' = None \<and>
    (\<forall>k. k \<noteq> (ct, uid) \<longrightarrow> sqlite_look k (w_table w') = sqlite_look k (w_table w)) \<and>
    w_calls w' = w_calls w @
      (case look ct uid w of None \<Rightarrow> []
       | Some s \<Rightarrow> if cs_RAGFlowDocumentID s \<noteq> [] \<and> cs_RAGFlowDatasetID s \<noteq> []
                  then [DeleteDocuments c (cs_RAGFlowDatasetID s) [cs_RAGFlowDocumentID s]] else [])"
proof (cases "look ct uid w")
  case None
  with assms show ?thesis by (simp add: delete_remote_and_state_def GetSyncState_eq)
next
  case (Some s)
  have inv: "table_inv (w_table w)" using assms(1) by (simp add: world_inv_def)
  let ?w2 = "if cs_RAGFlowDocumentID s \<noteq> [] \<and> cs_RAGFlowDatasetID s \<noteq> []
      then snd (rf E (DeleteDocuments c (cs_RAGFlowDatasetID s) [cs_RAGFlowDocumentID s]) (tick w))
      else tick w"
  have w2: "w_table ?w2 = w_table w" "world_inv ?w2" using assms(1) by simp_all
  have "delete_remote_and_state E ct uid c w = (Ok (), snd (DeleteState E ct uid ?w2))"
    using assms Some by (simp add: delete_remote_and_state_def GetSyncState_eq DeleteState_eq)
  moreover have "sqlite_look k (w_table (snd (DeleteState E ct uid ?w2))) =
      (if k = (ct, uid) then None else sqlite_look k (w_table w))" for k
    using sq.look_delete_key [OF inv, of k "(ct, uid)"] assms(2) w2(1) by (auto simp: DeleteState_eq)
  moreover have "world_inv (snd (DeleteState E ct uid ?w2))" using w2(2) by (rule DeleteState_inv)
  moreover have "w_calls (snd (DeleteState E ct uid ?w2)) = w_calls ?w2"
    using DeleteState_frame(1) [of ?w2 E ct uid] by (simp add: same_content_def)
  ultimately show ?thesis using Some by simp
qed

subsection \<open>Witnesses\<close>

definition sample_attachment :: attachment where
  "sample_attachment = \<lparr>a_ID = 3, a_UID = ''a1'', a_CreatorID = 7, a_CreatedTs = 9, a_UpdatedTs = 9,
     a_Filename = ''x.pdf'', a_Blob = ''bytes'', a_Type = ''application/pdf'', a_MemoID = Some 4\<rparr>"

definition sample_zip :: attachment where
  "sample_zip = sample_attachment\<lparr>a_UID := ''a2'', a_Type := ''application/zip''\<rparr>"

definition attachment_world :: world where
  "attachment_world = empty_world\<lparr>w_attachments := [sample_attachment, sample_zip],
     w_table := \<lparr>t_rows = [(new_state ContentTypeAttachment ''a2'' 7 [])\<lparr>cs_ID := 1\<rparr>], t_next = 2\<rparr>\<rparr>"

lemma attachment_world_inv [simp]: "world_inv attachment_world"
  by (simp add: attachment_world_def world_inv_def table_inv_def new_state_def valid_content_type_def)

theorem attachment_upload_guarded_witness:
  "IsParseableAttachment ''application/pdf'' \<and>
   UploadDocument SystemClient ''ds'' (buildAttachmentDocument sample_attachment)
     \<in> set (w_calls (snd (SyncAttachment calm ''a1'' ''ds'' SystemClient attachment_world)))"
proof -
  have mem: "UploadDocument SystemClient ''ds'' (buildAttachmentDocument sample_attachment)
     \<in> set (drop (length (w_calls attachment_world))
         (w_calls (snd (SyncAttachment calm ''a1'' ''ds'' SystemClient attachment_world))))"
    by code_simp
  from attachment_upload_guarded [OF attachment_world_inv prod.collapse [symmetric] mem]
  have "IsParseableAttachment (a_Type sample_attachment)"
    by (auto simp: attachment_world_def sample_attachment_def)
  then show ?thesis
    using mem by (simp add: sample_attachment_def) (metis in_set_dropD)
qed

theorem unsupported_attachment_skipped_witness:
  "\<exists>w'. SyncAttachment calm ''a2'' ''ds'' SystemClient attachment_world = (Ok (), w') \<and> w_calls w' = []"
proof -
  have a: "attachment_of ''a2'' attachment_world = Some sample_zip"
    by (simp add: attachment_world_def sample_attachment_def sample_zip_def)
  have t: "\<not> IsParseableAttachment (a_Type sample_zip)"
    by (simp add: sample_zip_def IsParseableAttachment_def parseableMimeTypes_def)
  have r: "look ContentTypeAttachment ''a2'' attachment_world =
      Some ((new_state ContentTypeAttachment ''a2'' 7 [])\<lparr>cs_ID := 1\<rparr>)"
    by (simp add: attachment_world_def sqlite_look_def find_key_def new_state_def row_key_def)
  have "w_calls attachment_world = []" by (simp add: attachment_world_def)
  with unsupported_attachment_skipped [OF attachment_world_inv _ a t r, of calm "''ds''" SystemClient]
  show ?thesis by auto
qed

theorem delete_forgets_item_witness:
  "look ContentTypeAttachment ''a2''
     (snd (delete_remote_and_state calm ContentTypeAttachment ''a2'' SystemClient attachment_world)) = None"
  using delete_forgets_item [OF attachment_world_inv, of calm ContentTypeAttachment "''a2''" SystemClient]
  by auto

end
