(* ===== verification/VisibilityHandler.thy ===== *)
theory VisibilityHandler
  imports AttachmentSyncer
begin

section \<open>Visibility handler (plugin/sync/visibility\_handler.go)\<close>

text \<open>
  Changes of a memo's visibility are pushed to the metadata of its RAGFlow documents,
  and retrieved chunks are filtered by who may see the memo they come from. A chunk is
  its document name and its content.
\<close>

subsection \<open>Operations\<close>

definition HandleVisibilityChange ::
  "env \<Rightarrow> string \<Rightarrow> visibility \<Rightarrow> client \<Rightarrow> world \<Rightarrow> unit res \<times> world" where
  "HandleVisibilityChange E memoUID newVisibility c w =
     (case GetSyncState E ContentTypeMemo memoUID w of
        (Err _, w1) \<Rightarrow> (Err EGetState, w1)
      | (Panics, w1) \<Rightarrow> (Panics, w1)
      | (Ok None, w1) \<Rightarrow> (Ok (), w1)
      | (Ok (Some s), w1) \<Rightarrow>
          if cs_RAGFlowStatus s \<noteq> RAGFlowSyncStatusSynced then (Ok (), w1)
          else if cs_RAGFlowDocumentID s = [] \<or> cs_RAGFlowDatasetID s = [] then (Ok (), w1)
          else
            (case rf E (UpdateDocument c (cs_RAGFlowDatasetID s) (cs_RAGFlowDocumentID s) newVisibility) w1 of
               (None, w2) \<Rightarrow> (Err EUpdateDocument, w2)
             | (Some _, w2) \<Rightarrow> (Ok (), w2)))"

fun batch_update ::
  "env \<Rightarrow> string list \<Rightarrow> visibility \<Rightarrow> client \<Rightarrow> int \<Rightarrow> int \<Rightarrow> world \<Rightarrow> (int \<times> int) res \<times> world" where
  "batch_update E [] v c ok bad w = (Ok (ok, bad), w)"
| "batch_update E (uid # uids) v c ok bad w =
     (case HandleVisibilityChange E uid v c w of
        (Panics, w1) \<Rightarrow> (Panics, w1)
      | (Err _, w1) \<Rightarrow> batch_update E uids v c ok (bad + 1) w1
      | (Ok _, w1) \<Rightarrow> batch_update E uids v c (ok + 1) bad w1)"

definition BatchUpdateVisibility ::
  "env \<Rightarrow> string list \<Rightarrow> visibility \<Rightarrow> client \<Rightarrow> world \<Rightarrow> (int \<times> int) res \<times> world" where
  "BatchUpdateVisibility E uids v c w = batch_update E uids v c 0 0 w"

definition extractMemoUIDFromDocumentName :: "string \<Rightarrow> string" where
  "extractMemoUIDFromDocumentName docName =
     (if length docName < 6 \<or> take 5 docName \<noteq> ''memo_'' then []
      else let name = drop 5 docName in
        if 3 < length name \<and> drop (length name - 3) name = ''.md''
        then take (length name - 3) name else name)"

record chunk =
  ch_DocumentName :: string
  ch_Content :: string

fun filter_chunks :: "env \<Rightarrow> int \<Rightarrow> chunk list \<Rightarrow> world \<Rightarrow> chunk list \<times> world" where
  "filter_chunks E requester [] w = ([], w)"
| "filter_chunks E requester (ch # chs) w =
     (let memoUID = extractMemoUIDFromDocumentName (ch_DocumentName ch) in
      if memoUID = [] then filter_chunks E requester chs w
      else case GetMemoByUID E memoUID w of
          (Ok (Some m), w1) \<Rightarrow>
            (let (rest, w2) = filter_chunks E requester chs w1 in
             if m_CreatorID m = requester then (ch # rest, w2)
             else if m_Visibility m = Public then (ch # rest, w2)
             else (rest, w2))
        | (_, w1) \<Rightarrow> filter_chunks E requester chs w1)"

definition FilterByVisibility :: "env \<Rightarrow> chunk list \<Rightarrow> int \<Rightarrow> world \<Rightarrow> chunk list res \<times> world" where
  "FilterByVisibility E chunks requesterID w =
     (if chunks = [] then (Ok chunks, w)
      else case filter_chunks E requesterID chunks w of (out, w1) \<Rightarrow> (Ok out, w1))"

fun update_attachments ::
  "env \<Rightarrow> attachment list \<Rightarrow> visibility \<Rightarrow> client \<Rightarrow> world \<Rightarrow> world" where
  "update_attachments E [] v c w = w"
| "update_attachments E (a # as) v c w =
     (case GetSyncState E ContentTypeAttachment (a_UID a) w of
        (Ok st, w1) \<Rightarrow>
          (case st of
             Some s \<Rightarrow>
               if cs_RAGFlowStatus s \<noteq> RAGFlowSyncStatusSynced then update_attachments E as v c w1
               else if cs_RAGFlowDocumentID s = [] \<or> cs_RAGFlowDatasetID s = []
               then update_attachments E as v c w1
               else update_attachments E as v c
                 (snd (rf E (UpdateDocument c (cs_RAGFlowDatasetID s) (cs_RAGFlowDocumentID s) v) w1))
           | None \<Rightarrow> update_attachments E as v c w1)
      | (_, w1) \<Rightarrow> update_attachments E as v c w1)"

text \<open>
  \<open>Store.ListAttachments\<close> adds a limit of 100 when the caller gives none. The rows come
  in the order of their last update, the latest first; ties keep the table's order.
\<close>

definition ListAttachments :: "env \<Rightarrow> (attachment \<Rightarrow> bool) \<Rightarrow> world \<Rightarrow> attachment list res \<times> world" where
  "ListAttachments E p w =
     db_read E (\<lambda>w. take 100 (sort_key (\<lambda>a. - a_UpdatedTs a) (filter p (w_attachments w)))) w"

definition HandleAttachmentVisibilityChange ::
  "env \<Rightarrow> string \<Rightarrow> visibility \<Rightarrow> client \<Rightarrow> world \<Rightarrow> unit res \<times> world" where
  "HandleAttachmentVisibilityChange E memoUID newVisibility c w =
     (case GetMemoByUID E memoUID w of
        (Err _, w1) \<Rightarrow> (Err EGetMemo, w1)
      | (Panics, w1) \<Rightarrow> (Panics, w1)
      | (Ok None, w1) \<Rightarrow> (Err EMemoMissing, w1)
      | (Ok (Some m), w1) \<Rightarrow>
          (case ListAttachments E (\<lambda>a. a_MemoID a = Some (m_ID m)) w1 of
             (Err _, w2) \<Rightarrow> (Err EListAttachments, w2)
           | (Panics, w2) \<Rightarrow> (Panics, w2)
           | (Ok as, w2) \<Rightarrow> (Ok (), update_attachments E as newVisibility c w2)))"

subsection \<open>Document names\<close>

text \<open>
  The name of a memo's document gives the memo's uid back, for every uid that is
  not empty, and no attachment document is ever taken for a memo's.
\<close>

theorem document_name_roundtrip:
  assumes "m_UID m \<noteq> []"
  shows "extractMemoUIDFromDocumentName (doc_Name (buildMemoDocument m)) = m_UID m \<and>
    extractMemoUIDFromDocumentName (doc_Name (buildAttachmentDocument a)) = []"
  using assms
  by (auto simp: extractMemoUIDFromDocumentName_def buildMemoDocument_def memo_doc_name_def
      buildAttachmentDocument_def Let_def Suc_le_eq)

theorem document_name_roundtrip_witness:
  "extractMemoUIDFromDocumentName (doc_Name (buildMemoDocument sample_memo)) = ''m1''"
  using document_name_roundtrip [of sample_memo sample_attachment] by (simp add: sample_memo_def)

subsection \<open>What a requester may see\<close>

text \<open>The chunks a requester may see: those of the requester's memos and of public ones.\<close>

definition may_see :: "memo list \<Rightarrow> int \<Rightarrow> chunk \<Rightarrow> bool" where
  "may_see ms requester ch \<longleftrightarrow>
     (let uid = extractMemoUIDFromDocumentName (ch_DocumentName ch) in
      uid \<noteq> [] \<and>
      (case List.find (\<lambda>m. m_UID m = uid) ms of
         None \<Rightarrow> False
       | Some m \<Rightarrow> m_CreatorID m = requester \<or> m_Visibility m = Public))"

lemma filter_chunks_memos:
  "w_memos (snd (filter_chunks E requester chs w)) = w_memos w \<and>
   w_table (snd (filter_chunks E requester chs w)) = w_table w \<and>
   w_calls (snd (filter_chunks E requester chs w)) = w_calls w"
proof (induction chs arbitrary: w)
  case (Cons ch chs)
  from Cons.IH [of w] Cons.IH [of "tick w"] show ?case
    by (auto simp: Let_def GetMemoByUID_eq split: option.splits prod.splits)
qed simp

lemma filter_chunks_subset:
  "subseq (fst (filter_chunks E requester chs w)) (filter (may_see (w_memos w) requester) chs)"
proof (induction chs arbitrary: w)
  case (Cons ch chs)
  from Cons.IH [of w] Cons.IH [of "tick w"] show ?case
    by (auto simp: Let_def may_see_def GetMemoByUID_eq split: option.splits prod.splits)
qed simp

lemma filter_chunks_exact:
  assumes "\<And>k. \<not> e_db_fails E k"
  shows "fst (filter_chunks E requester chs w) = filter (may_see (w_memos w) requester) chs"
proof (induction chs arbitrary: w)
  case (Cons ch chs)
  from Cons.IH [of w] Cons.IH [of "tick w"] assms show ?case
    by (auto simp: Let_def may_see_def GetMemoByUID_eq split: option.splits prod.splits)
qed simp

text \<open>
  C4. Filtering retrieved chunks leaks nothing, whatever database reads fail: every
  chunk that comes out belongs to a memo of the requester or to a public memo, in the
  order it came in; when no read fails, all such chunks come out. Nothing is written
  and the service is not called.
\<close>

theorem visibility_filter_safe:
  "\<exists>out. fst (FilterByVisibility E chunks requester w) = Ok out \<and>
    subseq out (filter (may_see (w_memos w) requester) chunks) \<and>
    ((\<forall>k. \<not> e_db_fails E k) \<longrightarrow> out = filter (may_see (w_memos w) requester) chunks) \<and>
    w_table (snd (FilterByVisibility E chunks requester w)) = w_table w \<and>
    w_calls (snd (FilterByVisibility E chunks requester w)) = w_calls w"
  using filter_chunks_memos [of E requester chunks w] filter_chunks_subset [of E requester chunks w]
    filter_chunks_exact [of E requester chunks w]
  by (auto simp: FilterByVisibility_def split: prod.splits)

theorem visibility_filter_safe_witness:
  "fst (FilterByVisibility calm [\<lparr>ch_DocumentName = ''memo_m1.md'', ch_Content = ''x''\<rparr>] 8 memo_world)
     = Ok [] \<and>
   fst (FilterByVisibility calm [\<lparr>ch_DocumentName = ''memo_m1.md'', ch_Content = ''x''\<rparr>] 7 memo_world)
     = Ok [\<lparr>ch_DocumentName = ''memo_m1.md'', ch_Content = ''x''\<rparr>]"
proof -
  have n: "\<forall>k. \<not> e_db_fails calm k" by simp
  show ?thesis
    using visibility_filter_safe [of calm "[\<lparr>ch_DocumentName = ''memo_m1.md'', ch_Content = ''x''\<rparr>]" 8 memo_world]
      visibility_filter_safe [of calm "[\<lparr>ch_DocumentName = ''memo_m1.md'', ch_Content = ''x''\<rparr>]" 7 memo_world] n
    by (auto simp: may_see_def extractMemoUIDFromDocumentName_def memo_world_def sample_memo_def Let_def)
qed

end
