(* ===== verification/DatasetResolver.thy ===== *)
theory DatasetResolver
  imports VisibilityHandler
begin

section \<open>Clients and datasets (plugin/sync/orchestrator.go, the resolvers)\<close>

text \<open>
  How the orchestrator finds the RAGFlow client of a user and the dataset of a memo or
  an attachment: item, memo, notebook, dataset. A notebook without a dataset gets one on
  the way, and the new id is written back to the notebook.
\<close>

subsection \<open>Operations\<close>

definition getUsernameByID :: "env \<Rightarrow> int \<Rightarrow> world \<Rightarrow> string res \<times> world" where
  "getUsernameByID E userID w =
     (case e_get_user E (w_tick w) userID of
        None \<Rightarrow> (Err EGetUser, tick w)
      | Some None \<Rightarrow> (Err EUserMissing, tick w)
      | Some (Some name) \<Rightarrow> (Ok name, tick w))"

definition GetClientForUser :: "env \<Rightarrow> int \<Rightarrow> world \<Rightarrow> client res \<times> world" where
  "GetClientForUser E userID w =
     (if e_get_client E (w_tick w) userID then Ok (UserClient userID) else Err EGetClient, tick w)"

definition resolveUserClient :: "env \<Rightarrow> int \<Rightarrow> world \<Rightarrow> client res \<times> world" where
  "resolveUserClient E userID w =
     (if e_has_provisioner E then
        (case getUsernameByID E userID w of
           (Err e, w1) \<Rightarrow> (Err e, w1)
         | (Panics, w1) \<Rightarrow> (Panics, w1)
         | (Ok _, w1) \<Rightarrow> GetClientForUser E userID w1)
      else (Ok SystemClient, w))"

abbreviation notebook_of :: "int \<Rightarrow> world \<Rightarrow> notebook option" where
  "notebook_of i w \<equiv> List.find (\<lambda>n. n_ID n = i) (w_notebooks w)"

definition GetNotebook :: "env \<Rightarrow> int \<Rightarrow> world \<Rightarrow> notebook option res \<times> world" where
  "GetNotebook E i w = db_read E (\<lambda>w. notebook_of i w) w"

definition set_dataset :: "int \<Rightarrow> string \<Rightarrow> notebook \<Rightarrow> notebook" where
  "set_dataset i ds n = (if n_ID n = i then n\<lparr>n_DatasetID := ds\<rparr> else n)"

definition UpdateNotebookDataset :: "env \<Rightarrow> int \<Rightarrow> string \<Rightarrow> world \<Rightarrow> unit res \<times> world" where
  "UpdateNotebookDataset E i ds w =
     db_write E (\<lambda>w. Some ((), w\<lparr>w_notebooks := map (set_dataset i ds) (w_notebooks w)\<rparr>)) w"

text \<open>The slice \<open>nb.UID[:8]\<close> panics when the uid has fewer than eight bytes.\<close>

definition ensureNotebookHasDataset :: "env \<Rightarrow> notebook \<Rightarrow> int \<Rightarrow> world \<Rightarrow> string res \<times> world" where
  "ensureNotebookHasDataset E nb ownerID w =
     (if n_DatasetID nb \<noteq> [] then (Ok (n_DatasetID nb), w)
      else if \<not> e_has_provisioner E then (Err ENoProvisioner, w)
      else case getUsernameByID E ownerID w of
          (Err e, w1) \<Rightarrow> (Err e, w1)
        | (Panics, w1) \<Rightarrow> (Panics, w1)
        | (Ok _, w1) \<Rightarrow>
            (case GetClientForUser E ownerID w1 of
               (Err e, w2) \<Rightarrow> (Err e, w2)
             | (Panics, w2) \<Rightarrow> (Panics, w2)
             | (Ok c, w2) \<Rightarrow>
                 if length (n_UID nb) < 8 then (Panics, w2)
                 else
                   (case rf E (CreateDataset c (''knowtree_nb_'' @ take 8 (n_UID nb)) (n_Title nb)) w2 of
                      (None, w3) \<Rightarrow> (Err ECreateDataset, w3)
                    | (Some ds, w3) \<Rightarrow>
                        (case UpdateNotebookDataset E (n_ID nb) ds w3 of
                           (Panics, w4) \<Rightarrow> (Panics, w4)
                         | (_, w4) \<Rightarrow> (Ok ds, w4)))))"

text \<open>The part that the two branches of \<open>resolveNotebookDatasetID\<close> share, from the memo on.\<close>

definition dataset_of_memo :: "env \<Rightarrow> memo \<Rightarrow> world \<Rightarrow> string res \<times> world" where
  "dataset_of_memo E m w =
     (case m_NotebookID m of
        None \<Rightarrow> (Err EMemoNoNotebook, w)
      | Some i \<Rightarrow>
          (case GetNotebook E i w of
             (Err _, w1) \<Rightarrow> (Err EGetNotebook, w1)
           | (Panics, w1) \<Rightarrow> (Panics, w1)
           | (Ok None, w1) \<Rightarrow> (Err ENotebookMissing, w1)
           | (Ok (Some nb), w1) \<Rightarrow> ensureNotebookHasDataset E nb (m_CreatorID m) w1))"

definition resolveNotebookDatasetID ::
  "env \<Rightarrow> content_type \<Rightarrow> string \<Rightarrow> world \<Rightarrow> string res \<times> world" where
  "resolveNotebookDatasetID E ct uid w =
     (case ct of
        ContentTypeMemo \<Rightarrow>
          (case GetMemoByUID E uid w of
             (Err _, w1) \<Rightarrow> (Err EGetMemo, w1)
           | (Panics, w1) \<Rightarrow> (Panics, w1)
           | (Ok None, w1) \<Rightarrow> (Err EMemoMissing, w1)
           | (Ok (Some m), w1) \<Rightarrow> dataset_of_memo E m w1)
      | ContentTypeAttachment \<Rightarrow>
          (case GetAttachmentByUID E uid w of
             (Err _, w1) \<Rightarrow> (Err EGetAttachment, w1)
           | (Panics, w1) \<Rightarrow> (Panics, w1)
           | (Ok None, w1) \<Rightarrow> (Err EAttachmentMissing, w1)
           | (Ok (Some a), w1) \<Rightarrow>
               (case a_MemoID a of
                  None \<Rightarrow> (Err EAttachmentNoMemo, w1)
                | Some i \<Rightarrow>
                    (case GetMemoByID E i w1 of
                       (Err _, w2) \<Rightarrow> (Err EGetMemo, w2)
                     | (Panics, w2) \<Rightarrow> (Panics, w2)
                     | (Ok None, w2) \<Rightarrow> (Err EMemoMissing, w2)
                     | (Ok (Some m), w2) \<Rightarrow> dataset_of_memo E m w2)))
      | OtherContentType t \<Rightarrow> (Err (EUnknownContentType t), w))"

subsection \<open>What the resolvers leave alone\<close>

text \<open>
  The resolvers write nothing but the dataset id of notebooks, and they make at most
  one call to the service, the creation of a dataset.
\<close>

definition resolver_frame :: "world \<Rightarrow> world \<Rightarrow> bool" where
  "resolver_frame w w' \<longleftrightarrow>
     w_table w' = w_table w \<and> w_memos w' = w_memos w \<and> w_attachments w' = w_attachments w \<and>
     w_mappings w' = w_mappings w"

lemma resolver_frame_refl [simp]: "resolver_frame w w"
  by (simp add: resolver_frame_def)

lemma resolver_frame_effects [simp]:
  "resolver_frame w (tick w') = resolver_frame w w'"
  "resolver_frame (tick w) w' = resolver_frame w w'"
  by (simp_all add: resolver_frame_def)

lemma resolver_frame_trans [trans]:
  "resolver_frame w w' \<Longrightarrow> resolver_frame w' w'' \<Longrightarrow> resolver_frame w w''"
  by (simp add: resolver_frame_def)

lemma resolver_frame_inv: "resolver_frame w w' \<Longrightarrow> world_inv w' = world_inv w"
  by (simp add: resolver_frame_def world_inv_def)

lemma UpdateNotebookDataset_eq:
  "UpdateNotebookDataset E i ds w =
    (if e_db_fails E (w_tick w) then (Err EDriver, tick w)
     else (Ok (), tick (w\<lparr>w_notebooks := map (set_dataset i ds) (w_notebooks w)\<rparr>)))"
  by (simp add: UpdateNotebookDataset_def db_write_def)

lemma getUsernameByID_snd [simp]: "snd (getUsernameByID E i w) = tick w"
  by (simp add: getUsernameByID_def split: option.splits)

lemma getUsernameByID_no_panic [simp]: "fst (getUsernameByID E i w) \<noteq> Panics"
  by (simp add: getUsernameByID_def split: option.splits)

lemma resolveUserClient_frame [simp]:
  "resolver_frame w (snd (resolveUserClient E i w))"
  "w_calls (snd (resolveUserClient E i w)) = w_calls w"
  "w_notebooks (snd (resolveUserClient E i w)) = w_notebooks w"
  "fst (resolveUserClient E i w) \<noteq> Panics"
  using getUsernameByID_snd [of E i w] getUsernameByID_no_panic [of E i w]
  by (auto simp: resolveUserClient_def GetClientForUser_def split: res.splits prod.splits
      simp del: getUsernameByID_snd getUsernameByID_no_panic)

text \<open>
  The ways through \<open>ensureNotebookHasDataset\<close>: the notebook has its dataset; nothing
  could be created; the uid is too short; or one dataset was created, for the owner,
  and its id returned, and written to the notebook if the database let it.
\<close>

lemma ensureNotebookHasDataset_cases:
  assumes "ensureNotebookHasDataset E nb owner w = (r, w')"
  obtains "n_DatasetID nb \<noteq> []" "r = Ok (n_DatasetID nb)" "w' = w"
  | e n where "n_DatasetID nb = []" "r = Err e" "e \<noteq> ECreateDataset" "w' = w\<lparr>w_tick := n\<rparr>"
  | n where "n_DatasetID nb = []" "r = Panics" "w' = w\<lparr>w_tick := n\<rparr>" "length (n_UID nb) < 8"
  | n where "n_DatasetID nb = []" "r = Err ECreateDataset" "w' = w\<lparr>w_tick := n, w_calls := w_calls w @
      [CreateDataset (UserClient owner) (''knowtree_nb_'' @ take 8 (n_UID nb)) (n_Title nb)]\<rparr>"
  | ds n nbs where "n_DatasetID nb = []" "r = Ok ds" "8 \<le> length (n_UID nb)"
      "w' = w\<lparr>w_tick := n, w_notebooks := nbs, w_calls := w_calls w @
      [CreateDataset (UserClient owner) (''knowtree_nb_'' @ take 8 (n_UID nb)) (n_Title nb)]\<rparr>"
      "nbs = map (set_dataset (n_ID nb) ds) (w_notebooks w) \<or>
       nbs = w_notebooks w \<and> e_db_fails E (n - 1)"
      "e_rf E (n - 2) = Some ds"
proof -
  have t: "tick v = v\<lparr>w_tick := w_tick v + 1\<rparr>" for v :: world by (simp add: tick_def)
  show thesis
  proof (cases "n_DatasetID nb = []")
    case False
    with assms show thesis by (intro that(1)) (auto simp: ensureNotebookHasDataset_def)
  next
    case empty: True
    consider (early) e where "e \<noteq> ECreateDataset" "ensureNotebookHasDataset E nb owner w = (Err e, w) \<or>
          ensureNotebookHasDataset E nb owner w = (Err e, tick w) \<or>
          ensureNotebookHasDataset E nb owner w = (Err e, tick (tick w))"
      | (client) name where "e_has_provisioner E" "fst (getUsernameByID E owner w) = Ok name"
          "GetClientForUser E owner (tick w) = (Ok (UserClient owner), tick (tick w))"
      using empty getUsernameByID_snd [of E owner w] getUsernameByID_no_panic [of E owner w]
      by (cases "e_has_provisioner E"; cases "getUsernameByID E owner w"; cases "fst (getUsernameByID E owner w)";
          cases "e_get_client E (w_tick w + 1) owner")
        (auto simp: ensureNotebookHasDataset_def GetClientForUser_def getUsernameByID_def split: option.splits)
    then show thesis
    proof cases
      case early
      with assms empty show thesis by (intro that(2) [of e "w_tick w'"]) (auto simp: t)
    next
      case (client name)
      from client(2) have u: "getUsernameByID E owner w = (Ok name, tick w)"
        by (metis getUsernameByID_snd prod.collapse)
      let ?call = "CreateDataset (UserClient owner) (''knowtree_nb_'' @ take 8 (n_UID nb)) (n_Title nb)"
      show thesis
      proof (cases "length (n_UID nb) < 8")
        case True
        with assms empty client u show thesis
          by (intro that(3) [of "w_tick w'"]) (auto simp: ensureNotebookHasDataset_def t)
      next
        case long: False
        show thesis
        proof (cases "e_rf E (w_tick w + 2)")
          case None
          with assms empty client u long show thesis
            by (intro that(4) [of "w_tick w'"]) (auto simp: ensureNotebookHasDataset_def t rf_def)
        next
          case (Some ds)
          with assms empty client u long show thesis
            by (intro that(5) [of ds "w_notebooks w'" "w_tick w'"])
              (auto simp: ensureNotebookHasDataset_def t rf_def UpdateNotebookDataset_eq split: if_splits)
        qed
      qed
    qed
  qed
qed

lemma ensureNotebookHasDataset_frame [simp]:
  "resolver_frame w (snd (ensureNotebookHasDataset E nb owner w))"
  by (cases "ensureNotebookHasDataset E nb owner w")
    (auto elim!: ensureNotebookHasDataset_cases simp: resolver_frame_def)

lemma dataset_of_memo_frame [simp]: "resolver_frame w (snd (dataset_of_memo E m w))"
  using ensureNotebookHasDataset_frame [of "tick w" E _ "m_CreatorID m"]
  by (auto simp: dataset_of_memo_def GetNotebook_def db_read_def split: option.splits
      simp del: ensureNotebookHasDataset_frame)

lemma resolveNotebookDatasetID_frame [simp]:
  "resolver_frame w (snd (resolveNotebookDatasetID E ct uid w))"
  using dataset_of_memo_frame [of "tick w" E] dataset_of_memo_frame [of "tick (tick w)" E]
  by (auto simp: resolveNotebookDatasetID_def GetMemoByUID_def GetAttachmentByUID_def GetMemoByID_def
      db_read_def split: option.splits content_type.splits simp del: dataset_of_memo_frame)

subsection \<open>One dataset per notebook\<close>

lemma notebook_of_set_dataset:
  "List.find (\<lambda>n. n_ID n = i) (map (set_dataset i ds) ns) =
     map_option (\<lambda>n. n\<lparr>n_DatasetID := ds\<rparr>) (List.find (\<lambda>n. n_ID n = i) ns)"
  by (induction ns) (auto simp: set_dataset_def)

lemma find_ID: "List.find (\<lambda>n. n_ID n = i) ns = Some nb \<Longrightarrow> n_ID nb = i"
  by (auto simp: find_Some_iff)

text \<open>The memo whose notebook decides the dataset of an item.\<close>

definition deciding_memo :: "content_type \<Rightarrow> string \<Rightarrow> world \<Rightarrow> memo option" where
  "deciding_memo ct uid w =
     (case ct of
        ContentTypeMemo \<Rightarrow> memo_of uid w
      | ContentTypeAttachment \<Rightarrow>
          (case attachment_of uid w of
             None \<Rightarrow> None
           | Some a \<Rightarrow> (case a_MemoID a of None \<Rightarrow> None
               | Some i \<Rightarrow> List.find (\<lambda>m. m_ID m = i) (w_memos w)))
      | OtherContentType _ \<Rightarrow> None)"

lemma deciding_memo_frame: "resolver_frame w w' \<Longrightarrow> deciding_memo ct uid w' = deciding_memo ct uid w"
  by (simp add: deciding_memo_def resolver_frame_def split: content_type.splits option.splits)

lemma resolve_decides:
  assumes "resolveNotebookDatasetID E ct uid w = (Ok ds, w')"
  obtains m v where "deciding_memo ct uid w = Some m" "v = tick w \<or> v = tick (tick w)"
    "dataset_of_memo E m v = (Ok ds, w')"
  using assms
  by (auto simp: resolveNotebookDatasetID_def deciding_memo_def GetMemoByUID_def GetAttachmentByUID_def
      GetMemoByID_def db_read_def split: content_type.splits option.splits if_splits)

lemma resolve_calm:
  assumes "\<And>k. \<not> e_db_fails E k" and "deciding_memo ct uid w = Some m"
  obtains v where "v = tick w \<or> v = tick (tick w)"
    "resolveNotebookDatasetID E ct uid w = dataset_of_memo E m v"
  using assms
  by (auto simp: resolveNotebookDatasetID_def deciding_memo_def GetMemoByUID_def GetAttachmentByUID_def
      GetMemoByID_def db_read_def split: content_type.splits option.splits)

lemma dataset_of_memo_Ok:
  assumes "dataset_of_memo E m w = (Ok ds, w')"
  obtains i nb where "m_NotebookID m = Some i" "notebook_of i w = Some nb"
    "ensureNotebookHasDataset E nb (m_CreatorID m) (tick w) = (Ok ds, w')"
  using assms
  by (auto simp: dataset_of_memo_def GetNotebook_def db_read_def split: option.splits if_splits)

text \<open>
  C7. When a dataset is resolved for an item, it is the one of the item's notebook, without a
  call to the service, or one that was just created: with the client of the memo's owner,
  named after the notebook, in one call, whose answer is the dataset. The notebook then has
  it, unless the database failed to write it back (which the code only logs, so that the next
  resolution creates another one). While no database call fails and the id is not empty,
  resolving again gives the same dataset and creates none.
\<close>

theorem dataset_created_once:
  assumes "resolveNotebookDatasetID E ct uid w = (Ok ds, w1)"
  shows "(\<exists>m i nb. deciding_memo ct uid w = Some m \<and> m_NotebookID m = Some i \<and>
      notebook_of i w = Some nb \<and>
      (if n_DatasetID nb \<noteq> [] then ds = n_DatasetID nb \<and> w_calls w1 = w_calls w
       else w_calls w1 = w_calls w @
          [CreateDataset (UserClient (m_CreatorID m)) (''knowtree_nb_'' @ take 8 (n_UID nb)) (n_Title nb)] \<and>
         e_rf E (w_tick w1 - 2) = Some ds \<and>
         (e_db_fails E (w_tick w1 - 1) \<or> notebook_of i w1 = Some (nb\<lparr>n_DatasetID := ds\<rparr>)))) \<and>
    (ds \<noteq> [] \<and> (\<forall>k. \<not> e_db_fails E k) \<longrightarrow>
      fst (resolveNotebookDatasetID E ct uid w1) = Ok ds \<and>
      w_calls (snd (resolveNotebookDatasetID E ct uid w1)) = w_calls w1)"
proof -
  obtain m v where m: "deciding_memo ct uid w = Some m" and v: "v = tick w \<or> v = tick (tick w)"
    and d: "dataset_of_memo E m v = (Ok ds, w1)"
    using assms by (rule resolve_decides)
  obtain i nb where i: "m_NotebookID m = Some i" and nb: "notebook_of i w = Some nb"
    and e: "ensureNotebookHasDataset E nb (m_CreatorID m) (tick v) = (Ok ds, w1)"
    using d v by (elim dataset_of_memo_Ok) auto
  have first: "if n_DatasetID nb \<noteq> [] then ds = n_DatasetID nb \<and> w_calls w1 = w_calls w
       else w_calls w1 = w_calls w @
          [CreateDataset (UserClient (m_CreatorID m)) (''knowtree_nb_'' @ take 8 (n_UID nb)) (n_Title nb)] \<and>
         e_rf E (w_tick w1 - 2) = Some ds \<and>
         (e_db_fails E (w_tick w1 - 1) \<or> notebook_of i w1 = Some (nb\<lparr>n_DatasetID := ds\<rparr>))"
    using e v nb find_ID [OF nb] by (auto elim!: ensureNotebookHasDataset_cases simp: notebook_of_set_dataset)
  have again: "fst (resolveNotebookDatasetID E ct uid w1) = Ok ds \<and>
      w_calls (snd (resolveNotebookDatasetID E ct uid w1)) = w_calls w1"
    if "ds \<noteq> []" and calm: "\<And>k. \<not> e_db_fails E k"
  proof -
    have "\<exists>nb'. notebook_of i w1 = Some nb' \<and> n_DatasetID nb' = ds"
      using e v nb find_ID [OF nb] calm
      by (auto elim!: ensureNotebookHasDataset_cases simp: notebook_of_set_dataset)
    then obtain nb' where nb': "notebook_of i w1 = Some nb'" "n_DatasetID nb' = ds" by blast
    have "resolver_frame w w1"
      using resolveNotebookDatasetID_frame [of w E ct uid] assms by simp
    then have "deciding_memo ct uid w1 = Some m" using m deciding_memo_frame by metis
    then obtain v' where v': "v' = tick w1 \<or> v' = tick (tick w1)"
      and r: "resolveNotebookDatasetID E ct uid w1 = dataset_of_memo E m v'"
      using resolve_calm [OF calm] by metis
    have "dataset_of_memo E m v' = (Ok ds, tick v')"
      using i nb' v' that
      by (auto simp: dataset_of_memo_def GetNotebook_def db_read_def ensureNotebookHasDataset_def)
    with r v' show ?thesis by auto
  qed
  from m i nb first again show ?thesis by blast
qed

definition sample_notebook :: notebook where
  "sample_notebook = \<lparr>n_ID = 2, n_UID = ''abcdefghij'', n_CreatorID = 7, n_Title = ''notes'',
     n_DatasetID = []\<rparr>"

definition notebook_world :: world where
  "notebook_world = memo_world\<lparr>w_notebooks := [sample_notebook]\<rparr>"

lemma notebook_world_inv [simp]: "world_inv notebook_world"
  using memo_world_inv by (simp add: notebook_world_def world_inv_def)

theorem dataset_created_once_witness:
  "w_calls (snd (resolveNotebookDatasetID calm ContentTypeMemo ''m1''
      (snd (resolveNotebookDatasetID calm ContentTypeMemo ''m1'' notebook_world)))) =
   [CreateDataset (UserClient 7) ''knowtree_nb_abcdefgh'' ''notes'']"
proof -
  have r: "resolveNotebookDatasetID calm ContentTypeMemo ''m1'' notebook_world =
      (Ok ''doc'', snd (resolveNotebookDatasetID calm ContentTypeMemo ''m1'' notebook_world))"
    by code_simp
  have c: "w_calls (snd (resolveNotebookDatasetID calm ContentTypeMemo ''m1'' notebook_world)) =
     [CreateDataset (UserClient 7) ''knowtree_nb_abcdefgh'' ''notes'']"
    by code_simp
  from dataset_created_once [OF r] c show ?thesis by simp
qed

end
