(* ===== verification/HealthChecker.thy ===== *)
theory HealthChecker
  imports Prelude
begin

section \<open>Health checker and circuit breaker (plugin/sync/health\_checker.go)\<close>

text \<open>
  The health checker watches the RAGFlow service and opens a circuit breaker after a
  number of consecutive failures. Its mutable fields are the record \<open>health\<close>. The
  outside world is two oracles indexed by an event counter that every call of
  \<open>time.Now\<close> and of \<open>client.HealthCheck\<close> advances: \<open>clk k\<close> is the reading of the
  clock, \<open>probe k\<close> says whether the probe succeeded.

  \<open>IsHealthy\<close> first reads a snapshot under the read lock and then enters one of two
  sections under the write lock. \<open>is_healthy\<close> is the call with no other call between
  the two; \<open>hc_step\<close> has one rule per locked section, so its runs are all
  interleavings of concurrent calls.
\<close>

record health =
  isHealthy :: bool
  lastCheckTime :: int
  failureCount :: int
  circuitOpen :: bool
  circuitOpenAt :: int
  checkInterval :: int
  failureThreshold :: int
  recoveryTimeout :: int

record health_config =
  CheckInterval :: int
  FailureThreshold :: int
  RecoveryTimeout :: int

record health_status =
  st_IsHealthy :: bool
  st_CircuitOpen :: bool
  st_FailureCount :: int
  st_LastCheckTime :: int
  st_CircuitOpenAt :: int

type_synonym clock = "nat \<Rightarrow> int"

subsection \<open>Operations\<close>

definition DefaultHealthCheckerConfig :: health_config where
  "DefaultHealthCheckerConfig =
     \<lparr>CheckInterval = 30 * second_ns, FailureThreshold = 3, RecoveryTimeout = 60 * second_ns\<rparr>"

definition NewHealthChecker :: "health_config option \<Rightarrow> health" where
  "NewHealthChecker cfg =
     (let c = (case cfg of None \<Rightarrow> DefaultHealthCheckerConfig | Some c \<Rightarrow> c) in
      \<lparr>isHealthy = True, lastCheckTime = zero_time, failureCount = 0,
       circuitOpen = False, circuitOpenAt = zero_time,
       checkInterval = CheckInterval c, failureThreshold = FailureThreshold c,
       recoveryTimeout = RecoveryTimeout c\<rparr>)"

definition openCircuit :: "int \<Rightarrow> health \<Rightarrow> health" where
  "openCircuit now h = h\<lparr>circuitOpen := True, circuitOpenAt := now\<rparr>"

definition performCheck ::
  "clock \<Rightarrow> (nat \<Rightarrow> bool) \<Rightarrow> nat \<Rightarrow> health \<Rightarrow> bool \<times> nat \<times> health" where
  "performCheck clk probe k h =
     (let h1 = h\<lparr>lastCheckTime := clk k\<rparr> in
      if \<not> probe (k + 1) then
        (let h2 = h1\<lparr>failureCount := failureCount h1 + 1, isHealthy := False\<rparr> in
         if failureThreshold h2 \<le> failureCount h2
         then (False, k + 3, openCircuit (clk (k + 2)) h2)
         else (False, k + 2, h2))
      else (True, k + 2, h1\<lparr>failureCount := 0, isHealthy := True\<rparr>))"

definition tryRecovery ::
  "clock \<Rightarrow> (nat \<Rightarrow> bool) \<Rightarrow> nat \<Rightarrow> health \<Rightarrow> bool \<times> nat \<times> health" where
  "tryRecovery clk probe k h =
     (if time_sub (clk k) (circuitOpenAt h) < recoveryTimeout h then (False, k + 1, h)
      else
        (let h1 = h\<lparr>lastCheckTime := clk (k + 1)\<rparr> in
         if \<not> probe (k + 2) then (False, k + 4, h1\<lparr>circuitOpenAt := clk (k + 3)\<rparr>)
         else (True, k + 3, h1\<lparr>circuitOpen := False, failureCount := 0, isHealthy := True\<rparr>)))"

definition is_healthy ::
  "clock \<Rightarrow> (nat \<Rightarrow> bool) \<Rightarrow> nat \<Rightarrow> health \<Rightarrow> bool \<times> nat \<times> health" where
  "is_healthy clk probe k h =
     (let timeSinceLastCheck = time_sub (clk k) (lastCheckTime h);
          cachedHealthy = isHealthy h
      in if circuitOpen h then tryRecovery clk probe (k + 1) h
         else if checkInterval h \<le> timeSinceLastCheck then performCheck clk probe (k + 1) h
         else (cachedHealthy, k + 1, h))"

definition IsCircuitOpen :: "health \<Rightarrow> bool" where
  "IsCircuitOpen h = circuitOpen h"

definition GetStatus :: "health \<Rightarrow> health_status" where
  "GetStatus h =
     \<lparr>st_IsHealthy = isHealthy h, st_CircuitOpen = circuitOpen h,
      st_FailureCount = failureCount h, st_LastCheckTime = lastCheckTime h,
      st_CircuitOpenAt = circuitOpenAt h\<rparr>"

definition RecordSuccess :: "health \<Rightarrow> health" where
  "RecordSuccess h =
     (let h1 = h\<lparr>failureCount := 0, isHealthy := True\<rparr> in
      if circuitOpen h1 then h1\<lparr>circuitOpen := False\<rparr> else h1)"

definition RecordFailure :: "clock \<Rightarrow> nat \<Rightarrow> health \<Rightarrow> nat \<times> health" where
  "RecordFailure clk k h =
     (let h1 = h\<lparr>failureCount := failureCount h + 1\<rparr> in
      if failureThreshold h1 \<le> failureCount h1 \<and> \<not> circuitOpen h1
      then (k + 1, openCircuit (clk k) h1) else (k, h1))"

definition ForceOpen :: "int \<Rightarrow> health \<Rightarrow> health" where
  "ForceOpen now h = h\<lparr>circuitOpen := True, circuitOpenAt := now, isHealthy := False\<rparr>"

definition ForceClose :: "health \<Rightarrow> health" where
  "ForceClose h = h\<lparr>circuitOpen := False, failureCount := 0, isHealthy := True\<rparr>"

text \<open>The background ticker calls \<open>IsHealthy\<close> once per tick, for as long as it runs.\<close>

fun background_ticks ::
  "clock \<Rightarrow> (nat \<Rightarrow> bool) \<Rightarrow> nat \<Rightarrow> nat \<Rightarrow> health \<Rightarrow> nat \<times> health" where
  "background_ticks clk probe 0 k h = (k, h)"
| "background_ticks clk probe (Suc n) k h =
     (case is_healthy clk probe k h of (_, k', h') \<Rightarrow> background_ticks clk probe n k' h')"

lemmas hc_defs = openCircuit_def performCheck_def tryRecovery_def is_healthy_def
  RecordSuccess_def RecordFailure_def ForceOpen_def ForceClose_def

subsection \<open>Interleavings of the locked sections\<close>

inductive hc_step :: "health \<Rightarrow> health \<Rightarrow> bool" where
  check: "hc_step h (snd (snd (performCheck clk probe k h)))"
| recover: "hc_step h (snd (snd (tryRecovery clk probe k h)))"
| success: "hc_step h (RecordSuccess h)"
| failure: "hc_step h (snd (RecordFailure clk k h))"
| force_open: "hc_step h (ForceOpen now h)"
| force_close: "hc_step h (ForceClose h)"

inductive_cases hc_stepE: "hc_step h h'"

definition hc_start :: "health \<Rightarrow> bool" where
  "hc_start h \<longleftrightarrow> (\<exists>cfg. h = NewHealthChecker cfg \<and> 0 < failureThreshold h)"

text \<open>
  The breaker's invariant: the count is never negative, and while the circuit is
  closed it is below the threshold, so a breaker that should have tripped is open.
\<close>

definition hc_inv :: "health \<Rightarrow> bool" where
  "hc_inv h \<longleftrightarrow> 0 < failureThreshold h \<and> 0 \<le> failureCount h \<and>
     (\<not> circuitOpen h \<longrightarrow> failureCount h < failureThreshold h)"

lemma hc_inv_step [inv_intros]: "hc_inv h \<Longrightarrow> hc_step h h' \<Longrightarrow> hc_inv h'"
  by (erule hc_stepE) (auto simp: hc_inv_def hc_defs Let_def split: if_splits)

lemma hc_inv_start: "hc_start h \<Longrightarrow> hc_inv h"
  by (auto simp: hc_start_def hc_inv_def NewHealthChecker_def Let_def)

interpretation hc: state_machine hc_start hc_step hc_inv
  by unfold_locales (auto intro: hc_inv_start hc_inv_step)

lemma is_healthy_steps: "hc_step\<^sup>*\<^sup>* h (snd (snd (is_healthy clk probe k h)))"
  by (auto simp: is_healthy_def Let_def intro!: hc_step.intros r_into_rtranclp)

text \<open>
  C1. In every state that any interleaving of the health checker's locked sections
  reaches from a new checker with a positive threshold, the failure count is not
  negative, and it is below the threshold unless the circuit is open.
\<close>

theorem breaker_trips_in_time:
  assumes "0 < failureThreshold (NewHealthChecker cfg)"
    and "hc_step\<^sup>*\<^sup>* (NewHealthChecker cfg) h"
  shows "0 \<le> failureCount h \<and>
    (circuitOpen h \<or> failureCount h < failureThreshold (NewHealthChecker cfg))"
proof -
  have "hc_step\<^sup>*\<^sup>* g h \<Longrightarrow> failureThreshold h = failureThreshold g" for g
    by (induction rule: rtranclp_induct)
      (auto elim!: hc_stepE simp: hc_defs Let_def split: if_splits)
  moreover have "hc_inv h"
    using assms by (intro hc.inv_reachable [of "NewHealthChecker cfg"]) (auto simp: hc_start_def)
  ultimately show ?thesis using assms(2) by (auto simp: hc_inv_def)
qed

theorem breaker_trips_in_time_witness:
  "circuitOpen (ForceOpen 5 (NewHealthChecker None)) \<or>
   failureCount (ForceOpen 5 (NewHealthChecker None)) < failureThreshold (NewHealthChecker None)"
proof -
  have "0 < failureThreshold (NewHealthChecker None)"
    by (simp add: NewHealthChecker_def DefaultHealthCheckerConfig_def)
  moreover have "hc_step\<^sup>*\<^sup>* (NewHealthChecker None) (ForceOpen 5 (NewHealthChecker None))"
    by (intro r_into_rtranclp hc_step.force_open)
  ultimately show ?thesis using breaker_trips_in_time by blast
qed

subsection \<open>What a verdict means\<close>

text \<open>
  While the circuit is open and the recovery timeout has not passed, \<open>IsHealthy\<close>
  answers false at once: it makes no probe (only two clock readings happen, whatever
  the service would answer) and leaves the checker as it is.
\<close>

theorem open_circuit_fails_fast:
  assumes "circuitOpen h"
    and "time_sub (clk (k + 1)) (circuitOpenAt h) < recoveryTimeout h"
  shows "is_healthy clk probe k h = (False, k + 2, h)"
  using assms by (simp add: is_healthy_def tryRecovery_def)

theorem open_circuit_fails_fast_witness:
  "is_healthy (\<lambda>k. int k) (\<lambda>_. True) 3 (ForceOpen 3 (NewHealthChecker None))
     = (False, 5, ForceOpen 3 (NewHealthChecker None))"
  using open_circuit_fails_fast
    [of "ForceOpen 3 (NewHealthChecker None)" "\<lambda>k. int k" 3 "\<lambda>_. True"]
  by (simp add: ForceOpen_def NewHealthChecker_def DefaultHealthCheckerConfig_def
      time_sub_def min_int64_def max_int64_def second_ns_def)

text \<open>
  The failures of consecutive operations, with no success between them: \<open>n\<close> calls of
  \<open>RecordFailure\<close>.
\<close>

fun record_failures :: "clock \<Rightarrow> nat \<Rightarrow> nat \<Rightarrow> health \<Rightarrow> nat \<times> health" where
  "record_failures clk 0 k h = (k, h)"
| "record_failures clk (Suc n) k h =
     (case RecordFailure clk k h of (k', h') \<Rightarrow> record_failures clk n k' h')"

lemma record_failures_open:
  "circuitOpen h \<Longrightarrow> circuitOpen (snd (record_failures clk n k h))"
  by (induction n arbitrary: k h) (auto simp: RecordFailure_def Let_def)

lemma record_failures_circuit:
  assumes "\<not> circuitOpen h" and "failureCount h < failureThreshold h"
  shows "circuitOpen (snd (record_failures clk n k h)) \<longleftrightarrow>
    failureThreshold h \<le> failureCount h + int n"
  using assms
proof (induction n arbitrary: k h)
  case 0
  then show ?case by simp
next
  case (Suc n)
  show ?case
  proof (cases "failureThreshold h \<le> failureCount h + 1")
    case True
    with Suc.prems show ?thesis
      by (simp add: RecordFailure_def openCircuit_def record_failures_open)
  next
    case False
    let ?h = "h\<lparr>failureCount := failureCount h + 1\<rparr>"
    from False have "record_failures clk (Suc n) k h = record_failures clk n k ?h"
      by (simp add: RecordFailure_def)
    moreover from False Suc.prems
    have "circuitOpen (snd (record_failures clk n k ?h)) \<longleftrightarrow>
        failureThreshold ?h \<le> failureCount ?h + int n"
      by (intro Suc.IH) simp_all
    ultimately show ?thesis by (simp add: algebra_simps)
  qed
qed

text \<open>
  From a closed circuit with no failure counted, \<open>n\<close> failures in a row open the
  circuit exactly when \<open>n\<close> reaches the configured threshold, and \<open>RecordSuccess\<close>
  afterwards always closes it and clears the count.
\<close>

theorem consecutive_failures_trip:
  assumes "\<not> circuitOpen h" and "failureCount h = 0" and "0 < failureThreshold h"
  shows "(circuitOpen (snd (record_failures clk n k h)) \<longleftrightarrow> failureThreshold h \<le> int n) \<and>
    \<not> circuitOpen (RecordSuccess (snd (record_failures clk n k h))) \<and>
    failureCount (RecordSuccess (snd (record_failures clk n k h))) = 0"
  using record_failures_circuit [of h clk n k] assms
  by (simp add: RecordSuccess_def Let_def)

theorem consecutive_failures_trip_witness:
  "circuitOpen (snd (record_failures (\<lambda>_. 7) 3 0 (NewHealthChecker None))) \<and>
   \<not> circuitOpen (snd (record_failures (\<lambda>_. 7) 2 0 (NewHealthChecker None)))"
  using consecutive_failures_trip [of "NewHealthChecker None" "\<lambda>_. 7" 3 0]
    consecutive_failures_trip [of "NewHealthChecker None" "\<lambda>_. 7" 2 0]
  by (simp add: NewHealthChecker_def DefaultHealthCheckerConfig_def)

text \<open>
  A verdict of true is backed by a probe that just succeeded or by a cached healthy
  state younger than the check interval, and the circuit is closed afterwards.
\<close>

lemma healthy_verdict:
  assumes "is_healthy clk probe k h = (True, k', h')"
  shows "\<not> circuitOpen h' \<and> isHealthy h' \<and>
    (failureCount h' = 0 \<or>
     h' = h \<and> time_sub (clk k) (lastCheckTime h) < checkInterval h)"
  using assms
  by (auto simp: hc_defs Let_def split: if_splits)

text \<open>
  After a failed check the verdict is false until a probe or an operation succeeds:
  the count only grows.
\<close>

lemma unhealthy_verdict_counts:
  assumes "is_healthy clk probe k h = (False, k', h')"
  shows "failureCount h \<le> failureCount h'"
  using assms by (auto simp: hc_defs Let_def split: if_splits)

lemma background_ticks_inv [inv_intros]:
  "hc_inv h \<Longrightarrow> hc_inv (snd (background_ticks clk probe n k h))"
proof (induction n arbitrary: k h)
  case 0
  then show ?case by simp
next
  case (Suc n)
  have "hc_inv (snd (snd (is_healthy clk probe k h)))"
    using hc.inv_steps [OF is_healthy_steps] Suc.prems by blast
  with Suc.IH show ?case by (auto split: prod.splits)
qed

end
