(* ===== verification/Orchestrator.thy ===== *)
theory Orchestrator
  imports DatasetResolver HealthChecker
begin

section \<open>Sync orchestrator (plugin/sync/orchestrator.go)\<close>

text \<open>
  The entry points of the sync subsystem: single events, the periodic batch, visibility
  changes and the deletion of a user. The state is the sync world together with the
  health checker; the health checker reads the same clock and probes the same service,
  so its oracles are those of the environment and it advances the same tick.
\<close>

record orchestrator =
  o_world :: world
  o_health :: health

datatype event_type = SyncEventCreate | SyncEventUpdate | SyncEventDelete | OtherEvent string

record sync_event =
  ev_Type :: event_type
  ev_ContentType :: content_type
  ev_ContentUID :: string
  ev_UserID :: int

record sync_stats =
  PendingCount :: int
  SyncedCount :: int
  FailedCount :: int
  SkippedCount :: int
  TotalCount :: int

subsection \<open>Health\<close>

definition check_health :: "env \<Rightarrow> orchestrator \<Rightarrow> bool \<times> orchestrator" where
  "check_health E s =
     (case is_healthy (e_now E) (e_probe E) (w_tick (o_world s)) (o_health s) of
        (b, k, h) \<Rightarrow> (b, \<lparr>o_world = (o_world s)\<lparr>w_tick := k\<rparr>, o_health = h\<rparr>))"

definition record_failure :: "env \<Rightarrow> orchestrator \<Rightarrow> orchestrator" where
  "record_failure E s =
     (case RecordFailure (e_now E) (w_tick (o_world s)) (o_health s) of
        (k, h) \<Rightarrow> \<lparr>o_world = (o_world s)\<lparr>w_tick := k\<rparr>, o_health = h\<rparr>)"

definition record_success :: "orchestrator \<Rightarrow> orchestrator" where
  "record_success s = s\<lparr>o_health := RecordSuccess (o_health s)\<rparr>"

text \<open>An operation on the world alone, run inside the orchestrator.\<close>

definition on_world :: "(world \<Rightarrow> 'a \<times> world) \<Rightarrow> orchestrator \<Rightarrow> 'a \<times> orchestrator" where
  "on_world f s = (case f (o_world s) of (a, w) \<Rightarrow> (a, s\<lparr>o_world := w\<rparr>))"

subsection \<open>Events\<close>

definition sync_item ::
  "env \<Rightarrow> content_type \<Rightarrow> string \<Rightarrow> string \<Rightarrow> client \<Rightarrow> world \<Rightarrow> unit res \<times> world" where
  "sync_item E ct uid datasetID c w =
     (case ct of
        ContentTypeMemo \<Rightarrow> SyncMemo E uid datasetID c w
      | ContentTypeAttachment \<Rightarrow> SyncAttachment E uid datasetID c w
      | OtherContentType _ \<Rightarrow> (Ok (), w))"

definition handleCreateOrUpdate ::
  "env \<Rightarrow> sync_event \<Rightarrow> orchestrator \<Rightarrow> unit res \<times> orchestrator" where
  "handleCreateOrUpdate E ev s =
     (case on_world (resolveUserClient E (ev_UserID ev)) s of
        (Err _, s1) \<Rightarrow> (Err EGetClient, s1)
      | (Panics, s1) \<Rightarrow> (Panics, s1)
      | (Ok c, s1) \<Rightarrow>
          (case on_world (resolveNotebookDatasetID E (ev_ContentType ev) (ev_ContentUID ev)) s1 of
             (Err _, s2) \<Rightarrow> (Ok (), s2)
           | (Panics, s2) \<Rightarrow> (Panics, s2)
           | (Ok datasetID, s2) \<Rightarrow>
               if datasetID = [] then (Ok (), s2)
               else if \<not> valid_content_type (ev_ContentType ev) then (Ok (), s2)
               else
                 (case on_world (sync_item E (ev_ContentType ev) (ev_ContentUID ev) datasetID c) s2 of
                    (Err e, s3) \<Rightarrow> (Err e, record_failure E s3)
                  | (Panics, s3) \<Rightarrow> (Panics, s3)
                  | (Ok _, s3) \<Rightarrow> (Ok (), record_success s3))))"

text \<open>Where a failure to get the user's client falls back to the client of the system.\<close>

definition or_system :: "client res \<Rightarrow> client" where
  "or_system r = (case r of Ok c \<Rightarrow> c | _ \<Rightarrow> SystemClient)"

definition handleDelete :: "env \<Rightarrow> sync_event \<Rightarrow> orchestrator \<Rightarrow> unit res \<times> orchestrator" where
  "handleDelete E ev s =
     (case on_world (resolveUserClient E (ev_UserID ev)) s of
        (Panics, s1) \<Rightarrow> (Panics, s1)
      | (r, s1) \<Rightarrow>
          (let c = or_system r in
           case ev_ContentType ev of
             ContentTypeMemo \<Rightarrow> on_world (DeleteMemoFromRAGFlow E (ev_ContentUID ev) c) s1
           | ContentTypeAttachment \<Rightarrow> on_world (DeleteAttachmentFromRAGFlow E (ev_ContentUID ev) c) s1
           | OtherContentType _ \<Rightarrow> (Ok (), s1)))"

definition persist_event :: "env \<Rightarrow> sync_event \<Rightarrow> orchestrator \<Rightarrow> bool res \<times> orchestrator" where
  "persist_event E ev s =
     (if ev_Type ev = SyncEventCreate \<or> ev_Type ev = SyncEventUpdate
      then on_world (EnsurePendingState E (ev_ContentType ev) (ev_ContentUID ev) (ev_UserID ev)) s
      else (Ok False, s))"

definition HandleSyncEvent :: "env \<Rightarrow> sync_event \<Rightarrow> orchestrator \<Rightarrow> unit res \<times> orchestrator" where
  "HandleSyncEvent E ev s =
     (case persist_event E ev s of
        (Panics, s1) \<Rightarrow> (Panics, s1)
      | (_, s1) \<Rightarrow>
          (case check_health E s1 of
             (False, s2) \<Rightarrow> (Ok (), s2)
           | (True, s2) \<Rightarrow>
               (case ev_Type ev of
                  SyncEventCreate \<Rightarrow> handleCreateOrUpdate E ev s2
                | SyncEventUpdate \<Rightarrow> handleCreateOrUpdate E ev s2
                | SyncEventDelete \<Rightarrow> handleDelete E ev s2
                | OtherEvent t \<Rightarrow> (Err (EUnknownEventType t), s2))))"

subsection \<open>Batches\<close>

text \<open>The closure that \<open>RunBatchSync\<close> hands to the syncers.\<close>

definition resourceGetter :: "env \<Rightarrow> resource_getter" where
  "resourceGetter E ownerID ct uid w =
     (case resolveUserClient E ownerID w of
        (Err e, w1) \<Rightarrow> (Err e, w1)
      | (Panics, w1) \<Rightarrow> (Panics, w1)
      | (Ok c, w1) \<Rightarrow>
          (case resolveNotebookDatasetID E ct uid w1 of
             (Err e, w2) \<Rightarrow> (Err e, w2)
           | (Panics, w2) \<Rightarrow> (Panics, w2)
           | (Ok datasetID, w2) \<Rightarrow>
               if datasetID = [] then (Err ENoDataset, w2) else (Ok (c, datasetID), w2)))"

text \<open>\<open>Store.ListMemos\<close> with the normal status: newest first, then by id.\<close>

definition ListNormalMemos :: "env \<Rightarrow> world \<Rightarrow> memo list res \<times> world" where
  "ListNormalMemos E w =
     db_read E (\<lambda>w. sort_key (\<lambda>m. - m_CreatedTs m) (sort_key (\<lambda>m. - m_ID m)
       (filter (\<lambda>m. m_RowStatus m = Normal) (w_memos w)))) w"

fun ensure_all ::
  "env \<Rightarrow> content_type \<Rightarrow> (string \<times> int) list \<Rightarrow> int \<Rightarrow> world \<Rightarrow> int res \<times> world" where
  "ensure_all E ct [] n w = (Ok n, w)"
| "ensure_all E ct ((uid, owner) # rest) n w =
     (case EnsurePendingState E ct uid owner w of
        (Panics, w1) \<Rightarrow> (Panics, w1)
      | (Err _, w1) \<Rightarrow> ensure_all E ct rest n w1
      | (Ok created, w1) \<Rightarrow> ensure_all E ct rest (if created then n + 1 else n) w1)"

definition discover_memos :: "env \<Rightarrow> world \<Rightarrow> int res \<times> world" where
  "discover_memos E w =
     (case ListNormalMemos E w of
        (Panics, w1) \<Rightarrow> (Panics, w1)
      | (Err _, w1) \<Rightarrow> (Ok 0, w1)
      | (Ok ms, w1) \<Rightarrow> ensure_all E ContentTypeMemo (map (\<lambda>m. (m_UID m, m_CreatorID m)) ms) 0 w1)"

definition discover_attachments :: "env \<Rightarrow> int \<Rightarrow> world \<Rightarrow> int res \<times> world" where
  "discover_attachments E n w =
     (case ListAttachments E (\<lambda>_. True) w of
        (Panics, w1) \<Rightarrow> (Panics, w1)
      | (Err _, w1) \<Rightarrow> (Ok n, w1)
      | (Ok as, w1) \<Rightarrow> ensure_all E ContentTypeAttachment (map (\<lambda>a. (a_UID a, a_CreatorID a)) as) n w1)"

definition discoverUntrackedContent :: "env \<Rightarrow> world \<Rightarrow> int res \<times> world" where
  "discoverUntrackedContent E w =
     (case discover_memos E w of
        (Ok n, w1) \<Rightarrow>
          (case discover_attachments E n w1 of
             (Ok newlyCreated, w2) \<Rightarrow>
               (case ResetNonPendingStates E w2 of
                  (Panics, w3) \<Rightarrow> (Panics, w3)
                | (Err _, w3) \<Rightarrow> (Ok newlyCreated, w3)
                | (Ok resetCount, w3) \<Rightarrow> (Ok (newlyCreated + resetCount), w3))
           | (r, w2) \<Rightarrow> (r, w2))
      | (r, w1) \<Rightarrow> (r, w1))"

fun retry_rows ::
  "env \<Rightarrow> content_sync_state list \<Rightarrow> int \<Rightarrow> int \<Rightarrow> world \<Rightarrow> (int \<times> int) res \<times> world" where
  "retry_rows E [] ok bad w = (Ok (ok, bad), w)"
| "retry_rows E (s # ss) ok bad w =
     (case resolveUserClient E (cs_OwnerID s) w of
        (Panics, w1) \<Rightarrow> (Panics, w1)
      | (Err _, w1) \<Rightarrow> retry_rows E ss ok (bad + 1) w1
      | (Ok c, w1) \<Rightarrow>
          (case resolveNotebookDatasetID E (cs_ContentType s) (cs_ContentUID s) w1 of
             (Panics, w2) \<Rightarrow> (Panics, w2)
           | (Err _, w2) \<Rightarrow> retry_rows E ss ok (bad + 1) w2
           | (Ok datasetID, w2) \<Rightarrow>
               (case sync_item E (cs_ContentType s) (cs_ContentUID s) datasetID c w2 of
                  (Panics, w3) \<Rightarrow> (Panics, w3)
                | (Err e, w3) \<Rightarrow>
                    (case MarkAsFailed E (cs_ID s) (cs_RetryCount s) (ErrorText e) w3 of
                       (Panics, w4) \<Rightarrow> (Panics, w4)
                     | (_, w4) \<Rightarrow> retry_rows E ss ok (bad + 1) w4)
                | (Ok _, w3) \<Rightarrow> retry_rows E ss (ok + 1) bad w3)))"

definition retryFailedStates :: "env \<Rightarrow> world \<Rightarrow> (int \<times> int) res \<times> world" where
  "retryFailedStates E w =
     (case ListRetryableStates E (e_batchSize E) w of
        (Panics, w1) \<Rightarrow> (Panics, w1)
      | (Err _, w1) \<Rightarrow> (Ok (0, 0), w1)
      | (Ok states, w1) \<Rightarrow> retry_rows E states 0 0 w1)"

fun bind_owners :: "env \<Rightarrow> int list \<Rightarrow> int \<Rightarrow> int \<Rightarrow> world \<Rightarrow> (int \<times> int) \<times> world" where
  "bind_owners E [] ok bad w = ((ok, bad), w)"
| "bind_owners E (i # is) ok bad w =
     (if e_bind E (w_tick w) i then bind_owners E is (ok + 1) bad (tick w)
      else bind_owners E is ok (bad + 1) (tick w))"

definition ensureAssistantDatasetBindings :: "env \<Rightarrow> world \<Rightarrow> (int \<times> int) res \<times> world" where
  "ensureAssistantDatasetBindings E w =
     (if \<not> e_has_provisioner E then (Ok (0, 0), w)
      else case ListContentSyncStates E (find_all\<lparr>f_RAGFlowStatus := Some RAGFlowSyncStatusSynced\<rparr>) w of
          (Panics, w1) \<Rightarrow> (Panics, w1)
        | (Err _, w1) \<Rightarrow> (Ok (0, 0), w1)
        | (Ok states, w1) \<Rightarrow>
            (case bind_owners E (e_map_order E (w_tick w1) (remdups (map cs_OwnerID states))) 0 0 w1 of
               (counts, w2) \<Rightarrow> (Ok counts, w2)))"

text \<open>A batch step whose error is only logged: its counts are then zero.\<close>

definition logged :: "(int \<times> int) res \<times> world \<Rightarrow> (int \<times> int) res \<times> world" where
  "logged x = (case x of (Err _, w) \<Rightarrow> (Ok (0, 0), w) | (r, w) \<Rightarrow> (r, w))"

definition batch_body :: "env \<Rightarrow> world \<Rightarrow> unit res \<times> world" where
  "batch_body E w =
     (case now E w of (_, w0) \<Rightarrow>
      case discoverUntrackedContent E w0 of
        (Panics, w1) \<Rightarrow> (Panics, w1)
      | (_, w1) \<Rightarrow>
     (case logged (SyncPendingMemos E (resourceGetter E) (e_batchSize E) w1) of
        (Ok (memoSuccess, _), w2) \<Rightarrow>
     (case logged (SyncPendingAttachments E (resourceGetter E) (e_batchSize E) w2) of
        (Ok (attachmentSuccess, _), w3) \<Rightarrow>
     (case retryFailedStates E w3 of
        (Ok (retrySuccess, _), w4) \<Rightarrow>
          if 0 < memoSuccess + attachmentSuccess + retrySuccess then
            (case ensureAssistantDatasetBindings E w4 of
               (Panics, w5) \<Rightarrow> (Panics, w5)
             | (_, w5) \<Rightarrow> (Ok (), snd (now E w5)))
          else (Ok (), snd (now E w4))
      | (_, w4) \<Rightarrow> (Panics, w4))
      | (_, w3) \<Rightarrow> (Panics, w3))
      | (_, w2) \<Rightarrow> (Panics, w2)))"

definition RunBatchSync :: "env \<Rightarrow> orchestrator \<Rightarrow> unit res \<times> orchestrator" where
  "RunBatchSync E s =
     (case check_health E s of
        (False, s1) \<Rightarrow> (Ok (), s1)
      | (True, s1) \<Rightarrow> on_world (batch_body E) s1)"

subsection \<open>Visibility changes, user deletion, statistics\<close>

text \<open>
  A memo that does not exist gives no error: the code wraps the nil error of the lookup,
  and \<open>errors.Wrap(nil, _)\<close> is nil.
\<close>

definition change_visibility :: "env \<Rightarrow> string \<Rightarrow> visibility \<Rightarrow> world \<Rightarrow> unit res \<times> world" where
  "change_visibility E memoUID v w =
     (case GetMemoByUID E memoUID w of
        (Err _, w1) \<Rightarrow> (Err EGetMemo, w1)
      | (Panics, w1) \<Rightarrow> (Panics, w1)
      | (Ok None, w1) \<Rightarrow> (Ok (), w1)
      | (Ok (Some m), w1) \<Rightarrow>
          (case resolveUserClient E (m_CreatorID m) w1 of
             (Panics, w2) \<Rightarrow> (Panics, w2)
           | (r, w2) \<Rightarrow>
               (let c = or_system r in
                case VisibilityHandler.HandleVisibilityChange E memoUID v c w2 of
                  (Err e, w3) \<Rightarrow> (Err e, w3)
                | (Panics, w3) \<Rightarrow> (Panics, w3)
                | (Ok _, w3) \<Rightarrow>
                    (case HandleAttachmentVisibilityChange E memoUID v c w3 of
                       (Panics, w4) \<Rightarrow> (Panics, w4)
                     | (_, w4) \<Rightarrow> (Ok (), w4)))))"

definition OrchestratorVisibilityChange ::
  "env \<Rightarrow> string \<Rightarrow> visibility \<Rightarrow> orchestrator \<Rightarrow> unit res \<times> orchestrator" where
  "OrchestratorVisibilityChange E memoUID v s =
     (case check_health E s of
        (False, s1) \<Rightarrow> (Ok (), s1)
      | (True, s1) \<Rightarrow> on_world (change_visibility E memoUID v) s1)"

definition GetRAGFlowUserMapping :: "env \<Rightarrow> int \<Rightarrow> world \<Rightarrow> user_mapping option res \<times> world" where
  "GetRAGFlowUserMapping E userID w =
     db_read E (\<lambda>w. List.find (\<lambda>u. um_UserID u = userID) (w_mappings w)) w"

definition DeleteRAGFlowUserMapping :: "env \<Rightarrow> int \<Rightarrow> world \<Rightarrow> unit res \<times> world" where
  "DeleteRAGFlowUserMapping E userID w =
     db_write E (\<lambda>w. Some ((), w\<lparr>w_mappings := filter (\<lambda>u. um_UserID u \<noteq> userID) (w_mappings w)\<rparr>)) w"

definition clean_service :: "env \<Rightarrow> user_mapping \<Rightarrow> client \<Rightarrow> world \<Rightarrow> world" where
  "clean_service E u c w =
     (let w1 = (if um_DatasetID u \<noteq> [] then snd (rf E (DeleteDataset c (um_DatasetID u)) w) else w)
      in if um_AssistantID u \<noteq> [] then snd (rf E (DeleteChatAssistant c (um_AssistantID u)) w1) else w1)"

definition delete_user_rows :: "env \<Rightarrow> int \<Rightarrow> world \<Rightarrow> unit res \<times> world" where
  "delete_user_rows E userID w =
     (case DeleteRAGFlowUserMapping E userID w of
        (Err _, w1) \<Rightarrow> (Err EDeleteMapping, w1)
      | (Panics, w1) \<Rightarrow> (Panics, w1)
      | (Ok _, w1) \<Rightarrow>
          (case DeleteStatesByOwner E userID w1 of
             (Err _, w2) \<Rightarrow> (Err EDeleteState, w2)
           | (Panics, w2) \<Rightarrow> (Panics, w2)
           | (Ok _, w2) \<Rightarrow> (Ok (), w2)))"

definition HandleUserDeletion :: "env \<Rightarrow> int \<Rightarrow> world \<Rightarrow> unit res \<times> world" where
  "HandleUserDeletion E userID w =
     (case GetRAGFlowUserMapping E userID w of
        (Err _, w1) \<Rightarrow> (Err EQueryMapping, w1)
      | (Panics, w1) \<Rightarrow> (Panics, w1)
      | (Ok None, w1) \<Rightarrow> (Ok (), w1)
      | (Ok (Some u), w1) \<Rightarrow>
          (case resolveUserClient E userID w1 of
             (Panics, w2) \<Rightarrow> (Panics, w2)
           | (r, w2) \<Rightarrow> delete_user_rows E userID (clean_service E u (or_system r) w2)))"

text \<open>A listing that fails counts as empty.\<close>

definition count_status :: "env \<Rightarrow> sync_status \<Rightarrow> world \<Rightarrow> int \<times> world" where
  "count_status E st w =
     (case ListContentSyncStates E (find_all\<lparr>f_RAGFlowStatus := Some st\<rparr>) w of
        (Ok ss, w1) \<Rightarrow> (int (length ss), w1) | (_, w1) \<Rightarrow> (0, w1))"

definition GetSyncStats :: "env \<Rightarrow> world \<Rightarrow> sync_stats \<times> world" where
  "GetSyncStats E w =
     (let (pending, w1) = count_status E RAGFlowSyncStatusPending w;
          (synced, w2) = count_status E RAGFlowSyncStatusSynced w1;
          (failed, w3) = count_status E RAGFlowSyncStatusFailed w2;
          (skipped, w4) = count_status E RAGFlowSyncStatusSkipped w3
      in (\<lparr>PendingCount = pending, SyncedCount = synced, FailedCount = failed, SkippedCount = skipped,
           TotalCount = pending + synced + failed + skipped\<rparr>, w4))"

subsection \<open>Every operation keeps the invariant of the state table\<close>

lemma world_inv_frame [inv_intros]:
  "world_inv w \<Longrightarrow> world_inv (snd (resolveUserClient E i w))"
  "world_inv w \<Longrightarrow> world_inv (snd (resolveNotebookDatasetID E ct uid w))"
  using resolver_frame_inv resolveUserClient_frame(1) resolveNotebookDatasetID_frame by blast+

lemma world_inv_reads [inv_intros]:
  "world_inv w \<Longrightarrow> world_inv (snd (ListContentSyncStates E f w))"
  "world_inv w \<Longrightarrow> world_inv (snd (GetSyncState E ct uid w))"
  "world_inv w \<Longrightarrow> world_inv (snd (GetMemoByUID E uid w))"
  "world_inv w \<Longrightarrow> world_inv (snd (ListAttachments E p w))"
  "world_inv w \<Longrightarrow> world_inv (snd (ListNormalMemos E w))"
  "world_inv w \<Longrightarrow> world_inv (snd (GetRAGFlowUserMapping E i w))"
  by (simp_all add: ListContentSyncStates_def GetSyncState_eq GetMemoByUID_def ListAttachments_def
      ListNormalMemos_def GetRAGFlowUserMapping_def)

lemma sync_item_inv [inv_intros]: "world_inv w \<Longrightarrow> world_inv (snd (sync_item E ct uid ds c w))"
  by (auto simp: sync_item_def split: content_type.splits intro: inv_intros)

lemma delete_remote_inv [inv_intros]:
  "world_inv w \<Longrightarrow> world_inv (snd (delete_remote_and_state E ct uid c w))"
  by (auto simp: delete_remote_and_state_def GetSyncState_eq split_beta Let_def
      split: res.splits option.splits intro!: inv_intros)

lemma resourceGetter_inv [inv_intros]:
  "world_inv w \<Longrightarrow> world_inv (snd (resourceGetter E i ct uid w))"
  by (auto simp: resourceGetter_def split_beta split: res.splits intro!: inv_intros)

lemma sync_rows_inv:
  assumes "\<And>i ct uid w. world_inv w \<Longrightarrow> world_inv (snd (getter i ct uid w))"
    and "\<And>uid ds c w. world_inv w \<Longrightarrow> world_inv (snd (sync uid ds c w))"
  shows "world_inv w \<Longrightarrow> world_inv (snd (sync_rows E getter sync ss ok bad w))"
proof (induction ss arbitrary: ok bad w)
  case (Cons s ss)
  then show ?case by (auto simp: split_beta split: res.splits intro!: Cons.IH assms inv_intros)
qed simp

lemma ensure_all_inv [inv_intros]: "world_inv w \<Longrightarrow> world_inv (snd (ensure_all E ct xs n w))"
proof (induction xs arbitrary: n w)
  case (Cons x xs)
  then show ?case by (cases x) (auto simp: split_beta split: res.splits intro!: Cons.IH inv_intros)
qed simp

lemma reset_all_inv [inv_intros]: "world_inv w \<Longrightarrow> world_inv (snd (reset_all E ss w n))"
proof (induction ss arbitrary: n w)
  case (Cons s ss)
  then show ?case by (auto simp: split_beta split: res.splits intro!: Cons.IH inv_intros)
qed simp

lemma retry_rows_inv [inv_intros]: "world_inv w \<Longrightarrow> world_inv (snd (retry_rows E ss ok bad w))"
proof (induction ss arbitrary: ok bad w)
  case (Cons s ss)
  then show ?case by (auto simp: split_beta split: res.splits intro!: Cons.IH inv_intros)
qed simp

lemma bind_owners_table [simp]: "w_table (snd (bind_owners E is ok bad w)) = w_table w"
  by (induction "is" arbitrary: ok bad w) auto

lemma bind_owners_inv [inv_intros]: "world_inv w \<Longrightarrow> world_inv (snd (bind_owners E is ok bad w))"
  by (simp add: world_inv_def)

lemma discover_inv [inv_intros]:
  assumes "world_inv w"
  shows "world_inv (snd (discover_memos E w))" "world_inv (snd (discover_attachments E n w))"
    "world_inv (snd (ResetNonPendingStates E w))"
  using assms
  by (auto simp: discover_memos_def discover_attachments_def ResetNonPendingStates_def split_beta
      split: res.splits intro!: inv_intros)

lemma batch_inv [inv_intros]:
  assumes "world_inv w"
  shows "world_inv (snd (discoverUntrackedContent E w))" "world_inv (snd (retryFailedStates E w))"
    "world_inv (snd (SyncPendingMemos E (resourceGetter E) n w))"
    "world_inv (snd (SyncPendingAttachments E (resourceGetter E) n w))"
    "world_inv (snd (ensureAssistantDatasetBindings E w))"
proof -
  have ap: "world_inv v \<Longrightarrow> world_inv (snd (sync_rows E (resourceGetter E) (SyncMemo E) ss ok bad v))"
    "world_inv v \<Longrightarrow> world_inv (snd (sync_rows E (resourceGetter E) (SyncAttachment E) ss ok bad v))"
    for v ss ok bad
    by (rule sync_rows_inv; auto intro!: inv_intros)+
  show "world_inv (snd (discoverUntrackedContent E w))"
    using assms
    by (auto simp: discoverUntrackedContent_def split_beta split: res.splits intro!: discover_inv)
  show "world_inv (snd (retryFailedStates E w))"
    using assms
    by (auto simp: retryFailedStates_def ListRetryableStates_def now_def Let_def split_beta
        split: res.splits intro!: inv_intros)
  show "world_inv (snd (SyncPendingMemos E (resourceGetter E) n w))"
    "world_inv (snd (SyncPendingAttachments E (resourceGetter E) n w))"
    using assms
    by (auto simp: SyncPendingMemos_def SyncPendingAttachments_def ListPendingStates_def split_beta
        split: res.splits intro!: inv_intros ap)
  show "world_inv (snd (ensureAssistantDatasetBindings E w))"
    using assms
    by (auto simp: ensureAssistantDatasetBindings_def split_beta split: res.splits intro!: inv_intros)
qed

lemma logged_simps [simp]: "snd (logged x) = snd x"
  by (simp add: logged_def split: prod.splits res.splits)

lemma batch_body_inv [inv_intros]:
  assumes "world_inv w"
  shows "world_inv (snd (batch_body E w))"
  using assms
  by (auto simp: batch_body_def now_def split_beta split: res.splits intro!: batch_inv)

lemma visibility_inv [inv_intros]:
  assumes "world_inv w"
  shows "world_inv (snd (VisibilityHandler.HandleVisibilityChange E uid v c w))"
    "world_inv (update_attachments E as v c w)"
    "world_inv (snd (HandleAttachmentVisibilityChange E uid v c w))"
proof -
  show "world_inv (snd (VisibilityHandler.HandleVisibilityChange E uid v c w))"
    using assms by (auto simp: HandleVisibilityChange_def GetSyncState_eq split_beta
        split: res.splits option.splits)
  have up: "world_inv w \<Longrightarrow> world_inv (update_attachments E as v c w)" for as w
    by (induction as arbitrary: w) (auto simp: GetSyncState_eq split: option.splits)
  with assms show "world_inv (update_attachments E as v c w)" by simp
  show "world_inv (snd (HandleAttachmentVisibilityChange E uid v c w))"
    using assms
    by (auto simp: HandleAttachmentVisibilityChange_def split_beta split: res.splits option.splits
        intro!: up inv_intros)
qed

lemma change_visibility_inv [inv_intros]:
  assumes "world_inv w"
  shows "world_inv (snd (change_visibility E uid v w))"
  using assms
  by (auto simp: change_visibility_def split_beta Let_def split: res.splits option.splits
      intro!: visibility_inv world_inv_frame world_inv_reads)

lemma clean_service_simps [simp]:
  "w_table (clean_service E u c w) = w_table w" "w_mappings (clean_service E u c w) = w_mappings w"
  "world_inv (clean_service E u c w) = world_inv w"
  by (simp_all add: clean_service_def Let_def world_inv_def rf_def)

lemma DeleteStatesByOwner_eq:
  "DeleteStatesByOwner E owner w =
    (if e_db_fails E (w_tick w) then (Err EDriver, tick w)
     else (Ok (), tick (w\<lparr>w_table := sqlite_delete (delete_nothing\<lparr>d_OwnerID := Some owner\<rparr>) (w_table w)\<rparr>)))"
  by (simp add: DeleteStatesByOwner_def DeleteContentSyncState_def db_write_def on_table_def
      delete_is_empty_def delete_nothing_def)

lemma DeleteRAGFlowUserMapping_eq:
  "DeleteRAGFlowUserMapping E i w =
    (if e_db_fails E (w_tick w) then (Err EDriver, tick w)
     else (Ok (), tick (w\<lparr>w_mappings := filter (\<lambda>u. um_UserID u \<noteq> i) (w_mappings w)\<rparr>)))"
  by (simp add: DeleteRAGFlowUserMapping_def db_write_def)

lemma delete_user_rows_inv [inv_intros]: "world_inv w \<Longrightarrow> world_inv (snd (delete_user_rows E i w))"
  by (auto simp: delete_user_rows_def DeleteRAGFlowUserMapping_eq DeleteStatesByOwner_eq world_inv_def
      sq.inv_delete)

lemma HandleUserDeletion_inv [inv_intros]:
  assumes "world_inv w"
  shows "world_inv (snd (HandleUserDeletion E i w))"
  using assms
  by (auto simp: HandleUserDeletion_def split_beta split: res.splits option.splits
      intro!: world_inv_frame world_inv_reads delete_user_rows_inv)

subsection \<open>Reachable states\<close>

definition orch_inv :: "orchestrator \<Rightarrow> bool" where
  "orch_inv s \<longleftrightarrow> world_inv (o_world s) \<and> hc_inv (o_health s)"

lemma on_world_inv:
  "world_inv (snd (f (o_world s))) \<Longrightarrow> orch_inv s \<Longrightarrow> orch_inv (snd (on_world f s))"
  by (simp add: on_world_def orch_inv_def split_beta)

lemma on_world_simps [simp]:
  "o_world (snd (on_world f s)) = snd (f (o_world s))" "o_health (snd (on_world f s)) = o_health s"
  "fst (on_world f s) = fst (f (o_world s))"
  by (simp_all add: on_world_def split_beta)

lemma health_inv:
  assumes "orch_inv s"
  shows "orch_inv (snd (check_health E s))" "orch_inv (record_failure E s)" "orch_inv (record_success s)"
proof -
  have "hc_step\<^sup>*\<^sup>* (o_health s) (snd (snd (is_healthy (e_now E) (e_probe E) k (o_health s))))" for k
    by (rule is_healthy_steps)
  then have "hc_inv (snd (snd (is_healthy (e_now E) (e_probe E) k (o_health s))))" for k
    using assms hc.inv_steps by (auto simp: orch_inv_def)
  then show "orch_inv (snd (check_health E s))"
    using assms by (auto simp: check_health_def orch_inv_def split_beta world_inv_def)
  show "orch_inv (record_failure E s)" "orch_inv (record_success s)"
    using assms hc_inv_step [OF _ hc_step.failure] hc_inv_step [OF _ hc_step.success]
    by (auto simp: record_failure_def record_success_def orch_inv_def split_beta world_inv_def)
qed

lemma handlers_inv:
  assumes "orch_inv s"
  shows "orch_inv (snd (handleCreateOrUpdate E ev s))" "orch_inv (snd (handleDelete E ev s))"
    "orch_inv (snd (persist_event E ev s))"
proof -
  have w: "world_inv (o_world s)" using assms by (simp add: orch_inv_def)
  show "orch_inv (snd (handleCreateOrUpdate E ev s))"
    using assms w
    by (auto simp: handleCreateOrUpdate_def split_beta Let_def split: res.splits
        intro!: on_world_inv health_inv inv_intros)
  show "orch_inv (snd (handleDelete E ev s))"
    using assms w
    by (auto simp: handleDelete_def split_beta Let_def DeleteMemoFromRAGFlow_def
        DeleteAttachmentFromRAGFlow_def split: res.splits content_type.splits
        intro!: on_world_inv inv_intros)
  show "orch_inv (snd (persist_event E ev s))"
    using assms w by (auto simp: persist_event_def intro!: on_world_inv inv_intros)
qed

lemma HandleSyncEvent_inv [inv_intros]: "orch_inv s \<Longrightarrow> orch_inv (snd (HandleSyncEvent E ev s))"
  by (auto simp: HandleSyncEvent_def split_beta split: res.splits bool.splits event_type.splits
      intro!: health_inv handlers_inv)

text \<open>
  A run of the subsystem: its entry points in any order, with any environment each time,
  and between them the rest of the application changing everything but the state table.
\<close>

inductive orch_step :: "orchestrator \<Rightarrow> orchestrator \<Rightarrow> bool" where
  event: "orch_step s (snd (HandleSyncEvent E ev s))"
| batch: "orch_step s (snd (RunBatchSync E s))"
| visibility: "orch_step s (snd (OrchestratorVisibilityChange E uid v s))"
| user_deletion: "orch_step s (snd (on_world (HandleUserDeletion E i) s))"
| others: "w_table w = w_table (o_world s) \<Longrightarrow> orch_step s (s\<lparr>o_world := w\<rparr>)"

inductive_cases orch_stepE: "orch_step s s'"

definition orch_start :: "orchestrator \<Rightarrow> bool" where
  "orch_start s \<longleftrightarrow> w_table (o_world s) = empty_table \<and> hc_start (o_health s)"

lemma orch_inv_step: "orch_inv s \<Longrightarrow> orch_step s s' \<Longrightarrow> orch_inv s'"
proof (erule orch_stepE, goal_cases)
  case (2 E)
  then show ?case
    using health_inv(1) [of s E]
    by (auto simp: RunBatchSync_def split_beta split: bool.splits
        intro!: on_world_inv batch_body_inv simp: orch_inv_def)
next
  case (3 E uid v)
  then show ?case
    using health_inv(1) [of s E]
    by (auto simp: OrchestratorVisibilityChange_def split_beta split: bool.splits
        intro!: on_world_inv change_visibility_inv simp: orch_inv_def)
next
  case (4 E i)
  then show ?case by (auto intro!: on_world_inv HandleUserDeletion_inv simp: orch_inv_def)
next
  case (5 w)
  then show ?case by (simp add: orch_inv_def world_inv_def)
qed (simp_all add: HandleSyncEvent_inv)

interpretation orch: state_machine orch_start orch_step orch_inv
proof unfold_locales
  fix s assume "orch_start s"
  then show "orch_inv s"
    using hc_inv_start world_inv_empty by (auto simp: orch_start_def orch_inv_def world_inv_def)
qed (rule orch_inv_step)

subsection \<open>What an event leaves behind\<close>

lemma EnsurePendingState_row:
  assumes "world_inv w" and "valid_content_type ct" and "\<And>k. \<not> e_db_fails E k"
  shows "look ct uid (snd (EnsurePendingState E ct uid owner w)) \<noteq> None"
    and "\<exists>b. fst (EnsurePendingState E ct uid owner w) = Ok b"
proof -
  let ?c = "new_state ct uid owner []"
  have c: "look ct uid w = None \<Longrightarrow> sqlite_create n ?c (w_table w) \<noteq> None" for n
    using sq.create_defined [of ?c "w_table w" n] assms(2) by simp
  show "look ct uid (snd (EnsurePendingState E ct uid owner w)) \<noteq> None"
    "\<exists>b. fst (EnsurePendingState E ct uid owner w) = Ok b"
    using c [of "unix (e_now E (w_tick w + 1))"] assms sq.look_create [of "w_table w" _ ?c _ _ "(ct, uid)"]
    by (cases "look ct uid w"; auto simp: EnsurePendingState_def GetSyncState_eq CreateContentSyncState_def db_write_def
        on_table_def world_inv_def split: option.splits)+
qed

lemma row_outcome_keeps_row:
  "row_outcome E ct uid ds docID hash w r w' \<Longrightarrow> look ct uid w \<noteq> None \<Longrightarrow> look ct uid w' \<noteq> None"
  by (auto simp: row_outcome_def synced_as_def)

lemma sync_document_keeps_row:
  assumes "world_inv w" and "look ct uid w \<noteq> None"
    and "sync_document E ct uid owner (look ct uid w) doc hash ds c w = (r, w')"
  shows "look ct uid w' \<noteq> None"
  using assms(2,3) by (elim sync_document_cases [OF assms(1)]) (auto dest: row_outcome_keeps_row)

lemma skip_keeps_row:
  "world_inv w \<Longrightarrow> look ct uid w \<noteq> None \<Longrightarrow> look ct uid (skip_unparseable E a w) \<noteq> None"
  by (auto simp: skip_unparseable_def GetSyncState_eq mark_defs UpdateContentSyncState_eq world_inv_def
      sq.look_update split: option.splits)

lemma sync_item_keeps_row:
  assumes "world_inv w" and "look ct uid w \<noteq> None"
  shows "look ct uid (snd (sync_item E ct uid ds c w)) \<noteq> None"
proof (cases ct)
  case ContentTypeMemo
  obtain r w' where r: "SyncMemo E uid ds c w = (r, w')" by (cases "SyncMemo E uid ds c w")
  then have "look ct uid w' \<noteq> None"
  proof (elim SyncMemo_cases [OF assms(1)])
    fix m v
    assume v: "world_inv v" "w_table v = w_table w"
      and "sync_document E ContentTypeMemo uid (m_CreatorID m) (look ContentTypeMemo uid v)
         (buildMemoDocument m) (e_hash E (m_Content m)) ds c v = (r, w')"
    from sync_document_keeps_row [OF v(1) _ this(3)] v(2) assms(2) ContentTypeMemo
    show "look ct uid w' \<noteq> None" by simp
  qed (use assms(2) in auto)
  with r ContentTypeMemo show ?thesis by (simp add: sync_item_def)
next
  case ContentTypeAttachment
  obtain r w' where r: "SyncAttachment E uid ds c w = (r, w')" by (cases "SyncAttachment E uid ds c w")
  then have "look ct uid w' \<noteq> None"
  proof (elim SyncAttachment_cases [OF assms(1)])
    fix a blob v
    assume v: "world_inv v" "w_table v = w_table w"
      and "sync_document E ContentTypeAttachment uid (a_CreatorID a) (look ContentTypeAttachment uid v)
         (buildAttachmentDocument (a\<lparr>a_Blob := blob\<rparr>)) (e_hash E blob) ds c v = (r, w')"
    from sync_document_keeps_row [OF v(1) _ this(3)] v(2) assms(2) ContentTypeAttachment
    show "look ct uid w' \<noteq> None" by simp
  next
    fix a v
    assume "w' = skip_unparseable E a (tick w)"
    with assms show "look ct uid w' \<noteq> None" using skip_keeps_row [of "tick w" ct uid] by simp
  qed (use assms(2) in auto)
  with r ContentTypeAttachment show ?thesis by (simp add: sync_item_def)
qed (use assms in \<open>simp add: sync_item_def\<close>)

lemma check_health_world [simp]:
  "w_table (o_world (snd (check_health E s))) = w_table (o_world s)"
  "w_calls (o_world (snd (check_health E s))) = w_calls (o_world s)"
  "world_inv (o_world (snd (check_health E s))) = world_inv (o_world s)"
  by (simp_all add: check_health_def split_beta world_inv_def)

lemma record_health_world [simp]:
  "w_table (o_world (record_failure E s)) = w_table (o_world s)"
  "w_table (o_world (record_success s)) = w_table (o_world s)"
  by (simp_all add: record_failure_def record_success_def split_beta)

lemma resolvers_table [simp]:
  "w_table (snd (resolveUserClient E i w)) = w_table w"
  "w_table (snd (resolveNotebookDatasetID E ct uid w)) = w_table w"
  using resolveUserClient_frame(1) resolveNotebookDatasetID_frame by (auto simp: resolver_frame_def)

lemma handleCreateOrUpdate_keeps_row:
  assumes "world_inv (o_world s)" and "look (ev_ContentType ev) (ev_ContentUID ev) (o_world s) \<noteq> None"
  shows "look (ev_ContentType ev) (ev_ContentUID ev) (o_world (snd (handleCreateOrUpdate E ev s))) \<noteq> None"
proof -
  have "world_inv v" if "w_table v = w_table (o_world s)" for v
    using assms(1) that by (simp add: world_inv_def)
  then show ?thesis
    using assms(2) sync_item_keeps_row [of _ "ev_ContentType ev" "ev_ContentUID ev" E]
    by (auto simp: handleCreateOrUpdate_def split_beta split: res.splits)
qed

text \<open>
  C3. No create or update event is lost: with a working database, the item of the
  event has a row in the state table afterwards, whatever the service, the clients and
  the datasets do, so the next batch finds it.
\<close>

theorem event_never_lost:
  assumes "orch_inv s" and "\<And>k. \<not> e_db_fails E k"
    and "ev_Type ev = SyncEventCreate \<or> ev_Type ev = SyncEventUpdate"
    and "valid_content_type (ev_ContentType ev)"
  shows "look (ev_ContentType ev) (ev_ContentUID ev) (o_world (snd (HandleSyncEvent E ev s))) \<noteq> None"
proof -
  let ?ct = "ev_ContentType ev" and ?uid = "ev_ContentUID ev"
  have w: "world_inv (o_world s)" using assms(1) by (simp add: orch_inv_def)
  have p: "snd (persist_event E ev s) = snd (on_world (EnsurePendingState E ?ct ?uid (ev_UserID ev)) s)"
    using assms(3) by (auto simp: persist_event_def)
  have row: "look ?ct ?uid (o_world (snd (persist_event E ev s))) \<noteq> None"
    using EnsurePendingState_row(1) [OF w assms(4,2)] p by simp
  have "world_inv (o_world (snd (persist_event E ev s)))"
    using handlers_inv(3) [OF assms(1)] by (simp add: orch_inv_def)
  then have "look ?ct ?uid (o_world (snd (handleCreateOrUpdate E ev
      (snd (check_health E (snd (persist_event E ev s))))))) \<noteq> None"
    using row by (intro handleCreateOrUpdate_keeps_row) simp_all
  with row assms(3) show ?thesis
    by (auto simp: HandleSyncEvent_def split_beta split: res.splits bool.splits)
qed

text \<open>
  An event that arrives while the service is unavailable is answered with success,
  makes no call to the service and changes no row that is there. So a create event
  leaves a pending row; but an update of an item that is synced stays synced, and a
  deletion leaves both the row and the remote document.
\<close>

theorem event_while_unavailable:
  assumes "orch_inv s" and "fst (check_health E (snd (persist_event E ev s))) = False"
  shows "fst (HandleSyncEvent E ev s) = Ok () \<and>
    w_calls (o_world (snd (HandleSyncEvent E ev s))) = w_calls (o_world s) \<and>
    (\<forall>k r. sqlite_look k (w_table (o_world s)) = Some r \<longrightarrow>
       sqlite_look k (w_table (o_world (snd (HandleSyncEvent E ev s)))) = Some r) \<and>
    (ev_Type ev = SyncEventDelete \<longrightarrow>
       w_table (o_world (snd (HandleSyncEvent E ev s))) = w_table (o_world s))"
proof -
  let ?e = "EnsurePendingState E (ev_ContentType ev) (ev_ContentUID ev) (ev_UserID ev) (o_world s)"
  have w: "world_inv (o_world s)" using assms(1) by (simp add: orch_inv_def)
  have "fst ?e \<noteq> Panics" "w_calls (snd ?e) = w_calls (o_world s)"
    using EnsurePendingState_frame [OF w, of E] by (simp_all add: same_content_def)
  then have p: "fst (persist_event E ev s) \<noteq> Panics"
    "w_calls (o_world (snd (persist_event E ev s))) = w_calls (o_world s)"
    by (simp_all add: persist_event_def)
  have "HandleSyncEvent E ev s = (Ok (), snd (check_health E (snd (persist_event E ev s))))"
    using p(1) assms(2)
    by (auto simp: HandleSyncEvent_def split_beta split: res.splits bool.splits)
  moreover have "sqlite_look k (w_table (o_world (snd (persist_event E ev s)))) = Some r"
    if "sqlite_look k (w_table (o_world s)) = Some r" for k r
    using EnsurePendingState_look [OF w prod.collapse [symmetric] that] that by (simp add: persist_event_def)
  moreover have "ev_Type ev = SyncEventDelete \<Longrightarrow> persist_event E ev s = (Ok False, s)"
    by (simp add: persist_event_def)
  ultimately show ?thesis using p(2) by auto
qed

subsection \<open>Discovery\<close>

text \<open>
  Rows and tables that only grow: every row of the first table is in the second,
  unchanged.
\<close>

definition rows_kept :: "world \<Rightarrow> world \<Rightarrow> bool" where
  "rows_kept w w' \<longleftrightarrow>
     (\<forall>k r. sqlite_look k (w_table w) = Some r \<longrightarrow> sqlite_look k (w_table w') = Some r)"

lemma rows_kept_trans [trans]: "rows_kept w w' \<Longrightarrow> rows_kept w' w'' \<Longrightarrow> rows_kept w w''"
  by (simp add: rows_kept_def)

lemma rows_kept_Some: "rows_kept w w' \<Longrightarrow> look ct uid w \<noteq> None \<Longrightarrow> look ct uid w' \<noteq> None"
  by (auto simp: rows_kept_def)

lemma EnsurePendingState_kept:
  "world_inv w \<Longrightarrow> rows_kept w (snd (EnsurePendingState E ct uid owner w))"
  using EnsurePendingState_look [OF _ prod.collapse [symmetric]] by (simp add: rows_kept_def)

lemma ensure_all_rows:
  assumes "valid_content_type ct" and "\<And>k. \<not> e_db_fails E k" and "world_inv w"
  shows "(\<exists>m. fst (ensure_all E ct xs n w) = Ok m) \<and>
    rows_kept w (snd (ensure_all E ct xs n w)) \<and>
    same_content w (snd (ensure_all E ct xs n w)) \<and>
    (\<forall>(uid, owner) \<in> set xs. look ct uid (snd (ensure_all E ct xs n w)) \<noteq> None)"
  using assms(3)
proof (induction xs arbitrary: n w)
  case Nil
  then show ?case by (simp add: rows_kept_def)
next
  case (Cons x xs)
  obtain uid owner where x: "x = (uid, owner)" by (cases x)
  let ?w1 = "snd (EnsurePendingState E ct uid owner w)"
  obtain b where b: "EnsurePendingState E ct uid owner w = (Ok b, ?w1)"
    using EnsurePendingState_row(2) [OF Cons.prems assms(1,2)] by (metis prod.collapse)
  have row: "look ct uid ?w1 \<noteq> None" by (rule EnsurePendingState_row(1) [OF Cons.prems assms(1,2)])
  have inv: "world_inv ?w1" using Cons.prems by (rule EnsurePendingState_inv)
  have kept: "rows_kept w ?w1" using Cons.prems by (rule EnsurePendingState_kept)
  have same: "same_content w ?w1" using Cons.prems by (rule EnsurePendingState_frame)
  have eq: "ensure_all E ct (x # xs) n w = ensure_all E ct xs (if b then n + 1 else n) ?w1"
    by (subst x, subst ensure_all.simps(2), subst b) simp
  let ?w2 = "snd (ensure_all E ct xs (if b then n + 1 else n) ?w1)"
  from Cons.IH [OF inv, of "if b then n + 1 else n"]
  have ok: "\<exists>m. fst (ensure_all E ct xs (if b then n + 1 else n) ?w1) = Ok m"
    and kept2: "rows_kept ?w1 ?w2" and same2: "same_content ?w1 ?w2"
    and rows2: "\<forall>(uid, owner) \<in> set xs. look ct uid ?w2 \<noteq> None"
    by blast+
  have "look ct uid ?w2 \<noteq> None" using kept2 row by (rule rows_kept_Some)
  with rows2 have "\<forall>(uid, owner) \<in> set (x # xs). look ct uid ?w2 \<noteq> None" by (simp add: x)
  with ok rows_kept_trans [OF kept kept2] same_content_trans [OF same same2]
  show ?case unfolding eq by blast
qed

lemma reset_all_look:
  assumes "\<And>k. \<not> e_db_fails E k" and "world_inv w"
  shows "(\<exists>m. fst (reset_all E ss w n) = Ok m) \<and>
    (sqlite_look k (w_table w) = None \<longrightarrow> sqlite_look k (w_table (snd (reset_all E ss w n))) = None) \<and>
    (\<forall>r. sqlite_look k (w_table w) = Some r \<longrightarrow>
       (\<exists>r'. sqlite_look k (w_table (snd (reset_all E ss w n))) = Some r' \<and> cs_ID r' = cs_ID r \<and>
          (if cs_ID r \<in> cs_ID ` set ss
           then cs_RAGFlowStatus r' = RAGFlowSyncStatusPending \<and> cs_RetryCount r' = 0
           else r' = r)))"
  using assms(2)
proof (induction ss arbitrary: n w)
  case (Cons s ss)
  let ?u = "(update_nothing (cs_ID s))\<lparr>u_RAGFlowStatus := Some RAGFlowSyncStatusPending,
           u_ContentHash := Some (cs_ContentHash s), u_RetryCount := Some 0,
           u_UpdatedTs := Some (unix (e_now E (w_tick w)))\<rparr>"
  let ?w1 = "snd (ResetForResync E (cs_ID s) (cs_ContentHash s) w)"
  have eq: "reset_all E (s # ss) w n = reset_all E ss ?w1 (n + 1)"
    using assms(1) by (simp add: ResetForResync_def now_def UpdateContentSyncState_eq update_is_empty_def)
  have t: "w_table ?w1 = sqlite_update ?u (w_table w)"
    using assms(1) by (simp add: ResetForResync_def now_def UpdateContentSyncState_eq update_is_empty_def)
  have inv: "world_inv ?w1" using Cons.prems by (rule mark_inv)
  have l: "sqlite_look k (w_table ?w1) =
      map_option (\<lambda>r. if cs_ID r = cs_ID s then update_row ?u r else r) (sqlite_look k (w_table w))"
    using Cons.prems sq.look_update [of "w_table w" k ?u] t by (simp add: world_inv_def update_nothing_def)
  have u: "cs_ID (update_row ?u r) = cs_ID r" "cs_RAGFlowStatus (update_row ?u r) = RAGFlowSyncStatusPending"
    "cs_RetryCount (update_row ?u r) = 0" for r
    by (simp_all add: update_row_def set_opt_def update_nothing_def)
  show ?case
  proof (cases "sqlite_look k (w_table w)")
    case None
    with l Cons.IH [OF inv, of "n + 1"] show ?thesis unfolding eq by simp
  next
    case (Some r)
    let ?r = "if cs_ID r = cs_ID s then update_row ?u r else r"
    have "sqlite_look k (w_table ?w1) = Some ?r" using Some l by simp
    with Cons.IH [OF inv, of "n + 1"]
    obtain r' where "(\<exists>m. fst (reset_all E ss ?w1 (n + 1)) = Ok m)"
      "sqlite_look k (w_table (snd (reset_all E ss ?w1 (n + 1)))) = Some r'" "cs_ID r' = cs_ID ?r"
      "if cs_ID ?r \<in> cs_ID ` set ss
       then cs_RAGFlowStatus r' = RAGFlowSyncStatusPending \<and> cs_RetryCount r' = 0 else r' = ?r"
      by blast
    with Some u show ?thesis unfolding eq by (cases "cs_ID r = cs_ID s") (auto split: if_splits)
  qed
qed simp

lemma ResetNonPendingStates_look:
  assumes "\<And>k. \<not> e_db_fails E k" and "world_inv w"
  shows "(\<exists>m. fst (ResetNonPendingStates E w) = Ok m) \<and>
    (sqlite_look k (w_table w) = None \<longrightarrow> sqlite_look k (w_table (snd (ResetNonPendingStates E w))) = None) \<and>
    (\<forall>r. sqlite_look k (w_table w) = Some r \<longrightarrow>
       (\<exists>r'. sqlite_look k (w_table (snd (ResetNonPendingStates E w))) = Some r' \<and>
          (if cs_RAGFlowStatus r = RAGFlowSyncStatusFailed \<or> cs_RAGFlowStatus r = RAGFlowSyncStatusSkipped
           then cs_RAGFlowStatus r' = RAGFlowSyncStatusPending \<and> cs_RetryCount r' = 0
           else r' = r)))"
proof -
  let ?by = "\<lambda>st. find_all\<lparr>f_RAGFlowStatus := Some st\<rparr>"
  let ?ss = "sqlite_list (?by RAGFlowSyncStatusFailed) (w_table w) @
      sqlite_list (?by RAGFlowSyncStatusSkipped) (w_table w)"
  have inv: "table_inv (w_table w)" "world_inv (tick (tick w))" using assms(2) by (simp_all add: world_inv_def)
  have eq: "ResetNonPendingStates E w = reset_all E ?ss (tick (tick w)) 0"
    using assms(1) by (simp add: ResetNonPendingStates_def ListContentSyncStates_eq)
  have mem: "x \<in> set (sqlite_list (?by st) (w_table w)) \<longleftrightarrow>
      sqlite_look (row_key x) (w_table w) = Some x \<and> cs_RAGFlowStatus x = st" for x st
    using sq.set_list [OF inv(1), of "?by st" x] by (simp add: find_all_def find_matches_def opt_eq_def)
  have ids: "cs_ID r \<in> cs_ID ` set ?ss \<longleftrightarrow>
      cs_RAGFlowStatus r = RAGFlowSyncStatusFailed \<or> cs_RAGFlowStatus r = RAGFlowSyncStatusSkipped"
    if r: "sqlite_look k (w_table w) = Some r" for r
  proof
    assume "cs_ID r \<in> cs_ID ` set ?ss"
    then obtain x where "cs_ID x = cs_ID r" "sqlite_look (row_key x) (w_table w) = Some x"
      "cs_RAGFlowStatus x = RAGFlowSyncStatusFailed \<or> cs_RAGFlowStatus x = RAGFlowSyncStatusSkipped"
      by (auto simp: mem)
    moreover from this have "row_key x = k" using sq.look_id [OF inv(1) r] by metis
    ultimately show "cs_RAGFlowStatus r = RAGFlowSyncStatusFailed \<or>
        cs_RAGFlowStatus r = RAGFlowSyncStatusSkipped" using r by simp
  next
    assume "cs_RAGFlowStatus r = RAGFlowSyncStatusFailed \<or> cs_RAGFlowStatus r = RAGFlowSyncStatusSkipped"
    then have "r \<in> set ?ss" using r sq.look_key [OF r] mem by auto
    then show "cs_ID r \<in> cs_ID ` set ?ss" by (rule imageI)
  qed
  note all = reset_all_look [OF assms(1) inv(2), where k = k and ss = ?ss and n = 0]
  show ?thesis
  proof (cases "sqlite_look k (w_table w)")
    case None
    with all show ?thesis unfolding eq by simp
  next
    case (Some r)
    with all obtain r' where "\<exists>m. fst (reset_all E ?ss (tick (tick w)) 0) = Ok m"
      "sqlite_look k (w_table (snd (reset_all E ?ss (tick (tick w)) 0))) = Some r'"
      "if cs_ID r \<in> cs_ID ` set ?ss
       then cs_RAGFlowStatus r' = RAGFlowSyncStatusPending \<and> cs_RetryCount r' = 0 else r' = r"
      by auto
    with Some ids [OF Some] show ?thesis unfolding eq by simp
  qed
qed

lemma discover_memos_rows:
  assumes "world_inv w" and "\<And>k. \<not> e_db_fails E k"
  obtains n w1 where "discover_memos E w = (Ok n, w1)" "world_inv w1" "rows_kept w w1" "same_content w w1"
    "\<forall>m \<in> set (w_memos w). m_RowStatus m = Normal \<longrightarrow> look ContentTypeMemo (m_UID m) w1 \<noteq> None"
proof -
  define ms where "ms = sort_key (\<lambda>m. - m_CreatedTs m) (sort_key (\<lambda>m. - m_ID m)
       (filter (\<lambda>m. m_RowStatus m = Normal) (w_memos w)))"
  define x where "x = ensure_all E ContentTypeMemo (map (\<lambda>m. (m_UID m, m_CreatorID m)) ms) 0 (tick w)"
  have x: "discover_memos E w = x"
    using assms(2) by (simp add: discover_memos_def ListNormalMemos_def db_read_def x_def ms_def)
  have v: "valid_content_type ContentTypeMemo" by (simp add: valid_content_type_def)
  have e: "\<exists>m. fst x = Ok m" "rows_kept w (snd x)" "same_content w (snd x)"
    "\<forall>(uid, owner) \<in> set (map (\<lambda>m. (m_UID m, m_CreatorID m)) ms). look ContentTypeMemo uid (snd x) \<noteq> None"
    using ensure_all_rows [OF v assms(2), of "tick w" "map (\<lambda>m. (m_UID m, m_CreatorID m)) ms" 0] assms(1)
    by (simp_all add: x_def rows_kept_def)
  have "world_inv (snd x)" using assms(1) by (simp add: x_def ensure_all_inv)
  moreover have "\<forall>m \<in> set (w_memos w). m_RowStatus m = Normal \<longrightarrow> look ContentTypeMemo (m_UID m) (snd x) \<noteq> None"
    using e(4) by (auto simp: ms_def)
  ultimately show thesis using that e x by (metis prod.collapse)
qed

text \<open>What a listing of attachments without a limit gives: the hundred updated last.\<close>

definition latest_attachments :: "world \<Rightarrow> attachment list" where
  "latest_attachments w = take 100 (sort_key (\<lambda>a. - a_UpdatedTs a) (w_attachments w))"

lemma discover_attachments_rows:
  assumes "world_inv w" and "\<And>k. \<not> e_db_fails E k"
  obtains n' w1 where "discover_attachments E n w = (Ok n', w1)" "world_inv w1" "rows_kept w w1"
    "\<forall>a \<in> set (latest_attachments w). look ContentTypeAttachment (a_UID a) w1 \<noteq> None"
proof -
  define atts where "atts = latest_attachments w"
  define x where "x = ensure_all E ContentTypeAttachment (map (\<lambda>a. (a_UID a, a_CreatorID a)) atts) n (tick w)"
  have x: "discover_attachments E n w = x"
    using assms(2) by (simp add: discover_attachments_def ListAttachments_def db_read_def x_def atts_def latest_attachments_def)
  have v: "valid_content_type ContentTypeAttachment" by (simp add: valid_content_type_def)
  have e: "\<exists>m. fst x = Ok m" "rows_kept w (snd x)"
    "\<forall>(uid, owner) \<in> set (map (\<lambda>a. (a_UID a, a_CreatorID a)) atts).
       look ContentTypeAttachment uid (snd x) \<noteq> None"
    using ensure_all_rows [OF v assms(2), of "tick w" "map (\<lambda>a. (a_UID a, a_CreatorID a)) atts" n] assms(1)
    by (simp_all add: x_def rows_kept_def)
  have "world_inv (snd x)" using assms(1) by (simp add: x_def ensure_all_inv)
  moreover have "\<forall>a \<in> set (latest_attachments w). look ContentTypeAttachment (a_UID a) (snd x) \<noteq> None"
    using e(3) by (auto simp: atts_def)
  ultimately show thesis using that e x by (metis prod.collapse)
qed

lemma discover_eq:
  "discover_memos E w = (Ok n1, w1) \<Longrightarrow> discover_attachments E n1 w1 = (Ok n2, w2) \<Longrightarrow>
   ResetNonPendingStates E w2 = (Ok n3, w3) \<Longrightarrow> discoverUntrackedContent E w = (Ok (n2 + n3), w3)"
  by (simp add: discoverUntrackedContent_def)

text \<open>
  C5. As long as no database call fails, the discovery that opens every batch gives a row to
  every memo of normal status and to the hundred attachments updated last (a listing without
  a limit returns no more, so with more than a hundred attachments the others are not looked
  at). Rows that were pending or synced stay as they are; every failed or skipped row is
  pending again with its retry count back at zero, so the retry limit and the back-off never
  outlast a batch.
\<close>

theorem discovery_complete:
  assumes "world_inv w" and "\<And>k. \<not> e_db_fails E k"
  shows "(\<exists>n. fst (discoverUntrackedContent E w) = Ok n) \<and>
    (\<forall>m \<in> set (w_memos w). m_RowStatus m = Normal \<longrightarrow>
       look ContentTypeMemo (m_UID m) (snd (discoverUntrackedContent E w)) \<noteq> None) \<and>
    (\<forall>a \<in> set (take 100 (sort_key (\<lambda>a. - a_UpdatedTs a) (w_attachments w))).
       look ContentTypeAttachment (a_UID a) (snd (discoverUntrackedContent E w)) \<noteq> None) \<and>
    (\<forall>k r. sqlite_look k (w_table w) = Some r \<longrightarrow>
       (\<exists>r'. sqlite_look k (w_table (snd (discoverUntrackedContent E w))) = Some r' \<and>
          (if cs_RAGFlowStatus r = RAGFlowSyncStatusFailed \<or> cs_RAGFlowStatus r = RAGFlowSyncStatusSkipped
           then cs_RAGFlowStatus r' = RAGFlowSyncStatusPending \<and> cs_RetryCount r' = 0
           else r' = r)))"
proof -
  obtain n1 w1 where w1: "discover_memos E w = (Ok n1, w1)" "world_inv w1" "rows_kept w w1" "same_content w w1"
    "\<forall>m \<in> set (w_memos w). m_RowStatus m = Normal \<longrightarrow> look ContentTypeMemo (m_UID m) w1 \<noteq> None"
    by (rule discover_memos_rows [OF assms])
  obtain n2 w2 where w2: "discover_attachments E n1 w1 = (Ok n2, w2)" "world_inv w2" "rows_kept w1 w2"
    "\<forall>a \<in> set (latest_attachments w1). look ContentTypeAttachment (a_UID a) w2 \<noteq> None"
    by (rule discover_attachments_rows [OF w1(2) assms(2)])
  note reset = ResetNonPendingStates_look [OF assms(2) w2(2)]
  obtain n3 w3 where w3: "ResetNonPendingStates E w2 = (Ok n3, w3)"
    using reset by (metis prod.collapse)
  have d: "discoverUntrackedContent E w = (Ok (n2 + n3), w3)"
    using w1(1) w2(1) w3 by (rule discover_eq)
  have stays: "sqlite_look k (w_table w2) \<noteq> None \<Longrightarrow> sqlite_look k (w_table w3) \<noteq> None" for k
    using reset [of k] w3 by auto
  have "w_attachments w1 = w_attachments w" using w1(4) by (simp add: same_content_def)
  then have att: "\<forall>a \<in> set (take 100 (sort_key (\<lambda>a. - a_UpdatedTs a) (w_attachments w))).
       look ContentTypeAttachment (a_UID a) w3 \<noteq> None"
    using w2(4) stays by (simp add: latest_attachments_def)
  have memo: "\<forall>m \<in> set (w_memos w). m_RowStatus m = Normal \<longrightarrow> look ContentTypeMemo (m_UID m) w3 \<noteq> None"
    using w1(5) rows_kept_Some [OF w2(3)] stays by simp
  have "rows_kept w w2" using w1(3) w2(3) by (rule rows_kept_trans)
  then have rows: "\<forall>k r. sqlite_look k (w_table w) = Some r \<longrightarrow>
       (\<exists>r'. sqlite_look k (w_table w3) = Some r' \<and>
          (if cs_RAGFlowStatus r = RAGFlowSyncStatusFailed \<or> cs_RAGFlowStatus r = RAGFlowSyncStatusSkipped
           then cs_RAGFlowStatus r' = RAGFlowSyncStatusPending \<and> cs_RetryCount r' = 0
           else r' = r))"
    using reset w3 unfolding rows_kept_def by simp
  show ?thesis
    unfolding d snd_conv fst_conv using memo att rows by blast
qed

subsection \<open>User deletion\<close>

lemma mapped_user_deletion:
  assumes "world_inv w" and "HandleUserDeletion E i w = (Ok (), w')"
    and "List.find (\<lambda>u. um_UserID u = i) (w_mappings w) = Some u"
  shows "(\<forall>v \<in> set (w_mappings w'). um_UserID v \<noteq> i) \<and>
    (\<forall>k. sqlite_look k (w_table w') =
       (case sqlite_look k (w_table w) of None \<Rightarrow> None
        | Some r \<Rightarrow> if cs_OwnerID r = i then None else Some r)) \<and>
    (\<exists>c. w_calls w' = w_calls w @
       (if um_DatasetID u \<noteq> [] then [DeleteDataset c (um_DatasetID u)] else []) @
       (if um_AssistantID u \<noteq> [] then [DeleteChatAssistant c (um_AssistantID u)] else []))"
proof -
  let ?r = "resolveUserClient E i (tick w)"
  let ?c = "or_system (fst ?r)"
  let ?w2 = "clean_service E u ?c (snd ?r)"
  have inv: "table_inv (w_table w)" using assms(1) by (simp add: world_inv_def)
  have d: "delete_user_rows E i ?w2 = (Ok (), w')"
    using assms(2,3)
    by (auto simp: HandleUserDeletion_def GetRAGFlowUserMapping_def db_read_def split_beta
        split: if_splits res.splits)
  have calls: "w_calls ?w2 = w_calls w @
       (if um_DatasetID u \<noteq> [] then [DeleteDataset ?c (um_DatasetID u)] else []) @
       (if um_AssistantID u \<noteq> [] then [DeleteChatAssistant ?c (um_AssistantID u)] else [])"
    by (simp add: clean_service_def Let_def)
  have "w_table w' = sqlite_delete (delete_nothing\<lparr>d_OwnerID := Some i\<rparr>) (w_table w)"
    "w_mappings w' = filter (\<lambda>u. um_UserID u \<noteq> i) (w_mappings ?w2)" "w_calls w' = w_calls ?w2"
    using d by (auto simp: delete_user_rows_def DeleteRAGFlowUserMapping_eq DeleteStatesByOwner_eq
        split: if_splits)
  then show ?thesis
    using sq.look_delete [OF inv] calls
    by (auto simp: delete_matches_def delete_nothing_def opt_eq_def split: option.splits)
qed

text \<open>
  C6. A user deletion that succeeds: when the user has a RAGFlow mapping, the mapping is gone
  and so is every row of the user's items, no other row has changed, and the dataset and the
  assistant of the mapping were each asked to be deleted, once, with one client. Without a
  mapping it succeeds too, but does nothing: the rows of the user stay.
\<close>

theorem user_deletion_cleans_up:
  assumes "world_inv w" and "HandleUserDeletion E i w = (Ok (), w')"
  shows "case List.find (\<lambda>u. um_UserID u = i) (w_mappings w) of
      None \<Rightarrow> w_table w' = w_table w \<and> w_mappings w' = w_mappings w \<and> w_calls w' = w_calls w
    | Some u \<Rightarrow> (\<forall>v \<in> set (w_mappings w'). um_UserID v \<noteq> i) \<and>
    (\<forall>k. sqlite_look k (w_table w') =
       (case sqlite_look k (w_table w) of None \<Rightarrow> None
        | Some r \<Rightarrow> if cs_OwnerID r = i then None else Some r)) \<and>
    (\<exists>c. w_calls w' = w_calls w @
       (if um_DatasetID u \<noteq> [] then [DeleteDataset c (um_DatasetID u)] else []) @
       (if um_AssistantID u \<noteq> [] then [DeleteChatAssistant c (um_AssistantID u)] else []))"
proof (cases "List.find (\<lambda>u. um_UserID u = i) (w_mappings w)")
  case None
  with assms(2) have "w' = tick w"
    by (auto simp: HandleUserDeletion_def GetRAGFlowUserMapping_def db_read_def split: if_splits)
  with None show ?thesis by (simp add: tick_def)
next
  case (Some u)
  then show ?thesis using mapped_user_deletion [OF assms Some] by simp
qed

subsection \<open>Witnesses\<close>

definition sample_orch :: orchestrator where
  "sample_orch = \<lparr>o_world = notebook_world, o_health = NewHealthChecker None\<rparr>"

definition sample_event :: sync_event where
  "sample_event = \<lparr>ev_Type = SyncEventCreate, ev_ContentType = ContentTypeMemo,
     ev_ContentUID = ''m1'', ev_UserID = 7\<rparr>"

lemma sample_orch_start: "orch_start sample_orch"
proof -
  have "0 < failureThreshold (NewHealthChecker None)"
    by (simp add: NewHealthChecker_def DefaultHealthCheckerConfig_def)
  then have "hc_start (NewHealthChecker None)" unfolding hc_start_def by blast
  then show ?thesis
    by (simp add: orch_start_def sample_orch_def notebook_world_def memo_world_def)
qed

lemma sample_orch_inv: "orch_inv sample_orch"
  using orch.inv_start sample_orch_start by blast

theorem event_never_lost_witness:
  "look ContentTypeMemo ''m1'' (o_world (snd (HandleSyncEvent calm sample_event sample_orch))) \<noteq> None"
  using event_never_lost [OF sample_orch_inv, of calm sample_event]
  by (simp add: sample_event_def valid_content_type_def)

definition down :: env where
  "down = calm\<lparr>e_probe := \<lambda>_. False\<rparr>"

definition synced_orch :: orchestrator where
  "synced_orch = sample_orch\<lparr>o_world := notebook_world\<lparr>w_table :=
     \<lparr>t_rows = [(new_state ContentTypeMemo ''m1'' 7 ''old'')\<lparr>cs_ID := 1,
        cs_RAGFlowStatus := RAGFlowSyncStatusSynced\<rparr>], t_next = 2\<rparr>\<rparr>\<rparr>"

lemma synced_orch_inv: "orch_inv synced_orch"
  using sample_orch_inv
  by (simp add: orch_inv_def synced_orch_def sample_orch_def world_inv_def table_inv_def new_state_def
      valid_content_type_def)

theorem event_while_unavailable_witness:
  "\<exists>r. look ContentTypeMemo ''m1''
      (o_world (snd (HandleSyncEvent down (sample_event\<lparr>ev_Type := SyncEventUpdate\<rparr>) synced_orch))) = Some r \<and>
    cs_RAGFlowStatus r = RAGFlowSyncStatusSynced"
proof -
  have d: "fst (check_health down (snd (persist_event down (sample_event\<lparr>ev_Type := SyncEventUpdate\<rparr>)
      synced_orch))) = False"
    by code_simp
  have "look ContentTypeMemo ''m1'' (o_world synced_orch) =
      Some ((new_state ContentTypeMemo ''m1'' 7 ''old'')\<lparr>cs_ID := 1, cs_RAGFlowStatus := RAGFlowSyncStatusSynced\<rparr>)"
    by (simp add: synced_orch_def sqlite_look_def find_key_def row_key_def new_state_def)
  with event_while_unavailable [OF synced_orch_inv d] show ?thesis by fastforce
qed

definition failed_world :: world where
  "failed_world = notebook_world\<lparr>w_table :=
     \<lparr>t_rows = [(new_state ContentTypeMemo ''m1'' 7 [])\<lparr>cs_ID := 1, cs_RetryCount := 3,
        cs_RAGFlowStatus := RAGFlowSyncStatusFailed\<rparr>], t_next = 2\<rparr>\<rparr>"

theorem discovery_complete_witness:
  "\<exists>r. look ContentTypeMemo ''m1'' (snd (discoverUntrackedContent calm failed_world)) = Some r \<and>
     cs_RAGFlowStatus r = RAGFlowSyncStatusPending \<and> cs_RetryCount r = 0"
proof -
  have inv: "world_inv failed_world"
    by (simp add: failed_world_def world_inv_def table_inv_def new_state_def valid_content_type_def)
  have "look ContentTypeMemo ''m1'' failed_world = Some ((new_state ContentTypeMemo ''m1'' 7 [])
      \<lparr>cs_ID := 1, cs_RetryCount := 3, cs_RAGFlowStatus := RAGFlowSyncStatusFailed\<rparr>)"
    by (simp add: failed_world_def sqlite_look_def find_key_def row_key_def new_state_def)
  with discovery_complete [OF inv, of calm] show ?thesis by fastforce
qed

definition leaving_world :: world where
  "leaving_world = failed_world\<lparr>w_mappings := [\<lparr>um_UserID = 7, um_DatasetID = ''ds'', um_AssistantID = []\<rparr>]\<rparr>"

theorem user_deletion_cleans_up_witness:
  "look ContentTypeMemo ''m1'' (snd (HandleUserDeletion calm 7 leaving_world)) = None \<and>
   (\<exists>c. w_calls (snd (HandleUserDeletion calm 7 leaving_world)) = [DeleteDataset c ''ds''])"
proof -
  have inv: "world_inv leaving_world"
    by (simp add: leaving_world_def failed_world_def world_inv_def table_inv_def new_state_def
        valid_content_type_def)
  have ok: "HandleUserDeletion calm 7 leaving_world = (Ok (), snd (HandleUserDeletion calm 7 leaving_world))"
    by code_simp
  have l: "look ContentTypeMemo ''m1'' leaving_world = Some ((new_state ContentTypeMemo ''m1'' 7 [])
      \<lparr>cs_ID := 1, cs_RetryCount := 3, cs_RAGFlowStatus := RAGFlowSyncStatusFailed\<rparr>)"
    by (simp add: leaving_world_def failed_world_def sqlite_look_def find_key_def row_key_def new_state_def)
  have c: "w_calls leaving_world = []"
    by (simp add: leaving_world_def failed_world_def notebook_world_def memo_world_def)
  have m: "List.find (\<lambda>u. um_UserID u = 7) (w_mappings leaving_world) =
      Some \<lparr>um_UserID = 7, um_DatasetID = ''ds'', um_AssistantID = []\<rparr>"
    by (simp add: leaving_world_def)
  show ?thesis
    using user_deletion_cleans_up [OF inv ok] m l c by (simp add: new_state_def)
qed

end
