(* ===== verification/FilterSchema.thy ===== *)
theory FilterSchema
  imports Prelude
begin

section \<open>Filter schemas and the condition tree (plugin/filter/schema.go, ir.go)\<close>

text \<open>
  A filter over memos or attachments is written in CEL, turned into a condition tree
  and printed as SQL. This theory has the data: the dialects, the fields of the two
  schemas, and the tree. The CEL front end (github.com/google/cel-go) is outside the
  program; what comes out of it is the datatype \<open>expr\<close> of FilterParser.
\<close>

subsection \<open>Dialects, operators and fields\<close>

datatype dialect = DialectSQLite | DialectMySQL | DialectPostgres | OtherDialect string

datatype field_type = FieldTypeString | FieldTypeInt | FieldTypeBool | FieldTypeTimestamp

datatype field_kind =
  FieldKindScalar | FieldKindBoolColumn | FieldKindJSONBool | FieldKindJSONList | FieldKindVirtualAlias

datatype logical_operator = LogicalAnd | LogicalOr

datatype comparison_operator =
  CompareEq | CompareNeq | CompareLt | CompareLte | CompareGt | CompareGte

definition sqlOperator :: "comparison_operator \<Rightarrow> string" where
  "sqlOperator op =
     (case op of CompareEq \<Rightarrow> ''='' | CompareNeq \<Rightarrow> ''!='' | CompareLt \<Rightarrow> ''<'' | CompareLte \<Rightarrow> ''<=''
      | CompareGt \<Rightarrow> ''>'' | CompareGte \<Rightarrow> ''>='')"

record field =
  fd_Name :: string
  fd_Kind :: field_kind
  fd_Type :: field_type
  fd_Table :: string
  fd_Column :: string
  fd_JSONPath :: "string list"
  fd_AliasFor :: string
  fd_SupportsContains :: bool
  fd_Expressions :: "(dialect \<times> string) list"
  fd_AllowedComparisonOps :: "comparison_operator list option"

record schema =
  sc_Name :: string
  sc_Fields :: "(string \<times> field) list"

definition Field :: "schema \<Rightarrow> string \<Rightarrow> field option" where
  "Field S name = map_of (sc_Fields S) name"

definition ResolveAlias :: "schema \<Rightarrow> string \<Rightarrow> field option" where
  "ResolveAlias S name =
     (case Field S name of
        None \<Rightarrow> None
      | Some f \<Rightarrow> if fd_Kind f = FieldKindVirtualAlias then Field S (fd_AliasFor f) else Some f)"

text \<open>\<open>fmt.Sprintf\<close> with one \<open>%s\<close>, the only verb the schemas use.\<close>

fun sprintf_s :: "string \<Rightarrow> string \<Rightarrow> string" where
  "sprintf_s (c # d # cs) x = (if c = CHR ''%'' \<and> d = CHR ''s'' then x @ cs else c # sprintf_s (d # cs) x)"
| "sprintf_s cs x = cs"

definition qualifyColumn :: "dialect \<Rightarrow> string \<Rightarrow> string \<Rightarrow> string" where
  "qualifyColumn d table name =
     (if d = DialectPostgres then table @ ''.'' @ name
      else ''`'' @ table @ ''`.`'' @ name @ ''`'')"

definition field_column :: "dialect \<Rightarrow> field \<Rightarrow> string" where
  "field_column d f = qualifyColumn d (fd_Table f) (fd_Column f)"

definition columnExpr :: "dialect \<Rightarrow> field \<Rightarrow> string" where
  "columnExpr d f =
     (case map_of (fd_Expressions f) d of
        None \<Rightarrow> field_column d f
      | Some e \<Rightarrow> if e \<noteq> [] then sprintf_s e (field_column d f) else field_column d f)"

subsection \<open>The two schemas\<close>

text \<open>A field with nothing set but its name, as Go leaves the rest of a struct literal.\<close>

definition plain_field :: "string \<Rightarrow> field_kind \<Rightarrow> field_type \<Rightarrow> string \<Rightarrow> string \<Rightarrow> field" where
  "plain_field name kind ty table col =
     \<lparr>fd_Name = name, fd_Kind = kind, fd_Type = ty, fd_Table = table, fd_Column = col,
      fd_JSONPath = [], fd_AliasFor = [], fd_SupportsContains = False, fd_Expressions = [],
      fd_AllowedComparisonOps = None\<rparr>"

definition epoch_expressions :: "(dialect \<times> string) list" where
  "epoch_expressions = [(DialectMySQL, ''UNIX_TIMESTAMP(%s)''), (DialectPostgres, ''%s''), (DialectSQLite, ''%s'')]"

definition equality_only :: "comparison_operator list option" where
  "equality_only = Some [CompareEq, CompareNeq]"

definition json_bool :: "string \<Rightarrow> string \<Rightarrow> field" where
  "json_bool name key =
     (plain_field name FieldKindJSONBool FieldTypeBool ''memo'' ''payload'')
       \<lparr>fd_JSONPath := [''property'', key], fd_AllowedComparisonOps := equality_only\<rparr>"

definition NewSchema :: schema where
  "NewSchema = \<lparr>sc_Name = ''memo'', sc_Fields =
    [(''content'', (plain_field ''content'' FieldKindScalar FieldTypeString ''memo'' ''content'')
        \<lparr>fd_SupportsContains := True\<rparr>),
     (''creator_id'', (plain_field ''creator_id'' FieldKindScalar FieldTypeInt ''memo'' ''creator_id'')
        \<lparr>fd_AllowedComparisonOps := equality_only\<rparr>),
     (''created_ts'', (plain_field ''created_ts'' FieldKindScalar FieldTypeTimestamp ''memo'' ''created_ts'')
        \<lparr>fd_Expressions := epoch_expressions\<rparr>),
     (''updated_ts'', (plain_field ''updated_ts'' FieldKindScalar FieldTypeTimestamp ''memo'' ''updated_ts'')
        \<lparr>fd_Expressions := epoch_expressions\<rparr>),
     (''pinned'', (plain_field ''pinned'' FieldKindBoolColumn FieldTypeBool ''memo'' ''pinned'')
        \<lparr>fd_AllowedComparisonOps := equality_only\<rparr>),
     (''visibility'', (plain_field ''visibility'' FieldKindScalar FieldTypeString ''memo'' ''visibility'')
        \<lparr>fd_AllowedComparisonOps := equality_only\<rparr>),
     (''tags'', (plain_field ''tags'' FieldKindJSONList FieldTypeString ''memo'' ''payload'')
        \<lparr>fd_JSONPath := [''tags'']\<rparr>),
     (''tag'', (plain_field ''tag'' FieldKindVirtualAlias FieldTypeString [] [])
        \<lparr>fd_AliasFor := ''tags''\<rparr>),
     (''has_task_list'', json_bool ''has_task_list'' ''hasTaskList''),
     (''has_link'', json_bool ''has_link'' ''hasLink''),
     (''has_code'', json_bool ''has_code'' ''hasCode''),
     (''has_incomplete_tasks'', json_bool ''has_incomplete_tasks'' ''hasIncompleteTasks''),
     (''notebook_id'', (plain_field ''notebook_id'' FieldKindScalar FieldTypeInt ''memo'' ''notebook_id'')
        \<lparr>fd_AllowedComparisonOps := equality_only\<rparr>)]\<rparr>"

definition NewAttachmentSchema :: schema where
  "NewAttachmentSchema = \<lparr>sc_Name = ''attachment'', sc_Fields =
    [(''filename'', (plain_field ''filename'' FieldKindScalar FieldTypeString ''attachment'' ''filename'')
        \<lparr>fd_SupportsContains := True\<rparr>),
     (''mime_type'', plain_field ''mime_type'' FieldKindScalar FieldTypeString ''attachment'' ''type''),
     (''create_time'', (plain_field ''create_time'' FieldKindScalar FieldTypeTimestamp ''attachment'' ''created_ts'')
        \<lparr>fd_Expressions := epoch_expressions\<rparr>),
     (''memo_id'', (plain_field ''memo_id'' FieldKindScalar FieldTypeInt ''attachment'' ''memo_id'')
        \<lparr>fd_AllowedComparisonOps := equality_only\<rparr>)]\<rparr>"

subsection \<open>Literals\<close>

text \<open>
  A float64: a finite one is \<open>m * 2 ^ e\<close>. Conversion to int64 drops the fraction; out of
  range Go leaves the result to the machine, and this is what amd64 gives.
\<close>

datatype float64 = Finite int int | Infinite bool | NaN

definition float_nonzero :: "float64 \<Rightarrow> bool" where
  "float_nonzero x = (case x of Finite m e \<Rightarrow> m \<noteq> 0 | _ \<Rightarrow> True)"

definition float_to_int64 :: "float64 \<Rightarrow> int" where
  "float_to_int64 x =
     (case x of
        Finite m e \<Rightarrow>
          (let z = (if 0 \<le> e then m * 2 ^ nat e else sgn m * (\<bar>m\<bar> div 2 ^ nat (- e)))
           in if in_int64 z then z else min_int64)
      | _ \<Rightarrow> min_int64)"

datatype literal = LString string | LInt int | LDouble float64 | LBool bool | LNil

definition toInt64 :: "literal \<Rightarrow> int option" where
  "toInt64 l = (case l of LInt i \<Rightarrow> Some i | LDouble x \<Rightarrow> Some (float_to_int64 x) | _ \<Rightarrow> None)"

subsection \<open>The condition tree\<close>

datatype value_expr =
    FieldRef string
  | LiteralValue literal
  | FunctionValue string "value_expr list"

datatype predicate_expr =
    StartsWithPredicate string
  | EndsWithPredicate string
  | ContainsPredicate string

datatype comprehension_kind = ComprehensionExists

datatype condition =
    LogicalCondition logical_operator condition condition
  | NotCondition condition
  | FieldPredicateCondition string
  | ComparisonCondition value_expr comparison_operator value_expr
  | InCondition value_expr "value_expr list"
  | ElementInCondition value_expr string
  | ContainsCondition string string
  | ConstantCondition bool
  | ListComprehensionCondition comprehension_kind string string predicate_expr

text \<open>The errors of the filter compiler, by the check that fails.\<close>

datatype filter_error =
    FEmpty | FCompile | FArity | FNotBoolean | FUnknownIdent string | FNotBoolField string
  | FUnsupportedTop | FUnsupportedCall string | FOperatorNotAllowed string | FInvalidAlias string
  | FBadIn | FNoTarget | FNotIdent | FNoContains string | FNotLiteral | FNotString | FBadValue
  | FBadComprehension | FBadKind string | FBadNull | FBadLiteral string | FBadDialect string
  | FNoTagAlias

end
