(* ===== verification/FilterParser.thy ===== *)
theory FilterParser
  imports FilterSchema
begin

section \<open>From CEL expressions to conditions (plugin/filter/parser.go)\<close>

text \<open>
  \<open>expr\<close> is the expression tree that cel-go hands over (\<open>exprv1.Expr\<close>): constants,
  identifiers, calls with an optional target, lists and comprehensions. The functions
  keep their order of checks. \<open>now()\<close> reads the clock each time it is evaluated, so the
  functions that can meet it take the clock \<open>clk\<close> (nanoseconds, by reading number) and
  pass the number of the next reading on.
\<close>

subsection \<open>Expressions\<close>

datatype cel_constant =
    StringValue string
  | Int64Value int
  | Uint64Value int
  | DoubleValue float64
  | BoolValue bool
  | NullValue
  | OtherConstant

datatype expr =
    ConstExpr cel_constant
  | IdentExpr string
  | CallExpr "expr option" string "expr list"
  | ListExpr "expr list"
  | ComprehensionExpr string expr expr expr
  | OtherExpr

text \<open>\<open>ComprehensionExpr\<close> has the iteration variable, the range, the initial value and the step.\<close>

type_synonym 'a fres = "filter_error + 'a"
type_synonym now_clock = "nat \<Rightarrow> int"

subsection \<open>Leaves\<close>

definition getIdentName :: "expr \<Rightarrow> string fres" where
  "getIdentName e = (case e of IdentExpr n \<Rightarrow> Inr n | _ \<Rightarrow> Inl FNotIdent)"

definition constant_value :: "cel_constant \<Rightarrow> literal fres" where
  "constant_value c =
     (case c of
        StringValue s \<Rightarrow> Inr (LString s) | Int64Value i \<Rightarrow> Inr (LInt i)
      | Uint64Value i \<Rightarrow> Inr (LInt (wrap64 i)) | DoubleValue x \<Rightarrow> Inr (LDouble x)
      | BoolValue b \<Rightarrow> Inr (LBool b) | NullValue \<Rightarrow> Inr LNil | OtherConstant \<Rightarrow> Inl FNotLiteral)"

definition getConstValue :: "expr \<Rightarrow> literal fres" where
  "getConstValue e = (case e of ConstExpr c \<Rightarrow> constant_value c | _ \<Rightarrow> Inl FNotLiteral)"

fun evaluateBoolExpr :: "expr \<Rightarrow> bool option fres" where
  "evaluateBoolExpr (ConstExpr c) =
     (case constant_value c of Inr (LBool b) \<Rightarrow> Inr (Some b) | _ \<Rightarrow> Inr None)"
| "evaluateBoolExpr (CallExpr t fn [a]) =
     (if fn = ''!_'' then
        (case evaluateBoolExpr a of
           Inl e \<Rightarrow> Inl e | Inr None \<Rightarrow> Inr None | Inr (Some b) \<Rightarrow> Inr (Some (\<not> b)))
      else Inr None)"
| "evaluateBoolExpr (CallExpr t fn args) = (if fn = ''!_'' then Inl FArity else Inr None)"
| "evaluateBoolExpr e = Inr None"

definition arithmetic :: "string \<Rightarrow> bool" where
  "arithmetic fn \<longleftrightarrow> fn = ''_+_'' \<or> fn = ''_-_'' \<or> fn = ''_*_''"

text \<open>Arithmetic is int64, which wraps.\<close>

definition apply_arith :: "string \<Rightarrow> int \<Rightarrow> int \<Rightarrow> int" where
  "apply_arith fn a b = wrap64 (if fn = ''_+_'' then a + b else if fn = ''_-_'' then a - b else a * b)"

fun evaluateNumeric :: "now_clock \<Rightarrow> expr \<Rightarrow> nat \<Rightarrow> int option fres \<times> nat" where
  "evaluateNumeric clk (ConstExpr c) k =
     (case constant_value c of
        Inr (LInt i) \<Rightarrow> (Inr (Some i), k)
      | Inr (LDouble x) \<Rightarrow> (Inr (Some (float_to_int64 x)), k)
      | _ \<Rightarrow> (Inr None, k))"
| "evaluateNumeric clk (CallExpr t fn [l, r]) k =
     (if fn = ''now'' then (Inr (Some (unix (clk k))), k + 1)
      else if arithmetic fn then
        (case evaluateNumeric clk l k of
           (Inl e, k1) \<Rightarrow> (Inl e, k1)
         | (Inr None, k1) \<Rightarrow> (Inr None, k1)
         | (Inr (Some a), k1) \<Rightarrow>
             (case evaluateNumeric clk r k1 of
                (Inl e, k2) \<Rightarrow> (Inl e, k2)
              | (Inr None, k2) \<Rightarrow> (Inr None, k2)
              | (Inr (Some b), k2) \<Rightarrow> (Inr (Some (apply_arith fn a b)), k2)))
      else (Inr None, k))"
| "evaluateNumeric clk (CallExpr t fn args) k =
     (if fn = ''now'' then (Inr (Some (unix (clk k))), k + 1)
      else if arithmetic fn then (Inl FArity, k) else (Inr None, k))"
| "evaluateNumeric clk e k = (Inr None, k)"

subsection \<open>Values\<close>

text \<open>The branches of \<open>buildValueExpr\<close> before its last switch.\<close>

definition value_prefix :: "now_clock \<Rightarrow> schema \<Rightarrow> expr \<Rightarrow> nat \<Rightarrow> value_expr option fres \<times> nat" where
  "value_prefix clk S e k =
     (case getIdentName e of
        Inr n \<Rightarrow> (if Field S n = None then Inl (FUnknownIdent n) else Inr (Some (FieldRef n)), k)
      | Inl _ \<Rightarrow>
          (case getConstValue e of
             Inr l \<Rightarrow> (Inr (Some (LiteralValue l)), k)
           | Inl _ \<Rightarrow>
               (case evaluateNumeric clk e k of
                  (Inl er, k1) \<Rightarrow> (Inl er, k1)
                | (Inr (Some v), k1) \<Rightarrow> (Inr (Some (LiteralValue (LInt v))), k1)
                | (Inr None, k1) \<Rightarrow>
                    (case evaluateBoolExpr e of
                       Inl er \<Rightarrow> (Inl er, k1)
                     | Inr (Some b) \<Rightarrow> (Inr (Some (LiteralValue (LBool b))), k1)
                     | Inr None \<Rightarrow> (Inr None, k1)))))"

text \<open>The arithmetic case of the last switch evaluates once more.\<close>

definition value_again :: "now_clock \<Rightarrow> expr \<Rightarrow> string \<Rightarrow> nat \<Rightarrow> value_expr fres \<times> nat" where
  "value_again clk e fn k =
     (if fn = ''now'' then (Inr (LiteralValue (LInt (unix (clk k)))), k + 1)
      else if arithmetic fn then
        (case evaluateNumeric clk e k of
           (Inl er, k1) \<Rightarrow> (Inl er, k1)
         | (Inr (Some v), k1) \<Rightarrow> (Inr (LiteralValue (LInt v)), k1)
         | (Inr None, k1) \<Rightarrow> (Inl FBadValue, k1))
      else (Inl FBadValue, k))"

fun buildValueExpr :: "now_clock \<Rightarrow> schema \<Rightarrow> expr \<Rightarrow> nat \<Rightarrow> value_expr fres \<times> nat" where
  "buildValueExpr clk S (CallExpr t fn [a]) k =
     (case value_prefix clk S (CallExpr t fn [a]) k of
        (Inl er, k1) \<Rightarrow> (Inl er, k1)
      | (Inr (Some v), k1) \<Rightarrow> (Inr v, k1)
      | (Inr None, k1) \<Rightarrow>
          if fn = ''size'' then
            (case buildValueExpr clk S a k1 of
               (Inl er, k2) \<Rightarrow> (Inl er, k2)
             | (Inr v, k2) \<Rightarrow> (Inr (FunctionValue ''size'' [v]), k2))
          else value_again clk (CallExpr t fn [a]) fn k1)"
| "buildValueExpr clk S (CallExpr t fn args) k =
     (case value_prefix clk S (CallExpr t fn args) k of
        (Inl er, k1) \<Rightarrow> (Inl er, k1)
      | (Inr (Some v), k1) \<Rightarrow> (Inr v, k1)
      | (Inr None, k1) \<Rightarrow>
          if fn = ''size'' then (Inl FArity, k1) else value_again clk (CallExpr t fn args) fn k1)"
| "buildValueExpr clk S e k =
     (case value_prefix clk S e k of
        (Inl er, k1) \<Rightarrow> (Inl er, k1)
      | (Inr (Some v), k1) \<Rightarrow> (Inr v, k1)
      | (Inr None, k1) \<Rightarrow> (Inl FBadValue, k1))"

fun build_values :: "now_clock \<Rightarrow> schema \<Rightarrow> expr list \<Rightarrow> nat \<Rightarrow> value_expr list fres \<times> nat" where
  "build_values clk S [] k = (Inr [], k)"
| "build_values clk S (e # es) k =
     (case buildValueExpr clk S e k of
        (Inl er, k1) \<Rightarrow> (Inl er, k1)
      | (Inr v, k1) \<Rightarrow>
          (case build_values clk S es k1 of
             (Inl er, k2) \<Rightarrow> (Inl er, k2)
           | (Inr vs, k2) \<Rightarrow> (Inr (v # vs), k2)))"

subsection \<open>Comparisons, membership, contains\<close>

definition toComparisonOperator :: "string \<Rightarrow> comparison_operator option" where
  "toComparisonOperator fn =
     (if fn = ''_==_'' then Some CompareEq else if fn = ''_!=_'' then Some CompareNeq
      else if fn = ''_<_'' then Some CompareLt else if fn = ''_>_'' then Some CompareGt
      else if fn = ''_<=_'' then Some CompareLte else if fn = ''_>=_'' then Some CompareGte else None)"

text \<open>
  The check of the operator against the field on the left: an alias stands for its
  target; a field without a list of operators allows all.
\<close>

definition operator_check :: "schema \<Rightarrow> value_expr \<Rightarrow> comparison_operator \<Rightarrow> filter_error option" where
  "operator_check S left op =
     (case left of
        FieldRef n \<Rightarrow>
          (case Field S n of
             None \<Rightarrow> Some (FUnknownIdent n)
           | Some f \<Rightarrow>
               (case (if fd_Kind f = FieldKindVirtualAlias then ResolveAlias S n else Some f) of
                  None \<Rightarrow> Some (FInvalidAlias n)
                | Some f' \<Rightarrow>
                    (case fd_AllowedComparisonOps f' of
                       None \<Rightarrow> None
                     | Some ops \<Rightarrow> if List.member ops op then None else Some (FOperatorNotAllowed n))))
      | _ \<Rightarrow> None)"

definition buildComparisonCondition ::
  "now_clock \<Rightarrow> schema \<Rightarrow> string \<Rightarrow> expr list \<Rightarrow> nat \<Rightarrow> condition fres \<times> nat" where
  "buildComparisonCondition clk S fn args k =
     (case args of
        [a, b] \<Rightarrow>
          (case toComparisonOperator fn of
             None \<Rightarrow> (Inl (FUnsupportedCall fn), k)
           | Some op \<Rightarrow>
               (case buildValueExpr clk S a k of
                  (Inl er, k1) \<Rightarrow> (Inl er, k1)
                | (Inr left, k1) \<Rightarrow>
                    (case buildValueExpr clk S b k1 of
                       (Inl er, k2) \<Rightarrow> (Inl er, k2)
                     | (Inr right, k2) \<Rightarrow>
                         (case operator_check S left op of
                            Some er \<Rightarrow> (Inl er, k2)
                          | None \<Rightarrow> (Inr (ComparisonCondition left op right), k2)))))
      | _ \<Rightarrow> (Inl FArity, k))"

text \<open>The two forms of \<open>in\<close>: an identifier in a list, and a value in an identifier.\<close>

definition element_in ::
  "now_clock \<Rightarrow> schema \<Rightarrow> expr \<Rightarrow> expr \<Rightarrow> nat \<Rightarrow> condition fres \<times> nat" where
  "element_in clk S a b k =
     (case getIdentName b of
        Inl _ \<Rightarrow> (Inl FBadIn, k)
      | Inr n \<Rightarrow>
          if Field S n = None then (Inl (FUnknownIdent n), k)
          else
            (case buildValueExpr clk S a k of
               (Inl er, k1) \<Rightarrow> (Inl er, k1)
             | (Inr v, k1) \<Rightarrow> (Inr (ElementInCondition v n), k1)))"

definition buildInCondition ::
  "now_clock \<Rightarrow> schema \<Rightarrow> expr list \<Rightarrow> nat \<Rightarrow> condition fres \<times> nat" where
  "buildInCondition clk S args k =
     (case args of
        [a, b] \<Rightarrow>
          (case getIdentName a of
             Inl _ \<Rightarrow> element_in clk S a b k
           | Inr n \<Rightarrow>
               (case Field S n of
                  None \<Rightarrow> (Inl (FUnknownIdent n), k)
                | Some f \<Rightarrow>
                    if fd_Kind f = FieldKindVirtualAlias \<and> ResolveAlias S n = None
                    then (Inl (FInvalidAlias n), k)
                    else
                      (case b of
                         ListExpr es \<Rightarrow>
                           (case build_values clk S es k of
                              (Inl er, k1) \<Rightarrow> (Inl er, k1)
                            | (Inr vs, k1) \<Rightarrow> (Inr (InCondition (FieldRef n) vs), k1))
                       | _ \<Rightarrow> element_in clk S a b k)))
      | _ \<Rightarrow> (Inl FArity, k))"

definition buildContainsCondition :: "schema \<Rightarrow> expr option \<Rightarrow> expr list \<Rightarrow> condition fres" where
  "buildContainsCondition S target args =
     (case target of
        None \<Rightarrow> Inl FNoTarget
      | Some t \<Rightarrow>
          (case getIdentName t of
             Inl er \<Rightarrow> Inl er
           | Inr n \<Rightarrow>
               (case Field S n of
                  None \<Rightarrow> Inl (FUnknownIdent n)
                | Some f \<Rightarrow>
                    if \<not> fd_SupportsContains f then Inl (FNoContains n)
                    else
                      (case args of
                         [a] \<Rightarrow>
                           (case getConstValue a of
                              Inl _ \<Rightarrow> Inl FNotLiteral
                            | Inr (LString s) \<Rightarrow> Inr (ContainsCondition n s)
                            | Inr _ \<Rightarrow> Inl FNotString)
                       | _ \<Rightarrow> Inl FArity))))"

subsection \<open>Comprehensions\<close>

text \<open>\<open>GetBoolValue\<close> of a constant that is not a boolean is false.\<close>

definition GetBoolValue :: "cel_constant \<Rightarrow> bool" where
  "GetBoolValue c = (case c of BoolValue b \<Rightarrow> b | _ \<Rightarrow> False)"

definition detectComprehensionKind :: "expr \<Rightarrow> expr \<Rightarrow> comprehension_kind fres" where
  "detectComprehensionKind accuInit loopStep =
     (case accuInit of
        ConstExpr c \<Rightarrow>
          (case loopStep of
             CallExpr _ fn _ \<Rightarrow>
               if \<not> GetBoolValue c \<and> fn = ''_||_'' then Inr ComprehensionExists else Inl FBadComprehension
           | _ \<Rightarrow> Inl FBadComprehension)
      | _ \<Rightarrow> Inl FBadComprehension)"

text \<open>The three predicate builders differ in the constructor only.\<close>

definition buildStringPredicate ::
  "(string \<Rightarrow> predicate_expr) \<Rightarrow> expr option \<Rightarrow> expr list \<Rightarrow> string \<Rightarrow> predicate_expr fres" where
  "buildStringPredicate P target args iterVar =
     (case target of
        Some (IdentExpr n) \<Rightarrow>
          if n \<noteq> iterVar then Inl FNoTarget
          else
            (case args of
               [a] \<Rightarrow>
                 (case getConstValue a of
                    Inl _ \<Rightarrow> Inl FNotLiteral
                  | Inr (LString s) \<Rightarrow> Inr (P s)
                  | Inr _ \<Rightarrow> Inl FNotString)
             | _ \<Rightarrow> Inl FArity)
      | _ \<Rightarrow> Inl FNoTarget)"

definition extractPredicate :: "string \<Rightarrow> expr \<Rightarrow> predicate_expr fres" where
  "extractPredicate iterVar loopStep =
     (case loopStep of
        CallExpr _ _ [_, p] \<Rightarrow>
          (case p of
             CallExpr t fn args \<Rightarrow>
               if fn = ''startsWith'' then buildStringPredicate StartsWithPredicate t args iterVar
               else if fn = ''endsWith'' then buildStringPredicate EndsWithPredicate t args iterVar
               else if fn = ''contains'' then buildStringPredicate ContainsPredicate t args iterVar
               else Inl (FUnsupportedCall fn)
           | _ \<Rightarrow> Inl FBadComprehension)
      | _ \<Rightarrow> Inl FBadComprehension)"

definition buildComprehensionCondition ::
  "schema \<Rightarrow> string \<Rightarrow> expr \<Rightarrow> expr \<Rightarrow> expr \<Rightarrow> condition fres" where
  "buildComprehensionCondition S iterVar rng accuInit loopStep =
     (case detectComprehensionKind accuInit loopStep of
        Inl er \<Rightarrow> Inl er
      | Inr kind \<Rightarrow>
          (case rng of
             IdentExpr n \<Rightarrow>
               (case Field S n of
                  None \<Rightarrow> Inl (FUnknownIdent n)
                | Some f \<Rightarrow>
                    if fd_Kind f \<noteq> FieldKindJSONList then Inl (FBadKind n)
                    else
                      (case extractPredicate iterVar loopStep of
                         Inl er \<Rightarrow> Inl er
                       | Inr p \<Rightarrow> Inr (ListComprehensionCondition kind n iterVar p)))
           | _ \<Rightarrow> Inl FBadComprehension))"

subsection \<open>Conditions\<close>

definition build_leaf :: "now_clock \<Rightarrow> schema \<Rightarrow> expr \<Rightarrow> nat \<Rightarrow> condition fres \<times> nat" where
  "build_leaf clk S e k =
     (case e of
        ConstExpr c \<Rightarrow>
          ((case constant_value c of
              Inl er \<Rightarrow> Inl er
            | Inr (LBool b) \<Rightarrow> Inr (ConstantCondition b)
            | Inr (LInt i) \<Rightarrow> Inr (ConstantCondition (i \<noteq> 0))
            | Inr (LDouble x) \<Rightarrow> Inr (ConstantCondition (float_nonzero x))
            | Inr _ \<Rightarrow> Inl FNotBoolean), k)
      | IdentExpr n \<Rightarrow>
          ((case Field S n of
              None \<Rightarrow> Inl (FUnknownIdent n)
            | Some f \<Rightarrow>
                if fd_Type f \<noteq> FieldTypeBool then Inl (FNotBoolField n)
                else Inr (FieldPredicateCondition n)), k)
      | ComprehensionExpr v rng accuInit loopStep \<Rightarrow>
          (buildComprehensionCondition S v rng accuInit loopStep, k)
      | CallExpr t fn args \<Rightarrow>
          if toComparisonOperator fn \<noteq> None then buildComparisonCondition clk S fn args k
          else if fn = ''@in'' then buildInCondition clk S args k
          else if fn = ''contains'' then (buildContainsCondition S t args, k)
          else
            ((case evaluateBoolExpr e of
                Inl er \<Rightarrow> Inl er
              | Inr (Some b) \<Rightarrow> Inr (ConstantCondition b)
              | Inr None \<Rightarrow> Inl (FUnsupportedCall fn)), k)
      | _ \<Rightarrow> (Inl FUnsupportedTop, k))"

fun buildCondition :: "now_clock \<Rightarrow> schema \<Rightarrow> expr \<Rightarrow> nat \<Rightarrow> condition fres \<times> nat" where
  "buildCondition clk S (CallExpr t fn [a, b]) k =
     (if fn = ''_&&_'' \<or> fn = ''_||_'' then
        (case buildCondition clk S a k of
           (Inl er, k1) \<Rightarrow> (Inl er, k1)
         | (Inr left, k1) \<Rightarrow>
             (case buildCondition clk S b k1 of
                (Inl er, k2) \<Rightarrow> (Inl er, k2)
              | (Inr right, k2) \<Rightarrow>
                  (Inr (LogicalCondition (if fn = ''_&&_'' then LogicalAnd else LogicalOr) left right), k2)))
      else if fn = ''!_'' then (Inl FArity, k)
      else build_leaf clk S (CallExpr t fn [a, b]) k)"
| "buildCondition clk S (CallExpr t fn [a]) k =
     (if fn = ''!_'' then
        (case buildCondition clk S a k of
           (Inl er, k1) \<Rightarrow> (Inl er, k1)
         | (Inr child, k1) \<Rightarrow> (Inr (NotCondition child), k1))
      else if fn = ''_&&_'' \<or> fn = ''_||_'' then (Inl FArity, k)
      else build_leaf clk S (CallExpr t fn [a]) k)"
| "buildCondition clk S (CallExpr t fn args) k =
     (if fn = ''_&&_'' \<or> fn = ''_||_'' \<or> fn = ''!_'' then (Inl FArity, k)
      else build_leaf clk S (CallExpr t fn args) k)"
| "buildCondition clk S e k = build_leaf clk S e k"

subsection \<open>Built conditions are well formed\<close>

text \<open>
  What the renderer may rely on: every field named in a condition is in the schema, a
  predicate is a boolean field, a comparison uses an operator its field allows, and
  \<open>contains\<close> and comprehensions are on fields that support them.
\<close>

fun wf_value :: "schema \<Rightarrow> value_expr \<Rightarrow> bool" where
  "wf_value S (FieldRef n) \<longleftrightarrow> Field S n \<noteq> None"
| "wf_value S (LiteralValue l) \<longleftrightarrow> True"
| "wf_value S (FunctionValue fn args) \<longleftrightarrow>
     fn = ''size'' \<and> (case args of [a] \<Rightarrow> wf_value S a | _ \<Rightarrow> False)"

fun wf_cond :: "schema \<Rightarrow> condition \<Rightarrow> bool" where
  "wf_cond S (LogicalCondition op a b) \<longleftrightarrow> wf_cond S a \<and> wf_cond S b"
| "wf_cond S (NotCondition a) \<longleftrightarrow> wf_cond S a"
| "wf_cond S (FieldPredicateCondition n) \<longleftrightarrow>
     (\<exists>f. Field S n = Some f \<and> fd_Type f = FieldTypeBool)"
| "wf_cond S (ComparisonCondition l op r) \<longleftrightarrow>
     wf_value S l \<and> wf_value S r \<and> operator_check S l op = None"
| "wf_cond S (InCondition l vs) \<longleftrightarrow>
     (\<exists>n. l = FieldRef n \<and> Field S n \<noteq> None) \<and> (\<forall>v \<in> set vs. wf_value S v)"
| "wf_cond S (ElementInCondition v n) \<longleftrightarrow> wf_value S v \<and> Field S n \<noteq> None"
| "wf_cond S (ContainsCondition n s) \<longleftrightarrow>
     (\<exists>f. Field S n = Some f \<and> fd_SupportsContains f)"
| "wf_cond S (ConstantCondition b) \<longleftrightarrow> True"
| "wf_cond S (ListComprehensionCondition kd n v p) \<longleftrightarrow>
     (\<exists>f. Field S n = Some f \<and> fd_Kind f = FieldKindJSONList)"

lemma value_prefix_wf: "value_prefix clk S e k = (Inr (Some v), k') \<Longrightarrow> wf_value S v"
  by (auto simp: value_prefix_def split: sum.splits option.splits if_splits prod.splits)

lemma value_again_wf: "value_again clk e fn k = (Inr v, k') \<Longrightarrow> wf_value S v"
  by (auto simp: value_again_def split: sum.splits option.splits if_splits prod.splits)

lemma buildValueExpr_wf: "buildValueExpr clk S e k = (Inr v, k') \<Longrightarrow> wf_value S v"
  by (induction clk S e k arbitrary: v k' rule: buildValueExpr.induct)
    (auto split: sum.splits option.splits if_splits prod.splits dest: value_prefix_wf value_again_wf)

lemma build_values_wf: "build_values clk S es k = (Inr vs, k') \<Longrightarrow> v \<in> set vs \<Longrightarrow> wf_value S v"
  by (induction es arbitrary: k vs)
    (auto split: sum.splits prod.splits dest: buildValueExpr_wf)

lemma build_leaf_wf:
  assumes "build_leaf clk S e k = (Inr c, k')"
  shows "wf_cond S c"
proof -
  have cmp: "wf_cond S c" if "buildComparisonCondition clk S fn args k = (Inr c, k')" for fn args
    using that
    by (auto simp: buildComparisonCondition_def split: list.splits sum.splits option.splits prod.splits
        dest: buildValueExpr_wf)
  have el: "wf_cond S c" if "element_in clk S a b k = (Inr c, k')" for a b
    using that
    by (auto simp: element_in_def split: sum.splits if_splits prod.splits dest: buildValueExpr_wf)
  have mem: "wf_cond S c" if "buildInCondition clk S args k = (Inr c, k')" for args
    using that el
    by (auto simp: buildInCondition_def split: list.splits sum.splits option.splits prod.splits
        expr.splits if_splits dest: build_values_wf)
  have con: "wf_cond S c" if "buildContainsCondition S t args = Inr c" for t args
    using that
    by (auto simp: buildContainsCondition_def split: list.splits sum.splits option.splits
        literal.splits if_splits)
  have comp: "wf_cond S c" if "buildComprehensionCondition S v r a l = Inr c" for v r a l
    using that
    by (auto simp: buildComprehensionCondition_def split: sum.splits option.splits expr.splits if_splits)
  show ?thesis
    using assms cmp mem con comp
    by (auto simp: build_leaf_def split: expr.splits sum.splits option.splits if_splits literal.splits)
qed

text \<open>
  C15. Every condition that the parser builds is well formed for the schema it was
  built with.
\<close>

theorem parsed_condition_wf:
  "buildCondition clk S e k = (Inr c, k') \<Longrightarrow> wf_cond S c"
  by (induction clk S e k arbitrary: c k' rule: buildCondition.induct)
    (auto split: sum.splits if_splits prod.splits dest: build_leaf_wf)

text \<open>\<open>creator_id == 7 && !pinned\<close>\<close>

definition sample_expr :: expr where
  "sample_expr = CallExpr None ''_&&_''
     [CallExpr None ''_==_'' [IdentExpr ''creator_id'', ConstExpr (Int64Value 7)],
      CallExpr None ''!_'' [IdentExpr ''pinned'']]"

theorem parsed_condition_wf_witness:
  "wf_cond NewSchema (LogicalCondition LogicalAnd
     (ComparisonCondition (FieldRef ''creator_id'') CompareEq (LiteralValue (LInt 7)))
     (NotCondition (FieldPredicateCondition ''pinned'')))"
proof -
  have "buildCondition (\<lambda>_. 0) NewSchema sample_expr 0 = (Inr (LogicalCondition LogicalAnd
     (ComparisonCondition (FieldRef ''creator_id'') CompareEq (LiteralValue (LInt 7)))
     (NotCondition (FieldPredicateCondition ''pinned''))), 0)"
    by code_simp
  then show ?thesis by (rule parsed_condition_wf)
qed

end
