(* ===== verification/FilterRender.thy ===== *)
theory FilterRender
  imports FilterParser
begin

section \<open>From conditions to SQL (plugin/filter/render.go)\<close>

text \<open>
  The renderer prints a condition as SQL text with placeholders and collects the
  arguments. Its mutable fields are the counter and the arguments. A result is either
  text or marked as always true (\<open>trivial\<close>) or never true (\<open>unsatisfiable\<close>).
\<close>

datatype arg = ArgString string | ArgInt int | ArgBool bool

record renderer =
  r_schema :: schema
  r_dialect :: dialect
  r_placeholderOffset :: int
  r_placeholderCounter :: int
  r_args :: "arg list"

record render_result =
  rr_sql :: string
  rr_trivial :: bool
  rr_unsatisfiable :: bool

record statement =
  SQL :: string
  Args :: "arg list"

record render_options =
  Dialect :: dialect
  PlaceholderOffset :: int

definition newRenderer :: "schema \<Rightarrow> render_options \<Rightarrow> renderer" where
  "newRenderer S opts = \<lparr>r_schema = S, r_dialect = Dialect opts,
     r_placeholderOffset = PlaceholderOffset opts, r_placeholderCounter = 0, r_args = []\<rparr>"

definition text_result :: "string \<Rightarrow> render_result" where
  "text_result s = \<lparr>rr_sql = s, rr_trivial = False, rr_unsatisfiable = False\<rparr>"

definition always :: render_result where
  "always = \<lparr>rr_sql = [], rr_trivial = True, rr_unsatisfiable = False\<rparr>"

definition never :: render_result where
  "never = \<lparr>rr_sql = ''1 = 0'', rr_trivial = False, rr_unsatisfiable = True\<rparr>"

type_synonym rendering = "render_result fres \<times> renderer"

subsection \<open>Arguments\<close>

definition placeholder :: "dialect \<Rightarrow> int \<Rightarrow> string" where
  "placeholder d n = (if d = DialectPostgres then ''$'' @ itoa n else ''?'')"

definition addArg :: "arg \<Rightarrow> renderer \<Rightarrow> string \<times> renderer" where
  "addArg a r =
     (let r1 = r\<lparr>r_placeholderCounter := r_placeholderCounter r + 1, r_args := r_args r @ [a]\<rparr>
      in (placeholder (r_dialect r1) (r_placeholderOffset r1 + r_placeholderCounter r1), r1))"

definition addBoolArg :: "bool \<Rightarrow> renderer \<Rightarrow> string \<times> renderer" where
  "addBoolArg b r =
     addArg (if r_dialect r = DialectSQLite then ArgInt (if b then 1 else 0) else ArgBool b) r"

definition expectLiteral :: "value_expr \<Rightarrow> literal fres" where
  "expectLiteral v = (case v of LiteralValue l \<Rightarrow> Inr l | _ \<Rightarrow> Inl FNotLiteral)"

definition expectBool :: "value_expr \<Rightarrow> bool fres" where
  "expectBool v =
     (case expectLiteral v of
        Inl er \<Rightarrow> Inl er | Inr (LBool b) \<Rightarrow> Inr b | Inr _ \<Rightarrow> Inl (FBadLiteral ''bool''))"

definition expectNumericLiteral :: "value_expr \<Rightarrow> int fres" where
  "expectNumericLiteral v =
     (case expectLiteral v of
        Inl er \<Rightarrow> Inl er
      | Inr l \<Rightarrow> (case toInt64 l of None \<Rightarrow> Inl (FBadLiteral ''int64'') | Some i \<Rightarrow> Inr i))"

subsection \<open>Column and JSON expressions\<close>

definition jsonPath :: "field \<Rightarrow> string" where
  "jsonPath f = ''$.'' @ join_with ''.'' (fd_JSONPath f)"

definition quote :: string where "quote = [CHR 0x27]"

fun buildPostgresJSONAccessor :: "string \<Rightarrow> string list \<Rightarrow> bool \<Rightarrow> string" where
  "buildPostgresJSONAccessor e [] t = e"
| "buildPostgresJSONAccessor e (p # ps) t =
     buildPostgresJSONAccessor
       (e @ (if ps = [] \<and> t then ''->>'' else ''->'') @ quote @ p @ quote) ps t"

definition json_extract :: "dialect \<Rightarrow> field \<Rightarrow> bool \<Rightarrow> string" where
  "json_extract d f t =
     (case d of
        DialectSQLite \<Rightarrow> ''JSON_EXTRACT('' @ field_column d f @ '', '' @ quote @ jsonPath f @ quote @ '')''
      | DialectMySQL \<Rightarrow> ''JSON_EXTRACT('' @ field_column d f @ '', '' @ quote @ jsonPath f @ quote @ '')''
      | DialectPostgres \<Rightarrow> buildPostgresJSONAccessor (field_column d f) (fd_JSONPath f) t
      | OtherDialect _ \<Rightarrow> [])"

definition jsonExtractExpr :: "dialect \<Rightarrow> field \<Rightarrow> string" where
  "jsonExtractExpr d f = json_extract d f True"

definition jsonArrayExpr :: "dialect \<Rightarrow> field \<Rightarrow> string" where
  "jsonArrayExpr d f = json_extract d f False"

definition jsonArrayLengthExpr :: "dialect \<Rightarrow> field \<Rightarrow> string" where
  "jsonArrayLengthExpr d f =
     (case d of
        DialectSQLite \<Rightarrow> ''JSON_ARRAY_LENGTH(COALESCE('' @ jsonArrayExpr d f @ '', JSON_ARRAY()))''
      | DialectMySQL \<Rightarrow> ''JSON_LENGTH(COALESCE('' @ jsonArrayExpr d f @ '', JSON_ARRAY()))''
      | DialectPostgres \<Rightarrow>
          ''jsonb_array_length(COALESCE('' @ jsonArrayExpr d f @ '', '' @ quote @ ''[]'' @ quote @ ''::jsonb))''
      | OtherDialect _ \<Rightarrow> [])"

subsection \<open>Predicates and comparisons\<close>

definition renderFieldPredicate :: "string \<Rightarrow> renderer \<Rightarrow> rendering" where
  "renderFieldPredicate n r =
     (case Field (r_schema r) n of
        None \<Rightarrow> (Inl (FUnknownIdent n), r)
      | Some f \<Rightarrow>
          (case fd_Kind f of
             FieldKindBoolColumn \<Rightarrow>
               (Inr (text_result (field_column (r_dialect r) f @ '' IS TRUE'')), r)
           | FieldKindJSONBool \<Rightarrow>
               (let e = jsonExtractExpr (r_dialect r) f in
                (case r_dialect r of
                   DialectSQLite \<Rightarrow> Inr (text_result (e @ '' IS TRUE''))
                 | DialectMySQL \<Rightarrow>
                     Inr (text_result (''COALESCE('' @ e @ '', CAST('' @ quote @ ''false'' @ quote @
                       '' AS JSON)) = CAST('' @ quote @ ''true'' @ quote @ '' AS JSON)''))
                 | DialectPostgres \<Rightarrow> Inr (text_result (''('' @ e @ '')::boolean IS TRUE''))
                 | OtherDialect d \<Rightarrow> Inl (FBadDialect d)), r)
           | _ \<Rightarrow> (Inl (FBadKind n), r)))"

definition binary :: "string \<Rightarrow> comparison_operator \<Rightarrow> string \<Rightarrow> string" where
  "binary l op x = l @ '' '' @ sqlOperator op @ '' '' @ x"

definition renderFunctionComparison ::
  "string \<Rightarrow> value_expr list \<Rightarrow> comparison_operator \<Rightarrow> value_expr \<Rightarrow> renderer \<Rightarrow> rendering" where
  "renderFunctionComparison fn args op right r =
     (if fn \<noteq> ''size'' then (Inl (FUnsupportedCall fn), r)
      else case args of
          [FieldRef n] \<Rightarrow>
            (case Field (r_schema r) n of
               None \<Rightarrow> (Inl (FUnknownIdent n), r)
             | Some f \<Rightarrow>
                 if fd_Kind f \<noteq> FieldKindJSONList then (Inl (FBadKind n), r)
                 else
                   (case expectNumericLiteral right of
                      Inl er \<Rightarrow> (Inl er, r)
                    | Inr v \<Rightarrow>
                        (case addArg (ArgInt v) r of
                           (ph, r1) \<Rightarrow>
                             (Inr (text_result (binary (jsonArrayLengthExpr (r_dialect r) f) op ph)), r1))))
        | [_] \<Rightarrow> (Inl FNotIdent, r)
        | _ \<Rightarrow> (Inl FArity, r))"

definition renderScalarComparison ::
  "field \<Rightarrow> comparison_operator \<Rightarrow> value_expr \<Rightarrow> renderer \<Rightarrow> rendering" where
  "renderScalarComparison f op right r =
     (case expectLiteral right of
        Inl er \<Rightarrow> (Inl er, r)
      | Inr lit \<Rightarrow>
          (let col = columnExpr (r_dialect r) f;
               with_arg = (\<lambda>a. case addArg a r of (ph, r1) \<Rightarrow> (Inr (text_result (binary col op ph)), r1))
           in if lit = LNil then
                (case op of
                   CompareEq \<Rightarrow> (Inr (text_result (col @ '' IS NULL'')), r)
                 | CompareNeq \<Rightarrow> (Inr (text_result (col @ '' IS NOT NULL'')), r)
                 | _ \<Rightarrow> (Inl FBadNull, r))
              else
                (case fd_Type f of
                   FieldTypeString \<Rightarrow>
                     (case lit of LString s \<Rightarrow> with_arg (ArgString s) | _ \<Rightarrow> (Inl (FBadLiteral ''string''), r))
                 | FieldTypeInt \<Rightarrow>
                     (case toInt64 lit of Some i \<Rightarrow> with_arg (ArgInt i) | None \<Rightarrow> (Inl (FBadLiteral ''int64''), r))
                 | FieldTypeTimestamp \<Rightarrow>
                     (case toInt64 lit of Some i \<Rightarrow> with_arg (ArgInt i) | None \<Rightarrow> (Inl (FBadLiteral ''int64''), r))
                 | FieldTypeBool \<Rightarrow> (Inl (FBadKind (fd_Name f)), r))))"

definition renderBoolColumnComparison ::
  "field \<Rightarrow> comparison_operator \<Rightarrow> value_expr \<Rightarrow> renderer \<Rightarrow> rendering" where
  "renderBoolColumnComparison f op right r =
     (case expectBool right of
        Inl er \<Rightarrow> (Inl er, r)
      | Inr b \<Rightarrow>
          (case addBoolArg b r of
             (ph, r1) \<Rightarrow> (Inr (text_result (binary (field_column (r_dialect r) f) op ph)), r1)))"

text \<open>SQLite, with its special case for \<open>has_task_list\<close>; \<open>eq\<close> is the equality case.\<close>

definition sqlite_json_bool :: "field \<Rightarrow> string \<Rightarrow> bool \<Rightarrow> bool \<Rightarrow> string" where
  "sqlite_json_bool f e eq b =
     (if fd_Name f = ''has_task_list'' then e @ (if eq then '' = '' else '' != '') @ (if b then ''1'' else ''0'')
      else if b = eq then e @ '' IS TRUE'' else ''NOT('' @ e @ '' IS TRUE)'')"

definition renderJSONBoolComparison ::
  "field \<Rightarrow> comparison_operator \<Rightarrow> value_expr \<Rightarrow> renderer \<Rightarrow> rendering" where
  "renderJSONBoolComparison f op right r =
     (case expectBool right of
        Inl er \<Rightarrow> (Inl er, r)
      | Inr b \<Rightarrow>
          (let e = jsonExtractExpr (r_dialect r) f in
           case r_dialect r of
             DialectSQLite \<Rightarrow>
               (case op of
                  CompareEq \<Rightarrow> (Inr (text_result (sqlite_json_bool f e True b)), r)
                | CompareNeq \<Rightarrow> (Inr (text_result (sqlite_json_bool f e False b)), r)
                | _ \<Rightarrow> (Inl (FOperatorNotAllowed (fd_Name f)), r))
           | DialectMySQL \<Rightarrow>
               (Inr (text_result (binary e op (''CAST('' @ quote @ (if b then ''true'' else ''false'') @
                  quote @ '' AS JSON)''))), r)
           | DialectPostgres \<Rightarrow>
               (case addArg (ArgBool b) r of
                  (ph, r1) \<Rightarrow> (Inr (text_result (binary (''('' @ e @ '')::boolean'') op ph)), r1))
           | OtherDialect d \<Rightarrow> (Inl (FBadDialect d), r)))"

definition renderComparison ::
  "value_expr \<Rightarrow> comparison_operator \<Rightarrow> value_expr \<Rightarrow> renderer \<Rightarrow> rendering" where
  "renderComparison left op right r =
     (case left of
        FieldRef n \<Rightarrow>
          (case Field (r_schema r) n of
             None \<Rightarrow> (Inl (FUnknownIdent n), r)
           | Some f \<Rightarrow>
               (case fd_Kind f of
                  FieldKindBoolColumn \<Rightarrow> renderBoolColumnComparison f op right r
                | FieldKindJSONBool \<Rightarrow> renderJSONBoolComparison f op right r
                | FieldKindScalar \<Rightarrow> renderScalarComparison f op right r
                | _ \<Rightarrow> (Inl (FBadKind (fd_Name f)), r)))
      | FunctionValue fn args \<Rightarrow> renderFunctionComparison fn args op right r
      | LiteralValue _ \<Rightarrow> (Inl FBadValue, r))"

subsection \<open>Membership\<close>

definition dquote :: string where "dquote = [CHR 0x22]"

definition like_pattern :: "string \<Rightarrow> string \<Rightarrow> string \<Rightarrow> arg" where
  "like_pattern pre s post = ArgString (''%'' @ pre @ s @ post @ ''%'')"

definition json_string :: "string \<Rightarrow> arg" where
  "json_string s = ArgString (dquote @ s @ dquote)"

definition either :: "string \<Rightarrow> string \<Rightarrow> string" where
  "either a b = ''('' @ a @ '' OR '' @ b @ '')''"

text \<open>One tag of \<open>tag in [...]\<close>: the exact tag or a tag below it.\<close>

definition tag_condition :: "dialect \<Rightarrow> string \<Rightarrow> string \<Rightarrow> renderer \<Rightarrow> string fres \<times> renderer" where
  "tag_condition d e s r =
     (case d of
        DialectSQLite \<Rightarrow>
          (case addArg (like_pattern dquote s dquote) r of (p1, r1) \<Rightarrow>
           case addArg (like_pattern dquote s ''/'') r1 of (p2, r2) \<Rightarrow>
             (Inr (either (e @ '' LIKE '' @ p1) (e @ '' LIKE '' @ p2)), r2))
      | DialectMySQL \<Rightarrow>
          (case addArg (json_string s) r of (p1, r1) \<Rightarrow>
           case addArg (like_pattern dquote s ''/'') r1 of (p2, r2) \<Rightarrow>
             (Inr (either (''JSON_CONTAINS('' @ e @ '', '' @ p1 @ '')'') (e @ '' LIKE '' @ p2)), r2))
      | DialectPostgres \<Rightarrow>
          (case addArg (json_string s) r of (p1, r1) \<Rightarrow>
           case addArg (like_pattern dquote s ''/'') r1 of (p2, r2) \<Rightarrow>
             (Inr (either (e @ '' @> jsonb_build_array('' @ p1 @ ''::json)'')
                          (''('' @ e @ '')::text LIKE '' @ p2)), r2))
      | OtherDialect x \<Rightarrow> (Inl (FBadDialect x), r))"

fun tag_conditions ::
  "field \<Rightarrow> value_expr list \<Rightarrow> renderer \<Rightarrow> string list fres \<times> renderer" where
  "tag_conditions f [] r = (Inr [], r)"
| "tag_conditions f (v # vs) r =
     (case expectLiteral v of
        Inl er \<Rightarrow> (Inl er, r)
      | Inr (LString s) \<Rightarrow>
          (case tag_condition (r_dialect r) (jsonArrayExpr (r_dialect r) f) s r of
             (Inl er, r1) \<Rightarrow> (Inl er, r1)
           | (Inr c, r1) \<Rightarrow>
               (case tag_conditions f vs r1 of
                  (Inl er, r2) \<Rightarrow> (Inl er, r2)
                | (Inr cs, r2) \<Rightarrow> (Inr (c # cs), r2)))
      | Inr _ \<Rightarrow> (Inl FNotString, r))"

definition renderTagInList :: "value_expr list \<Rightarrow> renderer \<Rightarrow> rendering" where
  "renderTagInList vs r =
     (case ResolveAlias (r_schema r) ''tag'' of
        None \<Rightarrow> (Inl FNoTagAlias, r)
      | Some f \<Rightarrow>
          (case tag_conditions f vs r of
             (Inl er, r1) \<Rightarrow> (Inl er, r1)
           | (Inr [c], r1) \<Rightarrow> (Inr (text_result c), r1)
           | (Inr cs, r1) \<Rightarrow> (Inr (text_result (''('' @ join_with '' OR '' cs @ '')'')), r1)))"

fun scalar_placeholders ::
  "field \<Rightarrow> value_expr list \<Rightarrow> renderer \<Rightarrow> string list fres \<times> renderer" where
  "scalar_placeholders f [] r = (Inr [], r)"
| "scalar_placeholders f (v # vs) r =
     (case expectLiteral v of
        Inl er \<Rightarrow> (Inl er, r)
      | Inr lit \<Rightarrow>
          (case (case fd_Type f of
                   FieldTypeString \<Rightarrow> (case lit of LString s \<Rightarrow> Inr (ArgString s) | _ \<Rightarrow> Inl FNotString)
                 | FieldTypeInt \<Rightarrow>
                     (case toInt64 lit of Some i \<Rightarrow> Inr (ArgInt i) | None \<Rightarrow> Inl (FBadLiteral ''int64''))
                 | _ \<Rightarrow> Inl (FBadKind (fd_Name f))) of
             Inl er \<Rightarrow> (Inl er, r)
           | Inr a \<Rightarrow>
               (case addArg a r of
                  (ph, r1) \<Rightarrow>
                    (case scalar_placeholders f vs r1 of
                       (Inl er, r2) \<Rightarrow> (Inl er, r2)
                     | (Inr phs, r2) \<Rightarrow> (Inr (ph # phs), r2)))))"

definition renderScalarInCondition :: "field \<Rightarrow> value_expr list \<Rightarrow> renderer \<Rightarrow> rendering" where
  "renderScalarInCondition f vs r =
     (case scalar_placeholders f vs r of
        (Inl er, r1) \<Rightarrow> (Inl er, r1)
      | (Inr phs, r1) \<Rightarrow>
          (Inr (text_result (columnExpr (r_dialect r) f @ '' IN ('' @ join_with '','' phs @ '')'')), r1))"

definition renderInCondition :: "value_expr \<Rightarrow> value_expr list \<Rightarrow> renderer \<Rightarrow> rendering" where
  "renderInCondition left vs r =
     (case left of
        FieldRef n \<Rightarrow>
          if n = ''tag'' then renderTagInList vs r
          else
            (case Field (r_schema r) n of
               None \<Rightarrow> (Inl (FUnknownIdent n), r)
             | Some f \<Rightarrow>
                 if fd_Kind f \<noteq> FieldKindScalar then (Inl (FBadKind n), r)
                 else renderScalarInCondition f vs r)
      | _ \<Rightarrow> (Inl FBadIn, r))"

definition renderElementInCondition :: "value_expr \<Rightarrow> string \<Rightarrow> renderer \<Rightarrow> rendering" where
  "renderElementInCondition v n r =
     (case Field (r_schema r) n of
        None \<Rightarrow> (Inl (FUnknownIdent n), r)
      | Some f \<Rightarrow>
          if fd_Kind f \<noteq> FieldKindJSONList then (Inl (FBadKind n), r)
          else
            (case expectLiteral v of
               Inl er \<Rightarrow> (Inl er, r)
             | Inr (LString s) \<Rightarrow>
                 (let e = jsonArrayExpr (r_dialect r) f in
                  case r_dialect r of
                    DialectSQLite \<Rightarrow>
                      (case addArg (like_pattern dquote s dquote) r of
                         (ph, r1) \<Rightarrow> (Inr (text_result (e @ '' LIKE '' @ ph)), r1))
                  | DialectMySQL \<Rightarrow>
                      (case addArg (json_string s) r of
                         (ph, r1) \<Rightarrow> (Inr (text_result (''JSON_CONTAINS('' @ e @ '', '' @ ph @ '')'')), r1))
                  | DialectPostgres \<Rightarrow>
                      (case addArg (json_string s) r of
                         (ph, r1) \<Rightarrow> (Inr (text_result (e @ '' @> jsonb_build_array('' @ ph @ ''::json)'')), r1))
                  | OtherDialect d \<Rightarrow> (Inl (FBadDialect d), r))
             | Inr _ \<Rightarrow> (Inl FNotString, r)))"

definition renderContainsCondition :: "string \<Rightarrow> string \<Rightarrow> renderer \<Rightarrow> rendering" where
  "renderContainsCondition n s r =
     (case Field (r_schema r) n of
        None \<Rightarrow> (Inl (FUnknownIdent n), r)
      | Some f \<Rightarrow>
          (let col = columnExpr (r_dialect r) f in
           case addArg (like_pattern [] s []) r of
             (ph, r1) \<Rightarrow>
               (Inr (text_result
                  (case r_dialect r of
                     DialectSQLite \<Rightarrow>
                       ''memos_unicode_lower('' @ col @ '') LIKE memos_unicode_lower('' @ ph @ '')''
                   | DialectPostgres \<Rightarrow> col @ '' ILIKE '' @ ph
                   | _ \<Rightarrow> col @ '' LIKE '' @ ph)), r1)))"

subsection \<open>Comprehensions\<close>

text \<open>For an unknown dialect the text is empty and no argument is added.\<close>

definition buildJSONArrayLike :: "string \<Rightarrow> arg \<Rightarrow> renderer \<Rightarrow> string \<times> renderer" where
  "buildJSONArrayLike e pattern r =
     (case r_dialect r of
        DialectPostgres \<Rightarrow> (case addArg pattern r of (ph, r1) \<Rightarrow> (''('' @ e @ '')::text LIKE '' @ ph, r1))
      | OtherDialect _ \<Rightarrow> ([], r)
      | _ \<Rightarrow> (case addArg pattern r of (ph, r1) \<Rightarrow> (e @ '' LIKE '' @ ph, r1)))"

definition wrapWithNullCheck :: "dialect \<Rightarrow> string \<Rightarrow> string \<Rightarrow> string" where
  "wrapWithNullCheck d e c =
     (case d of
        DialectSQLite \<Rightarrow>
          ''('' @ c @ '' AND '' @ e @ '' IS NOT NULL AND '' @ e @ '' != '' @ quote @ ''[]'' @ quote @ '')''
      | DialectMySQL \<Rightarrow> ''('' @ c @ '' AND '' @ e @ '' IS NOT NULL AND JSON_LENGTH('' @ e @ '') > 0)''
      | DialectPostgres \<Rightarrow>
          ''('' @ c @ '' AND '' @ e @ '' IS NOT NULL AND jsonb_array_length('' @ e @ '') > 0)''
      | OtherDialect _ \<Rightarrow> c)"

definition renderTagStartsWith :: "field \<Rightarrow> string \<Rightarrow> renderer \<Rightarrow> rendering" where
  "renderTagStartsWith f pre r =
     (let e = jsonArrayExpr (r_dialect r) f in
      case r_dialect r of
        DialectPostgres \<Rightarrow>
          (case addArg (json_string pre) r of (p1, r1) \<Rightarrow>
           case addArg (like_pattern dquote pre []) r1 of (p2, r2) \<Rightarrow>
             (Inr (text_result (wrapWithNullCheck (r_dialect r) e
                (either (e @ '' @> jsonb_build_array('' @ p1 @ ''::json)'')
                        (''('' @ e @ '')::text LIKE '' @ p2)))), r2))
      | OtherDialect d \<Rightarrow> (Inl (FBadDialect d), r)
      | _ \<Rightarrow>
          (case buildJSONArrayLike e (like_pattern dquote pre dquote) r of (c1, r1) \<Rightarrow>
           case buildJSONArrayLike e (like_pattern dquote pre []) r1 of (c2, r2) \<Rightarrow>
             (Inr (text_result (wrapWithNullCheck (r_dialect r) e (either c1 c2))), r2)))"

definition renderTagLike :: "field \<Rightarrow> arg \<Rightarrow> renderer \<Rightarrow> rendering" where
  "renderTagLike f pattern r =
     (let e = jsonArrayExpr (r_dialect r) f in
      case buildJSONArrayLike e pattern r of
        (c, r1) \<Rightarrow> (Inr (text_result (wrapWithNullCheck (r_dialect r) e c)), r1))"

definition renderTagEndsWith :: "field \<Rightarrow> string \<Rightarrow> renderer \<Rightarrow> rendering" where
  "renderTagEndsWith f suf = renderTagLike f (like_pattern [] suf dquote)"

definition renderTagContains :: "field \<Rightarrow> string \<Rightarrow> renderer \<Rightarrow> rendering" where
  "renderTagContains f sub = renderTagLike f (like_pattern [] sub [])"

definition renderListComprehension :: "string \<Rightarrow> predicate_expr \<Rightarrow> renderer \<Rightarrow> rendering" where
  "renderListComprehension n p r =
     (case Field (r_schema r) n of
        None \<Rightarrow> (Inl (FUnknownIdent n), r)
      | Some f \<Rightarrow>
          if fd_Kind f \<noteq> FieldKindJSONList then (Inl (FBadKind n), r)
          else
            (case p of
               StartsWithPredicate s \<Rightarrow> renderTagStartsWith f s r
             | EndsWithPredicate s \<Rightarrow> renderTagEndsWith f s r
             | ContainsPredicate s \<Rightarrow> renderTagContains f s r))"

subsection \<open>Boolean structure\<close>

definition combineAnd :: "render_result \<Rightarrow> render_result \<Rightarrow> render_result" where
  "combineAnd left right =
     (if rr_unsatisfiable left \<or> rr_unsatisfiable right then never
      else if rr_trivial left then right
      else if rr_trivial right then left
      else text_result (''('' @ rr_sql left @ '' AND '' @ rr_sql right @ '')''))"

definition combineOr :: "render_result \<Rightarrow> render_result \<Rightarrow> render_result" where
  "combineOr left right =
     (if rr_trivial left \<or> rr_trivial right then always
      else if rr_unsatisfiable left then right
      else if rr_unsatisfiable right then left
      else text_result (''('' @ rr_sql left @ '' OR '' @ rr_sql right @ '')''))"

definition negate :: "render_result \<Rightarrow> render_result" where
  "negate child =
     (if rr_trivial child then never
      else if rr_unsatisfiable child then always
      else text_result (''NOT ('' @ rr_sql child @ '')''))"

fun renderCondition :: "condition \<Rightarrow> renderer \<Rightarrow> rendering" where
  "renderCondition (LogicalCondition op a b) r =
     (case renderCondition a r of
        (Inl er, r1) \<Rightarrow> (Inl er, r1)
      | (Inr left, r1) \<Rightarrow>
          (case renderCondition b r1 of
             (Inl er, r2) \<Rightarrow> (Inl er, r2)
           | (Inr right, r2) \<Rightarrow>
               (Inr (case op of LogicalAnd \<Rightarrow> combineAnd left right | LogicalOr \<Rightarrow> combineOr left right), r2)))"
| "renderCondition (NotCondition a) r =
     (case renderCondition a r of
        (Inl er, r1) \<Rightarrow> (Inl er, r1)
      | (Inr child, r1) \<Rightarrow> (Inr (negate child), r1))"
| "renderCondition (FieldPredicateCondition n) r = renderFieldPredicate n r"
| "renderCondition (ComparisonCondition l op x) r = renderComparison l op x r"
| "renderCondition (InCondition l vs) r = renderInCondition l vs r"
| "renderCondition (ElementInCondition v n) r = renderElementInCondition v n r"
| "renderCondition (ContainsCondition n s) r = renderContainsCondition n s r"
| "renderCondition (ListComprehensionCondition kd n v p) r = renderListComprehension n p r"
| "renderCondition (ConstantCondition b) r = (Inr (if b then always else never), r)"

definition Render :: "condition \<Rightarrow> renderer \<Rightarrow> statement fres" where
  "Render c r =
     (case renderCondition c r of
        (Inl er, _) \<Rightarrow> Inl er
      | (Inr res, r1) \<Rightarrow>
          Inr \<lparr>SQL = (if rr_unsatisfiable res then ''1 = 0'' else if rr_trivial res then [] else rr_sql res),
               Args = r_args r1\<rparr>)"

definition program_Render :: "schema \<Rightarrow> render_options \<Rightarrow> condition \<Rightarrow> statement fres" where
  "program_Render S opts c = Render c (newRenderer S opts)"

end
