(* ===== verification/FilterSafety.thy ===== *)
theory FilterSafety
  imports FilterRender
begin

section \<open>What the renderer guarantees\<close>

text \<open>
  Three facts about \<open>renderCondition\<close>: string and number literals never reach the SQL
  text, every placeholder has its argument as long as no constant is folded, and folding
  agrees with SQL's three-valued logic.
\<close>

subsection \<open>Literals never reach the text\<close>

text \<open>Two renderers that differ only in the arguments collected so far.\<close>

definition similar :: "renderer \<Rightarrow> renderer \<Rightarrow> bool" where
  "similar r r' \<longleftrightarrow> r_schema r = r_schema r' \<and> r_dialect r = r_dialect r' \<and>
     r_placeholderOffset r = r_placeholderOffset r' \<and> r_placeholderCounter r = r_placeholderCounter r'"

definition alike :: "'a \<times> renderer \<Rightarrow> 'a \<times> renderer \<Rightarrow> bool" where
  "alike x y \<longleftrightarrow> fst x = fst y \<and> similar (snd x) (snd y)"

lemma similar_refl [simp]: "similar r r"
  by (simp add: similar_def)

lemma addArg_simps [simp]:
  "fst (addArg a r) = placeholder (r_dialect r) (r_placeholderOffset r + r_placeholderCounter r + 1)"
  "r_schema (snd (addArg a r)) = r_schema r" "r_dialect (snd (addArg a r)) = r_dialect r"
  "r_placeholderOffset (snd (addArg a r)) = r_placeholderOffset r"
  "r_placeholderCounter (snd (addArg a r)) = r_placeholderCounter r + 1"
  "r_args (snd (addArg a r)) = r_args r @ [a]"
  by (simp_all add: addArg_def Let_def add.assoc)

lemmas alike_defs = alike_def similar_def split_beta Let_def

definition blank_literal :: "literal \<Rightarrow> literal" where
  "blank_literal l =
     (case l of LString s \<Rightarrow> LString [] | LInt i \<Rightarrow> LInt 0 | LDouble x \<Rightarrow> LDouble (Finite 0 0) | _ \<Rightarrow> l)"

fun blank_value :: "value_expr \<Rightarrow> value_expr" where
  "blank_value (FieldRef n) = FieldRef n"
| "blank_value (LiteralValue l) = LiteralValue (blank_literal l)"
| "blank_value (FunctionValue fn args) = FunctionValue fn (map blank_value args)"

definition blank_predicate :: "predicate_expr \<Rightarrow> predicate_expr" where
  "blank_predicate p =
     (case p of StartsWithPredicate s \<Rightarrow> StartsWithPredicate [] | EndsWithPredicate s \<Rightarrow> EndsWithPredicate []
      | ContainsPredicate s \<Rightarrow> ContainsPredicate [])"

text \<open>The condition with every string made empty and every number zero.\<close>

fun blank_cond :: "condition \<Rightarrow> condition" where
  "blank_cond (LogicalCondition op a b) = LogicalCondition op (blank_cond a) (blank_cond b)"
| "blank_cond (NotCondition a) = NotCondition (blank_cond a)"
| "blank_cond (ComparisonCondition l op x) = ComparisonCondition (blank_value l) op (blank_value x)"
| "blank_cond (InCondition l vs) = InCondition (blank_value l) (map blank_value vs)"
| "blank_cond (ElementInCondition v n) = ElementInCondition (blank_value v) n"
| "blank_cond (ContainsCondition n s) = ContainsCondition n []"
| "blank_cond (ListComprehensionCondition kd n v p) = ListComprehensionCondition kd n v (blank_predicate p)"
| "blank_cond c = c"

lemma expect_blank:
  "expectLiteral (blank_value v) = map_sum id blank_literal (expectLiteral v)"
  "expectBool (blank_value v) = expectBool v"
  "expectNumericLiteral (blank_value v) =
     (case expectNumericLiteral v of Inl e \<Rightarrow> Inl e
      | Inr i \<Rightarrow> Inr (case expectNumericLiteral (blank_value v) of Inr j \<Rightarrow> j | _ \<Rightarrow> 0))"
  by (cases v; auto simp: expectLiteral_def expectBool_def expectNumericLiteral_def blank_literal_def
      toInt64_def split: literal.splits)+

lemma toInt64_blank: "(toInt64 (blank_literal l) = None) = (toInt64 l = None)"
  by (simp add: toInt64_def blank_literal_def split: literal.splits)

lemma scalar_comparison_alike:
  "similar r r' \<Longrightarrow>
   alike (renderScalarComparison f op x r) (renderScalarComparison f op (blank_value x) r')"
  by (cases x) (auto simp: renderScalarComparison_def expectLiteral_def alike_defs
      blank_literal_def toInt64_def
      split: literal.splits field_type.splits comparison_operator.splits)

lemma function_comparison_alike:
  "similar r r' \<Longrightarrow>
   alike (renderFunctionComparison fn args op x r)
     (renderFunctionComparison fn (map blank_value args) op (blank_value x) r')"
  by (cases x; cases args; cases "hd args")
    (auto simp: renderFunctionComparison_def expectNumericLiteral_def expectLiteral_def alike_defs
      blank_literal_def toInt64_def
      split: literal.splits option.splits list.splits value_expr.splits)

lemma comparison_alike:
  assumes "similar r r'"
  shows "alike (renderComparison l op x r) (renderComparison (blank_value l) op (blank_value x) r')"
proof -
  have b: "alike (renderBoolColumnComparison f op x r) (renderBoolColumnComparison f op (blank_value x) r')" for f
    using assms
    by (auto simp: renderBoolColumnComparison_def expect_blank alike_defs addBoolArg_def split: sum.splits)
  have j: "alike (renderJSONBoolComparison f op x r) (renderJSONBoolComparison f op (blank_value x) r')" for f
    using assms
    by (auto simp: renderJSONBoolComparison_def expect_blank alike_defs
        split: sum.splits dialect.splits comparison_operator.splits)
  show ?thesis
    using assms b j scalar_comparison_alike [OF assms] function_comparison_alike [OF assms]
    by (cases l) (auto simp: renderComparison_def alike_def similar_def split: option.splits field_kind.splits)
qed

lemma tag_condition_alike:
  "similar r r' \<Longrightarrow> alike (tag_condition d e s r) (tag_condition d e t r')"
  by (auto simp: tag_condition_def alike_defs split: dialect.splits)

lemma alike_case:
  assumes "alike x y" and "\<And>a s s'. similar s s' \<Longrightarrow> alike (F a s) (G a s')"
  shows "alike (case x of (Inl e, s) \<Rightarrow> (Inl e, s) | (Inr a, s) \<Rightarrow> F a s)
    (case y of (Inl e, s) \<Rightarrow> (Inl e, s) | (Inr a, s) \<Rightarrow> G a s)"
  using assms by (cases x; cases y; cases "fst x") (auto simp: alike_def)

lemma tag_conditions_alike:
  "similar r r' \<Longrightarrow> alike (tag_conditions f vs r) (tag_conditions f (map blank_value vs) r')"
proof (induction vs arbitrary: r r')
  case (Cons v vs)
  show ?case
  proof (cases "expectLiteral v")
    case (Inr l)
    show ?thesis
    proof (cases l)
      case (LString s)
      let ?x = "tag_condition (r_dialect r) (jsonArrayExpr (r_dialect r) f) s r"
      let ?y = "tag_condition (r_dialect r') (jsonArrayExpr (r_dialect r') f) [] r'"
      have "alike ?x ?y"
        using Cons.prems tag_condition_alike by (simp add: similar_def)
      with Cons.IH [of "snd ?x" "snd ?y"] show ?thesis
        using Inr LString
        by (auto simp: expect_blank blank_literal_def alike_def split_beta split: sum.splits)
    qed (use Cons.prems Inr in \<open>auto simp: expect_blank blank_literal_def alike_def\<close>)
  qed (use Cons.prems in \<open>auto simp: expect_blank alike_def\<close>)
qed (simp add: alike_def)

lemma scalar_placeholders_alike:
  "similar r r' \<Longrightarrow> alike (scalar_placeholders f vs r) (scalar_placeholders f (map blank_value vs) r')"
proof (induction vs arbitrary: r r')
  case (Cons v vs)
  let ?rest = "\<lambda>vs ph r1. case scalar_placeholders f vs r1 of
      (Inl er, r2) \<Rightarrow> (Inl er, r2) | (Inr phs, r2) \<Rightarrow> (Inr (ph # phs), r2)"
  have rest: "alike (case addArg a r of (ph, r1) \<Rightarrow> ?rest vs ph r1)
      (case addArg b r' of (ph, r1) \<Rightarrow> ?rest (map blank_value vs) ph r1)" for a b
  proof -
    obtain ph s where s: "addArg a r = (ph, s)" by (cases "addArg a r")
    obtain ph' s' where s': "addArg b r' = (ph', s')" by (cases "addArg b r'")
    have ph: "ph' = ph" and sim: "similar s s'"
      using addArg_simps [of a r] addArg_simps [of b r'] Cons.prems s s' by (auto simp: similar_def)
    show ?thesis
      unfolding s s' prod.case ph by (rule alike_case [OF Cons.IH [OF sim]]) (simp add: alike_def)
  qed
  show ?case
  proof (cases "expectLiteral v")
    case (Inr l)
    with Cons.prems rest show ?thesis
      by (cases l; cases "fd_Type f") (simp_all add: expect_blank blank_literal_def toInt64_def alike_def)
  qed (use Cons.prems in \<open>auto simp: expect_blank alike_def\<close>)
qed (simp add: alike_def)

lemma in_condition_alike:
  assumes "similar r r'"
  shows "alike (renderInCondition l vs r) (renderInCondition (blank_value l) (map blank_value vs) r')"
proof -
  have tag: "alike (renderTagInList vs r) (renderTagInList (map blank_value vs) r')"
  proof (cases "ResolveAlias (r_schema r) ''tag''")
    case (Some f)
    with assms tag_conditions_alike [OF assms, of f vs] show ?thesis
      by (auto simp: renderTagInList_def similar_def alike_def split_beta split: sum.splits list.splits)
  qed (use assms in \<open>simp add: renderTagInList_def alike_def similar_def\<close>)
  have scalar: "alike (renderScalarInCondition f vs r) (renderScalarInCondition f (map blank_value vs) r')" for f
    using assms scalar_placeholders_alike [OF assms, of f vs]
    by (auto simp: renderScalarInCondition_def similar_def alike_def split_beta split: sum.splits)
  show ?thesis
    using assms tag scalar
    by (cases l) (auto simp: renderInCondition_def similar_def alike_def split: option.splits)
qed

lemma element_in_alike:
  "similar r r' \<Longrightarrow> alike (renderElementInCondition v n r) (renderElementInCondition (blank_value v) n r')"
  by (auto simp: renderElementInCondition_def expect_blank blank_literal_def alike_defs
      split: option.splits sum.splits literal.splits dialect.splits)

lemma contains_alike:
  "similar r r' \<Longrightarrow> alike (renderContainsCondition n s r) (renderContainsCondition n t r')"
  by (auto simp: renderContainsCondition_def alike_defs split: option.splits dialect.splits)

lemma json_like_alike:
  "similar r r' \<Longrightarrow> alike (buildJSONArrayLike e a r) (buildJSONArrayLike e b r')"
  by (auto simp: buildJSONArrayLike_def alike_defs split: dialect.splits)

lemma tag_starts_alike:
  "similar r r' \<Longrightarrow> alike (renderTagStartsWith f s r) (renderTagStartsWith f t r')"
  by (cases "r_dialect r'") (simp_all add: renderTagStartsWith_def buildJSONArrayLike_def alike_defs)

lemma comprehension_alike:
  assumes "similar r r'"
  shows "alike (renderListComprehension n p r) (renderListComprehension n (blank_predicate p) r')"
proof -
  have "alike (renderTagLike f a r) (renderTagLike f b r')" for f a b
    using assms json_like_alike [OF assms, of "jsonArrayExpr (r_dialect r) f" a b]
    by (simp add: renderTagLike_def alike_def similar_def Let_def split_beta)
  then show ?thesis
    using assms tag_starts_alike [OF assms]
    by (cases p) (auto simp: renderListComprehension_def blank_predicate_def renderTagEndsWith_def
        renderTagContains_def alike_def similar_def split: option.splits)
qed

lemma renderCondition_alike:
  "similar r r' \<Longrightarrow> alike (renderCondition c r) (renderCondition (blank_cond c) r')"
proof (induction c arbitrary: r r')
  case (LogicalCondition op a b)
  show ?case
    unfolding renderCondition.simps blank_cond.simps
    by (rule alike_case [OF LogicalCondition.IH(1) [OF LogicalCondition.prems]],
        rule alike_case [OF LogicalCondition.IH(2)]) (simp_all add: alike_def)
next
  case (NotCondition a)
  show ?case
    unfolding renderCondition.simps blank_cond.simps
    by (rule alike_case [OF NotCondition.IH [OF NotCondition.prems]]) (simp add: alike_def)
next
  case (FieldPredicateCondition n)
  then show ?case
    by (auto simp: renderFieldPredicate_def alike_def similar_def Let_def split: option.splits
        field_kind.splits dialect.splits)
qed (simp_all add: comparison_alike in_condition_alike element_in_alike contains_alike
    comprehension_alike, simp add: alike_def)

text \<open>
  C11. Injection safety: the SQL text of a filter does not depend on its string and
  number literals. Replace every string by the empty one and every number by zero: the
  renderer succeeds or fails alike, with the same error or the very same text; so what
  a user writes between quotes is only ever an argument.
\<close>

theorem literals_never_reach_sql:
  "map_sum id SQL (program_Render S opts c) = map_sum id SQL (program_Render S opts (blank_cond c))"
  using renderCondition_alike [of "newRenderer S opts" "newRenderer S opts" c]
  by (auto simp: program_Render_def Render_def alike_def split: sum.splits prod.splits)

subsection \<open>Placeholders and arguments\<close>

definition mark :: "dialect \<Rightarrow> char" where
  "mark d = (if d = DialectPostgres then CHR ''$'' else CHR ''?'')"

definition holes :: "dialect \<Rightarrow> string \<Rightarrow> nat" where
  "holes d s = count_list s (mark d)"

text \<open>A field whose column and JSON expressions contain no placeholder mark themselves.\<close>

definition clean_field :: "dialect \<Rightarrow> field \<Rightarrow> bool" where
  "clean_field d f \<longleftrightarrow> holes d (columnExpr d f) = 0 \<and> holes d (field_column d f) = 0 \<and>
     holes d (jsonArrayExpr d f) = 0 \<and> holes d (jsonExtractExpr d f) = 0"

definition clean_schema :: "dialect \<Rightarrow> schema \<Rightarrow> bool" where
  "clean_schema d S \<longleftrightarrow> list_all (\<lambda>(n, f). clean_field d f) (sc_Fields S)"

lemma holes_append [simp]: "holes d (a @ b) = holes d a + holes d b"
  by (simp add: holes_def)

lemma holes_Nil [simp]: "holes d [] = 0"
  by (simp add: holes_def)

lemma holes_Cons: "holes d (c # s) = (if c = mark d then 1 else 0) + holes d s"
  by (simp add: holes_def)

lemma holes_op [simp]: "holes d (sqlOperator op) = 0"
  by (cases op) (simp_all add: sqlOperator_def holes_def mark_def)

lemma holes_nat_digits [simp]: "holes d (nat_digits n) = 0"
proof -
  have "mark d \<notin> set (nat_digits n)"
    using nat_digits_all [of n] by (auto simp: list_all_iff byte_in_def mark_def split: if_splits)
  then show ?thesis by (simp add: holes_def)
qed

lemma holes_placeholder [simp]: "holes d (placeholder d n) = Suc 0"
  by (simp add: placeholder_def holes_Cons itoa_def) (simp add: mark_def)

lemma clean_schema_Field: "clean_schema d S \<Longrightarrow> Field S n = Some f \<Longrightarrow> clean_field d f"
  by (auto simp: clean_schema_def Field_def list_all_iff dest: map_of_SomeD)

text \<open>
  What holds of every condition that is printed as text: the text has one placeholder
  for each argument that was added.
\<close>

definition leaf_ok :: "renderer \<Rightarrow> rendering \<Rightarrow> bool" where
  "leaf_ok r x \<longleftrightarrow> r_schema (snd x) = r_schema r \<and> r_dialect (snd x) = r_dialect r \<and>
     (\<forall>res. fst x = Inr res \<longrightarrow> res = text_result (rr_sql res) \<and>
        (clean_schema (r_dialect r) (r_schema r) \<longrightarrow>
           length (r_args (snd x)) = length (r_args r) + holes (r_dialect r) (rr_sql res)))"

lemma text_result_sql [simp]: "rr_sql (text_result s) = s" "rr_trivial (text_result s) = False"
  "rr_unsatisfiable (text_result s) = False"
  by (simp_all add: text_result_def)

lemma clean_exprs:
  assumes "clean_schema d S" and "Field S n = Some f"
  shows "holes d (columnExpr d f) = 0" "holes d (field_column d f) = 0"
    "holes d (jsonArrayExpr d f) = 0" "holes d (jsonExtractExpr d f) = 0"
    "holes d (jsonArrayLengthExpr d f) = 0"
  using clean_schema_Field [OF assms]
  by (auto simp: clean_field_def jsonArrayLengthExpr_def holes_Cons mark_def quote_def split: dialect.splits)

lemma field_predicate_ok: "leaf_ok r (renderFieldPredicate n r)"
  by (cases "r_dialect r")
    (auto simp: leaf_ok_def renderFieldPredicate_def clean_exprs holes_Cons mark_def quote_def Let_def
      split: option.splits field_kind.splits)

lemma binary_holes [simp]: "holes d (binary l op x) = holes d l + holes d x"
  by (simp add: binary_def holes_Cons mark_def)

lemma function_comparison_ok: "leaf_ok r (renderFunctionComparison fn args op x r)"
  by (auto simp: leaf_ok_def renderFunctionComparison_def clean_exprs split_beta
      split: option.splits sum.splits list.splits value_expr.splits)

lemma scalar_comparison_ok:
  assumes "Field (r_schema r) n = Some f"
  shows "leaf_ok r (renderScalarComparison f op x r)"
  using assms clean_exprs(1) [of "r_dialect r" "r_schema r" n f]
  by (auto simp: leaf_ok_def renderScalarComparison_def split_beta Let_def holes_Cons mark_def
      split: option.splits sum.splits literal.splits field_type.splits comparison_operator.splits)

lemma bool_comparison_ok:
  assumes "Field (r_schema r) n = Some f"
  shows "leaf_ok r (renderBoolColumnComparison f op x r)" "leaf_ok r (renderJSONBoolComparison f op x r)"
  using assms clean_exprs(2,4) [of "r_dialect r" "r_schema r" n f]
  by (auto simp: leaf_ok_def renderBoolColumnComparison_def renderJSONBoolComparison_def addBoolArg_def
      sqlite_json_bool_def split_beta Let_def holes_Cons mark_def quote_def
      split: sum.splits comparison_operator.splits dialect.splits)

lemma comparison_ok: "leaf_ok r (renderComparison l op x r)"
  using function_comparison_ok scalar_comparison_ok bool_comparison_ok
  by (cases l) (auto simp: renderComparison_def split: option.splits field_kind.splits, simp_all add: leaf_ok_def)

lemma element_in_ok: "leaf_ok r (renderElementInCondition v n r)"
  by (cases "r_dialect r")
    (auto simp: leaf_ok_def renderElementInCondition_def clean_exprs holes_Cons mark_def split_beta Let_def
      split: option.splits sum.splits literal.splits)

lemma contains_ok: "leaf_ok r (renderContainsCondition n s r)"
  by (cases "r_dialect r")
    (auto simp: leaf_ok_def renderContainsCondition_def clean_exprs holes_Cons mark_def split_beta Let_def
      split: option.splits)

lemma comprehension_ok: "leaf_ok r (renderListComprehension n p r)"
  by (cases "r_dialect r"; cases p)
    (auto simp: leaf_ok_def renderListComprehension_def renderTagStartsWith_def renderTagEndsWith_def
      renderTagContains_def renderTagLike_def buildJSONArrayLike_def wrapWithNullCheck_def either_def
      clean_exprs holes_Cons mark_def quote_def split_beta Let_def split: option.splits)

lemma holes_join: "holes d sep = 0 \<Longrightarrow> holes d (join_with sep xs) = sum_list (map (holes d) xs)"
  by (induction sep xs rule: join_with.induct) auto

definition list_ok :: "renderer \<Rightarrow> string list fres \<times> renderer \<Rightarrow> bool" where
  "list_ok r x \<longleftrightarrow> r_schema (snd x) = r_schema r \<and> r_dialect (snd x) = r_dialect r \<and>
     (\<forall>cs. fst x = Inr cs \<longrightarrow>
        length (r_args (snd x)) = length (r_args r) + sum_list (map (holes (r_dialect r)) cs))"

lemma tag_condition_ok:
  assumes "d = r_dialect r"
  shows "r_schema (snd (tag_condition d e s r)) = r_schema r" "r_dialect (snd (tag_condition d e s r)) = r_dialect r"
    "fst (tag_condition d e s r) = Inr c \<Longrightarrow> holes d e = 0 \<Longrightarrow>
       length (r_args (snd (tag_condition d e s r))) = length (r_args r) + holes d c"
  unfolding assms
  by (cases "r_dialect r"; force simp: tag_condition_def either_def holes_Cons mark_def split_beta)+

lemma tag_conditions_ok:
  "holes (r_dialect r) (jsonArrayExpr (r_dialect r) f) = 0 \<Longrightarrow> list_ok r (tag_conditions f vs r)"
proof (induction vs arbitrary: r)
  case (Cons v vs)
  show ?case
  proof (cases "\<exists>s. expectLiteral v = Inr (LString s)")
    case True
    then obtain s where s: "expectLiteral v = Inr (LString s)" ..
    let ?x = "tag_condition (r_dialect r) (jsonArrayExpr (r_dialect r) f) s r"
    have "list_ok (snd ?x) (tag_conditions f vs (snd ?x))"
      using Cons.prems tag_condition_ok(2) [of "r_dialect r" r] by (intro Cons.IH) simp
    then show ?thesis
      using s Cons.prems tag_condition_ok [of "r_dialect r" r "jsonArrayExpr (r_dialect r) f" s]
      by (auto simp: list_ok_def split_beta split: sum.splits)
  qed (auto simp: list_ok_def split: sum.splits literal.splits)
qed (simp add: list_ok_def)

lemma scalar_placeholders_ok: "list_ok r (scalar_placeholders f vs r)"
proof (induction vs arbitrary: r)
  case (Cons v vs)
  have "list_ok (snd (addArg a r)) (scalar_placeholders f vs (snd (addArg a r)))" for a
    by (rule Cons.IH)
  then show ?case
    by (auto simp: list_ok_def split_beta split: sum.splits literal.splits field_type.splits option.splits)
qed (simp add: list_ok_def)

lemma in_condition_ok: "leaf_ok r (renderInCondition l vs r)"
proof -
  have target: "\<exists>m. Field S m = Some f" if "ResolveAlias S n = Some f" for S n f
    using that by (auto simp: ResolveAlias_def split: option.splits if_splits)
  have tag: "leaf_ok r (renderTagInList vs r)"
  proof (cases "ResolveAlias (r_schema r) ''tag''")
    case (Some f)
    then obtain m where "Field (r_schema r) m = Some f" using target by blast
    then have c: "clean_schema (r_dialect r) (r_schema r) \<Longrightarrow> holes (r_dialect r) (jsonArrayExpr (r_dialect r) f) = 0"
      using clean_exprs(3) by blast
    have static: "r_schema (snd (tag_conditions f vs r)) = r_schema r \<and>
        r_dialect (snd (tag_conditions f vs r)) = r_dialect r"
    proof (induction vs arbitrary: r)
      case (Cons v vs)
      then show ?case
        by (auto simp: split_beta tag_condition_ok split: sum.splits literal.splits)
    qed simp
    have "holes (r_dialect r) '' OR '' = 0" by (simp add: holes_Cons mark_def)
    with Some c static tag_conditions_ok [of r f vs] show ?thesis
      by (auto simp: leaf_ok_def list_ok_def renderTagInList_def split_beta holes_Cons mark_def
          holes_join split: sum.splits list.splits)
  qed (simp add: renderTagInList_def leaf_ok_def)
  have scalar: "leaf_ok r (renderScalarInCondition f vs r)" if f: "Field (r_schema r) n = Some f" for n f
  proof -
    have "holes (r_dialect r) '','' = 0" by (simp add: holes_Cons mark_def)
    with scalar_placeholders_ok [of r f vs] clean_exprs(1) [OF _ f] show ?thesis
      by (auto simp: leaf_ok_def list_ok_def renderScalarInCondition_def split_beta holes_Cons mark_def
          holes_join split: sum.splits)
  qed
  show ?thesis
    using tag scalar
    by (cases l) (auto simp: renderInCondition_def split: option.splits, simp_all add: leaf_ok_def)
qed

subsection \<open>Conditions without constants\<close>

fun constant_free :: "condition \<Rightarrow> bool" where
  "constant_free (LogicalCondition op a b) \<longleftrightarrow> constant_free a \<and> constant_free b"
| "constant_free (NotCondition a) \<longleftrightarrow> constant_free a"
| "constant_free (ConstantCondition b) \<longleftrightarrow> False"
| "constant_free c \<longleftrightarrow> True"

lemma combine_texts:
  "combineAnd (text_result s) (text_result t) = text_result (''('' @ s @ '' AND '' @ t @ '')'')"
  "combineOr (text_result s) (text_result t) = text_result (''('' @ s @ '' OR '' @ t @ '')'')"
  "negate (text_result s) = text_result (''NOT ('' @ s @ '')'')"
  by (simp_all add: combineAnd_def combineOr_def negate_def)

lemma renderCondition_ok: "constant_free c \<Longrightarrow> leaf_ok r (renderCondition c r)"
proof (induction c arbitrary: r)
  case (LogicalCondition op a b)
  let ?x = "renderCondition a r"
  have a: "leaf_ok r ?x" and b: "leaf_ok (snd ?x) (renderCondition b (snd ?x))"
    using LogicalCondition by simp_all
  show ?case
  proof (cases "fst ?x")
    case (Inr left)
    show ?thesis
    proof (cases "fst (renderCondition b (snd ?x))")
      case (Inr right)
      obtain s t where st: "left = text_result s" "right = text_result t"
        using a b \<open>fst ?x = Inr left\<close> Inr by (auto simp: leaf_ok_def)
      show ?thesis
        using a b \<open>fst ?x = Inr left\<close> Inr st
        by (cases op) (auto simp: leaf_ok_def split_beta combine_texts holes_Cons mark_def)
    qed (use a b Inr in \<open>auto simp: leaf_ok_def split_beta\<close>)
  qed (use a in \<open>auto simp: leaf_ok_def split_beta\<close>)
next
  case (NotCondition a)
  then have a: "leaf_ok r (renderCondition a r)" by simp
  show ?case
  proof (cases "fst (renderCondition a r)")
    case (Inr child)
    then obtain s where "child = text_result s" using a by (auto simp: leaf_ok_def)
    with a Inr show ?thesis
      by (auto simp: leaf_ok_def split_beta combine_texts holes_Cons mark_def)
  qed (use a in \<open>auto simp: leaf_ok_def split_beta\<close>)
qed (simp_all add: field_predicate_ok comparison_ok in_condition_ok element_in_ok contains_ok comprehension_ok)

lemma schemas_clean:
  assumes "d \<in> {DialectSQLite, DialectMySQL, DialectPostgres}"
  shows "clean_schema d NewSchema" "clean_schema d NewAttachmentSchema"
proof -
  have "clean_schema DialectSQLite NewSchema" "clean_schema DialectMySQL NewSchema"
    "clean_schema DialectPostgres NewSchema" "clean_schema DialectSQLite NewAttachmentSchema"
    "clean_schema DialectMySQL NewAttachmentSchema" "clean_schema DialectPostgres NewAttachmentSchema"
    by code_simp+
  with assms show "clean_schema d NewSchema" "clean_schema d NewAttachmentSchema" by auto
qed

lemma rendered_holes:
  assumes "clean_schema d S" and "constant_free c"
    and "program_Render S \<lparr>Dialect = d, PlaceholderOffset = off\<rparr> c = Inr st"
  shows "holes d (SQL st) = length (Args st)"
proof -
  let ?r = "newRenderer S \<lparr>Dialect = d, PlaceholderOffset = off\<rparr>"
  have r: "r_dialect ?r = d" "r_schema ?r = S" "r_args ?r = []" by (simp_all add: newRenderer_def)
  have ok: "leaf_ok ?r (renderCondition c ?r)" using assms(2) by (rule renderCondition_ok)
  obtain res where res: "fst (renderCondition c ?r) = Inr res"
    using assms(3) by (cases "renderCondition c ?r") (auto simp: program_Render_def Render_def split: sum.splits)
  then obtain s where s: "res = text_result s" using ok by (auto simp: leaf_ok_def)
  have "length (r_args (snd (renderCondition c ?r))) = holes d s"
    using ok assms(1) r res s by (simp add: leaf_ok_def)
  moreover have "st = \<lparr>SQL = s, Args = r_args (snd (renderCondition c ?r))\<rparr>"
    using assms(3) res s by (simp add: program_Render_def Render_def split_beta)
  ultimately show ?thesis by simp
qed

text \<open>
  C12. For both schemas and all three databases, the statement rendered from a condition
  without boolean constants has exactly one placeholder for each of its arguments.
\<close>

theorem one_argument_per_placeholder:
  assumes "S = NewSchema \<or> S = NewAttachmentSchema"
    and "d \<in> {DialectSQLite, DialectMySQL, DialectPostgres}" and "constant_free c"
    and "program_Render S \<lparr>Dialect = d, PlaceholderOffset = off\<rparr> c = Inr st"
  shows "holes d (SQL st) = length (Args st)"
proof -
  have "clean_schema d S" using assms(1,2) schemas_clean by blast
  then show ?thesis using assms(3,4) by (rule rendered_holes)
qed

definition sample_condition :: condition where
  "sample_condition = LogicalCondition LogicalAnd
     (InCondition (FieldRef ''tag'') [LiteralValue (LString ''a''), LiteralValue (LString ''b'')])
     (ComparisonCondition (FieldRef ''visibility'') CompareEq (LiteralValue (LString ''PUBLIC'')))"

theorem one_argument_per_placeholder_witness:
  "\<exists>st. program_Render NewSchema \<lparr>Dialect = DialectPostgres, PlaceholderOffset = 2\<rparr> sample_condition = Inr st \<and>
     holes DialectPostgres (SQL st) = 5"
proof -
  let ?p = "program_Render NewSchema \<lparr>Dialect = DialectPostgres, PlaceholderOffset = 2\<rparr> sample_condition"
  have "(case ?p of Inr st \<Rightarrow> length (Args st) = 5 | Inl _ \<Rightarrow> False)"
    by code_simp
  then obtain st where st: "?p = Inr st" "length (Args st) = 5" by (cases ?p) auto
  have "constant_free sample_condition" by (simp add: sample_condition_def)
  from one_argument_per_placeholder [OF _ _ this st(1)] st show ?thesis by auto
qed

text \<open>
  A constant breaks the count. \<open>(a || true) && b\<close> is rendered as the text of \<open>b\<close>
  alone, but the arguments that \<open>a\<close> added stay in front of those of \<open>b\<close>: the statement
  carries more arguments than placeholders, by exactly the number of arguments of \<open>a\<close>.
\<close>

theorem folded_operand_leaves_arguments:
  assumes "S = NewSchema \<or> S = NewAttachmentSchema"
    and "d \<in> {DialectSQLite, DialectMySQL, DialectPostgres}"
    and "constant_free a" and "constant_free b"
    and "program_Render S \<lparr>Dialect = d, PlaceholderOffset = off\<rparr> a = Inr sa"
    and "program_Render S \<lparr>Dialect = d, PlaceholderOffset = off\<rparr>
      (LogicalCondition LogicalAnd (LogicalCondition LogicalOr a (ConstantCondition True)) b) = Inr st"
  shows "length (Args st) = holes d (SQL st) + length (Args sa)"
proof -
  let ?r = "newRenderer S \<lparr>Dialect = d, PlaceholderOffset = off\<rparr>"
  let ?ra = "renderCondition a ?r" let ?rb = "renderCondition b (snd ?ra)"
  have clean: "clean_schema d S" using assms(1,2) schemas_clean by blast
  have r: "r_dialect ?r = d" "r_schema ?r = S" by (simp_all add: newRenderer_def)
  have oka: "leaf_ok ?r ?ra" and okb: "leaf_ok (snd ?ra) ?rb"
    using assms(3,4) by (simp_all add: renderCondition_ok)
  obtain resa where resa: "fst ?ra = Inr resa"
    using assms(5) by (cases ?ra) (auto simp: program_Render_def Render_def split: sum.splits)
  obtain resb where resb: "fst ?rb = Inr resb"
    using assms(6) resa by (auto simp: program_Render_def Render_def split_beta split: sum.splits)
  obtain s where s: "resb = text_result s" using okb resb by (auto simp: leaf_ok_def)
  have "Args sa = r_args (snd ?ra)"
    using assms(5) resa by (auto simp: program_Render_def Render_def split_beta)
  moreover have "length (r_args (snd ?rb)) = length (r_args (snd ?ra)) + holes d s"
    using oka okb clean r resb s by (simp add: leaf_ok_def)
  moreover have "combineAnd (combineOr resa always) (text_result s) = text_result s"
    by (simp add: combineAnd_def combineOr_def always_def)
  then have "st = \<lparr>SQL = s, Args = r_args (snd ?rb)\<rparr>"
    using assms(6) resa resb s by (auto simp: program_Render_def Render_def split_beta)
  ultimately show ?thesis by simp
qed

theorem folded_operand_leaves_arguments_witness:
  "\<exists>st. program_Render NewSchema \<lparr>Dialect = DialectSQLite, PlaceholderOffset = 0\<rparr>
     (LogicalCondition LogicalAnd
        (LogicalCondition LogicalOr (ContainsCondition ''content'' ''a'') (ConstantCondition True))
        (ComparisonCondition (FieldRef ''visibility'') CompareEq (LiteralValue (LString ''PUBLIC'')))) = Inr st \<and>
     SQL st = ''`memo`.`visibility` = ?'' \<and> length (Args st) = 2"
proof -
  let ?a = "ContainsCondition ''content'' ''a''"
  let ?b = "ComparisonCondition (FieldRef ''visibility'') CompareEq (LiteralValue (LString ''PUBLIC''))"
  let ?o = "\<lparr>Dialect = DialectSQLite, PlaceholderOffset = 0\<rparr>"
  have a: "program_Render NewSchema ?o ?a = Inr
      \<lparr>SQL = ''memos_unicode_lower(`memo`.`content`) LIKE memos_unicode_lower(?)'', Args = [ArgString ''%a%'']\<rparr>"
    by code_simp
  have st: "program_Render NewSchema ?o
      (LogicalCondition LogicalAnd (LogicalCondition LogicalOr ?a (ConstantCondition True)) ?b) =
    Inr \<lparr>SQL = ''`memo`.`visibility` = ?'', Args = [ArgString ''%a%'', ArgString ''PUBLIC'']\<rparr>"
    by code_simp
  have h: "holes DialectSQLite ''`memo`.`visibility` = ?'' = 1" by code_simp
  show ?thesis
    using folded_operand_leaves_arguments [OF _ _ _ _ a st] st h by simp
qed

subsection \<open>Folding agrees with three-valued logic\<close>

definition sql_and :: "bool option \<Rightarrow> bool option \<Rightarrow> bool option" where
  "sql_and a b =
     (if a = Some False \<or> b = Some False then Some False
      else if a = Some True \<and> b = Some True then Some True else None)"

definition sql_or :: "bool option \<Rightarrow> bool option \<Rightarrow> bool option" where
  "sql_or a b =
     (if a = Some True \<or> b = Some True then Some True
      else if a = Some False \<and> b = Some False then Some False else None)"

definition sql_not :: "bool option \<Rightarrow> bool option" where
  "sql_not a = map_option Not a"

text \<open>
  SQL expressions as trees over the texts of their leaves, with the way they are printed
  and their value when \<open>v\<close> gives the value of each leaf (\<open>None\<close> is NULL).
\<close>

datatype sql_tree = Leaf string | AndT sql_tree sql_tree | OrT sql_tree sql_tree | NotT sql_tree

fun show_tree :: "sql_tree \<Rightarrow> string" where
  "show_tree (Leaf s) = s"
| "show_tree (AndT a b) = ''('' @ show_tree a @ '' AND '' @ show_tree b @ '')''"
| "show_tree (OrT a b) = ''('' @ show_tree a @ '' OR '' @ show_tree b @ '')''"
| "show_tree (NotT a) = ''NOT ('' @ show_tree a @ '')''"

fun tree_value :: "(string \<Rightarrow> bool option) \<Rightarrow> sql_tree \<Rightarrow> bool option" where
  "tree_value v (Leaf s) = v s"
| "tree_value v (AndT a b) = sql_and (tree_value v a) (tree_value v b)"
| "tree_value v (OrT a b) = sql_or (tree_value v a) (tree_value v b)"
| "tree_value v (NotT a) = sql_not (tree_value v a)"

text \<open>What a result stands for: a constant or a tree.\<close>

datatype folded = FTrue | FFalse | FTree sql_tree

definition result_of :: "folded \<Rightarrow> render_result" where
  "result_of x = (case x of FTrue \<Rightarrow> always | FFalse \<Rightarrow> never | FTree t \<Rightarrow> text_result (show_tree t))"

definition folded_value :: "(string \<Rightarrow> bool option) \<Rightarrow> folded \<Rightarrow> bool option" where
  "folded_value v x = (case x of FTrue \<Rightarrow> Some True | FFalse \<Rightarrow> Some False | FTree t \<Rightarrow> tree_value v t)"

definition stands_for :: "render_result \<Rightarrow> ((string \<Rightarrow> bool option) \<Rightarrow> bool option) \<Rightarrow> bool" where
  "stands_for res val \<longleftrightarrow> (\<exists>x. res = result_of x \<and> (\<forall>v. val v = folded_value v x))"

text \<open>
  The value of a condition, with its leaves rendered as the renderer meets them: the
  connectives are those of SQL and a constant is its value.
\<close>

fun cond_value :: "condition \<Rightarrow> renderer \<Rightarrow> (string \<Rightarrow> bool option) \<Rightarrow> bool option" where
  "cond_value (LogicalCondition op a b) r v =
     (case op of
        LogicalAnd \<Rightarrow> sql_and (cond_value a r v) (cond_value b (snd (renderCondition a r)) v)
      | LogicalOr \<Rightarrow> sql_or (cond_value a r v) (cond_value b (snd (renderCondition a r)) v))"
| "cond_value (NotCondition a) r v = sql_not (cond_value a r v)"
| "cond_value (ConstantCondition b) r v = Some b"
| "cond_value c r v = (case fst (renderCondition c r) of Inr res \<Rightarrow> v (rr_sql res) | Inl _ \<Rightarrow> None)"

lemma sql_units [simp]:
  "sql_and (Some False) b = Some False" "sql_and b (Some False) = Some False"
  "sql_and (Some True) b = b" "sql_and b (Some True) = b"
  "sql_or (Some True) b = Some True" "sql_or b (Some True) = Some True"
  "sql_or (Some False) b = b" "sql_or b (Some False) = b"
  "sql_not (Some c) = Some (\<not> c)"
  by (cases b; auto simp: sql_and_def sql_or_def sql_not_def)+

lemma result_flags [simp]:
  "rr_trivial (result_of x) = (x = FTrue)" "rr_unsatisfiable (result_of x) = (x = FFalse)"
  "result_of FTrue = always" "result_of FFalse = never" "result_of (FTree t) = text_result (show_tree t)"
  by (cases x; simp add: result_of_def always_def never_def)+

text \<open>The three combinators of the renderer, on what the results stand for.\<close>

fun fold_and :: "folded \<Rightarrow> folded \<Rightarrow> folded" where
  "fold_and FFalse y = FFalse"
| "fold_and x FFalse = FFalse"
| "fold_and FTrue y = y"
| "fold_and x FTrue = x"
| "fold_and (FTree t) (FTree u) = FTree (AndT t u)"

fun fold_or :: "folded \<Rightarrow> folded \<Rightarrow> folded" where
  "fold_or FTrue y = FTrue"
| "fold_or x FTrue = FTrue"
| "fold_or FFalse y = y"
| "fold_or x FFalse = x"
| "fold_or (FTree t) (FTree u) = FTree (OrT t u)"

fun fold_not :: "folded \<Rightarrow> folded" where
  "fold_not FTrue = FFalse"
| "fold_not FFalse = FTrue"
| "fold_not (FTree t) = FTree (NotT t)"

lemma fold_results:
  "combineAnd (result_of x) (result_of y) = result_of (fold_and x y)"
  "combineOr (result_of x) (result_of y) = result_of (fold_or x y)"
  "negate (result_of x) = result_of (fold_not x)"
  unfolding combineAnd_def combineOr_def negate_def result_flags
  by ((cases x; cases y), simp_all) ((cases x; cases y), simp_all, cases x, simp_all)

lemma fold_values:
  "folded_value v (fold_and x y) = sql_and (folded_value v x) (folded_value v y)"
  "folded_value v (fold_or x y) = sql_or (folded_value v x) (folded_value v y)"
  "folded_value v (fold_not x) = sql_not (folded_value v x)"
  by ((cases x; cases y), simp_all add: folded_value_def) ((cases x; cases y), simp_all add: folded_value_def,
      cases x, simp_all add: folded_value_def)

lemma leaf_stands:
  assumes "leaf_ok r x" and "fst x = Inr res"
  shows "stands_for res (\<lambda>v. v (rr_sql res))"
proof -
  have "res = result_of (FTree (Leaf (rr_sql res)))" using assms by (simp add: leaf_ok_def)
  then show ?thesis
    unfolding stands_for_def by (intro exI [of _ "FTree (Leaf (rr_sql res))"]) (simp add: folded_value_def)
qed

text \<open>
  C14. Whatever the database makes of the leaves, the rendered filter has the value of
  the condition in SQL's three-valued logic: folding the constants away, dropping the
  neutral operands and marking a result as always or never true changes nothing.
\<close>

theorem folding_keeps_value:
  assumes "fst (renderCondition c r) = Inr res"
  shows "stands_for res (cond_value c r)"
  using assms
proof (induction c arbitrary: r res)
  case (LogicalCondition op a b)
  let ?x = "renderCondition a r"
  obtain left right where l: "fst ?x = Inr left" and rt: "fst (renderCondition b (snd ?x)) = Inr right"
    and res: "res = (case op of LogicalAnd \<Rightarrow> combineAnd left right | LogicalOr \<Rightarrow> combineOr left right)"
    using LogicalCondition.prems by (auto simp: split_beta split: sum.splits)
  obtain x where x: "left = result_of x" "\<forall>v. cond_value a r v = folded_value v x"
    using LogicalCondition.IH(1) [OF l] by (auto simp: stands_for_def)
  obtain y where y: "right = result_of y" "\<forall>v. cond_value b (snd ?x) v = folded_value v y"
    using LogicalCondition.IH(2) [OF rt] by (auto simp: stands_for_def)
  show ?case
    unfolding stands_for_def
    by (rule exI [of _ "case op of LogicalAnd \<Rightarrow> fold_and x y | LogicalOr \<Rightarrow> fold_or x y"])
      (use res x y in \<open>cases op; simp add: fold_results fold_values\<close>)
next
  case (NotCondition a)
  obtain child where c: "fst (renderCondition a r) = Inr child" and res: "res = negate child"
    using NotCondition.prems by (auto simp: split_beta split: sum.splits)
  obtain x where x: "child = result_of x" "\<forall>v. cond_value a r v = folded_value v x"
    using NotCondition.IH [OF c] by (auto simp: stands_for_def)
  show ?case
    unfolding stands_for_def
    by (rule exI [of _ "fold_not x"]) (use res x in \<open>simp add: fold_results fold_values\<close>)
next
  case (ConstantCondition b)
  then show ?case
    unfolding stands_for_def
    by (intro exI [of _ "if b then FTrue else FFalse"]) (auto simp: folded_value_def)
next
  case (FieldPredicateCondition n)
  with leaf_stands [OF field_predicate_ok] show ?case by simp
next
  case (ComparisonCondition l op x)
  with leaf_stands [OF comparison_ok] show ?case by simp
next
  case (InCondition l vs)
  with leaf_stands [OF in_condition_ok] show ?case by simp
next
  case (ElementInCondition v n)
  with leaf_stands [OF element_in_ok] show ?case by simp
next
  case (ContainsCondition n s)
  with leaf_stands [OF contains_ok] show ?case by simp
next
  case (ListComprehensionCondition kd n v p)
  with leaf_stands [OF comprehension_ok] show ?case by simp
qed

theorem folding_keeps_value_witness:
  "stands_for always
     (cond_value (LogicalCondition LogicalOr (ContainsCondition ''content'' ''a'') (ConstantCondition True))
        (newRenderer NewSchema \<lparr>Dialect = DialectSQLite, PlaceholderOffset = 0\<rparr>))"
proof (rule folding_keeps_value)
  show "fst (renderCondition (LogicalCondition LogicalOr (ContainsCondition ''content'' ''a'') (ConstantCondition True))
      (newRenderer NewSchema \<lparr>Dialect = DialectSQLite, PlaceholderOffset = 0\<rparr>)) = Inr always"
    by code_simp
qed

end
