(* ===== verification/FilterEngine.thy ===== *)
theory FilterEngine
  imports FilterSafety
begin

section \<open>The filter engine (plugin/filter/engine.go, helpers.go)\<close>

text \<open>
  From the filter string to SQL fragments. The CEL compiler is the parameter \<open>cel\<close>: the
  expression of a string, or \<open>None\<close> when it does not compile (parse and type check).
\<close>

subsection \<open>Legacy filters\<close>

text \<open>
  \<open>rewriteNumericLogicalOperand\<close> for an operator of one character twice. After the
  operator it keeps blanks and wraps a sign and digits. The state of the scan is the
  quote it is in.
\<close>

definition is_blank :: "char \<Rightarrow> bool" where
  "is_blank c \<longleftrightarrow> c = CHR '' '' \<or> c = CHR 0x09"

definition is_digit :: "char \<Rightarrow> bool" where
  "is_digit c \<longleftrightarrow> byte_in 48 57 c"

definition operand_sign :: "string \<Rightarrow> string" where
  "operand_sign s = (case s of c # _ \<Rightarrow> if c = CHR ''+'' \<or> c = CHR ''-'' then [c] else [] | [] \<Rightarrow> [])"

definition numeric_operand :: "string \<Rightarrow> string" where
  "numeric_operand s =
     operand_sign s @ takeWhile is_digit (drop (length (operand_sign s)) s)"

definition wrap_operand :: "string \<Rightarrow> string" where
  "wrap_operand lit = (if lit = [] then [] else ''('' @ lit @ '' != 0)'')"

function rewrite_scan :: "char \<Rightarrow> char option \<Rightarrow> string \<Rightarrow> string" where
  "rewrite_scan o1 q [] = []"
| "rewrite_scan o1 (Some q) (c # cs) =
     (if c = CHR 0x5C \<and> cs \<noteq> [] then c # hd cs # rewrite_scan o1 (Some q) (tl cs)
      else if c = q then c # rewrite_scan o1 None cs
      else c # rewrite_scan o1 (Some q) cs)"
| "rewrite_scan o1 None (c # cs) =
     (if c = CHR 0x27 \<or> c = CHR 0x22 then c # rewrite_scan o1 (Some c) cs
      else if c = o1 \<and> cs \<noteq> [] \<and> hd cs = o1 then
        (let s = tl cs;
             ws = takeWhile is_blank s;
             rest = drop (length ws) s;
             lit = numeric_operand rest
         in [o1, o1] @ ws @ wrap_operand lit @ rewrite_scan o1 None (drop (length lit) rest))
      else c # rewrite_scan o1 None cs)"
  by pat_completeness auto
termination
  by (relation "measure (\<lambda>(o1, q, s). length s)") (auto simp: Let_def)

definition rewriteNumericLogicalOperand :: "string \<Rightarrow> char \<Rightarrow> string" where
  "rewriteNumericLogicalOperand s o1 = rewrite_scan o1 None s"

definition normalizeLegacyFilter :: "string \<Rightarrow> string" where
  "normalizeLegacyFilter s =
     rewriteNumericLogicalOperand (rewriteNumericLogicalOperand s (CHR ''&'')) (CHR ''|'')"

subsection \<open>Compiling and appending\<close>

definition Compile ::
  "(string \<Rightarrow> expr option) \<Rightarrow> now_clock \<Rightarrow> schema \<Rightarrow> string \<Rightarrow> nat \<Rightarrow> condition fres \<times> nat" where
  "Compile cel clk S src k =
     (if trim_space src = [] then (Inl FEmpty, k)
      else case cel (normalizeLegacyFilter src) of
          None \<Rightarrow> (Inl FCompile, k)
        | Some e \<Rightarrow> buildCondition clk S e k)"

definition CompileToStatement ::
  "(string \<Rightarrow> expr option) \<Rightarrow> now_clock \<Rightarrow> schema \<Rightarrow> string \<Rightarrow> render_options \<Rightarrow> nat \<Rightarrow>
   statement fres \<times> nat" where
  "CompileToStatement cel clk S src opts k =
     (case Compile cel clk S src k of
        (Inl er, k1) \<Rightarrow> (Inl er, k1)
      | (Inr c, k1) \<Rightarrow> (program_Render S opts c, k1))"

text \<open>What was appended before an error stays appended.\<close>

fun AppendConditions ::
  "(string \<Rightarrow> expr option) \<Rightarrow> now_clock \<Rightarrow> schema \<Rightarrow> string list \<Rightarrow> dialect \<Rightarrow>
   string list \<Rightarrow> arg list \<Rightarrow> nat \<Rightarrow> filter_error option \<times> string list \<times> arg list" where
  "AppendConditions cel clk S [] d wh args k = (None, wh, args)"
| "AppendConditions cel clk S (src # rest) d wh args k =
     (case CompileToStatement cel clk S src
         \<lparr>Dialect = d, PlaceholderOffset = int (length args)\<rparr> k of
        (Inl er, _) \<Rightarrow> (Some er, wh, args)
      | (Inr st, k1) \<Rightarrow>
          if SQL st = [] then AppendConditions cel clk S rest d wh args k1
          else AppendConditions cel clk S rest d (wh @ [''('' @ SQL st @ '')'']) (args @ Args st) k1)"

subsection \<open>What the rewriting of legacy filters keeps and changes\<close>

lemma scan_plain:
  assumes "CHR 0x27 \<notin> set a" and "CHR 0x22 \<notin> set a" and "o1 \<notin> set a"
  shows "rewrite_scan o1 None (a @ s) = a @ rewrite_scan o1 None s"
  using assms by (induction a) auto

lemma scan_quoted:
  assumes "q \<notin> set a" and "CHR 0x5C \<notin> set a" and "q \<noteq> CHR 0x5C"
  shows "rewrite_scan o1 (Some q) (a @ q # s) = a @ q # rewrite_scan o1 None s"
  using assms by (induction a) auto

lemma takeWhile_exact:
  "list_all P ws \<Longrightarrow> s = [] \<or> \<not> P (hd s) \<Longrightarrow> takeWhile P (ws @ s) = ws"
  by (induction ws) (cases s, auto)+

text \<open>
  The rewriting of legacy filters does not look into string literals: text before a
  literal and the literal itself come out as they are. And it turns a number after the
  operator into a comparison with zero, keeping the blanks between them.
\<close>

theorem legacy_rewriting:
  assumes "CHR 0x27 \<notin> set a" and "CHR 0x22 \<notin> set a" and "o1 \<notin> set a"
    and "q = CHR 0x27 \<or> q = CHR 0x22" and "q \<notin> set lit" and "CHR 0x5C \<notin> set lit"
    and "list_all is_blank ws" and "ds \<noteq> []" and "list_all is_digit ds"
    and "rest = [] \<or> \<not> is_digit (hd rest)" and "o1 \<noteq> CHR 0x27" and "o1 \<noteq> CHR 0x22"
  shows "rewriteNumericLogicalOperand (a @ q # lit @ q # s) o1 =
      a @ q # lit @ q # rewriteNumericLogicalOperand s o1 \<and>
    rewriteNumericLogicalOperand (a @ [o1, o1] @ ws @ ds @ rest) o1 =
      a @ [o1, o1] @ ws @ ''('' @ ds @ '' != 0)'' @ rewriteNumericLogicalOperand rest o1"
proof
  have "rewrite_scan o1 (Some q) (lit @ q # s) = lit @ q # rewrite_scan o1 None s"
    using scan_quoted [OF assms(5,6)] assms(4) by auto
  then show "rewriteNumericLogicalOperand (a @ q # lit @ q # s) o1 =
      a @ q # lit @ q # rewriteNumericLogicalOperand s o1"
    using scan_plain [OF assms(1-3)] assms(4) by (auto simp: rewriteNumericLogicalOperand_def)
  obtain d ds' where ds: "ds = d # ds'" using assms(8) by (cases ds) auto
  have d: "is_digit d" using assms(9) ds by simp
  have nb: "\<not> is_blank d" using d by (auto simp: is_digit_def is_blank_def byte_in_def)
  have ws: "takeWhile is_blank (ws @ ds @ rest) = ws"
    using assms(7) nb ds by (intro takeWhile_exact) auto
  have sign: "operand_sign (ds @ rest) = []"
    using d ds by (auto simp: operand_sign_def is_digit_def byte_in_def)
  have lit: "numeric_operand (ds @ rest) = ds"
    using takeWhile_exact [OF assms(9,10)] by (simp add: numeric_operand_def sign)
  have "rewrite_scan o1 None ([o1, o1] @ ws @ ds @ rest) =
      [o1, o1] @ ws @ ''('' @ ds @ '' != 0)'' @ rewrite_scan o1 None rest"
    using assms(8,11,12) by (simp add: Let_def ws lit wrap_operand_def)
  with scan_plain [OF assms(1-3)]
  show "rewriteNumericLogicalOperand (a @ [o1, o1] @ ws @ ds @ rest) o1 =
      a @ [o1, o1] @ ws @ ''('' @ ds @ '' != 0)'' @ rewriteNumericLogicalOperand rest o1"
    by (simp add: rewriteNumericLogicalOperand_def)
qed

theorem legacy_rewriting_witness:
  "rewriteNumericLogicalOperand ''pinned && 1'' (CHR ''&'') = ''pinned && (1 != 0)''"
proof -
  have "rewriteNumericLogicalOperand (''pinned '' @ [CHR ''&'', CHR ''&''] @ '' '' @ ''1'' @ []) (CHR ''&'') =
      ''pinned '' @ [CHR ''&'', CHR ''&''] @ '' '' @ ''('' @ ''1'' @ '' != 0)'' @
        rewriteNumericLogicalOperand [] (CHR ''&'')"
    using legacy_rewriting [of "''pinned ''" "CHR ''&''" "CHR 0x27" "[]" "'' ''" "''1''" "[]" "[]"]
    by (simp add: is_blank_def is_digit_def byte_in_def)
  then show ?thesis by (simp add: rewriteNumericLogicalOperand_def)
qed

text \<open>
  The rewriting does not look at what follows the number or the sign: a comparison whose
  left side is a number, and a negated number or name, come out as other expressions.
\<close>

lemma rewriting_breaks_comparisons:
  "normalizeLegacyFilter ''pinned && 5 < creator_id'' = ''pinned && (5 != 0) < creator_id''"
  "normalizeLegacyFilter ''pinned && -creator_id < 5'' = ''pinned && (- != 0)creator_id < 5''"
  by (simp_all add: normalizeLegacyFilter_def rewriteNumericLogicalOperand_def Let_def is_blank_def
      is_digit_def byte_in_def numeric_operand_def operand_sign_def wrap_operand_def)

subsection \<open>One argument per placeholder over a whole WHERE clause\<close>

text \<open>The filters compile, if at all, to conditions without constants.\<close>

definition constant_free_filters ::
  "(string \<Rightarrow> expr option) \<Rightarrow> now_clock \<Rightarrow> schema \<Rightarrow> string list \<Rightarrow> bool" where
  "constant_free_filters cel clk S filters \<longleftrightarrow>
     (\<forall>src k c k'. src \<in> set filters \<longrightarrow> Compile cel clk S src k = (Inr c, k') \<longrightarrow> constant_free c)"

lemma append_conditions_holes:
  assumes "clean_schema d S" and "constant_free_filters cel clk S filters"
    and "sum_list (map (holes d) wh) = length args"
    and "AppendConditions cel clk S filters d wh args k = (er, wh', args')"
  shows "sum_list (map (holes d) wh') = length args'"
  using assms(2-4)
proof (induction filters arbitrary: wh args k)
  case (Cons src rest)
  let ?x = "CompileToStatement cel clk S src \<lparr>Dialect = d, PlaceholderOffset = int (length args)\<rparr> k"
  have cf: "constant_free_filters cel clk S rest"
    using Cons.prems(1) by (simp add: constant_free_filters_def)
  show ?case
  proof (cases "fst ?x")
    case (Inl e)
    with Cons.prems(2,3) show ?thesis by (auto simp: split_beta)
  next
    case (Inr st)
    then obtain c where c: "fst (Compile cel clk S src k) = Inr c"
      "program_Render S \<lparr>Dialect = d, PlaceholderOffset = int (length args)\<rparr> c = Inr st"
      by (auto simp: CompileToStatement_def split_beta split: sum.splits)
    have "constant_free c"
      using Cons.prems(1) c(1) by (auto simp: constant_free_filters_def) (metis prod.collapse)
    from rendered_holes [OF assms(1) this c(2)] have h: "holes d (SQL st) = length (Args st)" .
    show ?thesis
    proof (cases "SQL st = []")
      case True
      with Inr Cons.prems(3) Cons.IH [OF cf Cons.prems(2)] show ?thesis by (auto simp: split_beta)
    next
      case False
      have "sum_list (map (holes d) (wh @ [''('' @ SQL st @ '')''])) = length (args @ Args st)"
        using h Cons.prems(2) by (simp add: holes_Cons mark_def)
      with False Inr Cons.prems(3) Cons.IH [OF cf this] show ?thesis by (auto simp: split_beta)
    qed
  qed
qed simp


definition sample_cel :: "string \<Rightarrow> expr option" where
  "sample_cel src =
     (if src = ''creator_id == 7'' then Some (CallExpr None ''_==_'' [IdentExpr ''creator_id'', ConstExpr (Int64Value 7)])
      else None)"


end
