(* ===== verification/CivilTime.thy ===== *)
theory CivilTime
  imports Prelude
begin

section \<open>Calendar and time zones\<close>

text \<open>
  The part of Go's package \<open>time\<close> that the two cron packages compute with. A day is
  its number since January 1 of the year 1 (the proleptic Gregorian calendar); an
  instant is a number of seconds since the Unix epoch; a location maps an instant to
  its offset and to the period \<open>[start, end)\<close> over which the offset holds, which is
  what \<open>Location.lookup\<close> returns from the zone database.
\<close>

named_theorems zone_simps \<open>clock readings in a zone with a constant offset\<close>

subsection \<open>The Gregorian calendar\<close>

definition leap :: "int \<Rightarrow> bool" where
  "leap y \<longleftrightarrow> y mod 4 = 0 \<and> (y mod 100 \<noteq> 0 \<or> y mod 400 = 0)"

definition year_start :: "int \<Rightarrow> int" where
  "year_start y = 365 * (y - 1) + (y - 1) div 4 - (y - 1) div 100 + (y - 1) div 400"

definition month_lengths :: "int \<Rightarrow> int list" where
  "month_lengths y = [31, if leap y then 29 else 28, 31, 30, 31, 30, 31, 31, 30, 31, 30, 31]"

text \<open>The first day of month \<open>m\<close>; month 13 begins the next year.\<close>

definition month_start :: "int \<Rightarrow> nat \<Rightarrow> int" where
  "month_start y m = year_start y + sum_list (take (m - 1) (month_lengths y))"

definition year_of :: "int \<Rightarrow> int" where
  "year_of d =
     (let g = (400 * d) div 146097 + 1 in
      if d < year_start g then g - 1
      else if year_start (g + 1) \<le> d then g + 1 else g)"

definition month_of :: "int \<Rightarrow> nat" where
  "month_of d = length (filter (\<lambda>m. month_start (year_of d) m \<le> d) [1..<13])"

definition day_of :: "int \<Rightarrow> int" where
  "day_of d = d - month_start (year_of d) (month_of d) + 1"

text \<open>\<open>time.Weekday\<close>: Sunday is 0. January 1 of the year 1 was a Monday.\<close>

definition weekday_of :: "int \<Rightarrow> int" where
  "weekday_of d = (d + 1) mod 7"

text \<open>The day count of \<open>time.Date\<close>: month and day may be out of their ranges.\<close>

definition day_number :: "int \<Rightarrow> int \<Rightarrow> int \<Rightarrow> int" where
  "day_number y m d =
     month_start (y + (m - 1) div 12) (nat ((m - 1) mod 12) + 1) + (d - 1)"

subsection \<open>Locations\<close>

type_synonym zone = "int \<Rightarrow> int \<times> int \<times> int"

definition fixed_zone :: "int \<Rightarrow> zone" where
  "fixed_zone off = (\<lambda>_. (off, min_int64, max_int64))"

definition utc :: zone where
  "utc = fixed_zone 0"

definition epoch_day :: int where
  "epoch_day = 719162"

text \<open>Seconds on the wall clock since midnight of January 1 of the year 1.\<close>

definition wall :: "zone \<Rightarrow> int \<Rightarrow> int" where
  "wall z u = u + fst (z u) + epoch_day * 86400"

definition clock_day :: "zone \<Rightarrow> int \<Rightarrow> int" where
  "clock_day z u = wall z u div 86400"

definition clock_year :: "zone \<Rightarrow> int \<Rightarrow> int" where
  "clock_year z u = year_of (clock_day z u)"

definition clock_month :: "zone \<Rightarrow> int \<Rightarrow> int" where
  "clock_month z u = int (month_of (clock_day z u))"

definition clock_mday :: "zone \<Rightarrow> int \<Rightarrow> int" where
  "clock_mday z u = day_of (clock_day z u)"

definition clock_weekday :: "zone \<Rightarrow> int \<Rightarrow> int" where
  "clock_weekday z u = weekday_of (clock_day z u)"

definition clock_hour :: "zone \<Rightarrow> int \<Rightarrow> int" where
  "clock_hour z u = wall z u div 3600 mod 24"

definition clock_minute :: "zone \<Rightarrow> int \<Rightarrow> int" where
  "clock_minute z u = wall z u div 60 mod 60"

definition clock_second :: "zone \<Rightarrow> int \<Rightarrow> int" where
  "clock_second z u = wall z u mod 60"

text \<open>
  \<open>time.Date\<close> with zero nanoseconds: the offset is looked up at the wall clock time
  read as UTC, and once more if the result lies outside the period of that offset.
\<close>

definition date_in :: "zone \<Rightarrow> int \<Rightarrow> int \<Rightarrow> int \<Rightarrow> int \<Rightarrow> int \<Rightarrow> int \<Rightarrow> int" where
  "date_in z y m d hh mi ss =
     (let u = (day_number y m d - epoch_day) * 86400 + hh * 3600 + mi * 60 + ss in
      case z u of (off, a, b) \<Rightarrow>
        if off = 0 then u
        else if u - off < a \<or> b \<le> u - off then u - fst (z (u - off)) else u - off)"

text \<open>\<open>Time.AddDate\<close>.\<close>

definition add_date :: "zone \<Rightarrow> int \<Rightarrow> int \<Rightarrow> int \<Rightarrow> int \<Rightarrow> int" where
  "add_date z u years months days =
     date_in z (clock_year z u + years) (clock_month z u + months) (clock_mday z u + days)
       (clock_hour z u) (clock_minute z u) (clock_second z u)"

text \<open>\<open>Time.Truncate\<close> counts from the zero time, which is a multiple of a minute.\<close>

definition truncate_to :: "int \<Rightarrow> int \<Rightarrow> int" where
  "truncate_to n u = u - u mod n"

subsection \<open>Division\<close>

lemma floor_within:
  assumes "(0::int) < k"
  shows "k * (w div k) \<le> w" "w < k * (w div k + 1)"
  using assms by (simp_all add: minus_mod_eq_mult_div [symmetric] distrib_left)

lemma div_window:
  assumes "(0::int) < k" and "k * a \<le> y" and "y < k * b"
  shows "a \<le> y div k" "y div k < b"
proof -
  have "k * a < k * (y div k + 1)" "k * (y div k) < k * b"
    using assms floor_within [OF assms(1), of y] by linarith+
  then show "a \<le> y div k" "y div k < b" using assms(1) by (simp_all add: mult_less_cancel_left)
qed

lemma div_less_int:
  assumes "(0::int) < k"
  shows "a div k < b \<longleftrightarrow> a < k * b"
proof
  assume "a div k < b"
  then have "k * (a div k + 1) \<le> k * b" using assms by (simp only: mult_le_cancel_left_pos)
  then show "a < k * b" using floor_within(2) [OF assms, of a] by linarith
next
  assume "a < k * b"
  then show "a div k < b" using assms floor_within(1) [OF assms, of a] by (intro div_window(2))
qed

subsection \<open>Years\<close>

lemma div_pred:
  "(0::int) < k \<Longrightarrow> (y - 1) div k = y div k - (if y mod k = 0 then 1 else 0)"
proof -
  assume k: "0 < k"
  show ?thesis
  proof (cases "y mod k = 0")
    case True
    have "(y - 1) div k = y div k - 1"
    proof (rule int_div_pos_eq [where r = "k - 1"])
      show "y - 1 = k * (y div k - 1) + (k - 1)"
        using True mult_div_mod_eq [of k y] by (simp add: algebra_simps)
    qed (use k in simp_all)
    then show ?thesis using True by simp
  next
    case False
    have "(y - 1) div k = y div k"
    proof (rule int_div_pos_eq [where r = "y mod k - 1"])
      show "y - 1 = k * (y div k) + (y mod k - 1)" by simp
      show "0 \<le> y mod k - 1" using False k by (smt (verit) pos_mod_sign)
      show "y mod k - 1 < k" using k by (smt (verit) pos_mod_bound)
    qed
    then show ?thesis using False by simp
  qed
qed


definition year_length :: "int \<Rightarrow> int" where
  "year_length y = (if leap y then 366 else 365)"

lemma year_start_next: "year_start (y + 1) = year_start y + year_length y"
proof -
  have "400 dvd y \<Longrightarrow> 100 dvd y" "100 dvd y \<Longrightarrow> 4 dvd y"
    by (auto elim: dvd_trans [rotated])
  then have "y mod 400 = 0 \<Longrightarrow> y mod 100 = 0" "y mod 100 = 0 \<Longrightarrow> y mod 4 = 0"
    by (simp_all only: mod_eq_0_iff_dvd)
  then show ?thesis
    by (auto simp: year_start_def year_length_def leap_def div_pred)
qed

lemma year_length_pos: "0 < year_length y"
  by (simp add: year_length_def)

lemma year_start_less: "a < b \<Longrightarrow> year_start a < year_start b"
proof (induction "nat (b - a)" arbitrary: b)
  case (Suc n)
  show ?case
  proof (cases "a = b - 1")
    case True
    then show ?thesis using year_start_next [of a] year_length_pos [of a] by simp
  next
    case False
    then have "year_start a < year_start (b - 1)" using Suc by simp
    then show ?thesis using year_start_next [of "b - 1"] year_length_pos [of "b - 1"] by simp
  qed
qed simp

lemma year_start_mono: "a \<le> b \<Longrightarrow> year_start a \<le> year_start b"
  using year_start_less [of a b] by (cases "a = b") auto

lemma year_start_bounds:
  "146097 * (y - 1) - 800 < 400 * year_start y \<and> 400 * year_start y < 146097 * (y - 1) + 400"
proof -
  have k: "\<exists>q r. a div k = q \<and> a = k * q + r \<and> 0 \<le> r \<and> r < k" if "0 < k" for a k :: int
    using that by (intro exI [of _ "a div k"] exI [of _ "a mod k"]) simp
  obtain q4 r4 where 4: "(y - 1) div 4 = q4" "y - 1 = 4 * q4 + r4" "0 \<le> r4" "r4 < 4"
    using k [of 4 "y - 1"] by auto
  obtain qc rc where c: "(y - 1) div 100 = qc" "y - 1 = 100 * qc + rc" "0 \<le> rc" "rc < 100"
    using k [of 100 "y - 1"] by auto
  obtain q r where q: "(y - 1) div 400 = q" "y - 1 = 400 * q + r" "0 \<le> r" "r < 400"
    using k [of 400 "y - 1"] by auto
  have "146097 * a - 800 < 400 * (365 * a + q4 - qc + q)" "400 * (365 * a + q4 - qc + q) < 146097 * a + 400"
    if "a = y - 1" for a
    using 4(2-4) c(2-4) q(2-4) unfolding that [symmetric] by (simp_all add: algebra_simps)
  then show ?thesis unfolding year_start_def 4(1) c(1) q(1) by simp
qed

text \<open>The guess from the average length of a year is off by at most one.\<close>

lemma year_of_bounds: "year_start (year_of d) \<le> d \<and> d < year_start (year_of d + 1)"
proof -
  define g where "g = (400 * d) div 146097 + 1"
  obtain r where r: "400 * d = 146097 * (g - 1) + r" "0 \<le> r" "r < 146097"
    by (rule that [of "(400 * d) mod 146097"]) (simp_all add: g_def)
  have d: "146097 * (g - 1) \<le> 400 * d" "400 * d < 146097 * g"
    using r by (simp_all add: algebra_simps)
  have "year_start (g - 1) \<le> d" using year_start_bounds [of "g - 1"] d by (simp add: algebra_simps)
  moreover have "d < year_start (g + 1 + 1)" using year_start_bounds [of "g + 1 + 1"] d by (simp add: algebra_simps)
  ultimately show ?thesis by (auto simp: year_of_def Let_def g_def [symmetric])
qed

lemma year_of_eq: "year_start y \<le> d \<Longrightarrow> d < year_start (y + 1) \<Longrightarrow> year_of d = y"
  using year_of_bounds [of d] year_start_mono [of "year_of d + 1" y] year_start_mono [of "y + 1" "year_of d"]
  by linarith

lemma year_of_le_iff: "year_of d \<le> y \<longleftrightarrow> d < year_start (y + 1)"
  using year_of_bounds [of d] year_start_mono [of "year_of d + 1" "y + 1"]
    year_start_mono [of "y + 1" "year_of d"] by linarith

lemma year_of_mono: "a \<le> b \<Longrightarrow> year_of a \<le> year_of b"
  using year_of_bounds [of b] by (simp add: year_of_le_iff)

subsection \<open>Months\<close>

lemma month_cases:
  assumes "1 \<le> m" and "m \<le> (12::nat)"
  obtains "m = 1" | "m = 2" | "m = 3" | "m = 4" | "m = 5" | "m = 6" | "m = 7" | "m = 8"
  | "m = 9" | "m = 10" | "m = 11" | "m = 12"
proof -
  have "m = 1 \<or> m = 2 \<or> m = 3 \<or> m = 4 \<or> m = 5 \<or> m = 6 \<or> m = 7 \<or> m = 8 \<or> m = 9 \<or> m = 10 \<or>
    m = 11 \<or> m = 12" using assms by presburger
  then show thesis using that by argo
qed

lemma month_start_1: "month_start y 1 = year_start y"
  by (simp add: month_start_def)

lemma month_start_13: "month_start y 13 = year_start (y + 1)"
  by (simp add: month_start_def month_lengths_def year_start_next year_length_def)

lemma month_start_Suc:
  assumes "1 \<le> m" and "m \<le> 12"
  shows "month_start y (Suc m) = month_start y m + month_lengths y ! (m - 1)"
proof -
  have "m - 1 < length (month_lengths y)" using assms by (simp add: month_lengths_def)
  then show ?thesis using assms
    by (cases m) (simp_all add: month_start_def take_Suc_conv_app_nth)
qed

lemma month_length_bounds:
  assumes "1 \<le> m" and "m \<le> 12"
  shows "28 \<le> month_lengths y ! (m - 1) \<and> month_lengths y ! (m - 1) \<le> 31"
  using assms by (cases m rule: month_cases) (simp_all add: month_lengths_def)

lemma month_start_less: "1 \<le> a \<Longrightarrow> a < b \<Longrightarrow> b \<le> 13 \<Longrightarrow> month_start y a < month_start y b"
proof (induction b)
  case (Suc b)
  have "month_start y b < month_start y (Suc b)"
    using Suc.prems month_start_Suc [of b y] month_length_bounds [of b y] by simp
  then show ?case using Suc by (cases "a = b") auto
qed simp

lemma month_start_le: "1 \<le> a \<Longrightarrow> a \<le> b \<Longrightarrow> b \<le> 13 \<Longrightarrow> month_start y a \<le> month_start y b"
  using month_start_less [of a b y] by (cases "a = b") auto

lemma month_of_eq:
  assumes "1 \<le> m" and "m \<le> 12" and "month_start y m \<le> d" and "d < month_start y (Suc m)"
  shows "year_of d = y \<and> month_of d = m"
proof -
  have "year_start y \<le> d" "d < year_start (y + 1)"
    using assms month_start_le [of 1 m y] month_start_le [of "Suc m" 13 y] month_start_1 [of y]
      month_start_13 [of y] by auto
  then have y: "year_of d = y" by (rule year_of_eq)
  have "filter (\<lambda>k. month_start y k \<le> d) [1..<13] = [1..<Suc m]"
  proof -
    have "[1..<13] = [1..<Suc m] @ [Suc m..<13]"
      using assms upt_add_eq_append [of 1 "Suc m" "12 - m"] by simp
    moreover have "filter (\<lambda>k. month_start y k \<le> d) [1..<Suc m] = [1..<Suc m]"
      using assms month_start_le [of _ m y] by (fastforce simp: filter_id_conv)
    moreover have "filter (\<lambda>k. month_start y k \<le> d) [Suc m..<13] = []"
      using assms month_start_le [of "Suc m" _ y] by (fastforce simp: filter_empty_conv)
    ultimately show ?thesis by simp
  qed
  then show ?thesis using y by (simp add: month_of_def)
qed

lemma month_exists:
  "\<exists>m. 1 \<le> m \<and> m \<le> 12 \<and> month_start (year_of d) m \<le> d \<and> d < month_start (year_of d) (Suc m)"
proof -
  let ?P = "\<lambda>k. d < month_start (year_of d) k"
  have "?P 13" using year_of_bounds [of d] month_start_13 by simp
  moreover have "\<not> ?P 1" using year_of_bounds [of d] month_start_1 [of "year_of d"] by simp
  ultimately obtain k where k: "k < 12" "\<forall>i\<le>k. \<not> ?P (Suc i)" "?P (Suc (Suc k))"
    using ex_least_nat_less [of "\<lambda>k. ?P (Suc k)" 12] by auto
  then show ?thesis by (intro exI [of _ "Suc k"]) auto
qed

lemma month_of_bounds:
  "1 \<le> month_of d" "month_of d \<le> 12"
  "month_start (year_of d) (month_of d) \<le> d" "d < month_start (year_of d) (Suc (month_of d))"
  using month_exists [of d] month_of_eq [of _ "year_of d" d] by (metis, metis, metis, metis)

lemma day_of_bounds: "1 \<le> day_of d" "day_of d \<le> 31"
  using month_of_bounds [of d] month_start_Suc [of "month_of d" "year_of d"]
    month_length_bounds [of "month_of d" "year_of d"]
  by (auto simp: day_of_def)

text \<open>The calendar date determines the day: the round trip of \<open>time.Date\<close>.\<close>

lemma day_number_date: "day_number (year_of d) (int (month_of d)) (day_of d) = d"
proof -
  have "(int (month_of d) - 1) div 12 = 0" "nat ((int (month_of d) - 1) mod 12) + 1 = month_of d"
    using month_of_bounds(1,2) [of d] by (simp_all add: nat_diff_distrib)
  then show ?thesis by (simp only: day_number_def day_of_def) simp
qed

subsection \<open>A zone with a fixed offset\<close>

lemma date_in_fixed:
  "date_in (fixed_zone off) y m d hh mi ss =
     day_number y m d * 86400 + hh * 3600 + mi * 60 + ss - wall (fixed_zone off) 0"
  by (simp add: date_in_def fixed_zone_def wall_def Let_def algebra_simps)

lemma day_number_add: "day_number y m (d + n) = day_number y m d + n"
  by (simp add: day_number_def)

lemma seconds_of_day:
  "w div 86400 * 86400 + w div 3600 mod 24 * 3600 + w div 60 mod 60 * 60 + w mod 60 = (w :: int)"
proof -
  have "w div 86400 = w div 3600 div 24" "w div 3600 = w div 60 div 60" by simp_all
  moreover have "w div 3600 = 24 * (w div 3600 div 24) + w div 3600 mod 24"
    "w div 60 = 60 * (w div 60 div 60) + w div 60 mod 60" "w = 60 * (w div 60) + w mod 60"
    by (simp_all only: mult_div_mod_eq)
  ultimately show ?thesis by linarith
qed

lemma add_days_fixed: "add_date (fixed_zone off) u 0 0 n = u + 86400 * n"
proof -
  let ?w = "wall (fixed_zone off) u"
  have "add_date (fixed_zone off) u 0 0 n = (?w div 86400 + n) * 86400 + ?w div 3600 mod 24 * 3600
      + ?w div 60 mod 60 * 60 + ?w mod 60 - wall (fixed_zone off) 0"
    by (simp only: add_date_def date_in_fixed clock_year_def clock_month_def clock_mday_def clock_hour_def
        clock_minute_def clock_second_def clock_day_def day_number_add day_number_date add_0_right)
  moreover have "?w = u + wall (fixed_zone off) 0" by (simp add: wall_def fixed_zone_def)
  moreover have "a = u + 86400 * n"
    if "a = (q + n) * 86400 + h + m + s - z" "w = u + z" "q * 86400 + h + m + s = w" for a q h m s z w :: int
    using that by (simp add: algebra_simps)
  ultimately show ?thesis using seconds_of_day [of ?w] by blast
qed

end
