(* ===== verification/CronSchedule.thy ===== *)
theory CronSchedule
  imports CivilTime "HOL-Library.While_Combinator"
begin

unbundle bit_operations_syntax

section \<open>Activation times of a cron schedule (plugin/cron/spec.go, constantdelay.go)\<close>

text \<open>
  A crontab schedule is six bit sets; \<open>Next\<close> searches the first second after a given
  time whose six clock readings are all in their sets. The source moves through five
  loops and jumps back to a label \<open>WRAP\<close>; here the label and the loops are phases of a
  step function, and the search is its iteration, which may not end in a zone with
  irregular offsets: then the value is \<open>None\<close>.
\<close>

subsection \<open>Schedules\<close>

record spec_schedule =
  s_Second :: "64 word"
  s_Minute :: "64 word"
  s_Hour :: "64 word"
  s_Dom :: "64 word"
  s_Month :: "64 word"
  s_Dow :: "64 word"
  s_Location :: "zone option"

definition starBit :: "64 word" where
  "starBit = push_bit 63 1"

definition in_set :: "int \<Rightarrow> 64 word \<Rightarrow> bool" where
  "in_set n b \<longleftrightarrow> push_bit (nat n) 1 AND b \<noteq> 0"

definition dayMatches :: "spec_schedule \<Rightarrow> zone \<Rightarrow> int \<Rightarrow> bool" where
  "dayMatches s z t =
     (let domMatch = in_set (clock_mday z t) (s_Dom s);
          dowMatch = in_set (clock_weekday z t) (s_Dow s)
      in if 0 < s_Dom s AND starBit \<or> 0 < s_Dow s AND starBit then domMatch \<and> dowMatch
         else domMatch \<or> dowMatch)"

subsection \<open>The search\<close>

datatype phase = Wrap | MonthLoop | DayLoop | HourLoop | MinuteLoop | SecondLoop | Found | NoTime

type_synonym search = "phase \<times> bool \<times> int"

definition wrap_step :: "zone \<Rightarrow> int \<Rightarrow> bool \<Rightarrow> int \<Rightarrow> search" where
  "wrap_step z yearLimit added t =
     (if yearLimit < clock_year z t then (NoTime, added, t) else (MonthLoop, added, t))"

definition month_step :: "spec_schedule \<Rightarrow> zone \<Rightarrow> bool \<Rightarrow> int \<Rightarrow> search" where
  "month_step s z added t =
     (if in_set (clock_month z t) (s_Month s) then (DayLoop, added, t)
      else
        (let t1 = (if added then t else date_in z (clock_year z t) (clock_month z t) 1 0 0 0);
             t2 = add_date z t1 0 1 0
         in (if clock_month z t2 = 1 then Wrap else MonthLoop, True, t2)))"

text \<open>After a day the hour is corrected where midnight does not exist.\<close>

definition day_step :: "spec_schedule \<Rightarrow> zone \<Rightarrow> bool \<Rightarrow> int \<Rightarrow> search" where
  "day_step s z added t =
     (if dayMatches s z t then (HourLoop, added, t)
      else
        (let t1 = (if added then t
                   else date_in z (clock_year z t) (clock_month z t) (clock_mday z t) 0 0 0);
             t2 = add_date z t1 0 0 1;
             h = clock_hour z t2;
             t3 = (if h \<noteq> 0 then if 12 < h then t2 + (24 - h) * 3600 else t2 - h * 3600 else t2)
         in (if clock_mday z t3 = 1 then Wrap else DayLoop, True, t3)))"

definition hour_step :: "spec_schedule \<Rightarrow> zone \<Rightarrow> bool \<Rightarrow> int \<Rightarrow> search" where
  "hour_step s z added t =
     (if in_set (clock_hour z t) (s_Hour s) then (MinuteLoop, added, t)
      else
        (let t1 = (if added then t
                   else date_in z (clock_year z t) (clock_month z t) (clock_mday z t) (clock_hour z t) 0 0);
             t2 = t1 + 3600
         in (if clock_hour z t2 = 0 then Wrap else HourLoop, True, t2)))"

definition minute_step :: "spec_schedule \<Rightarrow> zone \<Rightarrow> bool \<Rightarrow> int \<Rightarrow> search" where
  "minute_step s z added t =
     (if in_set (clock_minute z t) (s_Minute s) then (SecondLoop, added, t)
      else
        (let t1 = (if added then t else truncate_to 60 t);
             t2 = t1 + 60
         in (if clock_minute z t2 = 0 then Wrap else MinuteLoop, True, t2)))"

definition second_step :: "spec_schedule \<Rightarrow> zone \<Rightarrow> bool \<Rightarrow> int \<Rightarrow> search" where
  "second_step s z added t =
     (if in_set (clock_second z t) (s_Second s) then (Found, added, t)
      else
        (let t1 = (if added then t else truncate_to 1 t);
             t2 = t1 + 1
         in (if clock_second z t2 = 0 then Wrap else SecondLoop, True, t2)))"

fun search_step :: "spec_schedule \<Rightarrow> zone \<Rightarrow> int \<Rightarrow> search \<Rightarrow> search" where
  "search_step s z yearLimit (Wrap, added, t) = wrap_step z yearLimit added t"
| "search_step s z yearLimit (MonthLoop, added, t) = month_step s z added t"
| "search_step s z yearLimit (DayLoop, added, t) = day_step s z added t"
| "search_step s z yearLimit (HourLoop, added, t) = hour_step s z added t"
| "search_step s z yearLimit (MinuteLoop, added, t) = minute_step s z added t"
| "search_step s z yearLimit (SecondLoop, added, t) = second_step s z added t"
| "search_step s z yearLimit (p, added, t) = (p, added, t)"

definition searching :: "search \<Rightarrow> bool" where
  "searching st \<longleftrightarrow> fst st \<noteq> Found \<and> fst st \<noteq> NoTime"

text \<open>
  The time \<open>t\<close> is in nanoseconds, \<open>tz\<close> its location. From the rounding on all times
  are whole seconds.
\<close>

definition spec_Next :: "spec_schedule \<Rightarrow> int \<Rightarrow> zone \<Rightarrow> int option" where
  "spec_Next s t tz =
     (let loc = (case s_Location s of None \<Rightarrow> tz | Some z \<Rightarrow> z);
          u = (t + second_ns - t mod second_ns) div second_ns;
          yearLimit = clock_year loc u + 5
      in case while_option searching (search_step s loc yearLimit) (Wrap, False, u) of
           None \<Rightarrow> None
         | Some (Found, _, r) \<Rightarrow> Some (r * second_ns)
         | Some _ \<Rightarrow> Some zero_time)"

subsection \<open>Constant delays\<close>

record constant_delay = Delay :: int

text \<open>\<open>%\<close> takes the sign of its left side; here that is at least a second.\<close>

definition Every :: "int \<Rightarrow> constant_delay" where
  "Every duration =
     (let d = (if duration < second_ns then second_ns else duration)
      in \<lparr>Delay = d - d mod second_ns\<rparr>)"

definition delay_Next :: "constant_delay \<Rightarrow> int \<Rightarrow> int" where
  "delay_Next c t = t + (Delay c - t mod second_ns)"

text \<open>The two schedules behind the interface \<open>Schedule\<close>.\<close>

datatype schedule = SpecSchedule spec_schedule | ConstantDelay constant_delay

definition schedule_Next :: "schedule \<Rightarrow> int \<Rightarrow> zone \<Rightarrow> int option" where
  "schedule_Next sc t tz =
     (case sc of SpecSchedule s \<Rightarrow> spec_Next s t tz | ConstantDelay c \<Rightarrow> Some (delay_Next c t))"

end
