(* ===== verification/CronSearch.thy ===== *)
theory CronSearch
  imports CronSchedule
begin

section \<open>The search finds the first activation time\<close>

text \<open>
  The clock units, from the year to the second, cut the time line into nested periods.
  The search of \<open>spec_Next\<close> skips the rest of a period whose reading is not in its set.
  The locale \<open>nested_periods\<close> states what the search uses of the periods; it is
  interpreted on the Gregorian calendar, once for all locations with a constant offset.
\<close>

subsection \<open>Nested periods\<close>

locale nested_periods =
  fixes rank :: "phase \<Rightarrow> nat"
    and lo hi :: "phase \<Rightarrow> int \<Rightarrow> int"
  assumes inside: "lo u x \<le> x \<and> x < hi u x"
    and same: "lo u x \<le> y \<Longrightarrow> y < hi u x \<Longrightarrow> lo u y = lo u x \<and> hi u y = hi u x"
    and nested: "rank u \<le> rank v \<Longrightarrow> lo u x \<le> lo v x \<and> hi v x \<le> hi u x"
begin

definition aligned :: "phase \<Rightarrow> int \<Rightarrow> bool" where
  "aligned u x \<longleftrightarrow> lo u x = x"

lemma aligned_hi: "aligned u (hi u x)"
proof (rule ccontr)
  assume "\<not> aligned u (hi u x)"
  then have l: "lo u (hi u x) \<le> hi u x - 1" using inside [of u "hi u x"] by (simp add: aligned_def)
  then have "hi u (hi u x - 1) = hi u (hi u x)" using same [of u "hi u x" "hi u x - 1"] inside [of u "hi u x"]
    by simp
  moreover have "hi u (hi u x - 1) = hi u x"
    using same [of u x "hi u x - 1"] inside [of u x] by simp
  ultimately show False using inside [of u "hi u x"] by simp
qed

lemma aligned_finer: "aligned u x \<Longrightarrow> rank u \<le> rank v \<Longrightarrow> aligned v x"
  using nested [of u v x] inside [of v x] by (simp add: aligned_def)

text \<open>The end of a fine period is the end of the coarse one, or lies in it.\<close>

lemma hi_coarser:
  assumes "rank u \<le> rank v" and "\<not> aligned u (hi v x)"
  shows "lo u (hi v x) = lo u x \<and> hi u (hi v x) = hi u x"
proof -
  have "hi v x \<noteq> hi u x" using assms(2) aligned_hi by auto
  then show ?thesis
    using nested [OF assms(1), of x] inside [of u x] inside [of v x] by (intro same) simp_all
qed

end

text \<open>A condition on the units that is decided by the period.\<close>

locale period_search = nested_periods +
  fixes good :: "phase \<Rightarrow> int \<Rightarrow> bool"
  assumes decided: "lo u x = lo u y \<Longrightarrow> good u x = good u y"
begin

definition none_before :: "phase set \<Rightarrow> int \<Rightarrow> int \<Rightarrow> bool" where
  "none_before U x0 x \<longleftrightarrow> (\<forall>y. x0 \<le> y \<and> y < x \<longrightarrow> (\<exists>u\<in>U. \<not> good u y))"

definition settled :: "phase \<Rightarrow> int \<Rightarrow> bool" where
  "settled p x \<longleftrightarrow> (\<forall>u. rank u < rank p \<longrightarrow> good u x)"

definition tidy :: "int \<Rightarrow> bool" where
  "tidy x \<longleftrightarrow> (\<forall>u. good u x \<or> aligned u x)"

lemma skip_none:
  assumes "none_before U x0 x" and "\<not> good u x" and "u \<in> U"
  shows "none_before U x0 (hi u x)"
  unfolding none_before_def
proof (intro allI impI)
  fix y assume y: "x0 \<le> y \<and> y < hi u x"
  show "\<exists>u\<in>U. \<not> good u y"
  proof (cases "y < x")
    case True
    then show ?thesis using assms(1) y by (simp add: none_before_def)
  next
    case False
    then have "lo u y = lo u x" using same [of u x y] inside [of u x] y by simp
    then show ?thesis using decided assms(2,3) by blast
  qed
qed

lemma skip_tidy:
  assumes "settled u x"
  shows "tidy (hi u x)"
  unfolding tidy_def
proof
  fix v
  show "good v (hi u x) \<or> aligned v (hi u x)"
  proof (cases "rank u \<le> rank v")
    case True
    then show ?thesis using aligned_hi aligned_finer by blast
  next
    case False
    then have "good v x" using assms by (simp add: settled_def)
    then show ?thesis using hi_coarser [of v u x] decided [of v "hi u x" x] False by auto
  qed
qed

lemma skip_settled:
  assumes "settled u x" and "\<And>v. rank v < rank u \<Longrightarrow> \<not> aligned v (hi u x)"
  shows "settled u (hi u x)"
  unfolding settled_def
proof (intro allI impI)
  fix v assume v: "rank v < rank u"
  then have "good v x" using assms(1) by (simp add: settled_def)
  then show "good v (hi u x)"
    using hi_coarser [of v u x] decided [of v "hi u x" x] v assms(2) by auto
qed

end

subsection \<open>The periods of the calendar\<close>

fun phase_rank :: "phase \<Rightarrow> nat" where
  "phase_rank Wrap = 0" | "phase_rank MonthLoop = 1" | "phase_rank DayLoop = 2"
| "phase_rank HourLoop = 3" | "phase_rank MinuteLoop = 4" | "phase_rank SecondLoop = 5"
| "phase_rank Found = 6" | "phase_rank NoTime = 6"

text \<open>The period of a unit that holds the wall clock time \<open>w\<close>; \<open>Wrap\<close> stands for the year.\<close>

fun wall_lo :: "phase \<Rightarrow> int \<Rightarrow> int" where
  "wall_lo Wrap w = 86400 * year_start (year_of (w div 86400))"
| "wall_lo MonthLoop w = 86400 * month_start (year_of (w div 86400)) (month_of (w div 86400))"
| "wall_lo DayLoop w = 86400 * (w div 86400)"
| "wall_lo HourLoop w = 3600 * (w div 3600)"
| "wall_lo MinuteLoop w = 60 * (w div 60)"
| "wall_lo p w = w"

fun wall_hi :: "phase \<Rightarrow> int \<Rightarrow> int" where
  "wall_hi Wrap w = 86400 * year_start (year_of (w div 86400) + 1)"
| "wall_hi MonthLoop w = 86400 * month_start (year_of (w div 86400)) (Suc (month_of (w div 86400)))"
| "wall_hi DayLoop w = 86400 * (w div 86400 + 1)"
| "wall_hi HourLoop w = 3600 * (w div 3600 + 1)"
| "wall_hi MinuteLoop w = 60 * (w div 60 + 1)"
| "wall_hi p w = w + 1"

lemma floor_nested:
  assumes "(0::int) < a" and "0 < b" and "c = b * a"
  shows "c * (w div c) \<le> b * (w div b)" "b * (w div b + 1) \<le> c * (w div c + 1)"
proof -
  have d: "w div c = w div b div a" using assms by (simp add: zdiv_zmult2_eq)
  have "a * (w div b div a) \<le> w div b" "w div b + 1 \<le> a * (w div b div a + 1)"
    using floor_within [OF assms(1), of "w div b"] by linarith+
  then have "b * (a * (w div b div a)) \<le> b * (w div b)" "b * (w div b + 1) \<le> b * (a * (w div b div a + 1))"
    using assms(2) by (simp_all only: mult_le_cancel_left_pos)
  then show "c * (w div c) \<le> b * (w div b)" "b * (w div b + 1) \<le> c * (w div c + 1)"
    unfolding d by (simp_all only: assms(3) mult.assoc)
qed

lemma month_in_year:
  "year_start (year_of d) \<le> month_start (year_of d) (month_of d)"
  "month_start (year_of d) (Suc (month_of d)) \<le> year_start (year_of d + 1)"
  using month_start_le [of 1 "month_of d" "year_of d"] month_start_le [of "Suc (month_of d)" 13 "year_of d"]
    month_of_bounds(1,2) [of d] month_start_1 month_start_13 by auto

lemma wall_lo_chain:
  "wall_lo Wrap w \<le> wall_lo MonthLoop w" "wall_lo MonthLoop w \<le> wall_lo DayLoop w"
  "wall_lo DayLoop w \<le> wall_lo HourLoop w" "wall_lo HourLoop w \<le> wall_lo MinuteLoop w"
  "wall_lo MinuteLoop w \<le> w"
proof -
  show "wall_lo Wrap w \<le> wall_lo MonthLoop w" "wall_lo MonthLoop w \<le> wall_lo DayLoop w"
    unfolding wall_lo.simps using month_in_year(1) [of "w div 86400"] month_of_bounds(3) [of "w div 86400"]
    by (simp_all only: mult_le_cancel_left_pos zero_less_numeral)
  show "wall_lo DayLoop w \<le> wall_lo HourLoop w" "wall_lo HourLoop w \<le> wall_lo MinuteLoop w"
    unfolding wall_lo.simps
    by (rule floor_nested(1) [where a = 24] floor_nested(1) [where a = 60]; simp)+
  show "wall_lo MinuteLoop w \<le> w"
    unfolding wall_lo.simps by (rule floor_within) simp
qed

lemma wall_hi_chain:
  "wall_hi MonthLoop w \<le> wall_hi Wrap w" "wall_hi DayLoop w \<le> wall_hi MonthLoop w"
  "wall_hi HourLoop w \<le> wall_hi DayLoop w" "wall_hi MinuteLoop w \<le> wall_hi HourLoop w"
  "w + 1 \<le> wall_hi MinuteLoop w"
proof -
  show "wall_hi MonthLoop w \<le> wall_hi Wrap w" "wall_hi DayLoop w \<le> wall_hi MonthLoop w"
    unfolding wall_hi.simps using month_in_year(2) [of "w div 86400"] month_of_bounds(4) [of "w div 86400"]
    by (simp_all only: mult_le_cancel_left_pos zero_less_numeral)
  show "wall_hi HourLoop w \<le> wall_hi DayLoop w" "wall_hi MinuteLoop w \<le> wall_hi HourLoop w"
    unfolding wall_hi.simps
    by (rule floor_nested(2) [where a = 24] floor_nested(2) [where a = 60]; simp)+
  show "w + 1 \<le> wall_hi MinuteLoop w"
    unfolding wall_hi.simps using floor_within(2) [of 60 w] by linarith
qed

lemma wall_nested:
  "phase_rank u \<le> phase_rank v \<Longrightarrow> wall_lo u w \<le> wall_lo v w \<and> wall_hi v w \<le> wall_hi u w"
  using wall_lo_chain [of w] wall_hi_chain [of w]
  by (cases u; cases v) (simp_all del: wall_lo.simps(1-5) wall_hi.simps(1-5))

lemma wall_inside: "wall_lo u w \<le> w \<and> w < wall_hi u w"
  using wall_nested [of u Found w] by (cases u) auto

lemma wall_same:
  assumes "wall_lo u w \<le> y" and "y < wall_hi u w"
  shows "wall_lo u y = wall_lo u w \<and> wall_hi u y = wall_hi u w"
proof (cases u)
  case Wrap
  then have "year_of (y div 86400) = year_of (w div 86400)"
    using assms div_window [of 86400 _ y] by (intro year_of_eq) simp_all
  then show ?thesis using Wrap by simp
next
  case MonthLoop
  have "year_of (y div 86400) = year_of (w div 86400) \<and> month_of (y div 86400) = month_of (w div 86400)"
    using assms MonthLoop div_window [of 86400 _ y] month_of_bounds(1,2)
    by (intro month_of_eq) simp_all
  then show ?thesis using MonthLoop by simp
next
  case DayLoop
  then have "y div 86400 = w div 86400" using assms div_window [of 86400 _ y "w div 86400 + 1"] by force
  then show ?thesis using DayLoop by simp
next
  case HourLoop
  then have "y div 3600 = w div 3600" using assms div_window [of 3600 _ y "w div 3600 + 1"] by force
  then show ?thesis using HourLoop by simp
next
  case MinuteLoop
  then have "y div 60 = w div 60" using assms div_window [of 60 _ y "w div 60 + 1"] by force
  then show ?thesis using MinuteLoop by simp
qed (use assms in simp_all)

text \<open>The same on instants, in a zone with a constant offset.\<close>

definition unit_lo :: "int \<Rightarrow> phase \<Rightarrow> int \<Rightarrow> int" where
  "unit_lo off u t = wall_lo u (wall (fixed_zone off) t) - wall (fixed_zone off) 0"

definition unit_hi :: "int \<Rightarrow> phase \<Rightarrow> int \<Rightarrow> int" where
  "unit_hi off u t = wall_hi u (wall (fixed_zone off) t) - wall (fixed_zone off) 0"

lemma wall_fixed: "wall (fixed_zone off) t = t + wall (fixed_zone off) 0"
  by (simp add: wall_def fixed_zone_def)

lemma wall_fixed_minus: "wall (fixed_zone off) (w - wall (fixed_zone off) 0) = w"
  by (simp add: wall_def fixed_zone_def)

text \<open>What a step requires of the time: the year limit for \<open>Wrap\<close>, the sets for the loops.\<close>

fun unit_good :: "spec_schedule \<Rightarrow> int \<Rightarrow> zone \<Rightarrow> phase \<Rightarrow> int \<Rightarrow> bool" where
  "unit_good s lim z Wrap t \<longleftrightarrow> clock_year z t \<le> lim"
| "unit_good s lim z MonthLoop t \<longleftrightarrow> in_set (clock_month z t) (s_Month s)"
| "unit_good s lim z DayLoop t \<longleftrightarrow> dayMatches s z t"
| "unit_good s lim z HourLoop t \<longleftrightarrow> in_set (clock_hour z t) (s_Hour s)"
| "unit_good s lim z MinuteLoop t \<longleftrightarrow> in_set (clock_minute z t) (s_Minute s)"
| "unit_good s lim z SecondLoop t \<longleftrightarrow> in_set (clock_second z t) (s_Second s)"
| "unit_good s lim z p t \<longleftrightarrow> True"


lemma year_start_inject: "year_start a = year_start b \<Longrightarrow> a = b"
  using year_start_less [of a b] year_start_less [of b a] by (metis less_irrefl not_less_iff_gr_or_eq)

lemma month_start_inject:
  assumes "month_start (year_of d) (month_of d) = month_start (year_of e) (month_of e)"
  shows "year_of d = year_of e \<and> month_of d = month_of e"
proof -
  have "year_of (month_start (year_of x) (month_of x)) = year_of x \<and>
      month_of (month_start (year_of x) (month_of x)) = month_of x" for x
    using month_of_bounds [of x] by (intro month_of_eq) auto
  then show ?thesis using assms by metis
qed

lemma unit_lo_eq:
  "unit_lo off u x = unit_lo off u y \<longleftrightarrow>
     wall_lo u (wall (fixed_zone off) x) = wall_lo u (wall (fixed_zone off) y)"
  by (simp add: unit_lo_def)

interpretation cal: nested_periods phase_rank "unit_lo off" "unit_hi off" for off :: int
proof
  fix u v :: phase and x y :: int
  show "unit_lo off u x \<le> x \<and> x < unit_hi off u x"
    using wall_inside [of u "wall (fixed_zone off) x"] wall_fixed [of off x]
    by (simp add: unit_lo_def unit_hi_def)
  show "unit_lo off u y = unit_lo off u x \<and> unit_hi off u y = unit_hi off u x"
    if "unit_lo off u x \<le> y" "y < unit_hi off u x"
    using that wall_same [of u "wall (fixed_zone off) x" "wall (fixed_zone off) y"] wall_fixed [of off y]
    by (simp add: unit_lo_def unit_hi_def)
  show "unit_lo off u x \<le> unit_lo off v x \<and> unit_hi off v x \<le> unit_hi off u x"
    if "phase_rank u \<le> phase_rank v"
    using wall_nested [OF that, of "wall (fixed_zone off) x"] by (simp add: unit_lo_def unit_hi_def)
qed

lemma unit_decided:
  assumes "unit_lo off u x = unit_lo off u y"
  shows "unit_good s lim (fixed_zone off) u x = unit_good s lim (fixed_zone off) u y"
proof -
  let ?x = "wall (fixed_zone off) x" and ?y = "wall (fixed_zone off) y"
  have e: "wall_lo u ?x = wall_lo u ?y" using assms by (simp add: unit_lo_eq)
  show ?thesis
  proof (cases u)
    case Wrap
    then have "year_of (?x div 86400) = year_of (?y div 86400)" using e year_start_inject by simp
    then show ?thesis using Wrap by (simp add: clock_year_def clock_day_def)
  next
    case MonthLoop
    then have "month_of (?x div 86400) = month_of (?y div 86400)" using e month_start_inject by simp
    then show ?thesis using MonthLoop by (simp add: clock_month_def clock_day_def)
  next
    case DayLoop
    then have "?x div 86400 = ?y div 86400" using e by simp
    then show ?thesis using DayLoop
      by (simp add: dayMatches_def clock_mday_def clock_weekday_def clock_day_def)
  qed (use e in \<open>simp_all add: clock_hour_def clock_minute_def clock_second_def\<close>)
qed

interpretation cal: period_search phase_rank "unit_lo off" "unit_hi off" "unit_good s lim (fixed_zone off)"
  for off lim :: int and s :: spec_schedule
  by unfold_locales (rule unit_decided)


subsection \<open>What one iteration of a loop does\<close>

lemma day_number_first: "day_number (year_of d) (int (month_of d)) 1 = month_start (year_of d) (month_of d)"
  using day_number_date [of d] by (simp add: day_number_def day_of_def)

lemma day_number_next_month:
  assumes "1 \<le> m" and "m \<le> 12"
  shows "day_number y (int m + 1) 1 = month_start y (Suc m)"
proof (cases "m = 12")
  case True
  then show ?thesis using month_start_1 month_start_13 by (simp add: day_number_def)
next
  case False
  then have "int m div 12 = 0" "nat (int m mod 12) + 1 = Suc m" using assms by auto
  then show ?thesis by (simp only: day_number_def) simp
qed

lemma floor_multiple: "(0::int) < k \<Longrightarrow> k * a div k = a"
  by simp

lemma lo_month:
  "date_in (fixed_zone off) (clock_year (fixed_zone off) t) (clock_month (fixed_zone off) t) 1 0 0 0 =
     unit_lo off MonthLoop t"
  by (simp add: date_in_fixed clock_year_def clock_month_def day_number_first unit_lo_def clock_day_def)

lemma lo_day:
  "date_in (fixed_zone off) (clock_year (fixed_zone off) t) (clock_month (fixed_zone off) t)
     (clock_mday (fixed_zone off) t) 0 0 0 = unit_lo off DayLoop t"
  by (simp add: date_in_fixed clock_year_def clock_month_def clock_mday_def day_number_date unit_lo_def
      clock_day_def)

lemma hours_of_day: "(w div 86400) * 86400 + (w div 3600 mod 24) * 3600 = 3600 * (w div 3600 :: int)"
proof -
  have "w div 86400 = w div 3600 div 24" by (simp add: zdiv_zmult2_eq [symmetric])
  then show ?thesis using mult_div_mod_eq [of 24 "w div 3600"] by linarith
qed

lemma lo_hour:
  "date_in (fixed_zone off) (clock_year (fixed_zone off) t) (clock_month (fixed_zone off) t)
     (clock_mday (fixed_zone off) t) (clock_hour (fixed_zone off) t) 0 0 = unit_lo off HourLoop t"
  using hours_of_day [of "wall (fixed_zone off) t"]
  by (simp add: date_in_fixed clock_year_def clock_month_def clock_mday_def clock_hour_def
      day_number_date unit_lo_def clock_day_def)

lemma lo_minute:
  assumes "60 dvd off"
  shows "truncate_to 60 t = unit_lo off MinuteLoop t"
proof -
  let ?w = "wall (fixed_zone off) t"
  have "60 dvd off + epoch_day * 86400" using assms by (simp add: epoch_day_def)
  then have "?w mod 60 = t mod 60"
    by (simp add: wall_def fixed_zone_def add.assoc mod_add_right_eq flip: mod_add_right_eq [of t])
  then show ?thesis
    using wall_fixed [of off t] minus_mod_eq_mult_div [of ?w 60]
    by (simp add: truncate_to_def unit_lo_def)
qed

lemma month_of_first:
  "year_of (month_start (year_of d) (month_of d)) = year_of d"
  "month_of (month_start (year_of d) (month_of d)) = month_of d"
  using month_of_bounds [of d] month_of_eq [of "month_of d" "year_of d" "month_start (year_of d) (month_of d)"]
  by auto

lemma wall_unit_lo: "wall (fixed_zone off) (unit_lo off u t) = wall_lo u (wall (fixed_zone off) t)"
  by (simp add: unit_lo_def wall_fixed_minus)

lemma wall_unit_hi: "wall (fixed_zone off) (unit_hi off u t) = wall_hi u (wall (fixed_zone off) t)"
  by (simp add: unit_hi_def wall_fixed_minus)

lemma midnight: "86400 * d div 3600 mod 24 = (0::int)" "86400 * d div 60 mod 60 = (0::int)"
proof -
  have "86400 * d div 3600 = 24 * d" "86400 * d div 60 = 60 * (24 * d)" by simp_all
  then show "86400 * d div 3600 mod 24 = (0::int)" "86400 * d div 60 mod 60 = (0::int)" by simp_all
qed

lemma next_month: "add_date (fixed_zone off) (unit_lo off MonthLoop t) 0 1 0 = unit_hi off MonthLoop t"
proof -
  let ?d = "wall (fixed_zone off) t div 86400"
  have "day_number (year_of ?d) (int (month_of ?d) + 1) 1 = month_start (year_of ?d) (Suc (month_of ?d))"
    using month_of_bounds(1,2) by (rule day_number_next_month)
  then show ?thesis
    by (simp add: add_date_def date_in_fixed clock_year_def clock_month_def clock_mday_def clock_hour_def
        clock_minute_def clock_second_def clock_day_def wall_unit_lo month_of_first day_of_def midnight
        unit_hi_def)
qed

lemma next_day: "add_date (fixed_zone off) (unit_lo off DayLoop t) 0 0 1 = unit_hi off DayLoop t"
  by (simp add: add_date_def date_in_fixed clock_year_def clock_month_def clock_mday_def clock_hour_def
      clock_minute_def clock_second_def clock_day_def wall_unit_lo midnight day_number_add
      day_number_date unit_hi_def)

text \<open>A period that begins with a coarser one has the first reading of its unit.\<close>

lemma first_readings:
  "cal.aligned off Wrap t \<Longrightarrow> clock_month (fixed_zone off) t = 1"
  "cal.aligned off MonthLoop t \<Longrightarrow> clock_mday (fixed_zone off) t = 1"
  "cal.aligned off DayLoop t \<Longrightarrow> clock_hour (fixed_zone off) t = 0"
  "cal.aligned off HourLoop t \<Longrightarrow> clock_minute (fixed_zone off) t = 0"
  "cal.aligned off MinuteLoop t \<Longrightarrow> clock_second (fixed_zone off) t = 0"
proof -
  let ?w = "wall (fixed_zone off) t"
  have w: "cal.aligned off u t \<Longrightarrow> ?w = wall_lo u ?w" for u
    using wall_unit_lo [of off u t] by (simp add: cal.aligned_def)
  show "clock_month (fixed_zone off) t = 1" if "cal.aligned off Wrap t"
  proof -
    have "?w div 86400 = year_start (year_of (?w div 86400))"
      using w [OF that] floor_multiple [of 86400] by (metis wall_lo.simps(1) zero_less_numeral)
    then have "month_start (year_of (?w div 86400)) 1 = ?w div 86400" using month_start_1 by simp
    then have "month_of (?w div 86400) = 1"
      using month_of_eq [of 1 "year_of (?w div 86400)" "?w div 86400"]
        month_start_less [of 1 2 "year_of (?w div 86400)"] by (simp add: numeral_2_eq_2)
    then show ?thesis by (simp add: clock_month_def clock_day_def)
  qed
  show "clock_mday (fixed_zone off) t = 1" if "cal.aligned off MonthLoop t"
  proof -
    have "?w div 86400 = month_start (year_of (?w div 86400)) (month_of (?w div 86400))"
      using w [OF that] floor_multiple [of 86400] by (metis wall_lo.simps(2) zero_less_numeral)
    then show ?thesis by (simp add: clock_mday_def clock_day_def day_of_def)
  qed
  show "clock_hour (fixed_zone off) t = 0" if "cal.aligned off DayLoop t"
    using w [OF that] midnight(1) [of "?w div 86400"] by (simp add: clock_hour_def)
  show "clock_minute (fixed_zone off) t = 0" if "cal.aligned off HourLoop t"
  proof -
    have "3600 * a div 60 mod 60 = (0::int)" for a
    proof -
      have "3600 * a div 60 = 60 * a" by simp
      then show ?thesis by simp
    qed
    then show ?thesis using w [OF that] by (metis wall_lo.simps(4) clock_minute_def)
  qed
  show "clock_second (fixed_zone off) t = 0" if "cal.aligned off MinuteLoop t"
    using w [OF that] by (metis wall_lo.simps(5) clock_second_def mod_mult_self1_is_0)
qed


lemma first_readings_coarser:
  assumes "phase_rank v < phase_rank u" and "cal.aligned off v t"
  shows "u = MonthLoop \<Longrightarrow> clock_month (fixed_zone off) t = 1"
    "u = DayLoop \<Longrightarrow> clock_mday (fixed_zone off) t = 1"
    "u = HourLoop \<Longrightarrow> clock_hour (fixed_zone off) t = 0"
    "u = MinuteLoop \<Longrightarrow> clock_minute (fixed_zone off) t = 0"
    "u = SecondLoop \<Longrightarrow> clock_second (fixed_zone off) t = 0"
  using assms(1) cal.aligned_finer [OF assms(2)] first_readings [of off t] by auto

fun next_phase :: "phase \<Rightarrow> phase" where
  "next_phase Wrap = MonthLoop" | "next_phase MonthLoop = DayLoop" | "next_phase DayLoop = HourLoop"
| "next_phase HourLoop = MinuteLoop" | "next_phase MinuteLoop = SecondLoop"
| "next_phase SecondLoop = Found" | "next_phase p = p"

definition is_loop :: "phase \<Rightarrow> bool" where
  "is_loop u \<longleftrightarrow> u \<noteq> Wrap \<and> u \<noteq> Found \<and> u \<noteq> NoTime"

lemma loop_passes:
  assumes "unit_good s lim z u t" and "u \<noteq> NoTime"
  shows "search_step s z lim (u, added, t) = (next_phase u, added, t)"
  using assms
  by (cases u) (simp_all add: wrap_step_def month_step_def day_step_def hour_step_def minute_step_def second_step_def)

text \<open>
  Otherwise the loop moves to the next period of its unit, and it stays in the loop only
  if that period does not begin a coarser one.
\<close>

lemma loop_skips:
  assumes "\<not> unit_good s lim (fixed_zone off) u t" and "is_loop u" and "60 dvd off"
    and "added \<Longrightarrow> cal.aligned off u t"
  obtains p where "search_step s (fixed_zone off) lim (u, added, t) = (p, True, unit_hi off u t)"
    and "p = Wrap \<or> p = u \<and> (\<forall>v. phase_rank v < phase_rank u \<longrightarrow> \<not> cal.aligned off v (unit_hi off u t))"
proof -
  let ?z = "fixed_zone off" and ?n = "unit_hi off u t"
  define first where "first = (case u of MonthLoop \<Rightarrow> clock_month ?z ?n = 1 | DayLoop \<Rightarrow> clock_mday ?z ?n = 1
    | HourLoop \<Rightarrow> clock_hour ?z ?n = 0 | MinuteLoop \<Rightarrow> clock_minute ?z ?n = 0
    | _ \<Rightarrow> clock_second ?z ?n = 0)"
  have start: "added \<Longrightarrow> unit_lo off u t = t"
    using assms(4) by (simp add: cal.aligned_def)
  have "search_step s ?z lim (u, added, t) = (if first then Wrap else u, True, ?n)"
  proof (cases u)
    case MonthLoop
    then show ?thesis using assms(1) start next_month [of off t]
      by (cases added) (simp_all add: month_step_def lo_month first_def Let_def)
  next
    case DayLoop
    have "clock_hour ?z (unit_hi off DayLoop t) = 0"
      using cal.aligned_hi [of off DayLoop t] by (rule first_readings)
    then show ?thesis using assms(1) start next_day [of off t] DayLoop
      by (cases added) (simp_all add: day_step_def lo_day first_def Let_def)
  next
    case HourLoop
    have "unit_lo off HourLoop t + 3600 = unit_hi off HourLoop t" by (simp add: unit_lo_def unit_hi_def)
    then show ?thesis using assms(1) start HourLoop by (cases added) (simp_all add: hour_step_def lo_hour first_def Let_def)
  next
    case MinuteLoop
    have "unit_lo off MinuteLoop t + 60 = unit_hi off MinuteLoop t" by (simp add: unit_lo_def unit_hi_def)
    then show ?thesis using assms(1,3) start MinuteLoop
      by (cases added) (simp_all add: minute_step_def lo_minute first_def Let_def)
  next
    case SecondLoop
    have "truncate_to 1 t = t" by (simp add: truncate_to_def)
    moreover have "t + 1 = unit_hi off SecondLoop t"
      using wall_fixed [of off t] by (simp add: unit_hi_def)
    ultimately show ?thesis using assms(1) SecondLoop by (simp add: second_step_def first_def Let_def)
  qed (use assms(2) in \<open>simp_all add: is_loop_def\<close>)
  moreover have "first" if "phase_rank v < phase_rank u" "cal.aligned off v ?n" for v
    using first_readings_coarser [OF that] assms(2) by (cases u) (simp_all add: first_def is_loop_def)
  ultimately show thesis using that by (metis (full_types))
qed


subsection \<open>The invariant of the search\<close>

definition loops :: "phase set" where
  "loops = {MonthLoop, DayLoop, HourLoop, MinuteLoop, SecondLoop}"

fun search_inv :: "spec_schedule \<Rightarrow> int \<Rightarrow> int \<Rightarrow> int \<Rightarrow> search \<Rightarrow> bool" where
  "search_inv s lim off t0 (p, added, t) \<longleftrightarrow>
     t0 \<le> t \<and> cal.none_before s lim off loops t0 t
     \<and> (added \<longrightarrow> cal.tidy off s lim t)
     \<and> (if p = NoTime then lim < clock_year (fixed_zone off) t else cal.settled s lim off p t)
     \<and> unit_lo off SecondLoop t \<le> 86400 * year_start (lim + 1) - wall (fixed_zone off) 0"

fun search_measure :: "int \<Rightarrow> int \<Rightarrow> search \<Rightarrow> nat" where
  "search_measure lim off (p, added, t) =
     7 * nat (86400 * year_start (lim + 1) - wall (fixed_zone off) 0 - t) + (6 - phase_rank p)"

lemma unit_lo_second [simp]: "unit_lo off SecondLoop t = t"
  using wall_fixed [of off t] by (simp add: unit_lo_def)

lemma settled_Wrap [simp]: "cal.settled s lim off Wrap t"
  by (simp add: cal.settled_def)

lemma settled_next:
  assumes "cal.settled s lim off u t" and "unit_good s lim (fixed_zone off) u t" and "is_loop u \<or> u = Wrap"
  shows "cal.settled s lim off (next_phase u) t"
  unfolding cal.settled_def
proof (intro allI impI)
  fix v assume "phase_rank v < phase_rank (next_phase u)"
  then have "phase_rank v < phase_rank u \<or> v = u"
    using assms(3) by (cases u; cases v) (simp_all add: is_loop_def)
  then show "unit_good s lim (fixed_zone off) v t"
    using assms(1,2) by (auto simp: cal.settled_def)
qed

lemma hi_below_limit:
  assumes "cal.settled s lim off u t" and "is_loop u"
  shows "unit_hi off u t \<le> 86400 * year_start (lim + 1) - wall (fixed_zone off) 0"
proof -
  have "unit_good s lim (fixed_zone off) Wrap t"
    using assms by (cases u) (auto simp: cal.settled_def is_loop_def dest!: spec [of _ Wrap])
  then have "year_start (year_of (wall (fixed_zone off) t div 86400) + 1) \<le> year_start (lim + 1)"
    by (intro year_start_mono) (simp add: clock_year_def clock_day_def)
  moreover have "unit_hi off u t \<le> unit_hi off Wrap t"
    using cal.nested [of Wrap u off t] by simp
  ultimately show ?thesis by (simp add: unit_hi_def)
qed

lemma search_step_inv:
  assumes "search_inv s lim off t0 st" and "searching st" and "60 dvd off"
  shows "search_inv s lim off t0 (search_step s (fixed_zone off) lim st) \<and>
    search_measure lim off (search_step s (fixed_zone off) lim st) < search_measure lim off st"
proof -
  obtain p added t where st: "st = (p, added, t)" by (cases st)
  have p: "is_loop p \<or> p = Wrap" using assms(2) by (auto simp: st searching_def is_loop_def)
  show ?thesis
  proof (cases "unit_good s lim (fixed_zone off) p t")
    case True
    then have "search_step s (fixed_zone off) lim st = (next_phase p, added, t)"
      using p loop_passes [of s lim "fixed_zone off" p t added] by (auto simp: st is_loop_def)
    then show ?thesis using assms(1) settled_next [of s lim off p t] True p
      by (cases p) (simp_all add: st is_loop_def)
  next
    case False
    show ?thesis
    proof (cases "p = Wrap")
      case True
      then show ?thesis using False assms(1) by (simp add: st wrap_step_def)
    next
      case loop: False
      then have l: "is_loop p" and s: "cal.settled s lim off p t"
        using p assms(1) by (auto simp: st is_loop_def)
      have "cal.aligned off p t" if added
        using assms(1) False that by (auto simp: st cal.tidy_def)
      then obtain q where q: "search_step s (fixed_zone off) lim st = (q, True, unit_hi off p t)"
        and o: "q = Wrap \<or> q = p \<and> (\<forall>v. phase_rank v < phase_rank p \<longrightarrow> \<not> cal.aligned off v (unit_hi off p t))"
        using loop_skips [OF False l assms(3), of added] by (metis st)
      have lt: "t < unit_hi off p t" using cal.inside [of off p t] by simp
      have "cal.none_before s lim off loops t0 (unit_hi off p t)"
        using assms(1) False l by (intro cal.skip_none) (auto simp: st loops_def is_loop_def intro: phase.exhaust [of p])
      moreover have "cal.settled s lim off q (unit_hi off p t)"
        using o cal.skip_settled [OF s] by auto
      moreover have "q \<noteq> NoTime" using o l by (auto simp: is_loop_def)
      ultimately have "search_inv s lim off t0 (q, True, unit_hi off p t)"
        using assms(1) lt cal.skip_tidy [OF s] hi_below_limit [OF s l] by (simp add: st)
      moreover have "search_measure lim off (q, True, unit_hi off p t) < search_measure lim off st"
        using lt hi_below_limit [OF s l] l by (cases p) (simp_all add: st is_loop_def)
      ultimately show ?thesis by (simp add: q)
    qed
  qed
qed

subsection \<open>The first activation time\<close>

definition schedule_zone :: "spec_schedule \<Rightarrow> zone \<Rightarrow> zone" where
  "schedule_zone s tz = (case s_Location s of None \<Rightarrow> tz | Some z \<Rightarrow> z)"

text \<open>The instant \<open>u\<close>, in seconds, is an activation time of the schedule.\<close>

definition activates :: "spec_schedule \<Rightarrow> zone \<Rightarrow> int \<Rightarrow> bool" where
  "activates s z u \<longleftrightarrow>
     in_set (clock_month z u) (s_Month s) \<and> dayMatches s z u \<and> in_set (clock_hour z u) (s_Hour s)
     \<and> in_set (clock_minute z u) (s_Minute s) \<and> in_set (clock_second z u) (s_Second s)"

lemma activates_loops: "activates s z u \<longleftrightarrow> (\<forall>p\<in>loops. unit_good s lim z p u)"
  by (simp add: activates_def loops_def)

definition upcoming_second :: "int \<Rightarrow> int" where
  "upcoming_second t = (t + second_ns - t mod second_ns) div second_ns"

lemma upcoming_second_le: "upcoming_second t \<le> u \<longleftrightarrow> t < u * second_ns"
proof -
  have "t + second_ns - t mod second_ns = second_ns * (t div second_ns + 1)"
    by (simp add: distrib_left minus_mod_eq_mult_div [symmetric])
  then have "upcoming_second t = t div second_ns + 1"
    by (simp add: upcoming_second_def second_ns_def)
  moreover have "t div second_ns < u \<longleftrightarrow> t < u * second_ns"
    using div_less_int [of second_ns t u] by (simp add: second_ns_def mult.commute)
  ultimately show ?thesis by linarith
qed

lemma search_returns:
  assumes "60 dvd off" and "clock_year (fixed_zone off) u \<le> lim"
  obtains p added t where
    "while_option searching (search_step s (fixed_zone off) lim) (Wrap, False, u) = Some (p, added, t)"
    and "p = Found \<or> p = NoTime" and "search_inv s lim off u (p, added, t)"
proof -
  let ?c = "search_step s (fixed_zone off) lim" and ?s = "(Wrap, False, u)"
  have "year_of (wall (fixed_zone off) u div 86400) \<le> lim"
    using assms(2) by (simp add: clock_year_def clock_day_def)
  then have "wall (fixed_zone off) u div 86400 < year_start (lim + 1)" by (simp add: year_of_le_iff)
  then have "wall (fixed_zone off) u < 86400 * year_start (lim + 1)"
    by (simp add: div_less_iff_less_mult mult.commute)
  then have i: "search_inv s lim off u ?s"
    using wall_fixed [of off u] by (auto simp: cal.none_before_def)
  have step: "search_inv s lim off u (?c st) \<and> search_measure lim off (?c st) < search_measure lim off st"
    if "search_inv s lim off u st" "searching st" for st
    using that assms(1) by (rule search_step_inv)
  obtain st where st: "while_option searching ?c ?s = Some st"
    using measure_while_option_Some [of "search_inv s lim off u" searching ?c "search_measure lim off", OF step i]
    by auto
  have "search_inv s lim off u st"
    using while_option_rule [of "search_inv s lim off u", OF _ st i] step by blast
  moreover have "\<not> searching st" using st by (rule while_option_stop)
  ultimately show thesis using that st by (cases st) (auto simp: searching_def)
qed


lemma next_cases:
  assumes "60 dvd off" and "schedule_zone s tz = fixed_zone off"
    and "lim = clock_year (fixed_zone off) (upcoming_second t) + 5"
  obtains u where "spec_Next s t tz = Some (u * second_ns)" and "t < u * second_ns"
    and "activates s (fixed_zone off) u" and "clock_year (fixed_zone off) u \<le> lim"
    and "\<And>v. t < v * second_ns \<Longrightarrow> v < u \<Longrightarrow> \<not> activates s (fixed_zone off) v"
  | "spec_Next s t tz = Some zero_time"
    and "\<And>v. t < v * second_ns \<Longrightarrow> clock_year (fixed_zone off) v \<le> lim \<Longrightarrow>
      \<not> activates s (fixed_zone off) v"
proof -
  let ?z = "fixed_zone off" and ?u = "upcoming_second t"
  have "clock_year ?z ?u \<le> lim" by (simp add: assms(3))
  then obtain p added w where run: "while_option searching (search_step s ?z lim) (Wrap, False, ?u) = Some (p, added, w)"
    and p: "p = Found \<or> p = NoTime" and i: "search_inv s lim off ?u (p, added, w)"
    by (rule search_returns [OF assms(1), of ?u lim s])
  have none: "\<not> activates s ?z v" if "t < v * second_ns" "v < w" for v
    using i that upcoming_second_le [of t v] activates_loops [of s ?z v lim]
    by (auto simp: cal.none_before_def)
  have n: "spec_Next s t tz = (case p of Found \<Rightarrow> Some (w * second_ns) | _ \<Rightarrow> Some zero_time)"
    using run assms(2,3) p
    by (auto simp: spec_Next_def upcoming_second_def schedule_zone_def Let_def)
  show thesis
  proof (cases "p = Found")
    case True
    then have g: "phase_rank q < 6 \<Longrightarrow> unit_good s lim ?z q w" for q using i by (simp add: cal.settled_def)
    have "activates s ?z w"
      using g [of MonthLoop] g [of DayLoop] g [of HourLoop] g [of MinuteLoop] g [of SecondLoop]
      by (simp add: activates_def)
    moreover have "clock_year ?z w \<le> lim" using g [of Wrap] by simp
    moreover have "t < w * second_ns" using i upcoming_second_le [of t w] by simp
    moreover have "spec_Next s t tz = Some (w * second_ns)" using True n by simp
    ultimately show thesis using that(1) none by blast
  next
    case False
    then have "lim < clock_year ?z w" using p i by simp
    then have "v < w" if "clock_year ?z v \<le> lim" for v
      using that year_of_mono [of "wall ?z w div 86400" "wall ?z v div 86400"]
        zdiv_mono1 [of "wall ?z w" "wall ?z v" 86400] wall_fixed [of off v] wall_fixed [of off w]
      by (force simp: clock_year_def clock_day_def)
    moreover have "spec_Next s t tz = Some zero_time" using False p n by auto
    ultimately show thesis using that(2) none by blast
  qed
qed

text \<open>
  C16. In every location with a constant offset of whole minutes from UTC (zones with daylight
  saving time are not covered) \<open>Next\<close> terminates, and it returns the first second strictly after the given time at which month, day, hour,
  minute and second are all in the schedule, if there is one up to five years after
  the year of the upcoming second; otherwise it returns the zero time, and then there
  is none in these years.
\<close>

theorem next_is_first_activation:
  assumes "60 dvd off" and "schedule_zone s tz = fixed_zone off"
  shows "\<exists>r. spec_Next s t tz = Some r \<and>
    (let lim = clock_year (fixed_zone off) (upcoming_second t) + 5
     in (\<exists>u. r = u * second_ns \<and> t < r \<and> activates s (fixed_zone off) u
           \<and> clock_year (fixed_zone off) u \<le> lim
           \<and> (\<forall>v. t < v * second_ns \<and> v < u \<longrightarrow> \<not> activates s (fixed_zone off) v))
      \<or> r = zero_time \<and>
          (\<forall>v. t < v * second_ns \<and> clock_year (fixed_zone off) v \<le> lim \<longrightarrow>
             \<not> activates s (fixed_zone off) v))"
  by (cases rule: next_cases [OF assms refl, of t]) (auto simp: Let_def)

definition each_minute :: spec_schedule where
  "each_minute = \<lparr>s_Second = 1, s_Minute = -1, s_Hour = -1, s_Dom = -1, s_Month = -1, s_Dow = -1,
     s_Location = Some utc\<rparr>"

theorem next_is_first_activation_witness:
  "spec_Next each_minute 500 utc = Some (60 * second_ns) \<and> \<not> activates each_minute utc 59"
proof -
  have z: "schedule_zone each_minute utc = fixed_zone 0"
    by (simp add: schedule_zone_def each_minute_def utc_def)
  have v: "spec_Next each_minute 500 utc = Some (60 * second_ns)" by code_simp
  have "60 * second_ns \<noteq> zero_time" by (simp add: zero_time_def second_ns_def)
  moreover have "u * second_ns = 60 * second_ns \<Longrightarrow> u = 60" for u by (simp add: second_ns_def)
  moreover have "500 < 59 * second_ns" by (simp add: second_ns_def)
  ultimately show ?thesis
    using next_is_first_activation [of 0 each_minute utc 500, OF _ z] v by (auto simp: utc_def Let_def)
qed

subsection \<open>Constant delays\<close>

text \<open>
  \<open>Every\<close> never delays by less than a second and always by whole seconds, at most
  the requested duration where that is a second or more; the next activation lies on a
  second, later than the given time and at most the delay later.
\<close>

theorem every_bounds:
  "second_ns \<le> Delay (Every d) \<and> Delay (Every d) mod second_ns = 0
   \<and> Delay (Every d) \<le> max d second_ns \<and> d < Delay (Every d) + second_ns
   \<and> delay_Next (Every d) t mod second_ns = 0
   \<and> t < delay_Next (Every d) t \<and> delay_Next (Every d) t \<le> t + Delay (Every d)"
proof -
  define n where "n = (if d < second_ns then 1 else d div second_ns)"
  have pos: "0 < second_ns" by (simp add: second_ns_def)
  have D: "Delay (Every d) = second_ns * n"
    using pos by (simp add: Every_def Let_def n_def minus_mod_eq_mult_div)
  have n: "1 \<le> n" "second_ns * n \<le> max d second_ns" "d < second_ns * (n + 1)"
    using pos floor_within [OF pos, of d] div_window(1) [OF pos, of 1 d "d + 1"]
    by (auto simp: n_def max_def second_ns_def)
  have m: "0 \<le> t mod second_ns" "t mod second_ns < second_ns" using pos by simp_all
  have N: "delay_Next (Every d) t = second_ns * (t div second_ns + n)"
    by (simp add: delay_Next_def D distrib_left minus_mod_eq_mult_div [symmetric])
  have "second_ns \<le> second_ns * n" using pos n(1) by simp
  then have "t < second_ns * (t div second_ns) + second_ns * n"
    using floor_within(2) [OF pos, of t] unfolding distrib_left by linarith
  then show ?thesis
    using n m floor_within [OF pos, of t] D N pos by (simp add: distrib_left)
qed

end
