(* ===== verification/CronParser.thy ===== *)
theory CronParser
  imports CronSearch
begin

section \<open>The crontab parser (plugin/cron/parser.go)\<close>

text \<open>
  From the text of a crontab entry to a schedule: the options of a parser, the numbers,
  ranges and lists of a field, the completion of missing fields, time zone prefixes and
  descriptors. The zone database (\<open>time.LoadLocation\<close>) and \<open>time.ParseDuration\<close>, whose
  fractions are computed in floating point, are parameters.
\<close>

subsection \<open>Options, bounds and results\<close>

definition Second :: int where "Second = 1"
definition SecondOptional :: int where "SecondOptional = 2"
definition Minute :: int where "Minute = 4"
definition Hour :: int where "Hour = 8"
definition Dom :: int where "Dom = 16"
definition Month :: int where "Month = 32"
definition Dow :: int where "Dow = 64"
definition DowOptional :: int where "DowOptional = 128"
definition Descriptor :: int where "Descriptor = 256"

lemmas option_defs = Second_def SecondOptional_def Minute_def Hour_def Dom_def Month_def Dow_def
  DowOptional_def Descriptor_def

definition has_option :: "int \<Rightarrow> int \<Rightarrow> bool" where
  "has_option opts p \<longleftrightarrow> 0 < opts AND p"

definition places :: "int list" where
  "places = [Second, Minute, Hour, Dom, Month, Dow]"

definition defaults :: "string list" where
  "defaults = [''0'', ''0'', ''0'', ''*'', ''*'', ''*'']"

record bounds =
  b_min :: nat
  b_max :: nat
  b_names :: "(string \<times> nat) list option"

definition seconds :: bounds where "seconds = \<lparr>b_min = 0, b_max = 59, b_names = None\<rparr>"
definition minutes :: bounds where "minutes = \<lparr>b_min = 0, b_max = 59, b_names = None\<rparr>"
definition hours :: bounds where "hours = \<lparr>b_min = 0, b_max = 23, b_names = None\<rparr>"
definition dom_bounds :: bounds where "dom_bounds = \<lparr>b_min = 1, b_max = 31, b_names = None\<rparr>"

definition months :: bounds where
  "months = \<lparr>b_min = 1, b_max = 12, b_names = Some
     [(''jan'', 1), (''feb'', 2), (''mar'', 3), (''apr'', 4), (''may'', 5), (''jun'', 6),
      (''jul'', 7), (''aug'', 8), (''sep'', 9), (''oct'', 10), (''nov'', 11), (''dec'', 12)]\<rparr>"

definition dow_bounds :: bounds where
  "dow_bounds = \<lparr>b_min = 0, b_max = 6, b_names = Some
     [(''sun'', 0), (''mon'', 1), (''tue'', 2), (''wed'', 3), (''thu'', 4), (''fri'', 5), (''sat'', 6)]\<rparr>"

datatype cron_error =
    EmptySpec
  | BadLocation string
  | NoDescriptors
  | MultipleOptionals
  | FieldCount nat nat
  | UnexpectedOptional
  | TooManyHyphens string
  | TooManySlashes string
  | BelowMinimum string
  | AboveMaximum string
  | StartAfterEnd string
  | ZeroStep string
  | NotNumber string
  | NegativeNumber string
  | BadDuration string
  | UnknownDescriptor string

text \<open>A call returns a value or an error, or panics.\<close>

datatype 'a parsed = Parsed 'a | Failed cron_error | Crashed

record cron_env =
  LoadLocation :: "string \<Rightarrow> zone option option"   \<comment> \<open>\<open>Some None\<close> is \<open>time.Local\<close>\<close>
  ParseDuration :: "string \<Rightarrow> int option"

subsection \<open>Numbers, ranges and lists\<close>

definition mustParseInt :: "string \<Rightarrow> cron_error + nat" where
  "mustParseInt expr =
     (case atoi expr of
        None \<Rightarrow> Inl (NotNumber expr)
      | Some num \<Rightarrow> if num < 0 then Inl (NegativeNumber expr) else Inr (nat num))"

definition parseIntOrName :: "string \<Rightarrow> (string \<times> nat) list option \<Rightarrow> cron_error + nat" where
  "parseIntOrName expr names =
     (case names of
        None \<Rightarrow> mustParseInt expr
      | Some ns \<Rightarrow>
          (case map_of ns (to_lower expr) of
             Some n \<Rightarrow> Inr n
           | None \<Rightarrow> mustParseInt expr))"

text \<open>The loop of \<open>getBits\<close>; with a zero step it would not end, and \<open>getRange\<close> rejects that.\<close>

function bits_loop :: "nat \<Rightarrow> nat \<Rightarrow> nat \<Rightarrow> 64 word \<Rightarrow> 64 word" where
  "bits_loop i mx step bits =
     (if i \<le> mx \<and> 0 < step then bits_loop (i + step) mx step (bits OR push_bit i 1) else bits)"
  by pat_completeness auto
termination
  by (relation "measure (\<lambda>(i, mx, _). Suc mx - i)") auto

declare bits_loop.simps [simp del]

definition getBits :: "nat \<Rightarrow> nat \<Rightarrow> nat \<Rightarrow> 64 word" where
  "getBits mn mx step =
     (if step = 1 then NOT (push_bit (mx + 1) (-1)) AND push_bit mn (-1)
      else bits_loop mn mx step 0)"

definition all_bits :: "bounds \<Rightarrow> 64 word" where
  "all_bits r = getBits (b_min r) (b_max r) 1 OR starBit"

text \<open>Low and high end of a range, and the star bit.\<close>

definition range_ends :: "string \<Rightarrow> string list \<Rightarrow> bounds \<Rightarrow> cron_error + nat \<times> nat \<times> 64 word" where
  "range_ends expr lowAndHigh r =
     (if hd lowAndHigh = ''*'' \<or> hd lowAndHigh = ''?'' then Inr (b_min r, b_max r, starBit)
      else case parseIntOrName (hd lowAndHigh) (b_names r) of
          Inl e \<Rightarrow> Inl e
        | Inr s \<Rightarrow>
            (case tl lowAndHigh of
               [] \<Rightarrow> Inr (s, s, 0)
             | [h] \<Rightarrow>
                 (case parseIntOrName h (b_names r) of
                    Inl e \<Rightarrow> Inl e
                  | Inr e \<Rightarrow> Inr (s, e, 0))
             | _ \<Rightarrow> Inl (TooManyHyphens expr)))"

text \<open>The step; \<open>N/step\<close> runs to the maximum, and a step above one drops the star bit.\<close>

definition range_step ::
  "string \<Rightarrow> string list \<Rightarrow> bool \<Rightarrow> bounds \<Rightarrow> nat \<Rightarrow> 64 word \<Rightarrow> cron_error + nat \<times> nat \<times> 64 word" where
  "range_step expr rangeAndStep singleDigit r stop extra =
     (case tl rangeAndStep of
        [] \<Rightarrow> Inr (stop, 1, extra)
      | [st] \<Rightarrow>
          (case mustParseInt st of
             Inl e \<Rightarrow> Inl e
           | Inr step \<Rightarrow>
               Inr (if singleDigit then b_max r else stop, step, if 1 < step then 0 else extra))
      | _ \<Rightarrow> Inl (TooManySlashes expr))"

definition getRange :: "string \<Rightarrow> bounds \<Rightarrow> cron_error + 64 word" where
  "getRange expr r =
     (let rangeAndStep = split_on (CHR ''/'') expr;
          lowAndHigh = split_on (CHR ''-'') (hd rangeAndStep)
      in case range_ends expr lowAndHigh r of
           Inl e \<Rightarrow> Inl e
         | Inr (start, end0, extra0) \<Rightarrow>
             (case range_step expr rangeAndStep (length lowAndHigh = 1) r end0 extra0 of
                Inl e \<Rightarrow> Inl e
              | Inr (stop, step, extra) \<Rightarrow>
                  if start < b_min r then Inl (BelowMinimum expr)
                  else if b_max r < stop then Inl (AboveMaximum expr)
                  else if stop < start then Inl (StartAfterEnd expr)
                  else if step = 0 then Inl (ZeroStep expr)
                  else Inr (getBits start stop step OR extra)))"

fun ranges_bits :: "string list \<Rightarrow> bounds \<Rightarrow> 64 word \<Rightarrow> cron_error + 64 word" where
  "ranges_bits [] r bits = Inr bits"
| "ranges_bits (expr # rest) r bits =
     (case getRange expr r of
        Inl e \<Rightarrow> Inl e
      | Inr b \<Rightarrow> ranges_bits rest r (bits OR b))"

text \<open>\<open>strings.FieldsFunc\<close> at the commas: empty pieces are dropped.\<close>

definition pieces :: "string \<Rightarrow> string list" where
  "pieces field = filter (\<lambda>p. p \<noteq> []) (split_on (CHR '','') field)"

definition getField :: "string \<Rightarrow> bounds \<Rightarrow> cron_error + 64 word" where
  "getField field r = ranges_bits (pieces field) r 0"

subsection \<open>Fields and descriptors\<close>

text \<open>The given fields at the places of the options, the defaults at the others; \<open>None\<close> is an index panic.\<close>

fun expand_fields :: "int \<Rightarrow> (int \<times> string) list \<Rightarrow> string list \<Rightarrow> string list option" where
  "expand_fields opts [] fds = Some []"
| "expand_fields opts ((p, d) # rest) fds =
     (if has_option opts p
      then (case fds of
              [] \<Rightarrow> None
            | f # fs \<Rightarrow> map_option ((#) f) (expand_fields opts rest fs))
      else map_option ((#) d) (expand_fields opts rest fds))"

text \<open>The optional field that is not given; a parser has at most one.\<close>

definition fill_optional :: "int \<Rightarrow> nat \<Rightarrow> nat \<Rightarrow> string list \<Rightarrow> string list option" where
  "fill_optional opts mn mx fds =
     (if mn < mx \<and> length fds = mn
      then if has_option opts DowOptional then Some (fds @ [last defaults])
           else if has_option opts SecondOptional then Some (hd defaults # fds)
           else None
      else Some fds)"

definition normalizeFields :: "string list \<Rightarrow> int \<Rightarrow> string list parsed" where
  "normalizeFields fds options0 =
     (let so = has_option options0 SecondOptional;
          options1 = (if so then options0 OR Second else options0);
          dw = has_option options1 DowOptional;
          options2 = (if dw then options1 OR Dow else options1);
          optionals = (if so then 1 else 0) + (if dw then 1 else 0);
          mx = length (filter (has_option options2) places);
          mn = mx - optionals;
          count = length fds
      in if 1 < optionals then Failed MultipleOptionals
         else if count < mn \<or> mx < count then Failed (FieldCount mn mx)
         else case fill_optional options2 mn mx fds of
             None \<Rightarrow> Failed UnexpectedOptional
           | Some fs \<Rightarrow>
               (case expand_fields options2 (zip places defaults) fs of
                  None \<Rightarrow> Crashed
                | Some es \<Rightarrow> Parsed es))"

definition at_bit :: "nat \<Rightarrow> 64 word" where
  "at_bit n = push_bit n 1"

definition parseDescriptor :: "cron_env \<Rightarrow> string \<Rightarrow> zone option \<Rightarrow> schedule parsed" where
  "parseDescriptor E descriptor loc =
     (let spec = (\<lambda>h d m w. Parsed (SpecSchedule
            \<lparr>s_Second = at_bit (b_min seconds), s_Minute = at_bit (b_min minutes), s_Hour = h,
             s_Dom = d, s_Month = m, s_Dow = w, s_Location = loc\<rparr>))
      in if descriptor = ''@yearly'' \<or> descriptor = ''@annually''
         then spec (at_bit (b_min hours)) (at_bit (b_min dom_bounds)) (at_bit (b_min months)) (all_bits dow_bounds)
         else if descriptor = ''@monthly''
         then spec (at_bit (b_min hours)) (at_bit (b_min dom_bounds)) (all_bits months) (all_bits dow_bounds)
         else if descriptor = ''@weekly''
         then spec (at_bit (b_min hours)) (all_bits dom_bounds) (all_bits months) (at_bit (b_min dow_bounds))
         else if descriptor = ''@daily'' \<or> descriptor = ''@midnight''
         then spec (at_bit (b_min hours)) (all_bits dom_bounds) (all_bits months) (all_bits dow_bounds)
         else if descriptor = ''@hourly''
         then spec (all_bits hours) (all_bits dom_bounds) (all_bits months) (all_bits dow_bounds)
         else if take 7 descriptor = ''@every ''
         then (case ParseDuration E (drop 7 descriptor) of
                 None \<Rightarrow> Failed (BadDuration (drop 7 descriptor))
               | Some d \<Rightarrow> Parsed (ConstantDelay (Every d)))
         else Failed (UnknownDescriptor descriptor))"

text \<open>
  The six fields in order, up to the first error. The closure \<open>field\<close> of the source
  returns 0 without parsing once an error has occurred.
\<close>

fun parse_fields :: "(string \<times> bounds) list \<Rightarrow> cron_error + 64 word list" where
  "parse_fields [] = Inr []"
| "parse_fields ((f, r) # rest) =
     (case getField f r of
        Inl e \<Rightarrow> Inl e
      | Inr b \<Rightarrow> map_sum id ((#) b) (parse_fields rest))"

text \<open>
  The zone prefix: from after the first equals sign up to the first space. Without a
  space the slice bound is -1, which panics.
\<close>

definition split_zone :: "cron_env \<Rightarrow> string \<Rightarrow> (zone option \<times> string) parsed" where
  "split_zone E spec =
     (if take 3 spec = ''TZ='' \<or> take 8 spec = ''CRON_TZ=''
      then
        (let i = length (takeWhile (\<lambda>c. c \<noteq> CHR '' '') spec);
             eq = length (takeWhile (\<lambda>c. c \<noteq> CHR ''='') spec);
             name = take (i - (eq + 1)) (drop (eq + 1) spec)
         in if i = length spec then Crashed
            else case LoadLocation E name of
                None \<Rightarrow> Failed (BadLocation name)
              | Some z \<Rightarrow> Parsed (z, trim_space (drop i spec)))
      else Parsed (None, spec))"

definition cron_Parse :: "cron_env \<Rightarrow> int \<Rightarrow> string \<Rightarrow> schedule parsed" where
  "cron_Parse E options spec0 =
     (if spec0 = [] then Failed EmptySpec
      else case split_zone E spec0 of
          Failed e \<Rightarrow> Failed e
        | Crashed \<Rightarrow> Crashed
        | Parsed (loc, spec) \<Rightarrow>
            if take 1 spec = ''@''
            then if options AND Descriptor = 0 then Failed NoDescriptors else parseDescriptor E spec loc
            else
              (case normalizeFields (fields_of spec) options of
                 Failed e \<Rightarrow> Failed e
               | Crashed \<Rightarrow> Crashed
               | Parsed fds \<Rightarrow>
                   (case parse_fields (zip fds [seconds, minutes, hours, dom_bounds, months, dow_bounds]) of
                      Inl e \<Rightarrow> Failed e
                    | Inr [s, m, h, d, mo, w] \<Rightarrow>
                        Parsed (SpecSchedule \<lparr>s_Second = s, s_Minute = m, s_Hour = h, s_Dom = d,
                          s_Month = mo, s_Dow = w, s_Location = loc\<rparr>)
                    | Inr _ \<Rightarrow> Crashed)))"

text \<open>\<open>NewParser\<close> panics on two optional fields.\<close>

definition NewParser :: "int \<Rightarrow> int option" where
  "NewParser options =
     (if has_option options DowOptional \<and> has_option options SecondOptional then None else Some options)"

definition standardParser :: int where
  "standardParser = Minute OR Hour OR Dom OR Month OR Dow OR Descriptor"

definition ParseStandard :: "cron_env \<Rightarrow> string \<Rightarrow> schedule parsed" where
  "ParseStandard E spec = cron_Parse E standardParser spec"


subsection \<open>The bits of a range\<close>

lemma bits_loop_bit:
  "0 < step \<Longrightarrow> n < 64 \<Longrightarrow>
     bit (bits_loop i mx step bits) n \<longleftrightarrow> bit bits n \<or> (i \<le> n \<and> n \<le> mx \<and> step dvd (n - i))"
proof (induction i mx step bits rule: bits_loop.induct)
  case (1 i mx step bits)
  show ?case
  proof (cases "i \<le> mx")
    case True
    have "bit (push_bit i (1 :: 64 word)) n \<longleftrightarrow> n = i" using "1.prems"(2) by (auto simp: bit_exp_iff)
    moreover have "i \<le> n \<and> step dvd (n - i) \<longleftrightarrow> n = i \<or> i + step \<le> n \<and> step dvd (n - (i + step))"
    proof (cases "i + step \<le> n")
      case True
      then have e: "n - i = (n - (i + step)) + step" by simp
      have "step dvd (n - i) \<longleftrightarrow> step dvd (n - (i + step))" by (subst e) (rule dvd_add_triv_right_iff)
      then show ?thesis using True "1.prems"(1) by auto
    next
      case False
      then have "i < n \<Longrightarrow> \<not> step dvd (n - i)" using nat_dvd_not_less [of "n - i" step] by simp
      then show ?thesis using False by (auto simp: le_less)
    qed
    ultimately show ?thesis using "1.IH" "1.prems" True
      by (auto simp: bits_loop.simps [of i] bit_or_iff)
  next
    case False
    then show ?thesis by (auto simp: bits_loop.simps [of i])
  qed
qed

lemma getBits_bit:
  assumes "0 < step" and "n < 64"
  shows "bit (getBits mn mx step) n \<longleftrightarrow> mn \<le> n \<and> n \<le> mx \<and> step dvd (n - mn)"
proof (cases "step = 1")
  case True
  then show ?thesis using assms(2) by (auto simp: getBits_def bit_and_iff bit_not_iff bit_mask_iff)
next
  case False
  then show ?thesis using bits_loop_bit [OF assms, of mn mx 0] by (simp add: getBits_def)
qed

text \<open>
  Both branches of \<open>getBits\<close>, the shifts for step one and the loop for larger
  steps, compute the same thing: the bits are those of the arithmetic progression from
  the low end in the given step, up to the high end.
\<close>

theorem getBits_progression:
  assumes "0 < step" and "n < 64"
  shows "bit (getBits mn mx step) n \<longleftrightarrow> n \<in> {mn + k * step | k. mn + k * step \<le> mx}"
proof -
  have "mn \<le> n \<and> step dvd (n - mn) \<longleftrightarrow> (\<exists>k. n = mn + k * step)"
    by (auto simp: dvd_def mult.commute le_iff_add)
  then show ?thesis using getBits_bit [OF assms] by auto
qed

theorem getBits_progression_witness:
  "bit (getBits 5 59 20) 25 \<longleftrightarrow> (25::nat) \<in> {5 + k * 20 | k. 5 + k * 20 \<le> 59}"
  using getBits_progression [of 20 25 5 59] by simp

subsection \<open>The sets of a schedule\<close>

text \<open>The star bit is no member of a set.\<close>

definition within :: "bounds \<Rightarrow> 64 word \<Rightarrow> bool" where
  "within r b \<longleftrightarrow> (\<forall>n < 63. bit b n \<longrightarrow> b_min r \<le> n \<and> n \<le> b_max r)"

lemma starBit_bit: "n < 63 \<Longrightarrow> \<not> bit starBit n"
  by (simp only: starBit_def bit_push_bit_iff) simp

lemma within_or: "within r a \<Longrightarrow> within r b \<Longrightarrow> within r (a OR b)"
  by (auto simp: within_def bit_or_iff)

lemma within_0 [simp]: "within r 0"
  by (simp add: within_def)

lemma within_star: "within r starBit"
  using starBit_bit by (simp add: within_def)

lemma within_getBits: "0 < step \<Longrightarrow> b_min r \<le> mn \<Longrightarrow> mx \<le> b_max r \<Longrightarrow> within r (getBits mn mx step)"
  by (auto simp: within_def getBits_bit)

lemma range_ends_extra: "range_ends expr lh r = Inr (a, b, x) \<Longrightarrow> x = 0 \<or> x = starBit"
  by (auto simp: range_ends_def split: if_splits sum.splits list.splits)

lemma range_step_extra: "range_step expr rs sd r e0 x = Inr (e, st, y) \<Longrightarrow> y = 0 \<or> y = x"
  by (auto simp: range_step_def split: if_splits sum.splits list.splits)

lemma within_getRange: "getRange expr r = Inr b \<Longrightarrow> within r b"
  unfolding getRange_def Let_def
  by (auto split: sum.splits prod.splits if_splits intro!: within_or within_getBits
      dest!: range_ends_extra range_step_extra intro: within_star)

lemma within_ranges: "ranges_bits es r b0 = Inr b \<Longrightarrow> within r b0 \<Longrightarrow> within r b"
  by (induction es r b0 rule: ranges_bits.induct)
    (auto split: sum.splits intro: within_or dest: within_getRange)

lemma within_getField: "getField f r = Inr b \<Longrightarrow> within r b"
  unfolding getField_def by (erule within_ranges) simp

lemma within_all_bits: "within r (all_bits r)"
  by (simp add: all_bits_def within_or within_getBits within_star)

lemma within_at_bit: "b_min r \<le> b_max r \<Longrightarrow> within r (at_bit (b_min r))"
  by (auto simp: within_def at_bit_def bit_exp_iff)

lemma parse_fields_within:
  "parse_fields ps = Inr bs \<Longrightarrow> list_all2 (\<lambda>(f, r) b. within r b) ps bs"
  by (induction ps arbitrary: bs) (auto split: sum.splits simp: map_sum_def dest: within_getField)

lemma parse_fields_length: "parse_fields ps = Inr bs \<Longrightarrow> length bs = length ps"
  using parse_fields_within list_all2_lengthD by fastforce

definition schedule_within :: "spec_schedule \<Rightarrow> bool" where
  "schedule_within s \<longleftrightarrow> within seconds (s_Second s) \<and> within minutes (s_Minute s) \<and> within hours (s_Hour s)
     \<and> within dom_bounds (s_Dom s) \<and> within months (s_Month s) \<and> within dow_bounds (s_Dow s)"

lemmas bounds_defs = seconds_def minutes_def hours_def dom_bounds_def months_def dow_bounds_def

lemma descriptor_sets:
  "within seconds (at_bit (b_min seconds))" "within minutes (at_bit (b_min minutes))"
  "within hours (at_bit (b_min hours))" "within dom_bounds (at_bit (b_min dom_bounds))"
  "within months (at_bit (b_min months))" "within dow_bounds (at_bit (b_min dow_bounds))"
  by (rule within_at_bit, simp add: bounds_defs)+

definition result_within :: "schedule parsed \<Rightarrow> bool" where
  "result_within p \<longleftrightarrow> (\<forall>s. p = Parsed (SpecSchedule s) \<longrightarrow> schedule_within s)"

lemma result_within_if: "result_within p \<Longrightarrow> result_within q \<Longrightarrow> result_within (if c then p else q)"
  by simp

lemma result_within_others:
  "result_within (Failed e)" "result_within Crashed" "result_within (Parsed (ConstantDelay c))"
  by (simp_all add: result_within_def)

lemma result_within_spec:
  "within seconds a \<Longrightarrow> within minutes b \<Longrightarrow> within hours h \<Longrightarrow> within dom_bounds d \<Longrightarrow> within months m \<Longrightarrow>
     within dow_bounds w \<Longrightarrow>
     result_within (Parsed (SpecSchedule \<lparr>s_Second = a, s_Minute = b, s_Hour = h, s_Dom = d, s_Month = m,
       s_Dow = w, s_Location = loc\<rparr>))"
  by (simp add: result_within_def schedule_within_def)

lemma descriptor_within: "result_within (parseDescriptor E d loc)"
  unfolding parseDescriptor_def Let_def
  by (intro result_within_if result_within_others result_within_spec descriptor_sets within_all_bits)
    (simp split: option.splits add: result_within_others)

subsection \<open>Completing the fields\<close>

lemma expand_fields_Some:
  "length (filter (has_option opts) (map fst pds)) \<le> length fs \<Longrightarrow>
     \<exists>es. expand_fields opts pds fs = Some es \<and> length es = length pds"
  by (induction opts pds fs rule: expand_fields.induct) (auto split: list.splits)

lemma fill_optional_length:
  "fill_optional opts mn mx fds = Some fs \<Longrightarrow> mn \<le> length fds \<Longrightarrow> length fds \<le> mx \<Longrightarrow> mx \<le> mn + 1 \<Longrightarrow>
     length fs = mx"
  by (auto simp: fill_optional_def split: if_splits)

lemma expand_places:
  assumes "length (filter (has_option opts) places) \<le> length fs"
  shows "\<exists>es. expand_fields opts (zip places defaults) fs = Some es \<and> length es = 6"
proof -
  have "map fst (zip places defaults) = places" "length (zip places defaults) = 6"
    by (simp_all add: places_def defaults_def)
  then show ?thesis using expand_fields_Some [of opts "zip places defaults" fs] assms by simp
qed

lemma normalize_cases:
  obtains e where "normalizeFields fds opts = Failed e"
  | es where "normalizeFields fds opts = Parsed es" "length es = 6"
proof -
  define o1 where "o1 = (if has_option opts SecondOptional then opts OR Second else opts)"
  define o2 where "o2 = (if has_option o1 DowOptional then o1 OR Dow else o1)"
  define k :: nat where "k = (if has_option opts SecondOptional then 1 else 0) + (if has_option o1 DowOptional then 1 else 0)"
  define mx where "mx = length (filter (has_option o2) places)"
  have n: "normalizeFields fds opts =
     (if 1 < k then Failed MultipleOptionals
      else if length fds < mx - k \<or> mx < length fds then Failed (FieldCount (mx - k) mx)
      else case fill_optional o2 (mx - k) mx fds of
          None \<Rightarrow> Failed UnexpectedOptional
        | Some fs \<Rightarrow> (case expand_fields o2 (zip places defaults) fs of None \<Rightarrow> Crashed | Some es \<Rightarrow> Parsed es))"
    unfolding normalizeFields_def Let_def o1_def [symmetric] o2_def [symmetric] k_def [symmetric] mx_def [symmetric]
    by (rule refl)
  show thesis
  proof (cases "\<exists>e. normalizeFields fds opts = Failed e")
    case True
    then show thesis using that(1) by blast
  next
    case False
    then have k: "k \<le> 1" "mx - k \<le> length fds" "length fds \<le> mx" by (auto simp: n split: if_splits)
    then obtain fs where fs: "fill_optional o2 (mx - k) mx fds = Some fs"
      using False n by (cases "fill_optional o2 (mx - k) mx fds") auto
    then have "length fs = mx" using k by (intro fill_optional_length) auto
    then obtain es where "expand_fields o2 (zip places defaults) fs = Some es" "length es = 6"
      using expand_places [of o2 fs] mx_def by auto
    then show thesis using that(2) k fs n by auto
  qed
qed


subsection \<open>What the parser returns\<close>

definition no_zones :: cron_env where
  "no_zones = \<lparr>LoadLocation = (\<lambda>_. None), ParseDuration = (\<lambda>_. None)\<rparr>"

lemma six_list:
  "length bs = 6 \<Longrightarrow> \<exists>a b c d e f. bs = [a, b, c, d, e, f]"
  by (auto simp: numeral_eq_Suc length_Suc_conv)

lemma parse_six:
  assumes "length fds = 6"
  obtains e where "parse_fields (zip fds [seconds, minutes, hours, dom_bounds, months, dow_bounds]) = Inl e"
  | s m h d mo w where "parse_fields (zip fds [seconds, minutes, hours, dom_bounds, months, dow_bounds]) = Inr [s, m, h, d, mo, w]"
    and "within seconds s" "within minutes m" "within hours h" "within dom_bounds d" "within months mo"
      "within dow_bounds w"
proof (cases "parse_fields (zip fds [seconds, minutes, hours, dom_bounds, months, dow_bounds])")
  case (Inl e)
  then show thesis using that(1) by blast
next
  case (Inr bs)
  obtain f1 f2 f3 f4 f5 f6 where "fds = [f1, f2, f3, f4, f5, f6]" using six_list [OF assms] by blast
  moreover obtain s m h d mo w where "bs = [s, m, h, d, mo, w]"
    using parse_fields_length [OF Inr] assms six_list [of bs] by auto
  ultimately show thesis using that(2) Inr parse_fields_within [OF Inr] by simp
qed

lemma cron_Parse_cases:
  obtains "spec0 \<noteq> []" "split_zone E spec0 = Crashed" "cron_Parse E options spec0 = Crashed"
  | "result_within (cron_Parse E options spec0)" "cron_Parse E options spec0 \<noteq> Crashed"
    "spec0 = [] \<or> split_zone E spec0 \<noteq> Crashed"
proof (cases "spec0 = [] \<or> (\<exists>e. split_zone E spec0 = Failed e)")
  case True
  then show thesis using that(2) by (auto simp: cron_Parse_def result_within_others)
next
  case False
  show thesis
  proof (cases "split_zone E spec0")
    case (Parsed ls)
    obtain loc spec where ls: "ls = (loc, spec)" by (cases ls)
    show thesis
    proof (cases "take 1 spec = ''@''")
      case True
      then have "cron_Parse E options spec0 =
          (if options AND Descriptor = 0 then Failed NoDescriptors else parseDescriptor E spec loc)"
        using False Parsed ls by (simp add: cron_Parse_def)
      moreover have "parseDescriptor E spec loc \<noteq> Crashed"
        by (simp add: parseDescriptor_def Let_def split: option.splits)
      ultimately show thesis using that(2) Parsed descriptor_within by (simp add: result_within_others)
    next
      case at: False
      have p: "cron_Parse E options spec0 =
          (case normalizeFields (fields_of spec) options of
                 Failed e \<Rightarrow> Failed e
               | Crashed \<Rightarrow> Crashed
               | Parsed fds \<Rightarrow>
                   (case parse_fields (zip fds [seconds, minutes, hours, dom_bounds, months, dow_bounds]) of
                      Inl e \<Rightarrow> Failed e
                    | Inr [s, m, h, d, mo, w] \<Rightarrow>
                        Parsed (SpecSchedule \<lparr>s_Second = s, s_Minute = m, s_Hour = h, s_Dom = d,
                          s_Month = mo, s_Dow = w, s_Location = loc\<rparr>)
                    | Inr _ \<Rightarrow> Crashed))"
        using at False Parsed ls by (simp add: cron_Parse_def)
      show thesis
      proof (cases rule: normalize_cases [of "fields_of spec" options])
        case (1 e)
        then show thesis using that(2) Parsed p by (simp add: result_within_others)
      next
        case (2 es)
        show thesis
          by (rule parse_six [OF 2(2)]; rule that(2))
            (simp_all add: p 2(1) Parsed result_within_others result_within_spec)
      qed
    qed
  qed (use False that in \<open>auto simp: cron_Parse_def\<close>)
qed

text \<open>
  Every set of a schedule that the parser returns, from fields, names, ranges, lists,
  steps or a descriptor, has only values within the bounds of its field.
\<close>

theorem parsed_sets_within_bounds:
  assumes "cron_Parse E options spec = Parsed (SpecSchedule s)"
  shows "\<forall>n<63. (bit (s_Second s) n \<longrightarrow> n \<le> 59) \<and> (bit (s_Minute s) n \<longrightarrow> n \<le> 59) \<and>
    (bit (s_Hour s) n \<longrightarrow> n \<le> 23) \<and> (bit (s_Dom s) n \<longrightarrow> 1 \<le> n \<and> n \<le> 31) \<and>
    (bit (s_Month s) n \<longrightarrow> 1 \<le> n \<and> n \<le> 12) \<and> (bit (s_Dow s) n \<longrightarrow> n \<le> 6)"
proof -
  have "result_within (cron_Parse E options spec)"
    using assms by (cases rule: cron_Parse_cases [of spec E options]) auto
  then have "schedule_within s" using assms by (simp add: result_within_def)
  then show ?thesis by (auto simp: schedule_within_def within_def bounds_defs)
qed

theorem parsed_sets_within_bounds_witness:
  "\<exists>s. cron_Parse no_zones standardParser ''0 9 * * mon-5'' = Parsed (SpecSchedule s) \<and>
     \<not> bit (s_Dow s) 7"
proof -
  have "(case cron_Parse no_zones standardParser ''0 9 * * mon-5'' of
      Parsed (SpecSchedule s) \<Rightarrow> s_Dow s = 62 | _ \<Rightarrow> False)" by code_simp
  then obtain s where s: "cron_Parse no_zones standardParser ''0 9 * * mon-5'' = Parsed (SpecSchedule s)"
    by (auto split: parsed.splits schedule.splits)
  from parsed_sets_within_bounds [OF s, THEN spec, of 7] have "\<not> bit (s_Dow s) 7" by simp
  then show ?thesis using s by blast
qed

text \<open>
  Parsing panics in exactly one case: a zone prefix with no space after it, where the
  end of the zone name is an index of -1. Every other text gives a schedule or an error.
\<close>

theorem parse_panics_iff:
  "cron_Parse E options spec = Crashed \<longleftrightarrow>
     (take 3 spec = ''TZ='' \<or> take 8 spec = ''CRON_TZ='') \<and> CHR '' '' \<notin> set spec"
proof -
  have "length (takeWhile (\<lambda>c. c \<noteq> CHR '' '') spec) = length spec \<longleftrightarrow> CHR '' '' \<notin> set spec"
    using takeWhile_eq_all_conv [of "\<lambda>c. c \<noteq> CHR '' ''" spec]
      length_takeWhile_le [of "\<lambda>c. c \<noteq> CHR '' ''" spec]
    by (metis takeWhile_eq_take take_all_iff order_refl)
  then have "split_zone E spec = Crashed \<longleftrightarrow>
      (take 3 spec = ''TZ='' \<or> take 8 spec = ''CRON_TZ='') \<and> CHR '' '' \<notin> set spec"
    by (auto simp: split_zone_def Let_def split: option.splits)
  then show ?thesis by (cases rule: cron_Parse_cases [of spec E options]) auto
qed


subsection \<open>A daily entry\<close>

lemma space_len_plain: "byte_in 33 126 c \<Longrightarrow> space_len (c # s) = 0"
  by (auto simp: byte_in_def is_ascii_space_def split: list.splits)

lemma fields_aux_plain: "list_all (byte_in 33 126) p \<Longrightarrow> fields_aux cur (p @ s) = fields_aux (cur @ p) s"
  by (induction p arbitrary: cur) (simp_all add: space_len_plain del: space_len.simps)

lemma fields_aux_space: "cur \<noteq> [] \<Longrightarrow> fields_aux cur (CHR '' '' # s) = cur # fields_aux [] s"
  by (simp add: is_ascii_space_def byte_in_def)

lemma fields_of_plain:
  "list_all (byte_in 33 126) p \<Longrightarrow> p \<noteq> [] \<Longrightarrow> fields_of (p @ CHR '' '' # s) = p # fields_of s"
  unfolding fields_of_def by (simp only: fields_aux_plain append_Nil) (rule fields_aux_space)

lemma digits_plain: "list_all (byte_in 33 126) (nat_digits n)"
  using nat_digits_all [of n] by (rule list.pred_mono_strong) (auto simp: byte_in_def)

lemma digits_no_sep: "c \<in> set (nat_digits n) \<Longrightarrow> 48 \<le> (of_char c :: nat) \<and> (of_char c :: nat) \<le> 57"
  using nat_digits_all [of n] by (auto simp: list_all_iff byte_in_def)

lemma digits_not:
  "CHR '','' \<notin> set (nat_digits n)" "CHR ''/'' \<notin> set (nat_digits n)" "CHR ''-'' \<notin> set (nat_digits n)"
  "nat_digits n \<noteq> ''*''" "nat_digits n \<noteq> ''?''"
  using digits_no_sep [of _ n] nat_digits_all [of n] by (auto simp: byte_in_def dest!: digits_no_sep)

lemma getField_number:
  assumes "b_names r = None" and "b_min r \<le> n" and "n \<le> b_max r" and "in_int64 (int n)"
  shows "getField (nat_digits n) r = Inr (getBits n n 1)"
proof -
  have "atoi (nat_digits n) = Some (int n)" using atoi_itoa [OF assms(4)] by (simp add: itoa_def)
  then have "mustParseInt (nat_digits n) = Inr n" by (simp add: mustParseInt_def)
  then show ?thesis using assms digits_not [of n]
    by (simp add: getField_def pieces_def split_on_no_sep getRange_def range_ends_def range_step_def
        parseIntOrName_def)
qed

lemma getField_star: "b_min r \<le> b_max r \<Longrightarrow> getField ''*'' r = Inr (all_bits r)"
  by (simp add: getField_def pieces_def getRange_def range_ends_def range_step_def all_bits_def)

lemma in_set_bit: "0 \<le> n \<Longrightarrow> n < 64 \<Longrightarrow> in_set n b \<longleftrightarrow> bit b (nat n)"
  by (simp only: in_set_def bit_iff_and_push_bit_not_eq_0 and.commute)

lemma in_single: "0 \<le> n \<Longrightarrow> n < 63 \<Longrightarrow> in_set n (getBits m m 1) \<longleftrightarrow> n = int m"
  using getBits_bit [of 1 "nat n" m m] by (auto simp: in_set_bit simp del: One_nat_def)

lemma in_all: "int (b_min r) \<le> n \<Longrightarrow> n \<le> int (b_max r) \<Longrightarrow> n < 63 \<Longrightarrow> in_set n (all_bits r)"
  using getBits_bit [of 1 "nat n" "b_min r" "b_max r"] by (simp add: in_set_bit all_bits_def bit_or_iff nat_le_iff le_nat_iff del: One_nat_def)

lemma all_bits_star: "0 < all_bits r AND starBit"
proof -
  have "bit (all_bits r AND starBit) 63" by (simp add: all_bits_def starBit_def bit_simps)
  then have "all_bits r AND starBit \<noteq> 0" by (metis bit_0_eq bot_apply bot_bool_def)
  then show ?thesis by (simp add: word_gt_0)
qed

lemma clock_readings:
  "1 \<le> clock_month z u \<and> clock_month z u \<le> 12" "1 \<le> clock_mday z u \<and> clock_mday z u \<le> 31"
  "0 \<le> clock_weekday z u \<and> clock_weekday z u \<le> 6" "0 \<le> clock_hour z u \<and> clock_hour z u \<le> 23"
  "0 \<le> clock_minute z u \<and> clock_minute z u \<le> 59" "0 \<le> clock_second z u \<and> clock_second z u \<le> 59"
  using month_of_bounds(1,2) [of "clock_day z u"] day_of_bounds [of "clock_day z u"]
  by (auto simp: clock_month_def clock_mday_def clock_weekday_def weekday_of_def clock_hour_def
      clock_minute_def clock_second_def zle_diff1_eq [symmetric])

definition daily_schedule :: "nat \<Rightarrow> nat \<Rightarrow> spec_schedule" where
  "daily_schedule m h = \<lparr>s_Second = getBits 0 0 1, s_Minute = getBits m m 1, s_Hour = getBits h h 1,
     s_Dom = all_bits dom_bounds, s_Month = all_bits months, s_Dow = all_bits dow_bounds, s_Location = None\<rparr>"

lemma activates_daily:
  "activates (daily_schedule m h) z u \<longleftrightarrow>
     clock_hour z u = int h \<and> clock_minute z u = int m \<and> clock_second z u = 0"
proof -
  have "in_set (clock_month z u) (all_bits months)" "in_set (clock_mday z u) (all_bits dom_bounds)"
    "in_set (clock_weekday z u) (all_bits dow_bounds)"
    using clock_readings [of z u] by (simp_all add: in_all bounds_defs)
  moreover from this have "dayMatches (daily_schedule m h) z u"
    using all_bits_star [of dom_bounds] by (simp add: dayMatches_def daily_schedule_def)
  ultimately show ?thesis
    using clock_readings [of z u] by (auto simp: activates_def daily_schedule_def in_single simp del: One_nat_def)
qed


lemma daily_parsed:
  assumes "m < 60" and "h < 24"
  shows "ParseStandard E (itoa (int m) @ '' '' @ itoa (int h) @ '' * * *'') =
    Parsed (SpecSchedule (daily_schedule m h))"
proof -
  let ?m = "nat_digits m" and ?h = "nat_digits h"
  let ?spec = "?m @ CHR '' '' # ?h @ CHR '' '' # ''* * *''"
  have f: "fields_of ?spec = [?m, ?h, ''*'', ''*'', ''*'']"
  proof -
    have "fields_of ''* * *'' = [''*'', ''*'', ''*'']" by code_simp
    then show ?thesis by (simp add: fields_of_plain digits_plain)
  qed
  have n: "normalizeFields [?m, ?h, ''*'', ''*'', ''*''] standardParser = Parsed [''0'', ?m, ?h, ''*'', ''*'', ''*'']"
    by (simp add: normalizeFields_def fill_optional_def has_option_def standardParser_def option_defs
        places_def defaults_def)
  have "getField ''0'' seconds = Inr (getBits 0 0 1)"
  proof -
    have "nat_digits 0 = ''0''" by code_simp
    then show ?thesis using getField_number [of seconds 0]
      by (simp add: seconds_def in_int64_def min_int64_def max_int64_def)
  qed
  moreover have "getField ?m minutes = Inr (getBits m m 1)" "getField ?h hours = Inr (getBits h h 1)"
    using assms by (simp_all add: getField_number bounds_defs in_int64_def min_int64_def max_int64_def
        del: One_nat_def)
  ultimately have p: "parse_fields (zip [''0'', ?m, ?h, ''*'', ''*'', ''*'']
      [seconds, minutes, hours, dom_bounds, months, dow_bounds]) =
    Inr [getBits 0 0 1, getBits m m 1, getBits h h 1, all_bits dom_bounds, all_bits months, all_bits dow_bounds]"
    using getField_star [of dom_bounds] getField_star [of months] getField_star [of dow_bounds]
    by (simp add: bounds_defs del: One_nat_def)
  have c: "48 \<le> (of_char (hd ?m) :: nat) \<and> (of_char (hd ?m) :: nat) \<le> 57"
    using nat_digits_hd [of m] by (simp add: byte_in_def)
  obtain c0 mt where mt: "?m = c0 # mt" using nat_digits_nonempty by (meson neq_Nil_conv)
  have c0: "c0 \<noteq> CHR ''T''" "c0 \<noteq> CHR ''C''" "c0 \<noteq> CHR ''@''" using c mt by auto
  have t: "take (Suc k) ?spec = c0 # take k (tl ?spec)" for k by (simp add: mt)
  have "split_zone E ?spec = Parsed (None, ?spec)"
    using t [of 2] t [of 7] c0 by (simp add: split_zone_def numeral_eq_Suc)
  moreover have "take 1 ?spec \<noteq> ''@''" using t [of 0] c0 by simp
  moreover have "?spec \<noteq> []" by simp
  ultimately have "cron_Parse E standardParser spec = Parsed (SpecSchedule (daily_schedule m h))"
    if "spec = ?spec" for spec
    using f n p unfolding that [symmetric]
    by (simp add: cron_Parse_def daily_schedule_def del: zip_Cons_Cons parse_fields.simps One_nat_def)
  then have "cron_Parse E standardParser ?spec = Parsed (SpecSchedule (daily_schedule m h))" by blast
  then show ?thesis by (simp add: ParseStandard_def itoa_def)
qed


lemma year_of_next_day: "year_of (d + 1) \<le> year_of d + 1"
  using year_of_bounds [of d] year_start_less [of "year_of d + 1" "year_of d + 1 + 1"]
  by (simp add: year_of_le_iff)

text \<open>Within a day after any second there is one with a given hour and minute.\<close>

lemma daily_time:
  fixes off u h m :: int
  assumes "0 \<le> m" and "m < 60" and "0 \<le> h" and "h < 24"
  obtains v where "u \<le> v" "v < u + 86400" "clock_hour (fixed_zone off) v = h"
    "clock_minute (fixed_zone off) v = m" "clock_second (fixed_zone off) v = 0"
    "clock_year (fixed_zone off) v \<le> clock_year (fixed_zone off) u + 1"
proof -
  let ?z = "fixed_zone off"
  define q where "q = h * 3600 + m * 60"
  define v where "v = u + (q - wall ?z u) mod 86400"
  have b: "u \<le> v" "v < u + 86400" by (simp_all add: v_def)
  have "wall ?z v = wall ?z u + (q - wall ?z u) mod 86400"
    using wall_fixed [of off v] wall_fixed [of off u] by (simp add: v_def)
  then have "wall ?z v mod 86400 = q mod 86400" by (simp add: mod_add_right_eq)
  moreover have "q mod 86400 = q" using assms by (intro mod_pos_pos_trivial) (simp_all add: q_def)
  ultimately obtain k where w: "wall ?z v = 86400 * k + q"
    using mult_div_mod_eq [of 86400 "wall ?z v"] by metis
  have "(86400 * k + q) div 3600 = 24 * k + h" "(86400 * k + q) div 60 = 60 * (24 * k + h) + m"
    using assms unfolding q_def by (intro int_div_pos_eq [where r = "m * 60"] int_div_pos_eq [where r = 0]; simp)+
  moreover have "(86400 * k + q) mod 60 = 0"
  proof -
    have "86400 * k + q = 60 * (1440 * k + 60 * h + m)" by (simp add: q_def)
    then show ?thesis by simp
  qed
  moreover have "(60 * x + m) mod 60 = m" "(24 * x + h) mod 24 = h" for x using assms by simp_all
  ultimately have c: "clock_hour ?z v = h" "clock_minute ?z v = m" "clock_second ?z v = 0"
    unfolding clock_hour_def clock_minute_def clock_second_def w by (simp_all only:)
  have "wall ?z v div 86400 \<le> (wall ?z u + 86400) div 86400"
    using b wall_fixed [of off v] wall_fixed [of off u] by (intro zdiv_mono1) simp_all
  then have "clock_year ?z v \<le> year_of (wall ?z u div 86400 + 1)"
    unfolding clock_year_def clock_day_def by (intro year_of_mono) simp
  also have "\<dots> \<le> clock_year ?z u + 1"
    unfolding clock_year_def clock_day_def by (rule year_of_next_day)
  finally show thesis using that b c by blast
qed

text \<open>
  C17. The entry of a job that runs daily at \<open>h\<close> hours and \<open>m\<close> minutes, written with the
  decimal numbers, parses to a schedule whose next activation, in a zone with a fixed offset
  of whole minutes from UTC, always exists: it comes at most a day after the given time,
  and its clock shows that hour and minute. (In a zone with daylight saving time a day may
  skip the hour; such zones are not covered.)
\<close>

theorem daily_entry_activates:
  assumes "m < 60" and "h < 24" and "60 dvd off"
  shows "\<exists>s. ParseStandard E (itoa (int m) @ '' '' @ itoa (int h) @ '' * * *'') = Parsed (SpecSchedule s) \<and>
    (\<exists>u. schedule_Next (SpecSchedule s) t (fixed_zone off) = Some (u * second_ns) \<and>
       t < u * second_ns \<and> u * second_ns \<le> t + 86400 * second_ns \<and>
       clock_hour (fixed_zone off) u = int h \<and> clock_minute (fixed_zone off) u = int m \<and>
       clock_second (fixed_zone off) u = 0)"
proof -
  let ?s = "daily_schedule m h" and ?z = "fixed_zone off"
  have z: "schedule_zone ?s ?z = ?z" by (simp add: schedule_zone_def daily_schedule_def)
  obtain v where v: "upcoming_second t \<le> v" "v < upcoming_second t + 86400" "activates ?s ?z v"
    "clock_year ?z v \<le> clock_year ?z (upcoming_second t) + 1"
    using assms daily_time [of "int m" "int h" "upcoming_second t" off] by (auto simp: activates_daily)
  have t: "t < v * second_ns" using v(1) upcoming_second_le by simp
  have "\<not> t < (upcoming_second t - 1) * second_ns" using upcoming_second_le [of t "upcoming_second t - 1"] by simp
  moreover have "(v - 86400) * second_ns \<le> (upcoming_second t - 1) * second_ns"
    using v(2) by (simp add: second_ns_def)
  ultimately have day: "v * second_ns \<le> t + 86400 * second_ns" by (simp add: left_diff_distrib)
  have "\<exists>u. spec_Next ?s t ?z = Some (u * second_ns) \<and> t < u * second_ns \<and> activates ?s ?z u \<and> u \<le> v"
  proof (cases rule: next_cases [OF assms(3) z refl, of t])
    case (1 u)
    then show ?thesis using v(3) t by (metis not_less)
  next
    case 2
    then show ?thesis using v t by auto
  qed
  then obtain u where u: "spec_Next ?s t ?z = Some (u * second_ns)" "t < u * second_ns" "activates ?s ?z u"
    "u \<le> v" by blast
  have "u * second_ns \<le> v * second_ns" using u(4) by (simp add: second_ns_def)
  then have "u * second_ns \<le> t + 86400 * second_ns" using day by linarith
  then show ?thesis
    using u daily_parsed [OF assms(1,2), of E] by (auto simp: schedule_Next_def activates_daily)
qed

theorem daily_entry_activates_witness:
  "\<exists>s u. ParseStandard no_zones ''30 4 * * *'' = Parsed (SpecSchedule s) \<and>
     schedule_Next (SpecSchedule s) 77 utc = Some (u * second_ns) \<and> clock_hour utc u = 4"
proof -
  have e: "itoa (int 30) @ '' '' @ itoa (int 4) @ '' * * *'' = ''30 4 * * *''" by code_simp
  have "(30::nat) < 60" "(4::nat) < 24" "(60::int) dvd 0" by simp_all
  from daily_entry_activates [OF this, of no_zones 77, unfolded e] show ?thesis
    unfolding utc_def by auto
qed

end
