(* ===== verification/CronRunner.thy ===== *)
theory CronRunner
  imports CronParser "HOL-Library.Multiset"
begin

section \<open>The cron runner (plugin/cron/cron.go, chain.go)\<close>

text \<open>
  The entries of a \<open>Cron\<close>, the calls on it, and its scheduler goroutine, whose loop
  handles one event at a time: the timer, an added entry, a removal, the stop. The calls
  hold \<open>runningMu\<close>, and while the loop runs they hand their work to it over unbuffered
  channels, so call and event are one atomic step. The method \<open>Next\<close> of the interface
  \<open>Schedule\<close> is the parameter \<open>nx\<close>; jobs are started in goroutines of their own, and the
  ghost field \<open>c_started\<close> records each start.
\<close>

subsection \<open>Entries\<close>

record 's entry =
  e_ID :: int
  e_Schedule :: 's
  e_Next :: int
  e_Prev :: int

record 's cron =
  c_entries :: "'s entry list"
  c_running :: bool
  c_nextID :: int
  c_now :: int
  c_started :: "(int \<times> int) list"

definition entry_Valid :: "'s entry \<Rightarrow> bool" where
  "entry_Valid e \<longleftrightarrow> e_ID e \<noteq> 0"

text \<open>\<open>byTime\<close>: the zero time comes last.\<close>

definition byTime_less :: "'s entry \<Rightarrow> 's entry \<Rightarrow> bool" where
  "byTime_less a b \<longleftrightarrow>
     (if e_Next a = zero_time then False
      else if e_Next b = zero_time then True
      else e_Next a < e_Next b)"

text \<open>\<open>sort.Sort\<close> leaves a sorted permutation; the order of equal entries is open.\<close>

definition sorts_to :: "'s entry list \<Rightarrow> 's entry list \<Rightarrow> bool" where
  "sorts_to es es' \<longleftrightarrow> mset es' = mset es \<and> sorted_wrt (\<lambda>a b. \<not> byTime_less b a) es'"

definition cron_New :: "'s cron" where
  "cron_New = \<lparr>c_entries = [], c_running = False, c_nextID = 0, c_now = zero_time, c_started = []\<rparr>"

definition new_entry :: "int \<Rightarrow> 's \<Rightarrow> 's entry" where
  "new_entry i sc = \<lparr>e_ID = i, e_Schedule = sc, e_Next = zero_time, e_Prev = zero_time\<rparr>"

definition schedule_next :: "('s \<Rightarrow> int \<Rightarrow> int) \<Rightarrow> int \<Rightarrow> 's entry \<Rightarrow> 's entry" where
  "schedule_next nx now e = e\<lparr>e_Next := nx (e_Schedule e) now\<rparr>"

definition removeEntry :: "int \<Rightarrow> 's entry list \<Rightarrow> 's entry list" where
  "removeEntry i es = filter (\<lambda>e. e_ID e \<noteq> i) es"

text \<open>The loop of the timer case: it stops at the first entry that is not due.\<close>

fun run_due :: "('s \<Rightarrow> int \<Rightarrow> int) \<Rightarrow> int \<Rightarrow> 's entry list \<Rightarrow> 's entry list \<times> int list" where
  "run_due nx now [] = ([], [])"
| "run_due nx now (e # es) =
     (if now < e_Next e \<or> e_Next e = zero_time then (e # es, [])
      else case run_due nx now es of (es', ids) \<Rightarrow>
          (e\<lparr>e_Prev := e_Next e, e_Next := nx (e_Schedule e) now\<rparr> # es', e_ID e # ids))"

text \<open>When the timer of the loop fires at the earliest.\<close>

definition deadline :: "'s cron \<Rightarrow> int" where
  "deadline s =
     (case c_entries s of
        [] \<Rightarrow> c_now s + 100000 * hour_ns
      | e # _ \<Rightarrow> if e_Next e = zero_time then c_now s + 100000 * hour_ns else e_Next e)"

subsection \<open>The calls\<close>

text \<open>A call at the time \<open>now\<close>; the relation leaves open only the order of equal entries.\<close>

datatype 's cron_call = Schedule 's | Remove int | Start | Stop | Wake

definition cron_entry :: "'s cron \<Rightarrow> int \<Rightarrow> 's entry option" where
  "cron_entry s i = List.find (\<lambda>e. i = e_ID e) (c_entries s)"

inductive cron_step :: "('s \<Rightarrow> int \<Rightarrow> int) \<Rightarrow> 's cron_call \<Rightarrow> int \<Rightarrow> 's cron \<Rightarrow> 's cron \<Rightarrow> bool"
  for nx :: "'s \<Rightarrow> int \<Rightarrow> int" where
  schedule_idle: "\<not> c_running s \<Longrightarrow>
     cron_step nx (Schedule sc) now s
       (s\<lparr>c_nextID := c_nextID s + 1, c_entries := c_entries s @ [new_entry (c_nextID s + 1) sc]\<rparr>)"
| schedule_running: "c_running s \<Longrightarrow>
     sorts_to (c_entries s @ [schedule_next nx now (new_entry (c_nextID s + 1) sc)]) es \<Longrightarrow>
     cron_step nx (Schedule sc) now s (s\<lparr>c_nextID := c_nextID s + 1, c_now := now, c_entries := es\<rparr>)"
| remove_idle: "\<not> c_running s \<Longrightarrow>
     cron_step nx (Remove i) now s (s\<lparr>c_entries := removeEntry i (c_entries s)\<rparr>)"
| remove_running: "c_running s \<Longrightarrow> sorts_to (removeEntry i (c_entries s)) es \<Longrightarrow>
     cron_step nx (Remove i) now s (s\<lparr>c_now := now, c_entries := es\<rparr>)"
| start_running: "c_running s \<Longrightarrow> cron_step nx Start now s s"
| start_idle: "\<not> c_running s \<Longrightarrow> sorts_to (map (schedule_next nx now) (c_entries s)) es \<Longrightarrow>
     cron_step nx Start now s (s\<lparr>c_running := True, c_now := now, c_entries := es\<rparr>)"
| stop: "cron_step nx Stop now s (s\<lparr>c_running := False\<rparr>)"
| wake: "c_running s \<Longrightarrow> deadline s \<le> now \<Longrightarrow> run_due nx now (c_entries s) = (es0, ids) \<Longrightarrow>
     sorts_to es0 es \<Longrightarrow>
     cron_step nx Wake now s
       (s\<lparr>c_now := now, c_entries := es, c_started := c_started s @ map (\<lambda>i. (i, now)) ids\<rparr>)"

inductive_cases cron_wakeE: "cron_step nx Wake now s t"
inductive_cases cron_removeE: "cron_step nx (Remove i) now s t"

definition cron_next :: "('s \<Rightarrow> int \<Rightarrow> int) \<Rightarrow> 's cron \<Rightarrow> 's cron \<Rightarrow> bool" where
  "cron_next nx s t \<longleftrightarrow> (\<exists>c now. cron_step nx c now s t)"

text \<open>\<open>AddJob\<close>: a text that does not parse adds nothing.\<close>

definition AddJob ::
  "cron_env \<Rightarrow> int \<Rightarrow> (schedule \<Rightarrow> int \<Rightarrow> int) \<Rightarrow> string \<Rightarrow> int \<Rightarrow> schedule cron \<Rightarrow> schedule cron \<Rightarrow> bool" where
  "AddJob E options nx spec now s t \<longleftrightarrow>
     (case cron_Parse E options spec of
        Parsed sc \<Rightarrow> cron_step nx (Schedule sc) now s t
      | Failed e \<Rightarrow> t = s
      | Crashed \<Rightarrow> False)"

subsection \<open>Sorting and due entries\<close>

definition due :: "int \<Rightarrow> 's entry \<Rightarrow> bool" where
  "due now e \<longleftrightarrow> e_Next e \<noteq> zero_time \<and> e_Next e \<le> now"

abbreviation by_time :: "'s entry list \<Rightarrow> bool" where
  "by_time es \<equiv> sorted_wrt (\<lambda>a b. \<not> byTime_less b a) es"

lemma not_due_later: "\<not> due now a \<Longrightarrow> \<not> byTime_less b a \<Longrightarrow> \<not> due now b"
  by (auto simp: due_def byTime_less_def split: if_splits)

text \<open>On a sorted list the loop reaches every due entry and no other.\<close>

lemma run_due_sorted:
  "by_time es \<Longrightarrow>
     run_due nx now es =
       (map (\<lambda>e. if due now e then e\<lparr>e_Prev := e_Next e, e_Next := nx (e_Schedule e) now\<rparr> else e) es,
        map e_ID (filter (due now) es))"
proof (induction es)
  case (Cons e es)
  show ?case
  proof (cases "due now e")
    case True
    then show ?thesis using Cons by (auto simp: due_def)
  next
    case False
    then have "\<forall>f \<in> set es. \<not> due now f" using Cons.prems not_due_later [of now e] by auto
    then have "map (\<lambda>e. if due now e then e\<lparr>e_Prev := e_Next e, e_Next := nx (e_Schedule e) now\<rparr> else e) es = es"
      "filter (due now) es = []"
      by (auto simp: map_idI filter_empty_conv)
    moreover have "now < e_Next e \<or> e_Next e = zero_time" using False by (auto simp: due_def)
    ultimately show ?thesis using False by simp
  qed
qed simp

subsection \<open>The invariant\<close>

definition ids_ok :: "int \<Rightarrow> 's entry list \<Rightarrow> bool" where
  "ids_ok n es \<longleftrightarrow> distinct (map e_ID es) \<and> (\<forall>i \<in> e_ID ` set es. 1 \<le> i \<and> i \<le> n)"

definition cron_inv :: "'s cron \<Rightarrow> bool" where
  "cron_inv s \<longleftrightarrow> 0 \<le> c_nextID s \<and> ids_ok (c_nextID s) (c_entries s)
     \<and> (c_running s \<longrightarrow> by_time (c_entries s))"

lemma sorts_to_ids: "sorts_to es es' \<Longrightarrow> ids_ok n es' = ids_ok n es"
proof -
  assume a: "sorts_to es es'"
  then have "mset (map e_ID es') = mset (map e_ID es)" by (simp add: sorts_to_def)
  then have "distinct (map e_ID es') = distinct (map e_ID es)" by (rule mset_eq_imp_distinct_iff)
  moreover have "set es' = set es" using a by (auto simp: sorts_to_def dest: mset_eq_setD)
  ultimately show ?thesis by (simp add: ids_ok_def)
qed

lemma sorts_to_sorted: "sorts_to es es' \<Longrightarrow> by_time es'"
  by (simp add: sorts_to_def)

lemma ids_ok_same: "map e_ID es' = map e_ID es \<Longrightarrow> ids_ok n es' = ids_ok n es"
  unfolding ids_ok_def by (metis list.set_map)

lemma ids_ok_remove: "ids_ok n es \<Longrightarrow> ids_ok n (removeEntry i es)"
  by (auto simp: ids_ok_def removeEntry_def distinct_map inj_on_def)

lemma ids_ok_add: "0 \<le> n \<Longrightarrow> ids_ok n es \<Longrightarrow> e_ID e = n + 1 \<Longrightarrow> ids_ok (n + 1) (es @ [e])"
  by (fastforce simp: ids_ok_def)

lemma run_due_ids: "run_due nx now es = (es', ids) \<Longrightarrow> map e_ID es' = map e_ID es"
  by (induction nx now es arbitrary: es' ids rule: run_due.induct) (auto split: if_splits prod.splits)

lemma run_due_started: "run_due nx now es = (es', ids) \<Longrightarrow> set ids \<subseteq> e_ID ` set es"
  by (induction nx now es arbitrary: es' ids rule: run_due.induct) (auto split: if_splits prod.splits)

lemma entry_ids [simp]:
  "e_ID (schedule_next nx now e) = e_ID e" "e_ID (new_entry i sc) = i"
  "map e_ID (map (schedule_next nx now) es) = map e_ID es"
  by (simp_all add: schedule_next_def new_entry_def)

lemma cron_step_inv [inv_intros]:
  assumes "cron_step nx c now s t" and "cron_inv s"
  shows "cron_inv t"
  using assms
  by (induction rule: cron_step.induct)
    (simp_all add: cron_inv_def sorts_to_ids sorts_to_sorted ids_ok_remove ids_ok_add
      ids_ok_same [OF entry_ids(3)] ids_ok_same [OF run_due_ids])

lemma cron_New_inv: "cron_inv cron_New"
  by (simp add: cron_inv_def cron_New_def ids_ok_def)

interpretation cron: state_machine "\<lambda>s. s = cron_New" "cron_next nx" cron_inv for nx
  by unfold_locales (auto simp: cron_next_def cron_New_inv intro: inv_intros)


subsection \<open>What the timer runs\<close>

definition rescheduled :: "('s \<Rightarrow> int \<Rightarrow> int) \<Rightarrow> int \<Rightarrow> 's entry \<Rightarrow> 's entry" where
  "rescheduled nx now e = e\<lparr>e_Prev := e_Next e, e_Next := nx (e_Schedule e) now\<rparr>"

lemma cron_reachable_inv: "(cron_next nx)\<^sup>*\<^sup>* cron_New s \<Longrightarrow> cron_inv s"
  by (rule cron.inv_reachable) auto

lemma head_due:
  assumes "by_time es" and "e \<in> set es" and "e_Next e \<noteq> zero_time"
  shows "e_Next (hd es) \<noteq> zero_time"
proof (cases es)
  case (Cons a as)
  then show ?thesis using assms by (auto simp: byTime_less_def split: if_splits)
qed (use assms in simp)

text \<open>
  C18. When the timer of a reachable runner fires, exactly the entries whose activation
  time has come are started, each once; they are rescheduled from the present and the
  others keep their times. If any entry has an activation time at all, one is started.
  With schedules that keep their contract, nothing is due any more afterwards.
\<close>

theorem wake_runs_exactly_due:
  assumes "(cron_next nx)\<^sup>*\<^sup>* cron_New s" and "cron_step nx Wake now s t"
    and "\<And>sc x. nx sc x = zero_time \<or> x < nx sc x"
  shows "c_started t = c_started s @ map (\<lambda>e. (e_ID e, now)) (filter (due now) (c_entries s))
    \<and> distinct (map e_ID (filter (due now) (c_entries s)))
    \<and> mset (c_entries t) = mset (map (\<lambda>e. if due now e then rescheduled nx now e else e) (c_entries s))
    \<and> ((\<exists>e \<in> set (c_entries s). e_Next e \<noteq> zero_time) \<longrightarrow> (\<exists>e \<in> set (c_entries s). due now e))
    \<and> (\<forall>e \<in> set (c_entries t). \<not> due now e)"
proof -
  from assms(2) obtain es0 ids es where wake: "c_running s" "deadline s \<le> now"
    "run_due nx now (c_entries s) = (es0, ids)" "sorts_to es0 es"
    "t = s\<lparr>c_now := now, c_entries := es, c_started := c_started s @ map (\<lambda>i. (i, now)) ids\<rparr>"
    by (elim cron_wakeE)
  have i: "cron_inv s" using assms(1) by (rule cron_reachable_inv)
  then have b: "by_time (c_entries s)" using wake by (simp add: cron_inv_def)
  have r: "es0 = map (\<lambda>e. if due now e then rescheduled nx now e else e) (c_entries s)"
    "ids = map e_ID (filter (due now) (c_entries s))"
    using run_due_sorted [OF b, of nx now] wake by (simp_all add: rescheduled_def)
  have m: "mset es = mset es0" using wake by (simp add: sorts_to_def)
  have "due now (hd (c_entries s)) \<and> hd (c_entries s) \<in> set (c_entries s)"
    if "e \<in> set (c_entries s)" "e_Next e \<noteq> zero_time" for e
    using head_due [OF b that] wake that by (cases "c_entries s") (auto simp: due_def deadline_def)
  moreover have "\<not> due now e" if "e \<in> set es" for e
  proof -
    have "e \<in> (\<lambda>x. if due now x then rescheduled nx now x else x) ` set (c_entries s)"
      using that mset_eq_setD [OF m] unfolding r(1) by (simp only: set_map)
    then obtain x where x: "e = (if due now x then rescheduled nx now x else x)" by blast
    show ?thesis using assms(3) [of "e_Schedule x" now] unfolding x
      by (cases "due now x") (auto simp: due_def rescheduled_def)
  qed
  moreover have "distinct (map e_ID (filter (due now) (c_entries s)))"
    using i by (simp add: cron_inv_def ids_ok_def distinct_map_filter)
  ultimately show ?thesis using wake r m by (auto simp: comp_def)
qed

text \<open>
  C19. A removed entry never runs again: after \<open>Remove\<close>, whatever calls and timer events
  follow, no start with its id is added to the log, and ids are never handed out twice.
\<close>

theorem removed_never_runs:
  assumes "(cron_next nx)\<^sup>*\<^sup>* cron_New s" and "i \<le> c_nextID s"
    and "cron_step nx (Remove i) now s t" and "(cron_next nx)\<^sup>*\<^sup>* t u"
  shows "filter (\<lambda>(j, _). j = i) (c_started u) = filter (\<lambda>(j, _). j = i) (c_started s)
    \<and> i \<notin> e_ID ` set (c_entries u)"
proof -
  define gone where "gone u \<longleftrightarrow> i \<notin> e_ID ` set (c_entries u) \<and> i \<le> c_nextID u
    \<and> filter (\<lambda>(j, _). j = i) (c_started u) = filter (\<lambda>(j, _). j = i) (c_started s)" for u :: "'a cron"
  have same: "sorts_to es es' \<Longrightarrow> set es' = set es" for es es' :: "'a entry list"
    by (auto simp: sorts_to_def dest: mset_eq_setD)
  have gone_t: "gone t" using assms(3)
    by (elim cron_removeE) (use assms(2) same in \<open>auto simp: gone_def removeEntry_def\<close>)
  have gone_step: "gone y" if g: "gone x" and step: "cron_next nx x y" for x y
  proof -
    obtain c n where "cron_step nx c n x y" using step by (auto simp: cron_next_def)
    then show ?thesis
    proof cases
      case (wake es0 ids es)
      have "e_ID ` set es0 = e_ID ` set (c_entries x)" using run_due_ids [OF wake(5)] by (metis list.set_map)
      moreover have "set ids \<subseteq> e_ID ` set (c_entries x)"
        using wake(5) by (rule run_due_started)
      ultimately show ?thesis
        using g wake same [OF wake(6)] by (auto simp: gone_def filter_empty_conv)
    qed (use g same in \<open>auto simp: gone_def removeEntry_def\<close>)
  qed
  from assms(4) have "gone u" by (induction rule: rtranclp_induct) (use gone_t gone_step in blast)+
  then show ?thesis by (simp add: gone_def)
qed


definition each_second :: "unit \<Rightarrow> int \<Rightarrow> int" where
  "each_second sc t = t + second_ns"

lemma cron_nextI: "cron_step nx c now s t \<Longrightarrow> cron_next nx s t"
  by (auto simp: cron_next_def)

definition with_entry :: "unit cron" where
  "with_entry = cron_New\<lparr>c_nextID := 1, c_entries := [new_entry 1 ()]\<rparr>"

definition started_at_0 :: "unit cron" where
  "started_at_0 = with_entry\<lparr>c_running := True, c_now := 0, c_entries := [schedule_next each_second 0 (new_entry 1 ())]\<rparr>"

lemma with_entry_reachable: "(cron_next each_second)\<^sup>*\<^sup>* cron_New with_entry"
proof -
  have "cron_step each_second (Schedule ()) 0 cron_New with_entry"
    using cron_step.schedule_idle [of cron_New each_second "()" 0]
    by (simp add: cron_New_def with_entry_def)
  then show ?thesis using cron_nextI by blast
qed

lemma started_reachable: "(cron_next each_second)\<^sup>*\<^sup>* cron_New started_at_0"
proof -
  have "cron_step each_second Start 0 with_entry started_at_0"
    using cron_step.start_idle [of with_entry each_second 0 "[schedule_next each_second 0 (new_entry 1 ())]"]
    by (simp add: cron_New_def with_entry_def started_at_0_def sorts_to_def)
  from with_entry_reachable cron_nextI [OF this] show ?thesis by (rule rtranclp.rtrancl_into_rtrancl)
qed

theorem wake_runs_exactly_due_witness:
  "\<exists>t. cron_step each_second Wake second_ns started_at_0 t \<and> c_started t = [(1, second_ns)]"
proof -
  define t where "t = started_at_0\<lparr>c_now := second_ns, c_started := [(1, second_ns)],
    c_entries := [(new_entry 1 ())\<lparr>e_Prev := second_ns, e_Next := second_ns + second_ns\<rparr>]\<rparr>"
  have w: "cron_step each_second Wake second_ns started_at_0 t"
    using cron_step.wake [of started_at_0 second_ns each_second "c_entries t" "[1]" "c_entries t"]
    by (simp add: t_def started_at_0_def with_entry_def cron_New_def deadline_def schedule_next_def
        new_entry_def each_second_def second_ns_def zero_time_def sorts_to_def)
  have "\<And>sc x. each_second sc x = zero_time \<or> x < each_second sc x"
    by (simp add: each_second_def second_ns_def)
  from wake_runs_exactly_due [OF started_reachable w this]
  have "c_started t = c_started started_at_0 @
    map (\<lambda>e. (e_ID e, second_ns)) (filter (due second_ns) (c_entries started_at_0))"
    by (rule conjunct1)
  moreover have "filter (due second_ns) (c_entries started_at_0) = c_entries started_at_0"
    by (simp add: started_at_0_def due_def schedule_next_def new_entry_def each_second_def second_ns_def zero_time_def)
  ultimately have "c_started t = [(1, second_ns)]"
    by (simp add: started_at_0_def with_entry_def cron_New_def)
  then show ?thesis using w by blast
qed

theorem removed_never_runs_witness:
  "\<exists>t. cron_step each_second (Remove 1) 0 started_at_0 t \<and> 1 \<notin> e_ID ` set (c_entries t)"
proof -
  define t where "t = started_at_0\<lparr>c_now := 0, c_entries := []\<rparr>"
  have "cron_step each_second (Remove 1) 0 started_at_0 t"
    using cron_step.remove_running [of started_at_0 1 "[]" each_second 0]
    by (simp add: t_def started_at_0_def removeEntry_def sorts_to_def)
  then show ?thesis
    using removed_never_runs [OF started_reachable, of 1 0 t t] by (auto simp: started_at_0_def with_entry_def)
qed

subsection \<open>Chains and wrappers (chain.go)\<close>

text \<open>The last wrapper is applied first, so the first one is outermost.\<close>

fun chain_loop :: "('j \<Rightarrow> 'j) list \<Rightarrow> nat list \<Rightarrow> 'j \<Rightarrow> 'j" where
  "chain_loop ws [] j = j"
| "chain_loop ws (i # is') j = chain_loop ws is' ((ws ! (length ws - i - 1)) j)"

definition chain_Then :: "('j \<Rightarrow> 'j) list \<Rightarrow> 'j \<Rightarrow> 'j" where
  "chain_Then ws j = chain_loop ws [0..<length ws] j"

lemma chain_loop_foldr:
  "k \<le> length ws \<Longrightarrow> chain_loop ws [k..<length ws] j = foldr (\<lambda>w. w) (take (length ws - k) ws) j"
proof (induction "length ws - k" arbitrary: k j)
  case (Suc n)
  have "take (length ws - k) ws = take (length ws - Suc k) ws @ [ws ! (length ws - k - 1)]"
    using Suc by (metis Suc_diff_Suc diff_Suc_1 diff_less_Suc less_Suc_eq_le take_Suc_conv_app_nth zero_less_diff
        zero_less_Suc diff_less diff_Suc_eq_diff_pred Suc_le_lessD le_eq_less_or_eq minus_nat.diff_0 length_greater_0_conv
        Suc_pred' less_imp_diff_less)
  moreover have "[k..<length ws] = k # [Suc k..<length ws]" using Suc by (intro upt_conv_Cons) simp
  ultimately show ?case using Suc by simp
qed simp

text \<open>A job returns or panics; \<open>Recover\<close> logs the panic and returns.\<close>

datatype outcome = Returns | JobPanics string

definition Recover :: "outcome \<times> string list \<Rightarrow> outcome \<times> string list" where
  "Recover r = (case r of (Returns, log) \<Rightarrow> (Returns, log) | (JobPanics v, log) \<Rightarrow> (Returns, log @ [v]))"

text \<open>
  \<open>SkipIfStillRunning\<close>: a channel with one token. An invocation takes the token or skips;
  the deferred send returns it when the job ends, also by a panic.
\<close>

record skipper =
  sk_token :: bool
  sk_active :: nat
  sk_skipped :: nat

definition skip_New :: skipper where
  "skip_New = \<lparr>sk_token = True, sk_active = 0, sk_skipped = 0\<rparr>"

inductive skip_step :: "skipper \<Rightarrow> skipper \<Rightarrow> bool" where
  skip_start: "sk_token s \<Longrightarrow> skip_step s (s\<lparr>sk_token := False, sk_active := sk_active s + 1\<rparr>)"
| skip_busy: "\<not> sk_token s \<Longrightarrow> skip_step s (s\<lparr>sk_skipped := sk_skipped s + 1\<rparr>)"
| skip_end: "0 < sk_active s \<Longrightarrow> skip_step s (s\<lparr>sk_token := True, sk_active := sk_active s - 1\<rparr>)"

definition skip_inv :: "skipper \<Rightarrow> bool" where
  "skip_inv s \<longleftrightarrow> sk_active s = (if sk_token s then 0 else 1)"

interpretation skip: state_machine "\<lambda>s. s = skip_New" skip_step skip_inv
  by unfold_locales (auto simp: skip_inv_def skip_New_def elim!: skip_step.cases)

text \<open>
  \<open>SkipIfStillRunning\<close> never runs two invocations of a job at once, whatever the
  interleaving of starts and ends.
\<close>

theorem skip_runs_one_at_a_time:
  assumes "skip_step\<^sup>*\<^sup>* skip_New s"
  shows "sk_active s \<le> 1 \<and> (sk_token s \<longleftrightarrow> sk_active s = 0)"
  using skip.inv_reachable [OF refl assms] by (simp add: skip_inv_def)

theorem skip_runs_one_at_a_time_witness:
  "sk_active (skip_New\<lparr>sk_token := False, sk_active := 1, sk_skipped := 1\<rparr>) \<le> 1"
proof -
  have "skip_step skip_New (skip_New\<lparr>sk_token := False, sk_active := 1\<rparr>)"
    using skip_start [of skip_New] by (simp add: skip_New_def)
  then have "skip_step\<^sup>*\<^sup>* skip_New (skip_New\<lparr>sk_token := False, sk_active := 1\<rparr>)" by (rule r_into_rtranclp)
  moreover have "skip_step (skip_New\<lparr>sk_token := False, sk_active := 1\<rparr>)
      (skip_New\<lparr>sk_token := False, sk_active := 1, sk_skipped := 1\<rparr>)"
    using skip_busy [of "skip_New\<lparr>sk_token := False, sk_active := 1\<rparr>"] by (simp add: skip_New_def)
  ultimately have "skip_step\<^sup>*\<^sup>* skip_New (skip_New\<lparr>sk_token := False, sk_active := 1, sk_skipped := 1\<rparr>)"
    by (rule rtranclp.rtrancl_into_rtrancl)
  from skip_runs_one_at_a_time [OF this] show ?thesis by (rule conjunct1)
qed

end
