(* ===== verification/SchedulerParser.thy ===== *)
theory SchedulerParser
  imports CivilTime
begin

section \<open>Cron expressions of the job scheduler (plugin/scheduler/parser.go)\<close>

text \<open>
  A cron expression is parsed into a matcher for each field, and \<open>Next\<close> tries the
  seconds or minutes after a given time one by one, for at most four years.
\<close>

subsection \<open>Matchers\<close>

datatype field_matcher =
    WildcardMatcher
  | ExactMatcher int
  | RangeMatcher int int
  | ListMatcher "int list"
  | StepMatcher int int int

text \<open>A value is never below the minimum where \<open>%\<close> is reached, so it is \<open>mod\<close>.\<close>

fun matches_value :: "field_matcher \<Rightarrow> int \<Rightarrow> bool" where
  "matches_value WildcardMatcher v = True"
| "matches_value (ExactMatcher n) v = (v = n)"
| "matches_value (RangeMatcher a b) v = (a \<le> v \<and> v \<le> b)"
| "matches_value (ListMatcher ns) v = list_ex (\<lambda>n. n = v) ns"
| "matches_value (StepMatcher step mn mx) v =
     (if v < mn \<or> mx < v then False else (v - mn) mod step = 0)"

datatype sched_error =
    EmptyExpression
  | WrongFieldCount nat
  | BadStep string
  | BadListValue string
  | BadRange string
  | BadValue string int int
  | InField string sched_error

fun list_values :: "int \<Rightarrow> int \<Rightarrow> string list \<Rightarrow> sched_error + int list" where
  "list_values mn mx [] = Inr []"
| "list_values mn mx (p # ps) =
     (case atoi (trim_space p) of
        None \<Rightarrow> Inl (BadListValue p)
      | Some v \<Rightarrow>
          if v < mn \<or> mx < v then Inl (BadListValue p)
          else map_sum id ((#) v) (list_values mn mx ps))"

definition parseField :: "string \<Rightarrow> int \<Rightarrow> int \<Rightarrow> sched_error + field_matcher" where
  "parseField field mn mx =
     (if field = ''*'' then Inr WildcardMatcher
      else if take 2 field = ''*/'' then
        (case atoi (drop 2 field) of
           None \<Rightarrow> Inl (BadStep field)
         | Some step \<Rightarrow>
             if step < 1 \<or> mx < step then Inl (BadStep field) else Inr (StepMatcher step mn mx))
      else if CHR '','' \<in> set field then
        map_sum id ListMatcher (list_values mn mx (split_on (CHR '','') field))
      else if CHR ''-'' \<in> set field then
        (case split_on (CHR ''-'') field of
           [a, b] \<Rightarrow>
             (case (atoi (trim_space a), atoi (trim_space b)) of
                (Some start, Some stop) \<Rightarrow>
                  if start < mn \<or> mx < stop \<or> stop < start then Inl (BadRange field)
                  else Inr (RangeMatcher start stop)
              | _ \<Rightarrow> Inl (BadRange field))
         | _ \<Rightarrow> Inl (BadRange field))
      else
        (case atoi field of
           None \<Rightarrow> Inl (BadValue field mn mx)
         | Some v \<Rightarrow>
             if v < mn \<or> mx < v then Inl (BadValue field mn mx) else Inr (ExactMatcher v)))"

subsection \<open>Expressions\<close>

record cron_schedule =
  m_seconds :: field_matcher
  m_minutes :: field_matcher
  m_hours :: field_matcher
  m_days :: field_matcher
  m_months :: field_matcher
  m_weekdays :: field_matcher
  m_hasSecs :: bool

definition in_field :: "string \<Rightarrow> sched_error + field_matcher \<Rightarrow> sched_error + field_matcher" where
  "in_field name r = map_sum (InField name) id r"

definition bind_field ::
  "sched_error + field_matcher \<Rightarrow> (field_matcher \<Rightarrow> sched_error + 'a) \<Rightarrow> sched_error + 'a" where
  "bind_field r k = (case r of Inl e \<Rightarrow> Inl e | Inr m \<Rightarrow> k m)"

definition parse_from ::
  "string list \<Rightarrow> nat \<Rightarrow> bool \<Rightarrow> field_matcher \<Rightarrow> sched_error + cron_schedule" where
  "parse_from fs offset hasSecs secs =
     bind_field (in_field ''minutes'' (parseField (fs ! offset) 0 59)) (\<lambda>mi.
     bind_field (in_field ''hours'' (parseField (fs ! (offset + 1)) 0 23)) (\<lambda>ho.
     bind_field (in_field ''days'' (parseField (fs ! (offset + 2)) 1 31)) (\<lambda>da.
     bind_field (in_field ''months'' (parseField (fs ! (offset + 3)) 1 12)) (\<lambda>mo.
     bind_field (in_field ''weekdays'' (parseField (fs ! (offset + 4)) 0 7)) (\<lambda>we.
       Inr \<lparr>m_seconds = secs, m_minutes = mi, m_hours = ho, m_days = da, m_months = mo,
         m_weekdays = we, m_hasSecs = hasSecs\<rparr>)))))"

definition ParseCronExpression :: "string \<Rightarrow> sched_error + cron_schedule" where
  "ParseCronExpression expr =
     (if expr = [] then Inl EmptyExpression
      else
        (let fs = fields_of expr in
         if length fs \<noteq> 5 \<and> length fs \<noteq> 6 then Inl (WrongFieldCount (length fs))
         else if length fs = 6
         then bind_field (in_field ''seconds'' (parseField (fs ! 0) 0 59)) (\<lambda>se. parse_from fs 1 True se)
         else parse_from fs 0 False (ExactMatcher 0)))"

definition schedule_matches :: "cron_schedule \<Rightarrow> zone \<Rightarrow> int \<Rightarrow> bool" where
  "schedule_matches s z t \<longleftrightarrow>
     matches_value (m_seconds s) (clock_second z t) \<and>
     matches_value (m_minutes s) (clock_minute z t) \<and>
     matches_value (m_hours s) (clock_hour z t) \<and>
     matches_value (m_months s) (clock_month z t) \<and>
     (matches_value (m_days s) (clock_mday z t) \<or> matches_value (m_weekdays s) (clock_weekday z t))"

subsection \<open>The next run\<close>

text \<open>All times of the search are whole seconds; \<open>step\<close> is a second or a minute.\<close>

function next_loop :: "cron_schedule \<Rightarrow> zone \<Rightarrow> int \<Rightarrow> int \<Rightarrow> int \<Rightarrow> int option" where
  "next_loop s z step maxTime t =
     (if t < maxTime \<and> 0 < step
      then if schedule_matches s z t then Some t else next_loop s z step maxTime (t + step)
      else None)"
  by pat_completeness auto
termination
  by (relation "measure (\<lambda>(s, z, step, mx, t). nat (mx - t))") auto

declare next_loop.simps [simp del]

definition grid :: "cron_schedule \<Rightarrow> int" where
  "grid s = (if m_hasSecs s then 1 else 60)"

text \<open>\<open>from.Add(step).Truncate(step)\<close>, in seconds.\<close>

definition search_start :: "cron_schedule \<Rightarrow> int \<Rightarrow> int" where
  "search_start s from_ns = truncate_to (grid s) ((from_ns + grid s * second_ns) div second_ns)"

definition sched_Next :: "cron_schedule \<Rightarrow> int \<Rightarrow> zone \<Rightarrow> int" where
  "sched_Next s from_ns z =
     (let u = search_start s from_ns;
          maxTime = add_date z u 4 0 0
      in case next_loop s z (grid s) maxTime u of
           Some t \<Rightarrow> t * second_ns
         | None \<Rightarrow> zero_time)"

subsection \<open>The search\<close>

lemma next_loop_spec:
  assumes "0 < step"
  shows "case next_loop s z step mx t of
      Some u \<Rightarrow> t \<le> u \<and> u < mx \<and> step dvd (u - t) \<and> schedule_matches s z u \<and>
        (\<forall>v. t \<le> v \<and> v < u \<and> step dvd (v - t) \<longrightarrow> \<not> schedule_matches s z v)
    | None \<Rightarrow> \<forall>v. t \<le> v \<and> v < mx \<and> step dvd (v - t) \<longrightarrow> \<not> schedule_matches s z v"
  using assms
proof (induction s z step mx t rule: next_loop.induct)
  case (1 s z step mx t)
  have above: "t + step \<le> v" if "t \<le> v" "v \<noteq> t" "step dvd (v - t)" for v
    using that zdvd_imp_le [of step "v - t"] by simp
  have same: "step dvd (v - (t + step)) \<longleftrightarrow> step dvd (v - t)" for v
    using dvd_add_triv_right_iff [of step "v - (t + step)"] by simp
  show ?case
  proof (cases "t < mx \<and> \<not> schedule_matches s z t")
    case True
    have n: "next_loop s z step mx t = next_loop s z step mx (t + step)"
      using True 1(2) by (subst next_loop.simps) simp
    have IH: "case next_loop s z step mx (t + step) of
      Some u \<Rightarrow> t + step \<le> u \<and> u < mx \<and> step dvd (u - (t + step)) \<and> schedule_matches s z u \<and>
        (\<forall>v. t + step \<le> v \<and> v < u \<and> step dvd (v - (t + step)) \<longrightarrow> \<not> schedule_matches s z v)
    | None \<Rightarrow> \<forall>v. t + step \<le> v \<and> v < mx \<and> step dvd (v - (t + step)) \<longrightarrow> \<not> schedule_matches s z v"
      using 1 True by blast
    show ?thesis
    proof (cases "next_loop s z step mx (t + step)")
      case None
      then show ?thesis using IH True above same n by (auto simp: all_conj_distrib)
    next
      case (Some u)
      then show ?thesis using IH True above same n 1(2) by auto
    qed
  next
    case False
    then show ?thesis using 1(2) by (subst next_loop.simps) (auto split: option.splits)
  qed
qed


lemma grid_pos: "0 < grid s"
  by (simp add: grid_def)

lemma search_start_least:
  assumes "grid s dvd v"
  shows "search_start s t \<le> v \<longleftrightarrow> t < v * second_ns"
proof -
  let ?g = "grid s" and ?q = "t div second_ns"
  have S: "0 < second_ns" by (simp add: second_ns_def)
  have g: "0 < ?g" by (rule grid_pos)
  have "(t + ?g * second_ns) div second_ns = ?q + ?g" using S by simp
  then have start: "search_start s t = ?g * (?q div ?g + 1)"
    by (simp add: search_start_def truncate_to_def minus_mod_eq_mult_div [symmetric] distrib_left)
  obtain k where v: "v = ?g * k" using assms by (rule dvdE)
  have "search_start s t \<le> v \<longleftrightarrow> ?q div ?g < k"
    using g by (simp add: start v mult_le_cancel_left_pos del: distrib_left) linarith
  also have "\<dots> \<longleftrightarrow> ?q < v"
    using div_less_int [OF g, of ?q k] by (simp add: v)
  also have "\<dots> \<longleftrightarrow> t < v * second_ns"
    using div_less_int [OF S, of t v] by (simp add: mult.commute)
  finally show ?thesis .
qed

lemma search_start_grid: "grid s dvd search_start s t"
  by (simp add: search_start_def truncate_to_def minus_mod_eq_mult_div)

text \<open>
  C20. In every location, \<open>Next\<close> returns the first instant strictly after the given time
  that matches the schedule, among the whole seconds of a six field schedule and the
  whole minutes of a five field one, if there is one before the same date four years
  later; otherwise it returns the zero time.
\<close>

theorem sched_next_is_first:
  "let mx = add_date z (search_start s t) 4 0 0 in
   (\<exists>u. sched_Next s t z = u * second_ns \<and> t < u * second_ns \<and> u < mx \<and> grid s dvd u \<and> schedule_matches s z u
      \<and> (\<forall>v. grid s dvd v \<and> t < v * second_ns \<and> v < u \<longrightarrow> \<not> schedule_matches s z v))
   \<or> sched_Next s t z = zero_time
      \<and> (\<forall>v. grid s dvd v \<and> t < v * second_ns \<and> v < mx \<longrightarrow> \<not> schedule_matches s z v)"
proof -
  let ?u = "search_start s t"
  let ?mx = "add_date z ?u 4 0 0"
  have d: "grid s dvd (v - ?u) \<longleftrightarrow> grid s dvd v" for v
    using search_start_grid by (simp add: dvd_diff_right_iff dvd_diff_left_iff)
  note spec = next_loop_spec [OF grid_pos [of s], where s = s and z = z and mx = ?mx and t = ?u, unfolded d]
  show ?thesis
  proof (cases "next_loop s z (grid s) ?mx ?u")
    case None
    then show ?thesis using spec search_start_least [of s _ t]
      by (auto simp: sched_Next_def Let_def)
  next
    case (Some u)
    then show ?thesis using spec search_start_least [of s _ t]
      by (auto simp: sched_Next_def Let_def)
  qed
qed

theorem sched_next_is_first_witness:
  "sched_Next \<lparr>m_seconds = ExactMatcher 0, m_minutes = WildcardMatcher, m_hours = WildcardMatcher,
     m_days = WildcardMatcher, m_months = WildcardMatcher, m_weekdays = WildcardMatcher, m_hasSecs = False\<rparr> 5 utc
   = 60 * second_ns \<and> (5::int) < 60 * second_ns"
proof -
  define s where "s = \<lparr>m_seconds = ExactMatcher 0, m_minutes = WildcardMatcher, m_hours = WildcardMatcher,
     m_days = WildcardMatcher, m_months = WildcardMatcher, m_weekdays = WildcardMatcher, m_hasSecs = False\<rparr>"
  have v: "sched_Next s 5 utc = 60 * second_ns" unfolding s_def by code_simp
  have "60 * second_ns \<noteq> zero_time" by (simp add: zero_time_def second_ns_def)
  then have "\<exists>u. 60 * second_ns = u * second_ns \<and> 5 < u * second_ns"
    using sched_next_is_first [of utc s 5, unfolded Let_def v] by blast
  then have "(5::int) < 60 * second_ns" by metis
  then show ?thesis using v unfolding s_def by (rule conjI [rotated])
qed

subsection \<open>Day of month or day of week\<close>

text \<open>
  The expressions that the README lists for the first day of every month, for every
  Sunday and for daily at midnight run at the same instants, every midnight: a day
  matches if the day of month or the day of week does, and \<open>*\<close> matches every day.
\<close>

theorem monthly_and_weekly_run_daily:
  "\<forall>expr \<in> {''0 0 1 * *'', ''0 0 * * 0'', ''0 0 * * *''}. \<exists>s. ParseCronExpression expr = Inr s \<and>
     (\<forall>z u. schedule_matches s z u \<longleftrightarrow> clock_hour z u = 0 \<and> clock_minute z u = 0 \<and> clock_second z u = 0)"
proof -
  have p: "ParseCronExpression ''0 0 1 * *'' = Inr \<lparr>m_seconds = ExactMatcher 0, m_minutes = ExactMatcher 0,
      m_hours = ExactMatcher 0, m_days = ExactMatcher 1, m_months = WildcardMatcher,
      m_weekdays = WildcardMatcher, m_hasSecs = False\<rparr>"
    "ParseCronExpression ''0 0 * * 0'' = Inr \<lparr>m_seconds = ExactMatcher 0, m_minutes = ExactMatcher 0,
      m_hours = ExactMatcher 0, m_days = WildcardMatcher, m_months = WildcardMatcher,
      m_weekdays = ExactMatcher 0, m_hasSecs = False\<rparr>"
    "ParseCronExpression ''0 0 * * *'' = Inr \<lparr>m_seconds = ExactMatcher 0, m_minutes = ExactMatcher 0,
      m_hours = ExactMatcher 0, m_days = WildcardMatcher, m_months = WildcardMatcher,
      m_weekdays = WildcardMatcher, m_hasSecs = False\<rparr>"
    by code_simp+
  then show ?thesis by (auto simp: schedule_matches_def)
qed

theorem monthly_and_weekly_run_daily_witness:
  "\<exists>s. ParseCronExpression ''0 0 * * 0'' = Inr s \<and>
     schedule_matches s utc 0 = (clock_hour utc 0 = 0 \<and> clock_minute utc 0 = 0 \<and> clock_second utc 0 = 0)"
  using monthly_and_weekly_run_daily [THEN bspec, of "''0 0 * * 0''"] by blast

subsection \<open>A schedule that never matches\<close>

lemma february_days: "month_of d = 2 \<Longrightarrow> day_of d \<le> 29"
  using month_of_bounds [of d] month_start_Suc [of 2 "year_of d"]
  by (simp add: day_of_def month_lengths_def split: if_splits)

text \<open>The time a job waits for its next run: \<open>time.Until\<close>, and a timer does not wait for a negative one.\<close>

definition run_delay :: "cron_schedule \<Rightarrow> int \<Rightarrow> zone \<Rightarrow> int" where
  "run_delay s now z = max 0 (time_sub (sched_Next s now z) now)"

text \<open>
  The documented weekday 7 is no Sunday: it never matches. With it a parsed schedule
  may have no activation at all; then \<open>Next\<close> returns the zero time, the timer of the job
  fires at once, and the handler runs in a loop without any delay.
\<close>

theorem unmatched_schedule_runs_without_delay:
  "\<exists>s. ParseCronExpression ''0 0 30 2 7'' = Inr s \<and> (\<forall>z u. \<not> schedule_matches s z u) \<and>
     (\<forall>z now. sched_Next s now z = zero_time) \<and> (\<forall>z now. zero_time \<le> now \<longrightarrow> run_delay s now z = 0)"
proof -
  define s where "s = \<lparr>m_seconds = ExactMatcher 0, m_minutes = ExactMatcher 0,
      m_hours = ExactMatcher 0, m_days = ExactMatcher 30, m_months = ExactMatcher 2,
      m_weekdays = ExactMatcher 7, m_hasSecs = False\<rparr>"
  have p: "ParseCronExpression ''0 0 30 2 7'' = Inr s" unfolding s_def by code_simp
  have n: "\<not> schedule_matches s z u" for z u
  proof
    assume m: "schedule_matches s z u"
    have "clock_weekday z u < 7" by (simp add: clock_weekday_def weekday_of_def)
    then have "month_of (clock_day z u) = 2" "day_of (clock_day z u) = 30"
      using m by (auto simp: schedule_matches_def s_def clock_month_def clock_mday_def)
    then show False using february_days [of "clock_day z u"] by simp
  qed
  have z: "sched_Next s now z = zero_time" for now z
  proof -
    have "next_loop s z (grid s) mx u = None" for mx u
      using next_loop_spec [OF grid_pos [of s], where s = s and z = z and mx = mx and t = u] n by (auto split: option.splits)
    then show ?thesis by (simp add: sched_Next_def Let_def)
  qed
  have "run_delay s now z = 0" if "zero_time \<le> now" for now z
    using that by (simp add: run_delay_def z time_sub_def min_int64_def max_int64_def)
  then show ?thesis using p n z by blast
qed

theorem unmatched_schedule_runs_without_delay_witness:
  "\<exists>s. ParseCronExpression ''0 0 30 2 7'' = Inr s \<and> run_delay s 0 utc = 0"
proof -
  have "zero_time \<le> 0" by (simp add: zero_time_def second_ns_def)
  then show ?thesis using unmatched_schedule_runs_without_delay by blast
qed

end
