(* ===== verification/SchedulerRunner.thy ===== *)
theory SchedulerRunner
  imports SchedulerParser
begin

section \<open>The job scheduler (plugin/scheduler/scheduler.go, job.go, middleware.go)\<close>

text \<open>
  Jobs are validated when they are registered; \<open>Start\<close> launches one goroutine per job and
  \<open>Stop\<close> ends them. The iteration order of Go's map of jobs is the parameter \<open>order\<close>.
\<close>

subsection \<open>Jobs\<close>

record job =
  j_Name :: string
  j_Schedule :: string
  j_Timezone :: string
  j_Handler :: bool   \<comment> \<open>whether it is not nil\<close>

datatype scheduler_error =
    NilJob
  | NameRequired
  | ScheduleRequired
  | InvalidExpression sched_error
  | HandlerRequired
  | AlreadyRegistered string
  | AlreadyRunning
  | ScheduleNotParsed string sched_error
  | NotRunning
  | ContextEnded

definition Validate :: "job \<Rightarrow> scheduler_error option" where
  "Validate j =
     (if j_Name j = [] then Some NameRequired
      else if j_Schedule j = [] then Some ScheduleRequired
      else case ParseCronExpression (j_Schedule j) of
          Inl e \<Rightarrow> Some (InvalidExpression e)
        | Inr _ \<Rightarrow> if \<not> j_Handler j then Some HandlerRequired else None)"

subsection \<open>The scheduler\<close>

text \<open>
  A registered job keeps the pointer of the caller, so its fields are those the caller sees in
  \<open>s_heap\<close> at the moment they are read. \<open>rj_cancelFn\<close> is the goroutine that the cancel function
  of the last start reaches.
\<close>

record registeredJob =
  rj_job :: nat
  rj_cancelFn :: "nat option"

record goroutine =
  g_id :: nat
  g_job :: nat
  g_schedule :: cron_schedule
  g_cancelled :: bool

record scheduler =
  s_heap :: "nat \<Rightarrow> job"
  s_jobs :: "(string \<times> registeredJob) list"
  s_running :: bool
  s_stopClosed :: bool
  s_live :: "goroutine list"
  s_next :: nat

definition scheduler_New :: "(nat \<Rightarrow> job) \<Rightarrow> scheduler" where
  "scheduler_New heap = \<lparr>s_heap = heap, s_jobs = [], s_running = False, s_stopClosed = False, s_live = [], s_next = 0\<rparr>"

datatype call_result = Success | Failure scheduler_error | Panicking

definition Register :: "nat option \<Rightarrow> scheduler \<Rightarrow> call_result \<times> scheduler" where
  "Register p s =
     (case p of
        None \<Rightarrow> (Failure NilJob, s)
      | Some p \<Rightarrow>
          (let j = s_heap s p in
           case Validate j of
             Some e \<Rightarrow> (Failure e, s)
           | None \<Rightarrow>
               (case map_of (s_jobs s) (j_Name j) of
                  Some _ \<Rightarrow> (Failure (AlreadyRegistered (j_Name j)), s)
                | None \<Rightarrow> (Success, s\<lparr>s_jobs := (j_Name j, \<lparr>rj_job = p, rj_cancelFn = None\<rparr>) # s_jobs s\<rparr>))))"

definition set_cancelFn :: "string \<Rightarrow> nat \<Rightarrow> (string \<times> registeredJob) list \<Rightarrow> (string \<times> registeredJob) list" where
  "set_cancelFn n g jobs = map (\<lambda>(m, rj). (m, if m = n then rj\<lparr>rj_cancelFn := Some g\<rparr> else rj)) jobs"

text \<open>
  The loop of \<open>Start\<close> over the names of the map in some order; an error leaves the goroutines
  launched so far running.
\<close>

fun launch :: "string list \<Rightarrow> scheduler \<Rightarrow> call_result \<times> scheduler" where
  "launch [] s = (Success, s\<lparr>s_running := True\<rparr>)"
| "launch (n # ns) s =
     (case map_of (s_jobs s) n of
        None \<Rightarrow> launch ns s
      | Some rj \<Rightarrow>
          (let j = s_heap s (rj_job rj) in
           case ParseCronExpression (j_Schedule j) of
             Inl e \<Rightarrow> (Failure (ScheduleNotParsed (j_Name j) e), s)
           | Inr sc \<Rightarrow> launch ns (s\<lparr>s_jobs := set_cancelFn n (s_next s) (s_jobs s),
               s_live := s_live s @ [\<lparr>g_id = s_next s, g_job = rj_job rj, g_schedule = sc, g_cancelled = False\<rparr>],
               s_next := s_next s + 1\<rparr>)))"

definition sched_Start :: "string list \<Rightarrow> scheduler \<Rightarrow> call_result \<times> scheduler" where
  "sched_Start order s = (if s_running s then (Failure AlreadyRunning, s) else launch order s)"

text \<open>
  \<open>Stop\<close> cancels the last context of every job and closes \<open>stopCh\<close>, which panics when it is
  closed already. Then it waits: if the caller's context ends before the goroutines do, it
  returns and they are left to end by themselves.
\<close>

definition cancel_all :: "scheduler \<Rightarrow> scheduler" where
  "cancel_all s = s\<lparr>s_live := map (\<lambda>g. if Some (g_id g) \<in> (rj_cancelFn \<circ> snd) ` set (s_jobs s)
     then g\<lparr>g_cancelled := True\<rparr> else g) (s_live s)\<rparr>"

definition sched_Stop :: "bool \<Rightarrow> scheduler \<Rightarrow> call_result \<times> scheduler" where
  "sched_Stop in_time s =
     (if \<not> s_running s then (Failure NotRunning, s)
      else
        (let s1 = cancel_all (s\<lparr>s_running := False\<rparr>) in
         if s_stopClosed s1 then (Panicking, s1)
         else
           (let s2 = s1\<lparr>s_stopClosed := True\<rparr> in
            if in_time then (Success, s2\<lparr>s_live := []\<rparr>) else (Failure ContextEnded, s2))))"

text \<open>A goroutine that is cancelled, or finds \<open>stopCh\<close> closed, returns between two runs of its job.\<close>

definition may_end :: "scheduler \<Rightarrow> goroutine \<Rightarrow> bool" where
  "may_end s g \<longleftrightarrow> g \<in> set (s_live s) \<and> (g_cancelled g \<or> s_stopClosed s)"

definition any_order :: "scheduler \<Rightarrow> string list \<Rightarrow> bool" where
  "any_order s order \<longleftrightarrow> distinct order \<and> set order = fst ` set (s_jobs s)"

text \<open>The calls, the end of a goroutine, and a change the caller makes to one of its jobs.\<close>

inductive scheduler_step :: "scheduler \<Rightarrow> scheduler \<Rightarrow> bool" where
  "scheduler_step s (snd (Register p s))"
| "any_order s order \<Longrightarrow> scheduler_step s (snd (sched_Start order s))"
| "scheduler_step s (snd (sched_Stop in_time s))"
| "may_end s g \<Longrightarrow> scheduler_step s (s\<lparr>s_live := remove1 g (s_live s)\<rparr>)"
| "scheduler_step s (s\<lparr>s_heap := (s_heap s)(p := j)\<rparr>)"

text \<open>What holds in every scheduler: names and goroutines are unique.\<close>

definition scheduler_inv :: "scheduler \<Rightarrow> bool" where
  "scheduler_inv s \<longleftrightarrow> distinct (map fst (s_jobs s)) \<and> distinct (map g_id (s_live s)) \<and>
     (\<forall>g \<in> set (s_live s). g_id g < s_next s)"

text \<open>The job registered under a name, as it is now, and whether its schedule still parses.\<close>

definition job_ptr :: "scheduler \<Rightarrow> string \<Rightarrow> nat" where
  "job_ptr s n = rj_job (the (map_of (s_jobs s) n))"

definition job_now :: "scheduler \<Rightarrow> string \<Rightarrow> job" where
  "job_now s n = s_heap s (job_ptr s n)"

definition parses :: "job \<Rightarrow> bool" where
  "parses j \<longleftrightarrow> (\<exists>sc. ParseCronExpression (j_Schedule j) = Inr sc)"

lemma map_of_set_cancelFn:
  "map_of (set_cancelFn n g jobs) m =
     map_option (\<lambda>rj. if m = n then rj\<lparr>rj_cancelFn := Some g\<rparr> else rj) (map_of jobs m)"
  by (induction jobs) (auto simp: set_cancelFn_def)

lemma fst_set_cancelFn [simp]: "map fst (set_cancelFn n g jobs) = map fst jobs"
  by (induction jobs) (auto simp: set_cancelFn_def)

lemma job_now_set_cancelFn:
  assumes "m \<in> fst ` set (s_jobs s)"
  shows "job_ptr (s\<lparr>s_jobs := set_cancelFn n g (s_jobs s), s_live := l, s_next := k\<rparr>) m = job_ptr s m"
    "job_now (s\<lparr>s_jobs := set_cancelFn n g (s_jobs s), s_live := l, s_next := k\<rparr>) m = job_now s m"
  using assms
  by (cases "map_of (s_jobs s) m"; force simp: job_now_def job_ptr_def map_of_set_cancelFn map_of_eq_None_iff)+

text \<open>What a launch adds: one goroutine for each name, until a schedule does not parse.\<close>

lemma launch_result:
  assumes "set ns \<subseteq> fst ` set (s_jobs s)" "launch ns s = (r, t)"
  obtains new where "s_live t = s_live s @ new" "map fst (s_jobs t) = map fst (s_jobs s)" "s_heap t = s_heap s"
    "s_stopClosed t = s_stopClosed s" "s_next t = s_next s + length new" "map g_id new = [s_next s..<s_next t]"
    "\<forall>g \<in> set new. \<not> g_cancelled g"
    "\<forall>n \<in> set (take (length new) ns). parses (job_now s n)"
    "map (\<lambda>g. (g_job g, Inr (g_schedule g))) new =
       map (\<lambda>n. (job_ptr s n, ParseCronExpression (j_Schedule (job_now s n)))) (take (length new) ns)"
    "if \<forall>n \<in> set ns. parses (job_now s n) then r = Success \<and> s_running t \<and> length new = length ns
     else s_running t = s_running s \<and> (\<exists>e. r = Failure e) \<and> length new < length ns \<and>
       \<not> parses (job_now s (ns ! length new))"
  using assms
proof (induction ns arbitrary: s thesis)
  case Nil
  from Nil.prems(3) show ?case by (intro Nil.prems(1) [of "[]"]) auto
next
  case (Cons n ns)
  obtain rj where rj: "map_of (s_jobs s) n = Some rj"
    using Cons.prems(2) by (cases "map_of (s_jobs s) n") (auto simp: map_of_eq_None_iff)
  have now: "job_ptr s n = rj_job rj" "job_now s n = s_heap s (rj_job rj)" by (simp_all add: job_now_def job_ptr_def rj)
  show ?case
  proof (cases "ParseCronExpression (j_Schedule (s_heap s (rj_job rj)))")
    case (Inl e)
    then have "\<not> parses (job_now s n)" by (simp add: parses_def now)
    with Inl rj Cons.prems(3) show ?thesis by (intro Cons.prems(1) [of "[]"]) (auto simp: Let_def)
  next
    case (Inr sc)
    let ?g = "\<lparr>g_id = s_next s, g_job = rj_job rj, g_schedule = sc, g_cancelled = False\<rparr>"
    let ?s = "s\<lparr>s_jobs := set_cancelFn n (s_next s) (s_jobs s), s_live := s_live s @ [?g], s_next := s_next s + 1\<rparr>"
    have run: "launch ns ?s = (r, t)" using Cons.prems(3) rj Inr by (simp add: Let_def)
    have names: "fst ` set (s_jobs ?s) = fst ` set (s_jobs s)"
      using arg_cong [OF fst_set_cancelFn [of n "s_next s" "s_jobs s"], of set] by (simp only: set_map) simp
    with Cons.prems(2) have sub: "set ns \<subseteq> fst ` set (s_jobs ?s)" by simp
    have same: "job_ptr ?s m = job_ptr s m" "job_now ?s m = job_now s m" if "m \<in> set ns" for m
      using that Cons.prems(2) by (intro job_now_set_cancelFn; auto)+
    have ok: "parses (job_now s n)" using Inr by (simp add: parses_def now)
    from Cons.IH [OF _ sub run] obtain new where new: "s_live t = s_live ?s @ new"
      "map fst (s_jobs t) = map fst (s_jobs ?s)" "s_heap t = s_heap ?s"
      "s_stopClosed t = s_stopClosed ?s" "s_next t = s_next ?s + length new" "map g_id new = [s_next ?s..<s_next t]"
      "\<forall>g \<in> set new. \<not> g_cancelled g"
      "\<forall>m \<in> set (take (length new) ns). parses (job_now ?s m)"
      "map (\<lambda>g. (g_job g, Inr (g_schedule g))) new =
         map (\<lambda>m. (job_ptr ?s m, ParseCronExpression (j_Schedule (job_now ?s m)))) (take (length new) ns)"
      "if \<forall>m \<in> set ns. parses (job_now ?s m) then r = Success \<and> s_running t \<and> length new = length ns
       else s_running t = s_running ?s \<and> (\<exists>e. r = Failure e) \<and> length new < length ns \<and>
         \<not> parses (job_now ?s (ns ! length new))"
      by blast
    have take: "m \<in> set (take k ns) \<Longrightarrow> m \<in> set ns" for m k by (rule in_set_takeD)
    show ?thesis
    proof (rule Cons.prems(1) [of "?g # new"])
      show "map g_id (?g # new) = [s_next s..<s_next t]"
        using new(5,6) upt_rec [of "s_next s" "s_next t"] by (simp del: upt_Suc)
      show "\<forall>m \<in> set (take (length (?g # new)) (n # ns)). parses (job_now s m)"
        using new(8) same take ok by auto
      show "map (\<lambda>g. (g_job g, Inr (g_schedule g))) (?g # new) =
          map (\<lambda>m. (job_ptr s m, ParseCronExpression (j_Schedule (job_now s m)))) (take (length (?g # new)) (n # ns))"
        using new(9) same take Inr by (simp add: now)
      show "if \<forall>m \<in> set (n # ns). parses (job_now s m) then r = Success \<and> s_running t \<and> length (?g # new) = length (n # ns)
       else s_running t = s_running s \<and> (\<exists>e. r = Failure e) \<and> length (?g # new) < length (n # ns) \<and>
         \<not> parses (job_now s ((n # ns) ! length (?g # new)))"
        using new(10) same ok by (auto split: if_splits)
    qed (use new in simp_all)
  qed
qed

lemma launch_live:
  assumes "any_order s order" "sched_Start order s = (r, t)" "scheduler_inv s"
  shows "scheduler_inv t"
proof (cases "s_running s")
  case False
  with assms(2) have "launch order s = (r, t)" by (simp add: sched_Start_def)
  moreover have "set order \<subseteq> fst ` set (s_jobs s)" using assms(1) by (simp add: any_order_def)
  ultimately obtain new where new: "s_live t = s_live s @ new" "map fst (s_jobs t) = map fst (s_jobs s)"
    "s_next t = s_next s + length new" "map g_id new = [s_next s..<s_next t]"
    by (elim launch_result)
  have ids: "g_id ` set new = {s_next s..<s_next t}" using arg_cong [OF new(4), of set] by simp
  have old: "g_id ` set (s_live s) \<subseteq> {..<s_next s}" using assms(3) by (auto simp: scheduler_inv_def)
  have "distinct (map g_id new)" unfolding new(4) by simp
  then have "distinct (map g_id (s_live t))"
    using assms(3) ids old by (auto simp: new(1) scheduler_inv_def)
  moreover have "g_id g < s_next t" if "g \<in> set (s_live t)" for g
    using that ids old new(3) by (auto simp: new(1))
  ultimately show ?thesis using assms(3) new(2) by (simp add: scheduler_inv_def)
qed (use assms in \<open>simp add: sched_Start_def\<close>)

lemma scheduler_step_inv: "scheduler_step s t \<Longrightarrow> scheduler_inv s \<Longrightarrow> scheduler_inv t"
proof (induction rule: scheduler_step.induct)
  case (1 s p)
  then show ?case
    by (auto simp: Register_def scheduler_inv_def map_of_eq_None_iff Let_def split: option.splits)
next
  case (2 s order)
  then show ?case using launch_live by (metis prod.collapse)
next
  case (3 s in_time)
  have "map g_id (s_live (cancel_all s)) = map g_id (s_live s)" for s by (simp add: cancel_all_def)
  moreover have "g_id ` set (s_live (cancel_all s)) = g_id ` set (s_live s)" for s
    using calculation arg_cong [of _ _ set] by (metis set_map)
  ultimately show ?case
    using 3 by (auto simp: sched_Stop_def scheduler_inv_def Let_def) (auto simp: cancel_all_def)
next
  case (4 s g)
  then show ?case
    by (auto simp: scheduler_inv_def distinct_map inj_on_def dest: notin_set_remove1)
qed (simp add: scheduler_inv_def)

interpretation scheduler: state_machine "\<lambda>s. \<exists>heap. s = scheduler_New heap" scheduler_step scheduler_inv
  by unfold_locales (auto simp: scheduler_New_def scheduler_inv_def dest: scheduler_step_inv)

text \<open>While the caller leaves its jobs alone, they stay as valid as they were when registered.\<close>

definition jobs_valid :: "scheduler \<Rightarrow> bool" where
  "jobs_valid s \<longleftrightarrow> (\<forall>(n, rj) \<in> set (s_jobs s). Validate (s_heap s (rj_job rj)) = None)"

definition quiet_step :: "scheduler \<Rightarrow> scheduler \<Rightarrow> bool" where
  "quiet_step s t \<longleftrightarrow> scheduler_step s t \<and> s_heap t = s_heap s"

lemma launch_jobs_valid:
  "launch ns s = (r, t) \<Longrightarrow> jobs_valid s \<Longrightarrow> jobs_valid t"
proof (induction ns arbitrary: s)
  case (Cons n ns)
  have keep: "jobs_valid (s\<lparr>s_jobs := set_cancelFn n g (s_jobs s), s_live := l, s_next := k\<rparr>)" for g l k
    using Cons.prems(2) by (auto simp: jobs_valid_def set_cancelFn_def)
  from Cons.prems Cons.IH [OF _ keep] Cons.IH show ?case
    by (auto simp: Let_def split: option.splits sum.splits)
qed (auto simp: jobs_valid_def)

interpretation caller: state_machine "\<lambda>s. \<exists>heap. s = scheduler_New heap" quiet_step jobs_valid
proof
  show "jobs_valid s" if "\<exists>heap. s = scheduler_New heap" for s
    using that by (auto simp: scheduler_New_def jobs_valid_def)
  show "jobs_valid t" if "jobs_valid s" "quiet_step s t" for s t
  proof -
    from that(2) have "scheduler_step s t" "s_heap t = s_heap s" by (simp_all add: quiet_step_def)
    then show ?thesis
    proof (cases rule: scheduler_step.cases)
      case (1 p)
      with that(1) show ?thesis by (auto simp: Register_def jobs_valid_def Let_def split: option.splits)
    next
      case (2 order)
      with that(1) launch_jobs_valid [of order s "fst (launch order s)" "snd (launch order s)"] show ?thesis
        by (auto simp: sched_Start_def)
    qed (use that(1) \<open>s_heap t = s_heap s\<close> in \<open>auto simp: sched_Stop_def cancel_all_def jobs_valid_def Let_def\<close>)
  qed
qed

lemma Validate_parses: "Validate j = None \<Longrightarrow> parses j"
  by (auto simp: Validate_def parses_def split: if_splits sum.splits)

lemma valid_job_now: "jobs_valid s \<Longrightarrow> n \<in> fst ` set (s_jobs s) \<Longrightarrow> parses (job_now s n)"
  by (cases "map_of (s_jobs s) n")
    (auto simp: jobs_valid_def job_now_def job_ptr_def map_of_eq_None_iff dest!: map_of_SomeD intro!: Validate_parses)

text \<open>
  C21. In every scheduler that calls, ending goroutines and changes of the caller to its jobs can
  build, names are unique, and so are the goroutines. Start on one that is not running succeeds
  exactly when the schedules of all registered jobs parse as the caller has them now, which they
  do when the caller left its jobs alone; then it adds one goroutine for every registered job,
  with that job and its parsed schedule, to those an earlier Stop left behind. If it fails, the
  scheduler is not running.
\<close>

theorem start_launches_every_job:
  assumes "scheduler_step\<^sup>*\<^sup>* (scheduler_New heap) s" and "\<not> s_running s" and "any_order s order"
    and "sched_Start order s = (r, t)"
  shows "distinct (map fst (s_jobs s)) \<and> distinct (map g_id (s_live t)) \<and>
    (quiet_step\<^sup>*\<^sup>* (scheduler_New heap) s \<longrightarrow> (\<forall>n \<in> set order. parses (job_now s n))) \<and>
    (if \<forall>n \<in> set order. parses (job_now s n)
     then r = Success \<and> s_running t \<and> (\<exists>new. s_live t = s_live s @ new \<and> (\<forall>g \<in> set new. \<not> g_cancelled g) \<and>
       map (\<lambda>g. (g_job g, Inr (g_schedule g))) new =
         map (\<lambda>n. (job_ptr s n, ParseCronExpression (j_Schedule (job_now s n)))) order)
     else (\<exists>e. r = Failure e) \<and> \<not> s_running t)"
proof -
  have i: "scheduler_inv s" using scheduler.inv_reachable [OF _ assms(1)] by blast
  have "scheduler_inv t" by (rule launch_live [OF assms(3,4) i])
  moreover have "\<forall>n \<in> set order. parses (job_now s n)" if "quiet_step\<^sup>*\<^sup>* (scheduler_New heap) s"
    using caller.inv_reachable [OF _ that] valid_job_now assms(3) by (auto simp: any_order_def)
  moreover have "set order \<subseteq> fst ` set (s_jobs s)" "launch order s = (r, t)"
    using assms(2-4) by (simp_all add: any_order_def sched_Start_def)
  then obtain new where new: "s_live t = s_live s @ new" "\<forall>g \<in> set new. \<not> g_cancelled g"
    "map (\<lambda>g. (g_job g, Inr (g_schedule g))) new =
       map (\<lambda>n. (job_ptr s n, ParseCronExpression (j_Schedule (job_now s n)))) (take (length new) order)"
    "if \<forall>n \<in> set order. parses (job_now s n) then r = Success \<and> s_running t \<and> length new = length order
     else s_running t = s_running s \<and> (\<exists>e. r = Failure e) \<and> length new < length order \<and>
       \<not> parses (job_now s (order ! length new))"
    by (elim launch_result)
  ultimately show ?thesis using i assms(2) by (auto simp: scheduler_inv_def)
qed

definition nightly :: job where
  "nightly = \<lparr>j_Name = ''nightly'', j_Schedule = ''0 2 * * *'', j_Timezone = [], j_Handler = True\<rparr>"

definition with_nightly :: scheduler where
  "with_nightly = snd (Register (Some 0) (scheduler_New (\<lambda>_. nightly)))"

lemma nightly_valid: "Validate nightly = None"
  by code_simp

lemma with_nightly_eq:
  "with_nightly = (scheduler_New (\<lambda>_. nightly))\<lparr>s_jobs := [(''nightly'', \<lparr>rj_job = 0, rj_cancelFn = None\<rparr>)]\<rparr>"
proof -
  have "j_Name nightly = ''nightly''" by (simp add: nightly_def)
  then show ?thesis by (simp add: with_nightly_def Register_def scheduler_New_def nightly_valid)
qed

lemma with_nightly_reachable: "scheduler_step\<^sup>*\<^sup>* (scheduler_New (\<lambda>_. nightly)) with_nightly"
  unfolding with_nightly_def by (rule r_into_rtranclp) (rule scheduler_step.intros(1))

lemma nightly_order: "any_order with_nightly [''nightly'']" "\<not> s_running with_nightly"
  by (simp_all add: any_order_def with_nightly_eq scheduler_New_def)

lemma nightly_parses: "job_now with_nightly ''nightly'' = nightly" "parses nightly"
  using Validate_parses [OF nightly_valid] by (simp_all add: job_now_def job_ptr_def with_nightly_eq scheduler_New_def)

theorem start_launches_every_job_witness:
  "fst (sched_Start [''nightly''] with_nightly) = Success \<and>
   map g_job (s_live (snd (sched_Start [''nightly''] with_nightly))) = [0]"
proof -
  from start_launches_every_job [OF with_nightly_reachable nightly_order(2,1) prod.collapse [symmetric]]
  show ?thesis
    using nightly_parses by (auto simp: job_ptr_def with_nightly_eq scheduler_New_def map_eq_Cons_conv)
qed

text \<open>
  A scheduler does not survive a restart: \<open>Stop\<close> closes the stop channel and no call
  makes a new one, so after \<open>Start\<close>, \<open>Stop\<close> and another successful \<open>Start\<close> every goroutine may
  end at once, and the next \<open>Stop\<close> panics.
\<close>

theorem restart_then_stop_panics:
  assumes "\<forall>n \<in> set order. parses (job_now s n)" and "any_order s order"
    and "sched_Start order (snd (sched_Stop b s)) = (r, t)" and "s_running s"
  shows "r = Success \<and> (\<forall>g \<in> set (s_live t). may_end t g) \<and> fst (sched_Stop b' t) = Panicking"
proof -
  let ?s = "snd (sched_Stop b s)"
  have s: "s_stopClosed ?s" "\<not> s_running ?s" "s_jobs ?s = s_jobs s" "s_heap ?s = s_heap s"
    using assms(4) by (auto simp: sched_Stop_def Let_def cancel_all_def)
  have now: "job_now ?s n = job_now s n" for n by (simp add: job_now_def job_ptr_def s)
  have "set order \<subseteq> fst ` set (s_jobs ?s)" "launch order ?s = (r, t)"
    using assms(2,3) s by (simp_all add: any_order_def sched_Start_def)
  then have "r = Success \<and> s_running t \<and> s_stopClosed t"
    using assms(1) s(1) by (elim launch_result) (auto simp: now)
  then show ?thesis by (simp add: may_end_def sched_Stop_def Let_def cancel_all_def)
qed

theorem restart_then_stop_panics_witness:
  "fst (sched_Stop True (snd (sched_Start [''nightly''] (snd (sched_Stop True
     (snd (sched_Start [''nightly''] with_nightly))))))) = Panicking"
proof -
  let ?s = "snd (sched_Start [''nightly''] with_nightly)"
  obtain sc where sc: "ParseCronExpression (j_Schedule nightly) = Inr sc" using nightly_parses(2) by (auto simp: parses_def)
  have "s_running ?s" "any_order ?s [''nightly'']" "job_now ?s ''nightly'' = nightly"
    by (simp_all add: sched_Start_def with_nightly_eq scheduler_New_def sc set_cancelFn_def any_order_def job_now_def job_ptr_def)
  then show ?thesis
    using restart_then_stop_panics [of "[''nightly'']" ?s, OF _ _ prod.collapse [symmetric]] nightly_parses(2) by simp
qed

subsection \<open>Middleware\<close>

text \<open>
  A handler gets the job name of its context and returns, returns an error, or panics;
  a panic in a goroutine of its own takes the whole process down, which is \<open>Crash\<close>. The
  log lists what the middleware reports.
\<close>

datatype handler_error = HandlerError string | JobPanicked string string | TimedOut string

datatype run_result = Finished | Erred handler_error | Panicked string | Crash

datatype log_event = JobStarted string | JobCompleted string | JobFailed string handler_error | OnPanic string string

type_synonym handler = "string option \<Rightarrow> run_result \<times> log_event list"

definition getJobName :: "string option \<Rightarrow> string" where
  "getJobName ctx = (case ctx of Some n \<Rightarrow> n | None \<Rightarrow> ''unknown'')"

text \<open>From the last middleware to the first, so the first one is outermost.\<close>

fun Chain :: "(handler \<Rightarrow> handler) list \<Rightarrow> handler \<Rightarrow> handler" where
  "Chain [] h = h"
| "Chain (m # ms) h = m (Chain ms h)"

definition Recovery :: "bool \<Rightarrow> handler \<Rightarrow> handler" where
  "Recovery onPanic next ctx =
     (case next ctx of
        (Panicked r, ev) \<Rightarrow>
          (Erred (JobPanicked (getJobName ctx) r),
           ev @ (if onPanic then [OnPanic (getJobName ctx) r] else []))
      | (x, ev) \<Rightarrow> (x, ev))"

definition Logging :: "handler \<Rightarrow> handler" where
  "Logging next ctx =
     (case next ctx of
        (Finished, ev) \<Rightarrow> (Finished, JobStarted (getJobName ctx) # ev @ [JobCompleted (getJobName ctx)])
      | (Erred e, ev) \<Rightarrow> (Erred e, JobStarted (getJobName ctx) # ev @ [JobFailed (getJobName ctx) e])
      | (x, ev) \<Rightarrow> (x, JobStarted (getJobName ctx) # ev))"

text \<open>
  The handler runs in a goroutine; the parameter tells whether it ends before the
  deadline. Reports of a handler that is abandoned at the deadline stay in the log.
\<close>

definition Timeout :: "bool \<Rightarrow> handler \<Rightarrow> handler" where
  "Timeout in_time next ctx =
     (case next ctx of
        (Panicked r, ev) \<Rightarrow> (Crash, ev)
      | (Crash, ev) \<Rightarrow> (Crash, ev)
      | (x, ev) \<Rightarrow> (if in_time then x else Erred (TimedOut (getJobName ctx)), ev))"

text \<open>
  In the combination the README recommends, with recovery outermost and the timeout
  innermost, a panic of the handler takes the process down, although recovery is said to
  catch panics from everything; with the timeout outside of recovery every panic becomes
  an error that is logged.
\<close>

theorem recovery_must_be_inside_timeout:
  assumes "h ctx = (Panicked r, ev)"
  shows "fst (Chain [Recovery p, Logging, Timeout f] h ctx) = Crash \<and>
    (\<exists>e. Chain [Timeout True, Logging, Recovery p] h ctx = (Erred e, JobStarted (getJobName ctx) # ev @
       (if p then [OnPanic (getJobName ctx) r] else []) @ [JobFailed (getJobName ctx) e]) \<and>
     e = JobPanicked (getJobName ctx) r)"
  using assms by (simp add: Recovery_def Logging_def Timeout_def)

theorem recovery_must_be_inside_timeout_witness:
  "fst (Chain [Recovery True, Logging, Timeout True] (\<lambda>_. (Panicked ''nil map'', [])) None) = Crash"
  using recovery_must_be_inside_timeout [of "\<lambda>_. (Panicked ''nil map'', [])" None "''nil map''" "[]" True True]
  by blast

end
