(* ===== verification/MemCache.thy ===== *)
theory MemCache
  imports Prelude "HOL-Library.Multiset"
begin

section \<open>The in-memory cache (store/cache/cache.go)\<close>

text \<open>
  A map from keys to values with expiration times, a separate counter of its items, and
  a bound on them. \<open>sync.Map.Range\<close> visits the entries in no particular order: the
  parameter \<open>order\<close> permutes the entries. Every call is modelled as one step; what two
  overlapping calls of \<open>Set\<close> can do to the counter is shown at the end.
\<close>

subsection \<open>Values, items, the cache\<close>

text \<open>The cases of the type switch in \<open>estimateSize\<close>; \<open>OtherValue\<close> is any other type.\<close>

datatype cache_value = StringValue string | BytesValue string | MapValue nat | OtherValue nat

definition estimateSize :: "cache_value \<Rightarrow> nat" where
  "estimateSize v =
     (case v of StringValue s \<Rightarrow> length s + 24 | BytesValue b \<Rightarrow> length b + 24
      | MapValue n \<Rightarrow> n * 64 | OtherValue _ \<Rightarrow> 64)"

record item =
  it_value :: cache_value
  it_expiration :: int
  it_size :: nat

record cache_config =
  DefaultTTL :: int
  CleanupInterval :: int
  MaxItems :: int
  OnEviction :: bool   \<comment> \<open>whether a callback is set\<close>

definition DefaultConfig :: cache_config where
  "DefaultConfig = \<lparr>DefaultTTL = 10 * minute_ns, CleanupInterval = 5 * minute_ns, MaxItems = 1000,
     OnEviction = False\<rparr>"

type_synonym entries = "(string \<times> item) list"

record cache =
  ch_data :: entries
  ch_count :: int
  ch_evicted :: "(string \<times> cache_value) list"   \<comment> \<open>calls of \<open>OnEviction\<close>\<close>
  ch_closed :: bool

definition cache_New :: cache where
  "cache_New = \<lparr>ch_data = [], ch_count = 0, ch_evicted = [], ch_closed = False\<rparr>"

definition load :: "string \<Rightarrow> cache \<Rightarrow> item option" where
  "load key c = map_of (ch_data c) key"

definition remove_keys :: "string set \<Rightarrow> cache \<Rightarrow> cache" where
  "remove_keys K c = c\<lparr>ch_data := filter (\<lambda>(k, _). k \<notin> K) (ch_data c)\<rparr>"

definition store_item :: "string \<Rightarrow> item \<Rightarrow> cache \<Rightarrow> cache" where
  "store_item key it c = c\<lparr>ch_data := (key, it) # filter (\<lambda>(k, _). k \<noteq> key) (ch_data c)\<rparr>"

definition add_count :: "int \<Rightarrow> cache \<Rightarrow> cache" where
  "add_count n c = c\<lparr>ch_count := ch_count c + n\<rparr>"

definition call_eviction :: "cache_config \<Rightarrow> entries \<Rightarrow> cache \<Rightarrow> cache" where
  "call_eviction cfg es c =
     (if OnEviction cfg then c\<lparr>ch_evicted := ch_evicted c @ map (\<lambda>(k, it). (k, it_value it)) es\<rparr> else c)"

subsection \<open>Choosing the oldest items\<close>

abbreviation expires :: "string \<times> item \<Rightarrow> int" where
  "expires e \<equiv> it_expiration (snd e)"

text \<open>The loop over \<open>i\<close> that finds the candidate with the latest expiration.\<close>

fun newest_from :: "entries \<Rightarrow> nat \<Rightarrow> nat list \<Rightarrow> nat" where
  "newest_from cs best [] = best"
| "newest_from cs best (i # is') =
     newest_from cs (if expires (cs ! best) < expires (cs ! i) then i else best) is'"

definition newestIdx :: "entries \<Rightarrow> nat" where
  "newestIdx cs = newest_from cs 0 [1..<length cs]"

fun candidates :: "nat \<Rightarrow> entries \<Rightarrow> entries \<Rightarrow> entries" where
  "candidates threshold cs [] = cs"
| "candidates threshold cs (e # es) =
     (if length cs < threshold then candidates threshold (cs @ [e]) es
      else if expires e < expires (cs ! newestIdx cs)
      then candidates threshold (cs[newestIdx cs := e]) es
      else candidates threshold cs es)"

definition cleanupOldest :: "cache_config \<Rightarrow> (entries \<Rightarrow> entries) \<Rightarrow> cache \<Rightarrow> cache" where
  "cleanupOldest cfg order c =
     (let threshold = nat (max (MaxItems cfg div 5) 1) in
      if ch_count c \<le> MaxItems cfg then c
      else
        (let cs = candidates threshold [] (order (ch_data c))
         in add_count (- int (length cs)) (call_eviction cfg cs (remove_keys (fst ` set cs) c))))"

subsection \<open>The operations\<close>

definition put_entry :: "string \<Rightarrow> item \<Rightarrow> cache \<Rightarrow> cache" where
  "put_entry key it c =
     store_item key it (if load key c \<noteq> None then remove_keys {key} c else add_count 1 c)"

definition SetWithTTL ::
  "cache_config \<Rightarrow> (entries \<Rightarrow> entries) \<Rightarrow> int \<Rightarrow> string \<Rightarrow> cache_value \<Rightarrow> int \<Rightarrow> cache \<Rightarrow> cache" where
  "SetWithTTL cfg order now key value ttl c =
     (let c2 = put_entry key \<lparr>it_value = value, it_expiration = now + ttl, it_size = estimateSize value\<rparr> c
      in if 0 < MaxItems cfg \<and> MaxItems cfg < ch_count c2 then cleanupOldest cfg order c2 else c2)"

definition cache_Set ::
  "cache_config \<Rightarrow> (entries \<Rightarrow> entries) \<Rightarrow> int \<Rightarrow> string \<Rightarrow> cache_value \<Rightarrow> cache \<Rightarrow> cache" where
  "cache_Set cfg order now key value c = SetWithTTL cfg order now key value (DefaultTTL cfg) c"

definition cache_Get :: "cache_config \<Rightarrow> int \<Rightarrow> string \<Rightarrow> cache \<Rightarrow> cache_value option \<times> cache" where
  "cache_Get cfg now key c =
     (case load key c of
        None \<Rightarrow> (None, c)
      | Some it \<Rightarrow>
          if it_expiration it < now
          then (None, call_eviction cfg [(key, it)] (add_count (-1) (remove_keys {key} c)))
          else (Some (it_value it), c))"

definition cache_Delete :: "cache_config \<Rightarrow> string \<Rightarrow> cache \<Rightarrow> cache" where
  "cache_Delete cfg key c =
     (case load key c of
        None \<Rightarrow> c
      | Some it \<Rightarrow> call_eviction cfg [(key, it)] (add_count (-1) (remove_keys {key} c)))"

definition cache_Clear :: "cache_config \<Rightarrow> (entries \<Rightarrow> entries) \<Rightarrow> cache \<Rightarrow> cache" where
  "cache_Clear cfg order c =
     (call_eviction cfg (order (ch_data c)) (remove_keys (fst ` set (ch_data c)) c))\<lparr>ch_count := 0\<rparr>"

definition cache_Size :: "cache \<Rightarrow> int" where
  "cache_Size c = ch_count c"

definition cache_Close :: "cache \<Rightarrow> cache" where
  "cache_Close c = (if ch_closed c then c else c\<lparr>ch_closed := True\<rparr>)"

text \<open>The clock is read anew for every entry that \<open>cleanup\<close> visits.\<close>

definition cleanup :: "cache_config \<Rightarrow> (entries \<Rightarrow> entries) \<Rightarrow> (string \<Rightarrow> int) \<Rightarrow> cache \<Rightarrow> cache" where
  "cleanup cfg order clk c =
     (let gone = filter (\<lambda>(k, it). it_expiration it < clk k) (order (ch_data c)) in
      if gone = [] then c
      else call_eviction cfg gone (add_count (- int (length gone)) (remove_keys (fst ` set gone) c)))"

text \<open>The cleanup loop ticks until the cache is closed.\<close>

inductive cache_step :: "cache_config \<Rightarrow> (entries \<Rightarrow> entries) \<Rightarrow> cache \<Rightarrow> cache \<Rightarrow> bool"
  for cfg :: cache_config and order :: "entries \<Rightarrow> entries" where
  "cache_step cfg order c (SetWithTTL cfg order now key v ttl c)"
| "cache_step cfg order c (snd (cache_Get cfg now key c))"
| "cache_step cfg order c (cache_Delete cfg key c)"
| "cache_step cfg order c (cache_Clear cfg order c)"
| "\<not> ch_closed c \<Longrightarrow> cache_step cfg order c (cleanup cfg order clk c)"
| "cache_step cfg order c (cache_Close c)"

inductive_cases cache_stepE: "cache_step cfg order c d"

subsection \<open>The candidates are the oldest items\<close>

lemma newest_from_spec:
  "best < length cs \<Longrightarrow> \<forall>i \<in> set is'. i < length cs \<Longrightarrow>
     newest_from cs best is' < length cs \<and>
     (\<forall>i \<in> insert best (set is'). expires (cs ! i) \<le> expires (cs ! newest_from cs best is'))"
proof (induction cs best is' rule: newest_from.induct)
  case (2 cs best i is')
  define b where "b = (if expires (cs ! best) < expires (cs ! i) then i else best)"
  have b: "expires (cs ! best) \<le> expires (cs ! b)" "expires (cs ! i) \<le> expires (cs ! b)" "b < length cs"
    using "2.prems" by (simp_all add: b_def)
  define r where "r = newest_from cs b is'"
  have IH: "r < length cs \<and> (\<forall>k \<in> insert b (set is'). expires (cs ! k) \<le> expires (cs ! r))"
  proof (rule "2.IH" [folded b_def r_def])
    show "b < length cs" by (rule b(3))
    show "\<forall>i \<in> set is'. i < length cs" using "2.prems"(2) by (metis list.set_intros(2))
  qed
  then have "expires (cs ! b) \<le> expires (cs ! r)" by simp
  then have "expires (cs ! best) \<le> expires (cs ! r)" "expires (cs ! i) \<le> expires (cs ! r)"
    using b(1,2) by linarith+
  moreover have "newest_from cs best (i # is') = r" by (simp add: r_def b_def)
  ultimately show ?case using IH by simp
qed simp

lemma newestIdx_spec:
  assumes "cs \<noteq> []"
  shows "newestIdx cs < length cs" "e \<in> set cs \<Longrightarrow> expires e \<le> expires (cs ! newestIdx cs)"
proof -
  have s: "newestIdx cs < length cs \<and>
      (\<forall>i \<in> insert 0 (set [1..<length cs]). expires (cs ! i) \<le> expires (cs ! newestIdx cs))"
    unfolding newestIdx_def using assms by (intro newest_from_spec) auto
  then show "newestIdx cs < length cs" by blast
  show "expires e \<le> expires (cs ! newestIdx cs)" if "e \<in> set cs"
  proof -
    obtain i where i: "i < length cs" "e = cs ! i" using \<open>e \<in> set cs\<close> by (metis in_set_conv_nth)
    then have "i \<in> insert 0 (set [1..<length cs])" by auto
    then show ?thesis using s i by blast
  qed
qed

text \<open>\<open>left\<close> are the entries seen that are no candidates.\<close>

definition oldest_of :: "nat \<Rightarrow> entries \<Rightarrow> entries \<Rightarrow> bool" where
  "oldest_of n seen cs \<longleftrightarrow> (\<exists>left. mset seen = mset cs + left \<and> length cs = min n (length seen) \<and>
     (\<forall>e \<in> set cs. \<forall>x \<in># left. expires e \<le> expires x))"

lemma candidates_oldest:
  assumes "0 < n" and "oldest_of n seen cs"
  shows "oldest_of n (seen @ es) (candidates n cs es)"
  using assms
proof (induction n cs es arbitrary: seen rule: candidates.induct)
  case (2 n cs e es)
  obtain left where l: "mset seen = mset cs + left" "length cs = min n (length seen)"
    "\<And>a x. a \<in> set cs \<Longrightarrow> x \<in># left \<Longrightarrow> expires a \<le> expires x"
    using "2.prems"(2) by (auto simp: oldest_of_def)
  have len: "length seen = length cs + size left" using l(1) by (metis size_mset size_union)
  consider (fill) "length cs < n" | (swap) "\<not> length cs < n" "expires e < expires (cs ! newestIdx cs)"
    | (keep) "\<not> length cs < n" "\<not> expires e < expires (cs ! newestIdx cs)" by blast
  then show ?case
  proof cases
    case fill
    then have "size left = 0" using l(2) len by linarith
    then have "left = {#}" by simp
    then have "mset (seen @ [e]) = mset (cs @ [e]) + {#}" using l(1) by simp
    moreover have "length (cs @ [e]) = min n (length (seen @ [e]))"
      using fill len \<open>size left = 0\<close> unfolding length_append by simp
    ultimately have "oldest_of n (seen @ [e]) (cs @ [e])"
      unfolding oldest_of_def by (intro exI [of _ "{#}"]) simp
    then show ?thesis using "2.IH"(1) [OF fill "2.prems"(1), of "seen @ [e]"] fill by simp
  next
    case swap
    let ?j = "newestIdx cs"
    have ne: "cs \<noteq> []" using swap(1) "2.prems"(1) by auto
    note j = newestIdx_spec [OF ne]
    have m: "mset (cs[?j := e]) = add_mset e (mset cs - {#cs ! ?j#})"
      using j(1) by (rule mset_update)
    have "cs ! ?j \<in># mset cs" using j(1) by simp
    then have "mset (seen @ [e]) = mset (cs[?j := e]) + add_mset (cs ! ?j) left"
      using l(1) m by simp
    moreover have "expires a \<le> expires x" if "a \<in> set (cs[?j := e])" "x \<in># add_mset (cs ! ?j) left" for a x
    proof -
      have a: "a = e \<or> a \<in> set cs" using that(1) set_update_subset_insert by fastforce
      have "expires a \<le> expires (cs ! ?j)" using a swap(2) j(2) [of a] by (elim disjE) simp_all
      moreover have "expires (cs ! ?j) \<le> expires x" if "x \<in># left" using l(3) j(1) that by simp
      ultimately show ?thesis using that(2) by (auto intro: order_trans)
    qed
    moreover have "length (cs[?j := e]) = min n (length (seen @ [e]))"
      using l(2) swap(1) unfolding length_append length_list_update by linarith
    ultimately have "oldest_of n (seen @ [e]) (cs[?j := e])" unfolding oldest_of_def by blast
    then show ?thesis using "2.IH"(2) [OF swap "2.prems"(1), of "seen @ [e]"] swap by simp
  next
    case keep
    have ne: "cs \<noteq> []" using keep(1) "2.prems"(1) by auto
    have "expires a \<le> expires e" if "a \<in> set cs" for a using newestIdx_spec(2) [OF ne that] keep(2) by simp
    then have "oldest_of n (seen @ [e]) cs"
      using l keep(1) len unfolding oldest_of_def by (intro exI [of _ "add_mset e left"]) auto
    then show ?thesis using "2.IH"(3) [OF keep "2.prems"(1), of "seen @ [e]"] keep by simp
  qed
qed simp

lemma candidates_spec:
  assumes "0 < n"
  shows "oldest_of n es (candidates n [] es)"
  using candidates_oldest [OF assms, of "[]" "[]" es] by (simp add: oldest_of_def)


subsection \<open>The counter and the bound\<close>

definition fair :: "(entries \<Rightarrow> entries) \<Rightarrow> bool" where
  "fair order \<longleftrightarrow> (\<forall>es. mset (order es) = mset es)"

definition cache_inv :: "cache_config \<Rightarrow> cache \<Rightarrow> bool" where
  "cache_inv cfg c \<longleftrightarrow> distinct (map fst (ch_data c)) \<and> ch_count c = int (length (ch_data c))
     \<and> (0 < MaxItems cfg \<longrightarrow> ch_count c \<le> MaxItems cfg)"

definition counted :: "cache \<Rightarrow> bool" where
  "counted c \<longleftrightarrow> distinct (map fst (ch_data c)) \<and> ch_count c = int (length (ch_data c))"

lemma frame [frame_simps]:
  "ch_data (add_count n c) = ch_data c" "ch_count (add_count n c) = ch_count c + n"
  "ch_data (call_eviction cfg es c) = ch_data c" "ch_count (call_eviction cfg es c) = ch_count c"
  "ch_count (remove_keys K c) = ch_count c" "ch_count (store_item k it c) = ch_count c"
  "ch_data (remove_keys K c) = filter (\<lambda>(k, _). k \<notin> K) (ch_data c)"
  "ch_data (store_item k it c) = (k, it) # filter (\<lambda>(k', _). k' \<noteq> k) (ch_data c)"
  by (simp_all add: add_count_def call_eviction_def remove_keys_def store_item_def)

text \<open>Removing the keys of a part of the entries removes just that part.\<close>

lemma filter_keys_length:
  assumes "distinct (map fst es)" and "distinct gone" and "set gone \<subseteq> set es"
  shows "length (filter (\<lambda>(k, _). k \<notin> fst ` set gone) es) + length gone = length es"
proof -
  have "filter (\<lambda>(k, _). k \<notin> fst ` set gone) es = filter (\<lambda>e. e \<notin> set gone) es"
    using assms(1,3) inj_on_image_mem_iff [of fst "set es" _ "set gone"]
    by (intro filter_cong) (auto simp: distinct_map split_beta)
  moreover have "length (filter (\<lambda>e. e \<in> set gone) es) = card (set gone)"
  proof -
    have "distinct (filter (\<lambda>e. e \<in> set gone) es)" using assms(1) by (simp add: distinct_map)
    moreover have "set (filter (\<lambda>e. e \<in> set gone) es) = set gone" using assms(3) by auto
    ultimately show ?thesis by (metis distinct_card)
  qed
  moreover have "length (filter (\<lambda>e. e \<in> set gone) es) + length (filter (\<lambda>e. e \<notin> set gone) es) = length es"
    by (rule sum_length_filter_compl)
  ultimately show ?thesis using assms(2) by (simp add: distinct_card)
qed

lemma counted_remove:
  assumes "counted c" and "distinct gone" and "set gone \<subseteq> set (ch_data c)"
  shows "counted (add_count (- int (length gone)) (call_eviction cfg es (remove_keys (fst ` set gone) c)))"
proof -
  have "distinct (map fst (filter P (ch_data c)))" for P
    using assms(1) by (simp add: counted_def distinct_map inj_on_def)
  then show ?thesis using assms filter_keys_length [of "ch_data c" gone]
    by (simp add: counted_def frame_simps)
qed

lemma mset_subset_distinct:
  assumes "mset es = mset cs + left" and "distinct es"
  shows "distinct cs" "set cs \<subseteq> set es"
proof -
  have "mset cs \<subseteq># mset es" using assms(1) by simp
  then show "set cs \<subseteq> set es" by (rule set_mset_mono [of "mset cs" "mset es", simplified])
  show "distinct cs" using assms
    by (metis distinct_append mset_append ex_mset mset_eq_imp_distinct_iff)
qed

text \<open>What an eviction removes: the \<open>threshold\<close> oldest entries.\<close>

definition eviction_threshold :: "cache_config \<Rightarrow> nat" where
  "eviction_threshold cfg = nat (max (MaxItems cfg div 5) 1)"

lemma cleanupOldest_evicts:
  assumes "fair order" and "counted c" and "MaxItems cfg < ch_count c"
  obtains cs where
    "cleanupOldest cfg order c = add_count (- int (length cs)) (call_eviction cfg cs (remove_keys (fst ` set cs) c))"
    "distinct cs" "set cs \<subseteq> set (ch_data c)" "length cs = min (eviction_threshold cfg) (length (ch_data c))"
    "\<And>e x. e \<in> set cs \<Longrightarrow> x \<in> set (ch_data c) \<Longrightarrow> x \<notin> set cs \<Longrightarrow> expires e \<le> expires x"
proof -
  let ?cs = "candidates (eviction_threshold cfg) [] (order (ch_data c))"
  have "0 < eviction_threshold cfg" by (simp add: eviction_threshold_def)
  from candidates_spec [OF this, of "order (ch_data c)"] obtain left where
    l: "mset (order (ch_data c)) = mset ?cs + left"
      "length ?cs = min (eviction_threshold cfg) (length (order (ch_data c)))"
      "\<forall>e \<in> set ?cs. \<forall>x \<in># left. expires e \<le> expires x" unfolding oldest_of_def by blast
  have o: "mset (order (ch_data c)) = mset (ch_data c)" using assms(1) by (simp add: fair_def)
  have "distinct (ch_data c)" using assms(2) by (simp add: counted_def distinct_map)
  then have s: "distinct ?cs" "set ?cs \<subseteq> set (ch_data c)"
    using mset_subset_distinct [of "ch_data c" ?cs left] l(1) o by simp_all
  have "x \<in># left" if "x \<in> set (ch_data c)" "x \<notin> set ?cs" for x
    using that l(1) o by (metis set_mset_mset union_iff)
  moreover have "length (order (ch_data c)) = length (ch_data c)" using o by (metis size_mset)
  moreover have "cleanupOldest cfg order c =
      add_count (- int (length ?cs)) (call_eviction cfg ?cs (remove_keys (fst ` set ?cs) c))"
    using assms(3) by (simp add: cleanupOldest_def Let_def eviction_threshold_def)
  ultimately show thesis using that [of ?cs] s l(2,3) by simp
qed

lemma counted_put_entry:
  assumes "counted c"
  shows "counted (put_entry key it c)" "ch_count (put_entry key it c) \<le> ch_count c + 1"
proof -
  have d: "distinct (map fst (filter P (ch_data c)))" for P
    using assms(1) by (simp add: counted_def distinct_map inj_on_def)
  show "counted (put_entry key it c)"
  proof (cases "load key c")
    case None
    then have "key \<notin> fst ` set (ch_data c)" by (simp add: load_def map_of_eq_None_iff)
    then have "filter (\<lambda>(k, _). k \<noteq> key) (ch_data c) = ch_data c" by (force simp: filter_id_conv)
    then show ?thesis using None assms(1) \<open>key \<notin> _\<close>
      by (simp add: put_entry_def counted_def frame_simps)
  next
    case (Some it0)
    then have m: "(key, it0) \<in> set (ch_data c)" by (auto simp: load_def dest: map_of_SomeD)
    have "length (filter (\<lambda>(k, _). k \<notin> fst ` set [(key, it0)]) (ch_data c)) + length [(key, it0)] = length (ch_data c)"
      using assms(1) m by (intro filter_keys_length) (auto simp: counted_def)
    moreover have "filter (\<lambda>(k, _). k \<noteq> key) (filter (\<lambda>(k, _). k \<noteq> key) es) = filter (\<lambda>(k, _). k \<noteq> key) es"
      for es :: entries by (simp add: filter_filter)
    ultimately show ?thesis using Some assms(1) d
      by (auto simp: put_entry_def counted_def frame_simps)
  qed
qed (auto simp: put_entry_def frame_simps)


definition bounded_count :: "cache_config \<Rightarrow> cache \<Rightarrow> bool" where
  "bounded_count cfg c \<longleftrightarrow> (0 < MaxItems cfg \<longrightarrow> ch_count c \<le> MaxItems cfg)"

lemma cache_inv_split: "cache_inv cfg c \<longleftrightarrow> counted c \<and> bounded_count cfg c"
  by (auto simp: cache_inv_def counted_def bounded_count_def)

lemma bounded_decrease: "cache_inv cfg c \<Longrightarrow> ch_count d \<le> ch_count c \<Longrightarrow> bounded_count cfg d"
  by (auto simp: cache_inv_def bounded_count_def)

lemma SetWithTTL_inv [inv_intros]:
  assumes "fair order" and "cache_inv cfg c"
  shows "cache_inv cfg (SetWithTTL cfg order now key v ttl c)"
proof -
  let ?it = "\<lparr>it_value = v, it_expiration = now + ttl, it_size = estimateSize v\<rparr>"
  let ?c2 = "put_entry key ?it c"
  have c2: "counted ?c2" "0 < MaxItems cfg \<Longrightarrow> ch_count ?c2 \<le> MaxItems cfg + 1"
    using counted_put_entry [of c key ?it] assms(2) by (force simp: cache_inv_split bounded_count_def)+
  show ?thesis
  proof (cases "0 < MaxItems cfg \<and> MaxItems cfg < ch_count ?c2")
    case True
    then obtain cs where cs:
      "cleanupOldest cfg order ?c2 = add_count (- int (length cs)) (call_eviction cfg cs (remove_keys (fst ` set cs) ?c2))"
      "distinct cs" "set cs \<subseteq> set (ch_data ?c2)" "length cs = min (eviction_threshold cfg) (length (ch_data ?c2))"
      using cleanupOldest_evicts [OF assms(1) c2(1)] by metis
    have "1 \<le> eviction_threshold cfg" by (simp add: eviction_threshold_def)
    then have "1 \<le> length cs" using cs(4) True c2(1) by (auto simp: counted_def)
    then have "bounded_count cfg (cleanupOldest cfg order ?c2)"
      using c2(2) True by (simp add: bounded_count_def cs(1) frame_simps)
    moreover have "counted (cleanupOldest cfg order ?c2)"
      unfolding cs(1) using c2(1) cs(2,3) by (rule counted_remove)
    ultimately show ?thesis using True by (simp add: SetWithTTL_def Let_def cache_inv_split)
  next
    case False
    then show ?thesis using c2(1) by (auto simp: SetWithTTL_def Let_def cache_inv_split bounded_count_def)
  qed
qed

lemma remove_one_inv:
  assumes "cache_inv cfg c" and "load key c = Some it"
  shows "cache_inv cfg (call_eviction cfg es (add_count (-1) (remove_keys {key} c)))"
proof -
  have "(key, it) \<in> set (ch_data c)" using assms(2) by (auto simp: load_def dest: map_of_SomeD)
  then have "counted (add_count (- int (length [(key, it)])) (call_eviction cfg es (remove_keys (fst ` set [(key, it)]) c)))"
    using assms(1) by (intro counted_remove) (auto simp: cache_inv_split)
  then have "counted (call_eviction cfg es (add_count (-1) (remove_keys {key} c)))"
    by (simp add: counted_def frame_simps)
  moreover have "bounded_count cfg (call_eviction cfg es (add_count (-1) (remove_keys {key} c)))"
    using assms(1) by (rule bounded_decrease) (simp add: frame_simps)
  ultimately show ?thesis by (simp add: cache_inv_split)
qed

lemma Get_inv [inv_intros]: "cache_inv cfg c \<Longrightarrow> cache_inv cfg (snd (cache_Get cfg now key c))"
  by (auto simp: cache_Get_def remove_one_inv split: option.splits)

lemma Delete_inv [inv_intros]: "cache_inv cfg c \<Longrightarrow> cache_inv cfg (cache_Delete cfg key c)"
  by (auto simp: cache_Delete_def remove_one_inv split: option.splits)

lemma Clear_inv [inv_intros]: "cache_inv cfg (cache_Clear cfg order c)"
proof -
  have "filter (\<lambda>(k, _). k \<notin> fst ` set es) es = []" for es :: entries
    by (force simp: filter_empty_conv)
  then show ?thesis by (simp add: cache_Clear_def cache_inv_def frame_simps)
qed

lemma cleanup_inv [inv_intros]:
  assumes "fair order" and "cache_inv cfg c"
  shows "cache_inv cfg (cleanup cfg order clk c)"
proof -
  let ?gone = "filter (\<lambda>(k, it). it_expiration it < clk k) (order (ch_data c))"
  have o: "mset (order (ch_data c)) = mset (ch_data c)" using assms(1) by (simp add: fair_def)
  have "distinct (ch_data c)" using assms(2) by (simp add: cache_inv_def distinct_map)
  then have d: "distinct ?gone" "set ?gone \<subseteq> set (ch_data c)"
    using o mset_eq_imp_distinct_iff [OF o] mset_eq_setD [OF o] by auto
  have "counted (add_count (- int (length ?gone)) (call_eviction cfg ?gone (remove_keys (fst ` set ?gone) c)))"
    using assms(2) d by (intro counted_remove) (auto simp: cache_inv_split)
  then have "counted (call_eviction cfg ?gone (add_count (- int (length ?gone)) (remove_keys (fst ` set ?gone) c)))"
    by (simp add: counted_def frame_simps)
  moreover have "bounded_count cfg (call_eviction cfg ?gone (add_count (- int (length ?gone)) (remove_keys (fst ` set ?gone) c)))"
    using assms(2) by (rule bounded_decrease) (simp add: frame_simps)
  ultimately show ?thesis using assms(2) by (simp add: cleanup_def Let_def cache_inv_split del: set_filter)
qed

lemma Close_inv [inv_intros]: "cache_inv cfg c \<Longrightarrow> cache_inv cfg (cache_Close c)"
  by (auto simp: cache_Close_def cache_inv_def)

lemma cache_step_inv: "fair order \<Longrightarrow> cache_inv cfg c \<Longrightarrow> cache_step cfg order c d \<Longrightarrow> cache_inv cfg d"
  by (elim cache_stepE) (simp_all add: inv_intros)

lemma cache_reachable_inv:
  assumes "fair order" and "(cache_step cfg order)\<^sup>*\<^sup>* cache_New c"
  shows "cache_inv cfg c"
  using assms(2)
proof (induction rule: rtranclp_induct)
  case base
  then show ?case by (simp add: cache_inv_def cache_New_def)
next
  case (step c d)
  then show ?case using cache_step_inv [OF assms(1)] by blast
qed

text \<open>
  C23. As long as calls do not overlap, the counter is the number of entries, and with a
  positive \<open>MaxItems\<close> there are never more entries than that, whatever sequence of
  calls, clean-ups and evictions has happened and in whatever order the map was visited.
\<close>

theorem cache_counter_and_bound:
  assumes "fair order" and "(cache_step cfg order)\<^sup>*\<^sup>* cache_New c"
  shows "cache_Size c = int (length (ch_data c)) \<and> distinct (map fst (ch_data c)) \<and>
    (0 < MaxItems cfg \<longrightarrow> int (length (ch_data c)) \<le> MaxItems cfg)"
  using cache_reachable_inv [OF assms] by (auto simp: cache_inv_def cache_Size_def)

definition tiny_config :: cache_config where
  "tiny_config = \<lparr>DefaultTTL = 10, CleanupInterval = 5, MaxItems = 1, OnEviction = True\<rparr>"

lemma fair_id: "fair (\<lambda>es. es)"
  by (simp add: fair_def)

theorem cache_counter_and_bound_witness:
  "length (ch_data (SetWithTTL tiny_config (\<lambda>es. es) 3 ''b'' (StringValue ''y'') 5
     (SetWithTTL tiny_config (\<lambda>es. es) 0 ''a'' (StringValue ''x'') 5 cache_New))) \<le> 1"
proof -
  let ?c = "SetWithTTL tiny_config (\<lambda>es. es) 0 ''a'' (StringValue ''x'') 5 cache_New"
  have "(cache_step tiny_config (\<lambda>es. es))\<^sup>*\<^sup>* cache_New ?c" by (blast intro: cache_step.intros(1))
  then have "(cache_step tiny_config (\<lambda>es. es))\<^sup>*\<^sup>* cache_New
      (SetWithTTL tiny_config (\<lambda>es. es) 3 ''b'' (StringValue ''y'') 5 ?c)"
    by (rule rtranclp.rtrancl_into_rtrancl) (rule cache_step.intros(1))
  from cache_counter_and_bound [OF fair_id this] show ?thesis by (simp add: tiny_config_def)
qed


subsection \<open>A map with expiration times\<close>

type_synonym contents = "string \<Rightarrow> (cache_value \<times> int) option"

definition contents_of :: "cache \<Rightarrow> contents" where
  "contents_of c = (\<lambda>k. map_option (\<lambda>it. (it_value it, it_expiration it)) (map_of (ch_data c) k))"

definition spec_get :: "int \<Rightarrow> string \<Rightarrow> contents \<Rightarrow> cache_value option" where
  "spec_get now k m = (case m k of Some (v, e) \<Rightarrow> if now \<le> e then Some v else None | None \<Rightarrow> None)"

definition spec_forget :: "string set \<Rightarrow> contents \<Rightarrow> contents" where
  "spec_forget K m = (\<lambda>k. if k \<in> K then None else m k)"

lemma map_of_filter_keys: "map_of (filter (\<lambda>(k, _). P k) es) k = (if P k then map_of es k else None)"
  by (induction es) auto

lemma contents_frame [frame_simps]:
  "contents_of (add_count n c) = contents_of c" "contents_of (call_eviction cfg es c) = contents_of c"
  "contents_of (remove_keys K c) = spec_forget K (contents_of c)"
  "contents_of (store_item key it c) = (contents_of c)(key \<mapsto> (it_value it, it_expiration it))"
  by (auto simp: contents_of_def frame_simps map_of_filter_keys spec_forget_def)

lemma contents_load: "contents_of c key = map_option (\<lambda>it. (it_value it, it_expiration it)) (load key c)"
  by (simp add: contents_of_def load_def)

lemma contents_put: "contents_of (put_entry key it c) = (contents_of c)(key \<mapsto> (it_value it, it_expiration it))"
  by (auto simp: put_entry_def frame_simps spec_forget_def)

lemma contents_entry:
  "cache_inv cfg c \<or> counted c \<Longrightarrow> (k, it) \<in> set (ch_data c) \<Longrightarrow> contents_of c k = Some (it_value it, it_expiration it)"
  by (auto simp: contents_of_def cache_inv_def counted_def)

lemma contents_dom: "dom (contents_of c) = fst ` set (ch_data c)"
  by (simp add: contents_of_def dom_def map_of_eq_None_iff flip: not_None_eq) 

lemma contents_card: "counted c \<Longrightarrow> int (card (dom (contents_of c))) = ch_count c"
  by (simp add: contents_dom counted_def distinct_card flip: set_map)

text \<open>A new key for a full cache.\<close>

definition overflows :: "cache_config \<Rightarrow> string \<Rightarrow> contents \<Rightarrow> bool" where
  "overflows cfg key m \<longleftrightarrow> 0 < MaxItems cfg \<and> key \<notin> dom m \<and> int (card (dom m)) = MaxItems cfg"

lemma SetWithTTL_contents:
  assumes "fair order" and "cache_inv cfg c"
  obtains K where
    "contents_of (SetWithTTL cfg order now key v ttl c) =
       spec_forget K ((contents_of c)(key \<mapsto> (v, now + ttl)))"
    and "if overflows cfg key (contents_of c)
      then card K = nat (max (MaxItems cfg div 5) 1) \<and> K \<subseteq> insert key (dom (contents_of c)) \<and>
        (\<forall>k \<in> K. \<forall>k' \<in> insert key (dom (contents_of c)) - K.
           snd (the (((contents_of c)(key \<mapsto> (v, now + ttl))) k)) \<le>
           snd (the (((contents_of c)(key \<mapsto> (v, now + ttl))) k')))
      else K = {}"
proof -
  let ?it = "\<lparr>it_value = v, it_expiration = now + ttl, it_size = estimateSize v\<rparr>"
  let ?c2 = "put_entry key ?it c"
  let ?m = "(contents_of c)(key \<mapsto> (v, now + ttl))"
  have m: "contents_of ?c2 = ?m" by (simp add: contents_put)
  have c: "counted c" "bounded_count cfg c" using assms(2) by (simp_all add: cache_inv_split)
  note c2 = counted_put_entry [OF c(1), of key ?it]
  show thesis
  proof (cases "0 < MaxItems cfg \<and> MaxItems cfg < ch_count ?c2")
    case False
    then have "contents_of (SetWithTTL cfg order now key v ttl c) = spec_forget {} ?m"
      using m by (auto simp: SetWithTTL_def Let_def spec_forget_def)
    moreover have "\<not> overflows cfg key (contents_of c)"
    proof
      assume o: "overflows cfg key (contents_of c)"
      then have "load key c = None" by (simp add: overflows_def contents_load domIff)
      then have "ch_count ?c2 = ch_count c + 1" by (simp add: put_entry_def frame_simps)
      with o False contents_card [OF c(1)] show False by (simp add: overflows_def)
    qed
    ultimately show thesis using that [of "{}"] by simp
  next
    case True
    then obtain cs where cs:
      "cleanupOldest cfg order ?c2 = add_count (- int (length cs)) (call_eviction cfg cs (remove_keys (fst ` set cs) ?c2))"
      "distinct cs" "set cs \<subseteq> set (ch_data ?c2)" "length cs = min (eviction_threshold cfg) (length (ch_data ?c2))"
      "\<And>e x. e \<in> set cs \<Longrightarrow> x \<in> set (ch_data ?c2) \<Longrightarrow> x \<notin> set cs \<Longrightarrow> expires e \<le> expires x"
      using cleanupOldest_evicts [OF assms(1) c2(1)] by metis
    let ?K = "fst ` set cs"
    have e: "contents_of (SetWithTTL cfg order now key v ttl c) = spec_forget ?K ?m"
      using True m by (simp add: SetWithTTL_def Let_def cs(1) frame_simps)
    have n: "ch_count c = MaxItems cfg" "ch_count ?c2 = ch_count c + 1"
      using True c2(2) c(2) by (simp_all add: bounded_count_def)
    then have k: "load key c = None" by (auto simp: put_entry_def frame_simps split: if_splits)
    have dom2: "fst ` set (ch_data ?c2) = insert key (dom (contents_of c))"
      using m contents_dom [of ?c2] by (simp add: dom_fun_upd)
    have entry: "?m x = Some (it_value i, it_expiration i)" if "(x, i) \<in> set (ch_data ?c2)" for x i
      using contents_entry [OF disjI2 [OF c2(1)] that] unfolding m .
    have "inj_on fst (set cs)" using c2(1) cs(3) by (auto simp: counted_def distinct_map intro: inj_on_subset)
    then have "card ?K = length cs" using cs(2) by (simp add: card_image distinct_card)
    moreover have "length (ch_data ?c2) = Suc (card (dom (contents_of c)))"
      using n(2) contents_card [OF c(1)] c2(1) by (simp add: counted_def)
    moreover have "snd (the (?m k)) \<le> snd (the (?m k'))"
      if K: "k \<in> ?K" and K': "k' \<in> insert key (dom (contents_of c)) - ?K" for k k'
    proof -
      obtain it where it: "(k, it) \<in> set cs" using K by auto
      have "k' \<in> fst ` set (ch_data ?c2)" using K' unfolding dom2 by blast
      then obtain it' where i: "(k', it') \<in> set (ch_data ?c2)" by auto
      moreover have "(k', it') \<notin> set cs" using K' by (metis DiffD2 fst_conv image_eqI)
      ultimately have it': "(k', it') \<in> set (ch_data ?c2)" "(k', it') \<notin> set cs" by simp_all
      have "it_expiration it \<le> it_expiration it'" using cs(5) [OF it it'] by simp
      then show ?thesis
        using entry [of k it] entry [of k' it'] it it' cs(3) by auto
    qed
    moreover have "?K \<subseteq> insert key (dom (contents_of c))" using cs(3) dom2 by (metis image_mono)
    moreover have "overflows cfg key (contents_of c)"
      using k True n(1) contents_card [OF c(1)] by (simp add: overflows_def contents_load domIff)
    moreover have "min (eviction_threshold cfg) (Suc (card (dom (contents_of c)))) = nat (max (MaxItems cfg div 5) 1)"
      using True n(1) contents_card [OF c(1)] by (simp add: eviction_threshold_def)
    ultimately show thesis using that [OF e] cs(4) by simp
  qed
qed

lemma cleanup_contents:
  assumes "fair order" and "cache_inv cfg c"
  shows "contents_of (cleanup cfg order clk c) =
    (\<lambda>k. case contents_of c k of Some (w, e) \<Rightarrow> if e < clk k then None else Some (w, e) | None \<Rightarrow> None)"
proof -
  let ?gone = "filter (\<lambda>(k, it). it_expiration it < clk k) (order (ch_data c))"
  have o: "set (order (ch_data c)) = set (ch_data c)" using assms(1) mset_eq_setD by (auto simp: fair_def)
  have e: "contents_of (cleanup cfg order clk c) = spec_forget (fst ` set ?gone) (contents_of c)"
    by (cases "?gone = []") (simp_all add: cleanup_def Let_def frame_simps spec_forget_def del: set_filter)
  have k: "k \<in> fst ` set ?gone \<longleftrightarrow> (\<exists>it. map_of (ch_data c) k = Some it \<and> it_expiration it < clk k)" for k
    using assms(2) o by (force simp: cache_inv_def)
  show ?thesis unfolding e
    unfolding spec_forget_def k contents_of_def by (auto simp: fun_eq_iff split: option.splits)
qed

text \<open>
  C22. The cache refines a map with expiration times: \<open>Get\<close> returns what the map holds and
  has not expired, and drops an expired entry; \<open>Delete\<close>, \<open>Clear\<close> and the clean-up remove
  just what they should; \<open>SetWithTTL\<close> stores the value, and exactly where a new key makes a
  full cache overflow it drops as many entries as a fifth of the bound, but at least one: stored
  ones or the new one, of which none expires later than an entry that stays. Calls do not
  overlap here, and a value that expires is compared with the time of each call.
\<close>

theorem cache_refines_expiring_map:
  assumes "fair order" and "cache_inv cfg c"
  shows "fst (cache_Get cfg now key c) = spec_get now key (contents_of c) \<and>
    contents_of (snd (cache_Get cfg now key c)) =
      (if spec_get now key (contents_of c) = None then spec_forget {key} (contents_of c) else contents_of c) \<and>
    contents_of (cache_Delete cfg key c) = spec_forget {key} (contents_of c) \<and>
    contents_of (cache_Clear cfg order c) = Map.empty \<and>
    contents_of (cleanup cfg order clk c) =
      (\<lambda>k. case contents_of c k of Some (w, e) \<Rightarrow> if e < clk k then None else Some (w, e) | None \<Rightarrow> None) \<and>
    (\<exists>K. contents_of (SetWithTTL cfg order now key v ttl c) =
        spec_forget K ((contents_of c)(key \<mapsto> (v, now + ttl))) \<and>
      (if overflows cfg key (contents_of c)
       then card K = nat (max (MaxItems cfg div 5) 1) \<and> K \<subseteq> insert key (dom (contents_of c)) \<and>
         (\<forall>k \<in> K. \<forall>k' \<in> insert key (dom (contents_of c)) - K.
            snd (the (((contents_of c)(key \<mapsto> (v, now + ttl))) k)) \<le>
            snd (the (((contents_of c)(key \<mapsto> (v, now + ttl))) k')))
       else K = {}))"
proof (intro conjI)
  show "fst (cache_Get cfg now key c) = spec_get now key (contents_of c)"
    by (auto simp: cache_Get_def spec_get_def contents_load split: option.splits)
  show "contents_of (snd (cache_Get cfg now key c)) =
      (if spec_get now key (contents_of c) = None then spec_forget {key} (contents_of c) else contents_of c)"
    using contents_load [of c key]
    by (auto simp: cache_Get_def spec_get_def frame_simps spec_forget_def fun_eq_iff split: option.splits)
  show "contents_of (cache_Delete cfg key c) = spec_forget {key} (contents_of c)"
    using contents_load [of c key]
    by (auto simp: cache_Delete_def frame_simps spec_forget_def fun_eq_iff split: option.splits)
  have "contents_of (cache_Clear cfg order c) = spec_forget (fst ` set (ch_data c)) (contents_of c)"
    by (simp add: cache_Clear_def contents_of_def frame_simps map_of_filter_keys spec_forget_def fun_eq_iff)
  then show "contents_of (cache_Clear cfg order c) = Map.empty"
    by (auto simp: spec_forget_def fun_eq_iff contents_dom [symmetric])
  show "contents_of (cleanup cfg order clk c) =
      (\<lambda>k. case contents_of c k of Some (w, e) \<Rightarrow> if e < clk k then None else Some (w, e) | None \<Rightarrow> None)"
    using cleanup_contents [OF assms] .
  show "\<exists>K. contents_of (SetWithTTL cfg order now key v ttl c) =
        spec_forget K ((contents_of c)(key \<mapsto> (v, now + ttl))) \<and>
      (if overflows cfg key (contents_of c)
       then card K = nat (max (MaxItems cfg div 5) 1) \<and> K \<subseteq> insert key (dom (contents_of c)) \<and>
         (\<forall>k \<in> K. \<forall>k' \<in> insert key (dom (contents_of c)) - K.
            snd (the (((contents_of c)(key \<mapsto> (v, now + ttl))) k)) \<le>
            snd (the (((contents_of c)(key \<mapsto> (v, now + ttl))) k')))
       else K = {})"
    by (rule SetWithTTL_contents [OF assms, of now key v ttl]) blast
qed


lemma tiny_full:
  "contents_of (SetWithTTL tiny_config rev 0 ''a'' (MapValue 1) 5 cache_New) = [''a'' \<mapsto> (MapValue 1, 5)]"
  by (simp add: SetWithTTL_def put_entry_def load_def cache_New_def frame_simps contents_of_def tiny_config_def
      Let_def fun_eq_iff store_item_def add_count_def)

theorem cache_refines_expiring_map_witness:
  "\<exists>K. card K = 1 \<and> K \<subseteq> {''a'', ''b''} \<and>
     contents_of (SetWithTTL tiny_config rev 1 ''b'' (MapValue 2) 7
       (SetWithTTL tiny_config rev 0 ''a'' (MapValue 1) 5 cache_New)) =
     spec_forget K [''a'' \<mapsto> (MapValue 1, 5), ''b'' \<mapsto> (MapValue 2, 8)]"
proof -
  let ?c = "SetWithTTL tiny_config rev 0 ''a'' (MapValue 1) 5 cache_New"
  have f: "fair rev" by (simp add: fair_def)
  have "cache_inv tiny_config cache_New" by (simp add: cache_inv_def cache_New_def tiny_config_def)
  then have "cache_inv tiny_config ?c" by (rule SetWithTTL_inv [OF f])
  from cache_refines_expiring_map [OF f this, of 1 "''b''" undefined "MapValue 2" 7]
  have "\<exists>K. contents_of (SetWithTTL tiny_config rev 1 ''b'' (MapValue 2) 7 ?c) =
        spec_forget K ((contents_of ?c)(''b'' \<mapsto> (MapValue 2, 1 + 7))) \<and>
      (if overflows tiny_config ''b'' (contents_of ?c)
       then card K = nat (max (MaxItems tiny_config div 5) 1) \<and> K \<subseteq> insert ''b'' (dom (contents_of ?c)) \<and>
         (\<forall>k \<in> K. \<forall>k' \<in> insert ''b'' (dom (contents_of ?c)) - K.
            snd (the (((contents_of ?c)(''b'' \<mapsto> (MapValue 2, 1 + 7))) k)) \<le>
            snd (the (((contents_of ?c)(''b'' \<mapsto> (MapValue 2, 1 + 7))) k')))
       else K = {})"
    by blast
  moreover have "overflows tiny_config ''b'' (contents_of ?c)" unfolding tiny_full by (simp add: overflows_def tiny_config_def)
  ultimately show ?thesis unfolding tiny_full by (auto simp: tiny_config_def)
qed

subsection \<open>Overlapping calls\<close>

text \<open>
  The parts of \<open>SetWithTTL\<close> that another call can come between: the look-up with the
  update of the counter, and the store. (The deletion of an existing entry belongs to
  the first part.)
\<close>

definition set_first :: "string \<Rightarrow> cache \<Rightarrow> cache" where
  "set_first key c = (if load key c \<noteq> None then remove_keys {key} c else add_count 1 c)"

lemma put_entry_parts: "put_entry key it c = store_item key it (set_first key c)"
  by (simp add: put_entry_def set_first_def)

text \<open>
  Two overlapping calls that set the same new key, the second looking it up before
  the first has stored it, count it twice: the counter then exceeds the number of entries
  by one, and deleting the key leaves an empty slot that stays counted.
\<close>

theorem overlapping_sets_count_twice:
  assumes "cache_inv cfg c" and "load key c = None"
    and "d = store_item key it2 (store_item key it1 (set_first key (set_first key c)))"
  shows "cache_Size d = int (length (ch_data d)) + 1 \<and>
    cache_Size (cache_Delete cfg key d) = int (length (ch_data (cache_Delete cfg key d))) + 1"
proof -
  have n: "key \<notin> fst ` set (ch_data c)" using assms(2) by (simp add: load_def map_of_eq_None_iff)
  then have f: "filter (\<lambda>(k, _). k \<noteq> key) (ch_data c) = ch_data c" by (force simp: filter_id_conv)
  have l: "load key (add_count 1 c) = None" using assms(2) by (simp add: load_def frame_simps)
  have d: "ch_data d = (key, it2) # ch_data c" "ch_count d = ch_count c + 2"
    using assms(2,3) l f by (simp_all add: set_first_def frame_simps)
  then have "load key d = Some it2" by (simp add: load_def)
  then show ?thesis using d f assms(1)
    by (simp add: cache_Size_def cache_Delete_def frame_simps cache_inv_def)
qed

theorem overlapping_sets_count_twice_witness:
  "\<exists>d it. d = store_item ''k'' it (store_item ''k'' it (set_first ''k'' (set_first ''k'' cache_New))) \<and>
     cache_Size d = int (length (ch_data d)) + 1"
proof -
  have "cache_inv DefaultConfig cache_New" "load ''k'' cache_New = None"
    by (simp_all add: cache_inv_def cache_New_def DefaultConfig_def load_def)
  from overlapping_sets_count_twice [OF this refl] show ?thesis by blast
qed

end
