(* ===== verification/GoLib.thy ===== *)
theory GoLib
  imports Prelude
begin

section \<open>More of Go's standard library, and calls that can fail\<close>

text \<open>
  Searching and cutting strings, \<open>strconv.ParseInt\<close> for 32 bits, the conversion of an
  integer to a string of one rune, and the threading of a state through calls that
  return \<open>(T, error)\<close>.
\<close>

subsection \<open>Calls that can fail\<close>

text \<open>
  \<open>x, err := m; if err != nil { return nil, err }\<close>: the state of the failed call stays.
\<close>

definition and_then :: "('e + 'a) \<times> 's \<Rightarrow> ('a \<Rightarrow> 's \<Rightarrow> ('e + 'b) \<times> 's) \<Rightarrow> ('e + 'b) \<times> 's" where
  "and_then m f = (case m of (Inl e, s) \<Rightarrow> (Inl e, s) | (Inr a, s) \<Rightarrow> f a s)"

text \<open>\<open>errors.Wrap(err, msg)\<close>, and \<open>status.Errorf(code, msg, err)\<close>, on the error of a call.\<close>

definition map_err :: "('e \<Rightarrow> 'f) \<Rightarrow> ('e + 'a) \<times> 's \<Rightarrow> ('f + 'a) \<times> 's" where
  "map_err g m = (case m of (Inl e, s) \<Rightarrow> (Inl (g e), s) | (Inr a, s) \<Rightarrow> (Inr a, s))"

definition wrap_msg :: "string \<Rightarrow> string \<Rightarrow> string" where
  "wrap_msg msg err = msg @ '': '' @ err"

lemma and_then_simps [simp]:
  "and_then (Inl e, s) f = (Inl e, s)"
  "and_then (Inr a, s) f = f a s"
  by (simp_all add: and_then_def)

lemma map_err_simps [simp]:
  "map_err g (Inl e, s) = (Inl (g e), s)"
  "map_err g (Inr a, s) = (Inr a, s)"
  by (simp_all add: map_err_def)

lemma and_then_Inr:
  "and_then m f = (Inr b, t) \<longleftrightarrow> (\<exists>a s. m = (Inr a, s) \<and> f a s = (Inr b, t))"
  by (cases m; cases "fst m") (auto simp: and_then_def)

lemma map_err_Inr [simp]: "map_err g m = (Inr b, t) \<longleftrightarrow> m = (Inr b, t)"
  by (cases m; cases "fst m") (auto simp: map_err_def)

lemma snd_map_err [simp]: "snd (map_err g m) = snd m"
  by (cases m; cases "fst m") (auto simp: map_err_def)

text \<open>A property of the state that both halves of a sequence keep.\<close>

lemma and_then_keeps [inv_intros]:
  assumes "P (snd m)" and "\<And>a s. m = (Inr a, s) \<Longrightarrow> P s \<Longrightarrow> P (snd (f a s))"
  shows "P (snd (and_then m f))"
  using assms by (cases m; cases "fst m") (auto simp: and_then_def)

subsection \<open>Searching in strings\<close>

text \<open>\<open>strings.Index\<close>: the position of the first occurrence, \<open>None\<close> for -1.\<close>

fun str_index :: "string \<Rightarrow> string \<Rightarrow> nat option" where
  "str_index [] sub = (if sub = [] then Some 0 else None)"
| "str_index (c # s) sub =
     (if prefix sub (c # s) then Some 0 else map_option Suc (str_index s sub))"

definition str_contains :: "string \<Rightarrow> string \<Rightarrow> bool" where
  "str_contains s sub \<longleftrightarrow> str_index s sub \<noteq> None"

text \<open>\<open>strings.Cut\<close> at a byte: before and after its first occurrence.\<close>

fun cut_at :: "char \<Rightarrow> string \<Rightarrow> string \<times> string" where
  "cut_at c [] = ([], [])"
| "cut_at c (x # s) = (if x = c then ([], s) else (let (a, b) = cut_at c s in (x # a, b)))"

lemma cut_at_absent: "c \<notin> set s \<Longrightarrow> cut_at c s = (s, [])"
  by (induction s) auto

lemma cut_at_append: "c \<notin> set s \<Longrightarrow> cut_at c (s @ c # t) = (s, t)"
  by (induction s) auto

lemma first_separator:
  "xs @ c # ys = xs' @ c # ys' \<Longrightarrow> c \<notin> set xs \<Longrightarrow> c \<notin> set xs' \<Longrightarrow> xs = xs' \<and> ys = ys'"
  by (induction xs arbitrary: xs') (auto simp: Cons_eq_append_conv)

lemma length_cut_at: "length (snd (cut_at c s)) \<le> length s"
  by (induction s) (auto split: prod.splits)

lemma cut_at_rest: "cut_at c s = (a, b) \<Longrightarrow> length b \<le> length s"
  using length_cut_at [of c s] by simp

lemma str_index_bound: "str_index s sub = Some i \<Longrightarrow> i + length sub \<le> length s"
  by (induction s arbitrary: i) (auto split: if_splits dest: prefix_length_le)

lemma str_index_found: "str_index s sub = Some i \<Longrightarrow> prefix sub (drop i s)"
  by (induction s arbitrary: i) (auto split: if_splits)

lemma str_contains_prefix: "prefix sub s \<Longrightarrow> str_contains s sub"
  by (cases s) (auto simp: str_contains_def)

lemma str_contains_append: "str_contains s sub \<Longrightarrow> str_contains (p @ s) sub"
  by (induction p) (auto simp: str_contains_def)

text \<open>\<open>strings.ReplaceAll\<close> of one byte by another.\<close>

definition replace_char :: "char \<Rightarrow> char \<Rightarrow> string \<Rightarrow> string" where
  "replace_char a b s = map (\<lambda>c. if c = a then b else c) s"

text \<open>
  \<open>strings.EqualFold\<close> with a word of ASCII letters other than k and s (the two letters that
  a rune outside ASCII folds to).
\<close>

definition equal_fold :: "string \<Rightarrow> string \<Rightarrow> bool" where
  "equal_fold s word \<longleftrightarrow> map lower_char s = map lower_char word"

text \<open>\<open>textproto.TrimString\<close>: spaces, tabs, line feeds and carriage returns at both ends.\<close>

definition http_space :: "char \<Rightarrow> bool" where
  "http_space c \<longleftrightarrow> byte_in 32 32 c \<or> byte_in 9 10 c \<or> byte_in 13 13 c"

definition trim_http :: "string \<Rightarrow> string" where
  "trim_http s = rev (dropWhile http_space (rev (dropWhile http_space s)))"

lemma trim_http_id:
  assumes "s = [] \<or> \<not> http_space (hd s) \<and> \<not> http_space (last s)"
  shows "trim_http s = s"
proof (cases s)
  case (Cons c t)
  then have "dropWhile http_space s = s" "dropWhile http_space (rev s) = rev s"
    using assms by (auto simp: dropWhile_eq_self_iff hd_rev simp del: rev.simps)
  then show ?thesis by (simp add: trim_http_def)
qed (simp add: trim_http_def)

lemma length_trim_http: "length (trim_http s) \<le> length s"
  unfolding trim_http_def
  by (metis length_dropWhile_le length_rev order_trans)

subsection \<open>Numbers\<close>

definition in_int32 :: "int \<Rightarrow> bool" where
  "in_int32 z \<longleftrightarrow> - (2 ^ 31) \<le> z \<and> z < 2 ^ 31"

text \<open>\<open>strconv.ParseInt(s, 10, 32)\<close>; \<open>None\<close> for its two errors.\<close>

definition parse_int32 :: "string \<Rightarrow> int option" where
  "parse_int32 s = (case atoi s of None \<Rightarrow> None | Some n \<Rightarrow> if in_int32 n then Some n else None)"

lemma parse_int32_itoa:
  assumes "in_int32 z"
  shows "parse_int32 (itoa z) = Some z"
proof -
  have "in_int64 z"
    using assms by (auto simp: in_int32_def in_int64_def min_int64_def max_int64_def)
  then show ?thesis using assms by (simp add: parse_int32_def atoi_itoa)
qed

lemma itoa_inject:
  assumes "in_int32 x" "in_int32 y" "itoa x = itoa y"
  shows "x = y"
  by (metis assms option.inject parse_int32_itoa)

text \<open>
  \<open>string(n)\<close> of an \<open>int32\<close>: the UTF-8 encoding of the rune \<open>n\<close>. A number that is no code
  point (negative, above U+10FFFF, or a surrogate) gives the replacement character U+FFFD.
\<close>

definition valid_rune :: "int \<Rightarrow> bool" where
  "valid_rune n \<longleftrightarrow> 0 \<le> n \<and> n \<le> 1114111 \<and> \<not> (55296 \<le> n \<and> n \<le> 57343)"

definition byte :: "nat \<Rightarrow> char" where
  "byte n = char_of n"

definition rune_bytes :: "nat \<Rightarrow> string" where
  "rune_bytes n =
     (if n < 128 then [byte n]
      else if n < 2048 then [byte (192 + n div 64), byte (128 + n mod 64)]
      else if n < 65536
      then [byte (224 + n div 4096), byte (128 + n div 64 mod 64), byte (128 + n mod 64)]
      else [byte (240 + n div 262144), byte (128 + n div 4096 mod 64),
            byte (128 + n div 64 mod 64), byte (128 + n mod 64)])"

definition rune_string :: "int \<Rightarrow> string" where
  "rune_string n = rune_bytes (if valid_rune n then nat n else 65533)"

lemma byte_inject: "m < 256 \<Longrightarrow> n < 256 \<Longrightarrow> byte m = byte n \<longleftrightarrow> m = n"
  by (simp add: byte_def char_of_eq_iff) (metis char_of_eq_iff mod_less of_char_of)

lemma rune_bytes_inject:
  assumes "m \<le> 1114111" "n \<le> 1114111" "rune_bytes m = rune_bytes n"
  shows "m = n"
proof -
  have last: "k mod 64 + 64 * (k div 64) = k" for k :: nat by simp
  have parts: "k div 4096 = k div 64 div 64" "k div 262144 = k div 64 div 64 div 64" for k :: nat
    by (simp_all add: div_mult2_eq [symmetric])
  have small: "m div 262144 < 5" "n div 262144 < 5" using assms(1,2) by auto
  have eq: "x = y" if "x mod 64 = y mod 64" "x div 64 = y div 64" for x y :: nat
    using that last by metis
  show ?thesis
  proof (cases "m < 65536")
    case True
    then have "n < 65536" using assms(3) by (auto simp: rune_bytes_def split: if_splits)
    show ?thesis
    proof (cases "m < 2048")
      case small: True
      then have "n < 2048" using assms(3) \<open>n < 65536\<close> by (auto simp: rune_bytes_def split: if_splits)
      with small assms(3) show ?thesis
        by (auto simp: rune_bytes_def byte_inject less_mult_imp_div_less split: if_splits intro!: eq)
    next
      case False
      then have "\<not> n < 2048" using assms(3) True by (auto simp: rune_bytes_def split: if_splits)
      with False True \<open>n < 65536\<close> assms(3) show ?thesis
        by (auto simp: rune_bytes_def byte_inject less_mult_imp_div_less parts intro!: eq)
    qed
  next
    case False
    then have "\<not> n < 65536" using assms(3) by (auto simp: rune_bytes_def split: if_splits)
    with False small assms(3) show ?thesis
      by (auto simp: rune_bytes_def byte_inject parts intro!: eq)
  qed
qed

lemma rune_string_inject:
  assumes "valid_rune m" "valid_rune n" "rune_string m = rune_string n"
  shows "m = n"
proof -
  have "nat m = nat n"
    using assms by (intro rune_bytes_inject) (auto simp: rune_string_def valid_rune_def)
  moreover have "0 \<le> m" "0 \<le> n" using assms(1,2) by (simp_all add: valid_rune_def)
  ultimately show ?thesis by simp
qed

end
