(* ===== verification/AccountStore.thy ===== *)
theory AccountStore
  imports GoLib
begin

section \<open>Users and their settings (store/user.go, store/user\_setting.go)\<close>

text \<open>
  The tables \<open>user\<close> and \<open>user_setting\<close> with the SQLite driver, and the two caches in front
  of them. A cached entry can vanish at any time (it expires or is evicted): the oracle
  \<open>ae_kept k key\<close> says whether the cache still holds \<open>key\<close> at tick \<open>k\<close>. Every database call
  draws a tick, and \<open>ae_db k\<close> is the error of the call at tick \<open>k\<close>, if it fails. The JSON text
  of a setting is identified with the message it encodes.
\<close>

subsection \<open>Rows\<close>

record user =
  user_ID :: int
  user_RowStatus :: string
  user_CreatedTs :: int
  user_UpdatedTs :: int
  user_Username :: string
  user_Role :: string
  user_Email :: string
  user_Nickname :: string
  user_PasswordHash :: string
  user_AvatarURL :: string
  user_Description :: string

definition RowNormal :: string where "RowNormal = ''NORMAL''"
definition RowArchived :: string where "RowArchived = ''ARCHIVED''"
definition RoleAdmin :: string where "RoleAdmin = ''ADMIN''"
definition RoleUser :: string where "RoleUser = ''USER''"

definition SystemBotID :: int where "SystemBotID = 0"

definition SystemBot :: user where
  "SystemBot = \<lparr>user_ID = SystemBotID, user_RowStatus = [], user_CreatedTs = 0, user_UpdatedTs = 0,
     user_Username = ''system_bot'', user_Role = RoleAdmin, user_Email = [], user_Nickname = ''Bot'',
     user_PasswordHash = [], user_AvatarURL = [], user_Description = []\<rparr>"

record update_user =
  uu_ID :: int
  uu_UpdatedTs :: "int option"
  uu_RowStatus :: "string option"
  uu_Username :: "string option"
  uu_Role :: "string option"
  uu_Email :: "string option"
  uu_Nickname :: "string option"
  uu_AvatarURL :: "string option"
  uu_PasswordHash :: "string option"
  uu_Description :: "string option"

record find_user =
  fu_ID :: "int option"
  fu_RowStatus :: "string option"
  fu_Username :: "string option"
  fu_Role :: "string option"
  fu_Email :: "string option"
  fu_Nickname :: "string option"
  fu_Filters :: "string list"
  fu_Limit :: "nat option"

definition find_any_user :: find_user where
  "find_any_user = \<lparr>fu_ID = None, fu_RowStatus = None, fu_Username = None, fu_Role = None,
     fu_Email = None, fu_Nickname = None, fu_Filters = [], fu_Limit = None\<rparr>"

definition user_with_id :: "int \<Rightarrow> find_user" where
  "user_with_id i = find_any_user\<lparr>fu_ID := Some i\<rparr>"

definition user_named :: "string \<Rightarrow> find_user" where
  "user_named n = find_any_user\<lparr>fu_Username := Some n\<rparr>"

text \<open>Times are nanoseconds since the epoch.\<close>

record client_info =
  ci_UserAgent :: string
  ci_IpAddress :: string
  ci_DeviceType :: string
  ci_Os :: string
  ci_Browser :: string

record refresh_token =
  rt_TokenId :: string
  rt_ExpiresAt :: "int option"
  rt_CreatedAt :: int
  rt_ClientInfo :: client_info

record personal_token =
  pat_TokenId :: string
  pat_TokenHash :: string
  pat_Description :: string
  pat_ExpiresAt :: "int option"
  pat_CreatedAt :: int
  pat_LastUsedAt :: "int option"

record webhook =
  wh_Id :: string
  wh_Title :: string
  wh_Url :: string

datatype setting_key =
    KEY_UNSPECIFIED | GENERAL | SHORTCUTS | WEBHOOKS | REFRESH_TOKENS | PERSONAL_ACCESS_TOKENS

record general_user_setting =
  gu_Locale :: string
  gu_MemoVisibility :: string
  gu_Theme :: string

text \<open>The shortcuts, which the modelled code does not look into, are kept as their text.\<close>

datatype setting_value =
    General general_user_setting | Shortcuts string | Webhooks "webhook list"
  | RefreshTokens "refresh_token list" | PersonalAccessTokens "personal_token list"

record user_setting =
  us_UserID :: int
  us_Key :: setting_key
  us_Value :: setting_value

record find_setting =
  fs_UserID :: "int option"
  fs_Key :: setting_key

subsection \<open>Tables, caches, failures\<close>

record accounts =
  ac_users :: "user list"
  ac_next_id :: int
  ac_settings :: "user_setting list"
  ac_user_cache :: "string \<Rightarrow> user option"
  ac_setting_cache :: "string \<Rightarrow> user_setting option"
  ac_tick :: nat

record acc_env =
  ae_db :: "nat \<Rightarrow> string option"
  ae_kept :: "nat \<Rightarrow> string \<Rightarrow> bool"
  ae_now :: "nat \<Rightarrow> int"
  ae_constraint :: string   \<comment> \<open>the driver's text for a violated constraint\<close>

type_synonym 'a call = "(string + 'a) \<times> accounts"

definition tick_ac :: "accounts \<Rightarrow> accounts" where
  "tick_ac w = w\<lparr>ac_tick := ac_tick w + 1\<rparr>"

definition read_clock :: "acc_env \<Rightarrow> accounts \<Rightarrow> int" where
  "read_clock E w = ae_now E (ac_tick w)"

definition db_call :: "acc_env \<Rightarrow> (accounts \<Rightarrow> 'a call) \<Rightarrow> accounts \<Rightarrow> 'a call" where
  "db_call E f w =
     (case ae_db E (ac_tick w) of
        Some e \<Rightarrow> (Inl e, tick_ac w)
      | None \<Rightarrow> (fst (f w), tick_ac (snd (f w))))"

subsection \<open>The driver's user table (store/db/sqlite/user.go)\<close>

definition sqlite_CreateUser :: "acc_env \<Rightarrow> user \<Rightarrow> accounts \<Rightarrow> user call" where
  "sqlite_CreateUser E create = db_call E (\<lambda>w.
     if user_Username create \<in> user_Username ` set (ac_users w) then (Inl (ae_constraint E), w)
     else
       (let ts = unix (read_clock E w);
            u = create\<lparr>user_ID := ac_next_id w, user_Description := [], user_CreatedTs := ts,
                       user_UpdatedTs := ts, user_RowStatus := RowNormal\<rparr>
        in (Inr u, w\<lparr>ac_users := ac_users w @ [u], ac_next_id := ac_next_id w + 1\<rparr>)))"

definition or_else :: "'a option \<Rightarrow> 'a \<Rightarrow> 'a" where
  "or_else x d = (case x of None \<Rightarrow> d | Some v \<Rightarrow> v)"

definition set_user_columns :: "update_user \<Rightarrow> user \<Rightarrow> user" where
  "set_user_columns up u = u\<lparr>
     user_UpdatedTs := or_else (uu_UpdatedTs up) (user_UpdatedTs u),
     user_RowStatus := or_else (uu_RowStatus up) (user_RowStatus u),
     user_Username := or_else (uu_Username up) (user_Username u),
     user_Email := or_else (uu_Email up) (user_Email u),
     user_Nickname := or_else (uu_Nickname up) (user_Nickname u),
     user_AvatarURL := or_else (uu_AvatarURL up) (user_AvatarURL u),
     user_PasswordHash := or_else (uu_PasswordHash up) (user_PasswordHash u),
     user_Description := or_else (uu_Description up) (user_Description u),
     user_Role := or_else (uu_Role up) (user_Role u)\<rparr>"

definition no_user_columns :: "update_user \<Rightarrow> bool" where
  "no_user_columns up \<longleftrightarrow> up = \<lparr>uu_ID = uu_ID up, uu_UpdatedTs = None, uu_RowStatus = None,
     uu_Username = None, uu_Role = None, uu_Email = None, uu_Nickname = None, uu_AvatarURL = None,
     uu_PasswordHash = None, uu_Description = None\<rparr>"

text \<open>
  Without a column to set the statement is no SQL; \<open>username\<close> is unique, and the schema
  checks \<open>row_status\<close>; without a row, \<open>RETURNING\<close> has nothing to scan.
\<close>

definition sqlite_UpdateUser :: "acc_env \<Rightarrow> update_user \<Rightarrow> accounts \<Rightarrow> user call" where
  "sqlite_UpdateUser E up = db_call E (\<lambda>w.
     if no_user_columns up then (Inl ''SQL logic error: near WHERE: syntax error'', w)
     else case find (\<lambda>u. user_ID u = uu_ID up) (ac_users w) of
       None \<Rightarrow> (Inl ''sql: no rows in result set'', w)
     | Some u \<Rightarrow>
         let v = set_user_columns up u in
         if user_RowStatus v \<notin> {RowNormal, RowArchived}
           \<or> user_Username v \<in> user_Username ` set (filter (\<lambda>x. user_ID x \<noteq> uu_ID up) (ac_users w))
         then (Inl (ae_constraint E), w)
         else (Inr v, w\<lparr>ac_users := map (\<lambda>x. if user_ID x = uu_ID up then v else x) (ac_users w)\<rparr>))"

text \<open>\<open>RowStatus\<close> is a field of \<open>FindUser\<close> that no driver reads.\<close>

definition user_matches :: "find_user \<Rightarrow> user \<Rightarrow> bool" where
  "user_matches f u \<longleftrightarrow>
     (fu_ID f = None \<or> fu_ID f = Some (user_ID u)) \<and>
     (fu_Username f = None \<or> fu_Username f = Some (user_Username u)) \<and>
     (fu_Role f = None \<or> fu_Role f = Some (user_Role u)) \<and>
     (fu_Email f = None \<or> fu_Email f = Some (user_Email u)) \<and>
     (fu_Nickname f = None \<or> fu_Nickname f = Some (user_Nickname u))"

text \<open>\<open>ORDER BY created_ts DESC, row_status DESC\<close>\<close>

definition user_order :: "user \<Rightarrow> int" where
  "user_order u = - 2 * user_CreatedTs u + (if user_RowStatus u = RowArchived then 1 else 0)"

definition sqlite_ListUsers :: "acc_env \<Rightarrow> find_user \<Rightarrow> accounts \<Rightarrow> user list call" where
  "sqlite_ListUsers E f w =
     (if fu_Filters f \<noteq> [] then (Inl ''user filters are not supported'', w)
      else db_call E (\<lambda>w.
        let rows = sort_key user_order (filter (user_matches f) (ac_users w))
        in (Inr (case fu_Limit f of None \<Rightarrow> rows | Some n \<Rightarrow> take n rows), w)) w)"

definition sqlite_DeleteUser :: "acc_env \<Rightarrow> int \<Rightarrow> accounts \<Rightarrow> unit call" where
  "sqlite_DeleteUser E i = db_call E (\<lambda>w.
     (Inr (), w\<lparr>ac_users := filter (\<lambda>u. user_ID u \<noteq> i) (ac_users w)\<rparr>))"

subsection \<open>Users with their cache (store/user.go)\<close>

definition cache_user :: "user \<Rightarrow> accounts \<Rightarrow> accounts" where
  "cache_user u w = w\<lparr>ac_user_cache := (ac_user_cache w)(rune_string (user_ID u) \<mapsto> u)\<rparr>"

text \<open>\<open>userCache.Get\<close>: an entry that the cache has dropped is gone for good.\<close>

definition cached_user :: "acc_env \<Rightarrow> int \<Rightarrow> accounts \<Rightarrow> user option \<times> accounts" where
  "cached_user E i w =
     (if ae_kept E (ac_tick w) (rune_string i) then (ac_user_cache w (rune_string i), tick_ac w)
      else (None, tick_ac (w\<lparr>ac_user_cache := (ac_user_cache w)(rune_string i := None)\<rparr>)))"

definition store_CreateUser :: "acc_env \<Rightarrow> user \<Rightarrow> accounts \<Rightarrow> user call" where
  "store_CreateUser E create w =
     and_then (sqlite_CreateUser E create w) (\<lambda>u w. (Inr u, cache_user u w))"

definition store_UpdateUser :: "acc_env \<Rightarrow> update_user \<Rightarrow> accounts \<Rightarrow> user call" where
  "store_UpdateUser E up w =
     and_then (sqlite_UpdateUser E up w) (\<lambda>u w. (Inr u, cache_user u w))"

definition store_ListUsers :: "acc_env \<Rightarrow> find_user \<Rightarrow> accounts \<Rightarrow> user list call" where
  "store_ListUsers E f w =
     and_then (sqlite_ListUsers E f w) (\<lambda>us w. (Inr us, fold cache_user us w))"

definition list_one_user :: "acc_env \<Rightarrow> find_user \<Rightarrow> accounts \<Rightarrow> user option call" where
  "list_one_user E f w =
     and_then (store_ListUsers E f w) (\<lambda>us w.
       case us of [] \<Rightarrow> (Inr None, w) | u # _ \<Rightarrow> (Inr (Some u), cache_user u w))"

definition store_GetUser :: "acc_env \<Rightarrow> find_user \<Rightarrow> accounts \<Rightarrow> user option call" where
  "store_GetUser E f w =
     (case fu_ID f of
        None \<Rightarrow> list_one_user E f w
      | Some i \<Rightarrow>
          if i = SystemBotID then (Inr (Some SystemBot), w)
          else case cached_user E i w of
            (Some u, w) \<Rightarrow> (Inr (Some u), w)
          | (None, w) \<Rightarrow> list_one_user E f w)"

definition store_DeleteUser :: "acc_env \<Rightarrow> int \<Rightarrow> accounts \<Rightarrow> unit call" where
  "store_DeleteUser E i w =
     and_then (sqlite_DeleteUser E i w) (\<lambda>_ w.
       (Inr (), w\<lparr>ac_user_cache := (ac_user_cache w)(rune_string i := None)\<rparr>))"

subsection \<open>What the user cache holds\<close>

inductive user_step :: "acc_env \<Rightarrow> accounts \<Rightarrow> accounts \<Rightarrow> bool" for E where
  creates: "user_step E w (snd (store_CreateUser E c w))"
| updates: "user_step E w (snd (store_UpdateUser E up w))"
| lists: "user_step E w (snd (store_ListUsers E f w))"
| gets: "user_step E w (snd (store_GetUser E f w))"
| deletes: "user_step E w (snd (store_DeleteUser E i w))"

definition users_ok :: "accounts \<Rightarrow> bool" where
  "users_ok w \<longleftrightarrow> distinct (map user_ID (ac_users w)) \<and>
     list_all (\<lambda>u. 0 < user_ID u \<and> user_ID u < ac_next_id w) (ac_users w)"

definition user_inv :: "accounts \<Rightarrow> bool" where
  "user_inv w \<longleftrightarrow> users_ok w \<and> 0 < ac_next_id w \<and>
     (\<forall>k u. ac_user_cache w k = Some u \<longrightarrow> u \<in> set (ac_users w) \<and> k = rune_string (user_ID u))"

definition fresh_start :: "accounts \<Rightarrow> bool" where
  "fresh_start w \<longleftrightarrow> users_ok w \<and> 0 < ac_next_id w \<and>
     ac_user_cache w = (\<lambda>_. None) \<and> ac_setting_cache w = (\<lambda>_. None)"

lemma user_invI:
  assumes "distinct (map user_ID (ac_users w))" and "0 < ac_next_id w"
    and "list_all (\<lambda>u. 0 < user_ID u \<and> user_ID u < ac_next_id w) (ac_users w)"
    and "\<And>k u. ac_user_cache w k = Some u \<Longrightarrow> u \<in> set (ac_users w) \<and> k = rune_string (user_ID u)"
  shows "user_inv w"
  using assms by (simp add: user_inv_def users_ok_def)

lemma user_inv_tick [simp]: "user_inv (tick_ac w) = user_inv w"
  by (simp add: user_inv_def users_ok_def tick_ac_def)

lemma user_inv_forget: "user_inv w \<Longrightarrow> user_inv (w\<lparr>ac_user_cache := (ac_user_cache w)(k := None)\<rparr>)"
  by (auto simp: user_inv_def users_ok_def split: if_splits)

lemma user_inv_cache_user: "user_inv w \<Longrightarrow> u \<in> set (ac_users w) \<Longrightarrow> user_inv (cache_user u w)"
  by (auto simp: user_inv_def users_ok_def cache_user_def split: if_splits)

lemma users_tick [simp]: "ac_users (tick_ac w) = ac_users w"
  by (simp add: tick_ac_def)

lemma users_cache_user [simp]: "ac_users (cache_user u w) = ac_users w"
  by (simp add: cache_user_def)

lemma users_fold_cache [simp]: "ac_users (fold cache_user us w) = ac_users w"
  by (induction us arbitrary: w) auto

lemma user_inv_fold_cache:
  "user_inv w \<Longrightarrow> set us \<subseteq> set (ac_users w) \<Longrightarrow> user_inv (fold cache_user us w)"
  by (induction us arbitrary: w) (simp_all add: user_inv_cache_user)

lemma db_call_Inr:
  "db_call E f w = (Inr a, v) \<Longrightarrow> ae_db E (ac_tick w) = None \<and> fst (f w) = Inr a \<and> v = tick_ac (snd (f w))"
  by (auto simp: db_call_def split: option.splits)

lemma db_call_Inl:
  "db_call E f w = (Inl a, v) \<Longrightarrow> ae_db E (ac_tick w) = Some a \<or> fst (f w) = Inl a"
  by (auto simp: db_call_def split: option.splits)

lemma db_call_keeps:
  assumes "P (tick_ac w)" and "P (tick_ac (snd (f w)))"
  shows "P (snd (db_call E f w))"
  using assms by (auto simp: db_call_def split: option.splits)

lemma sqlite_ListUsers_rows:
  "sqlite_ListUsers E f w = (Inr us, v) \<Longrightarrow> v = tick_ac w \<and> set us \<subseteq> set (filter (user_matches f) (ac_users w))"
  by (auto simp: sqlite_ListUsers_def Let_def dest!: db_call_Inr set_mp [OF set_take_subset]
      split: if_splits option.splits)

lemma snd_sqlite_ListUsers: "snd (sqlite_ListUsers E f w) = w \<or> snd (sqlite_ListUsers E f w) = tick_ac w"
  by (auto simp: sqlite_ListUsers_def db_call_def Let_def split: option.splits)

lemma user_inv_list [inv_intros]:
  assumes "user_inv w"
  shows "user_inv (snd (store_ListUsers E f w))"
  unfolding store_ListUsers_def
proof (rule and_then_keeps)
  show "user_inv (snd (sqlite_ListUsers E f w))"
    using snd_sqlite_ListUsers [of E f w] assms by auto
  fix us v assume *: "sqlite_ListUsers E f w = (Inr us, v)"
  have "user_inv v" "set us \<subseteq> set (ac_users v)"
    using sqlite_ListUsers_rows [OF *] assms by auto
  then have "user_inv (fold cache_user us v)" by (rule user_inv_fold_cache)
  then show "user_inv (snd (Inr us, fold cache_user us v))" by simp
qed

lemma store_ListUsers_rows:
  "store_ListUsers E f w = (Inr us, v) \<Longrightarrow>
     ac_users v = ac_users w \<and> set us \<subseteq> set (filter (user_matches f) (ac_users w))"
  using sqlite_ListUsers_rows by (fastforce simp: store_ListUsers_def and_then_Inr tick_ac_def)

lemma user_inv_list_one [inv_intros]:
  assumes "user_inv w"
  shows "user_inv (snd (list_one_user E f w))"
  unfolding list_one_user_def
proof (rule and_then_keeps)
  show inv: "user_inv (snd (store_ListUsers E f w))" by (rule user_inv_list [OF assms])
  fix us v assume *: "store_ListUsers E f w = (Inr us, v)"
  with inv have "user_inv v" by simp
  with store_ListUsers_rows [OF *]
  show "user_inv (snd (case us of [] \<Rightarrow> (Inr None, v) | u # _ \<Rightarrow> (Inr (Some u), cache_user u v)))"
    by (auto split: list.splits intro!: user_inv_cache_user)
qed

lemma user_inv_cached [inv_intros]: "user_inv w \<Longrightarrow> user_inv (snd (cached_user E i w))"
  by (simp add: cached_user_def user_inv_forget)

lemma user_inv_get [inv_intros]:
  assumes "user_inv w"
  shows "user_inv (snd (store_GetUser E f w))"
proof -
  have "user_inv v" if "cached_user E i w = (r, v)" for i r v
    using user_inv_cached [OF assms, of E i] that by simp
  then show ?thesis
    by (auto simp: store_GetUser_def assms user_inv_list_one split: option.splits prod.splits)
qed

lemma user_inv_insert:
  assumes "user_inv w" "user_ID u = ac_next_id w"
  shows "user_inv (w\<lparr>ac_users := ac_users w @ [u], ac_next_id := ac_next_id w + 1\<rparr>)"
  using assms by (fastforce simp: user_inv_def users_ok_def list_all_iff)

lemma user_inv_create [inv_intros]:
  assumes "user_inv w"
  shows "user_inv (snd (store_CreateUser E c w))"
  unfolding store_CreateUser_def
proof (rule and_then_keeps)
  show inv: "user_inv (snd (sqlite_CreateUser E c w))"
    unfolding sqlite_CreateUser_def using assms
    by (intro db_call_keeps [where P = user_inv]) (auto simp: Let_def user_inv_insert)
  fix u v assume *: "sqlite_CreateUser E c w = (Inr u, v)"
  then have "u \<in> set (ac_users v)"
    by (auto simp: sqlite_CreateUser_def Let_def tick_ac_def dest!: db_call_Inr split: if_splits)
  with * inv show "user_inv (snd (Inr u, cache_user u v))" by (simp add: user_inv_cache_user)
qed

lemma user_ID_set_columns [simp]: "user_ID (set_user_columns up u) = user_ID u"
  by (simp add: set_user_columns_def)

text \<open>An updated row and its cached copy change together; in between only the table has changed.\<close>

lemma user_inv_replace:
  assumes "user_inv w" "u \<in> set (ac_users w)" "user_ID v = user_ID u"
  shows "user_inv (cache_user v (w\<lparr>ac_users := map (\<lambda>x. if user_ID x = user_ID u then v else x) (ac_users w)\<rparr>))"
    (is "user_inv (cache_user v (w\<lparr>ac_users := map ?g _\<rparr>))")
proof -
  have ids: "map user_ID (map ?g (ac_users w)) = map user_ID (ac_users w)"
    using assms(3) by simp
  have "v \<in> set (map ?g (ac_users w))"
    using assms(2) by (auto simp: image_iff)
  have old: "x \<in> set (map ?g (ac_users w))" if "x \<in> set (ac_users w)" "user_ID x \<noteq> user_ID u" for x
    using that by (auto simp: image_iff)
  show ?thesis
  proof (rule user_invI)
    show "distinct (map user_ID (ac_users (cache_user v (w\<lparr>ac_users := map ?g (ac_users w)\<rparr>))))"
      using ids assms(1) unfolding user_inv_def users_ok_def users_cache_user
      by (simp del: map_map map_eq_conv)
    show "0 < ac_next_id (cache_user v (w\<lparr>ac_users := map ?g (ac_users w)\<rparr>))"
      using assms(1) by (simp add: user_inv_def cache_user_def)
    show "list_all (\<lambda>x. 0 < user_ID x \<and> user_ID x < ac_next_id (cache_user v (w\<lparr>ac_users := map ?g (ac_users w)\<rparr>)))
        (ac_users (cache_user v (w\<lparr>ac_users := map ?g (ac_users w)\<rparr>)))"
      using assms by (auto simp: user_inv_def users_ok_def list_all_iff cache_user_def)
  next
    fix k x assume "ac_user_cache (cache_user v (w\<lparr>ac_users := map ?g (ac_users w)\<rparr>)) k = Some x"
    then have hit: "((ac_user_cache w)(rune_string (user_ID v) \<mapsto> v)) k = Some x"
      by (simp add: cache_user_def)
    show "x \<in> set (ac_users (cache_user v (w\<lparr>ac_users := map ?g (ac_users w)\<rparr>))) \<and> k = rune_string (user_ID x)"
    proof (cases "k = rune_string (user_ID v)")
      case True
      with hit \<open>v \<in> set (map ?g (ac_users w))\<close> show ?thesis by simp
    next
      case False
      then have x: "x \<in> set (ac_users w)" "k = rune_string (user_ID x)"
        using hit assms(1) by (auto simp: user_inv_def)
      with False assms(3) have "user_ID x \<noteq> user_ID u" by auto
      with x old [of x] show ?thesis by simp
    qed
  qed
qed

lemma user_inv_update [inv_intros]:
  assumes "user_inv w"
  shows "user_inv (snd (store_UpdateUser E up w))"
proof (cases "sqlite_UpdateUser E up w")
  case (Pair r v)
  show ?thesis
  proof (cases r)
    case (Inl e)
    then have "v = tick_ac w"
      using Pair by (auto simp: sqlite_UpdateUser_def db_call_def Let_def split: option.splits if_splits)
    then show ?thesis using Inl Pair assms by (simp add: store_UpdateUser_def)
  next
    case (Inr n)
    then obtain u where u: "find (\<lambda>u. user_ID u = uu_ID up) (ac_users w) = Some u"
      and n: "n = set_user_columns up u"
      and v: "v = tick_ac (w\<lparr>ac_users := map (\<lambda>x. if user_ID x = uu_ID up then n else x) (ac_users w)\<rparr>)"
      using Pair
      by (auto simp: sqlite_UpdateUser_def Let_def dest!: db_call_Inr split: option.splits if_splits)
    from u have "u \<in> set (ac_users w)" "user_ID u = uu_ID up"
      by (auto simp: find_Some_iff)
    then have "user_inv (cache_user n (w\<lparr>ac_users := map (\<lambda>x. if user_ID x = uu_ID up then n else x) (ac_users w)\<rparr>))"
      using user_inv_replace [OF assms] n by fastforce
    moreover have "cache_user n (tick_ac x) = tick_ac (cache_user n x)" for x
      by (simp add: cache_user_def tick_ac_def)
    ultimately show ?thesis using Inr Pair v by (simp add: store_UpdateUser_def)
  qed
qed

lemma user_inv_delete [inv_intros]:
  assumes "user_inv w"
  shows "user_inv (snd (store_DeleteUser E i w))"
proof (cases "ae_db E (ac_tick w)")
  case None
  then show ?thesis using assms
    by (auto simp: store_DeleteUser_def sqlite_DeleteUser_def db_call_def tick_ac_def user_inv_def
        users_ok_def list_all_iff distinct_map_filter split: if_splits)
next
  case (Some e)
  then show ?thesis using assms
    by (simp add: store_DeleteUser_def sqlite_DeleteUser_def db_call_def)
qed

interpretation users: state_machine fresh_start "user_step E" user_inv for E
proof
  show "fresh_start s \<Longrightarrow> user_inv s" for s by (simp add: fresh_start_def user_inv_def)
  show "user_inv s \<Longrightarrow> user_step E s t \<Longrightarrow> user_inv t" for s t
    by (erule user_step.cases) (auto intro: inv_intros)
qed


lemma find_user_unique:
  "distinct (map user_ID us) \<Longrightarrow> u \<in> set us \<Longrightarrow> find (\<lambda>x. user_ID x = user_ID u) us = Some u"
  by (induction us) (auto simp: image_iff)

lemma filter_by_id:
  "distinct (map user_ID us) \<Longrightarrow>
     filter (\<lambda>u. user_ID u = i) us = (case find (\<lambda>u. user_ID u = i) us of None \<Rightarrow> [] | Some u \<Rightarrow> [u])"
  by (induction us) (auto split: option.splits simp: filter_empty_conv image_iff find_Some_iff)

lemma find_fields [simp]:
  "fu_ID (user_with_id i) = Some i" "fu_Filters (user_with_id i) = []" "fu_Limit (user_with_id i) = None"
  "fu_ID (user_named n) = None" "fu_Filters (user_named n) = []" "fu_Limit (user_named n) = None"
  by (simp_all add: user_with_id_def user_named_def find_any_user_def)

lemma list_one_by_id:
  assumes "user_inv w"
  shows "fst (list_one_user E (user_with_id i) w) =
     (case ae_db E (ac_tick w) of Some e \<Rightarrow> Inl e
      | None \<Rightarrow> Inr (find (\<lambda>u. user_ID u = i) (ac_users w)))"
proof -
  have m: "user_matches (user_with_id i) = (\<lambda>u. user_ID u = i)"
    by (auto simp: user_matches_def user_with_id_def find_any_user_def fun_eq_iff)
  have d: "distinct (map user_ID (ac_users w))" using assms by (simp add: user_inv_def users_ok_def)
  show ?thesis
    by (auto simp: list_one_user_def store_ListUsers_def sqlite_ListUsers_def db_call_def m
        filter_by_id [OF d] Let_def split: option.splits)
qed

lemma rune_string_small:
  assumes "0 < j" "j < 55296" "rune_string i = rune_string j"
  shows "i = j"
proof -
  have j: "valid_rune j" using assms by (simp add: valid_rune_def)
  show ?thesis
  proof (cases "valid_rune i")
    case True
    then show ?thesis using j assms(3) by (rule rune_string_inject)
  next
    case False
    then have "rune_string i = rune_bytes 65533" by (simp add: rune_string_def)
    moreover have "rune_string 65533 = rune_bytes 65533" by (simp add: rune_string_def valid_rune_def)
    ultimately have "rune_string 65533 = rune_string j" using assms(3) by simp
    then have "65533 = j" using j by (intro rune_string_inject) (simp_all add: valid_rune_def)
    with assms(2) show ?thesis by simp
  qed
qed

lemma cached_user_row:
  assumes "user_inv w" "ac_next_id w \<le> 55296" "cached_user E i w = (Some u, v)"
  shows "find (\<lambda>u. user_ID u = i) (ac_users w) = Some u"
proof -
  from assms(1,3) have u: "u \<in> set (ac_users w)" "rune_string i = rune_string (user_ID u)"
    and d: "distinct (map user_ID (ac_users w))" "0 < user_ID u" "user_ID u < ac_next_id w"
    by (auto simp: cached_user_def user_inv_def users_ok_def list_all_iff split: if_splits)
  then have "i = user_ID u" using assms(2) by (intro rune_string_small) auto
  then show ?thesis using u d find_user_unique by blast
qed

lemma get_user_row:
  assumes inv: "user_inv w" and small: "ac_next_id w \<le> 55296"
  shows "case fst (store_GetUser E (user_with_id i) w) of
           Inl e \<Rightarrow> ae_db E (ac_tick w + 1) = Some e
         | Inr r \<Rightarrow> r = (if i = 0 then Some SystemBot else find (\<lambda>u. user_ID u = i) (ac_users w))"
proof -
  show ?thesis
  proof (cases "i = 0")
    case True
    then show ?thesis by (simp add: store_GetUser_def SystemBotID_def)
  next
    case False
    obtain r v where c: "cached_user E i w = (r, v)" by fastforce
    then have v: "user_inv v" "ac_users v = ac_users w" "ac_tick v = ac_tick w + 1"
      using user_inv_cached [OF inv, of E i]
      by (auto simp: cached_user_def tick_ac_def split: if_splits)
    show ?thesis
    proof (cases r)
      case None
      with c False have "fst (store_GetUser E (user_with_id i) w) = fst (list_one_user E (user_with_id i) v)"
        by (simp add: store_GetUser_def SystemBotID_def)
      also have "\<dots> = (case ae_db E (ac_tick w + 1) of Some e \<Rightarrow> Inl e
          | None \<Rightarrow> Inr (find (\<lambda>u. user_ID u = i) (ac_users w)))"
        by (simp only: list_one_by_id [OF v(1)] v(2,3))
      finally show ?thesis using False by (simp split: option.splits)
    next
      case (Some u)
      with c have "find (\<lambda>u. user_ID u = i) (ac_users w) = Some u"
        using cached_user_row [OF inv small] by simp
      with c False Some show ?thesis by (simp add: store_GetUser_def SystemBotID_def)
    qed
  qed
qed

lemma got_by_id:
  assumes "user_inv w" "ac_next_id w \<le> 55296" "store_GetUser E (user_with_id i) w = (Inr (Some u), v)"
  shows "user_ID u = i"
proof (cases "i = 0")
  case True
  then show ?thesis
    using get_user_row [OF assms(1,2), of E i] assms(3) by (simp add: SystemBot_def SystemBotID_def)
next
  case False
  then have "find (\<lambda>u. user_ID u = i) (ac_users w) = Some u"
    using get_user_row [OF assms(1,2), of E i] assms(3) by simp
  then show ?thesis by (auto simp: find_Some_iff)
qed

text \<open>
  C27. As long as no id has reached 55296, the cache is invisible: in every state that the
  operations can produce, \<open>GetUser\<close> by id gives exactly the row of the table (or the bot for
  id 0), whatever the cache has dropped, unless the database call fails.
\<close>

theorem user_cache_refines_table:
  assumes "fresh_start w0" "(user_step E)\<^sup>*\<^sup>* w0 w" "ac_next_id w \<le> 55296"
  shows "case fst (store_GetUser E (user_with_id i) w) of
           Inl e \<Rightarrow> ae_db E (ac_tick w + 1) = Some e
         | Inr r \<Rightarrow> r = (if i = 0 then Some SystemBot else find (\<lambda>u. user_ID u = i) (ac_users w))"
  using users.inv_reachable [OF assms(1,2)] assms(3) by (rule get_user_row)

definition two_users :: "int \<Rightarrow> int \<Rightarrow> accounts" where
  "two_users i j = \<lparr>ac_users = [SystemBot\<lparr>user_ID := i, user_Username := ''ann''\<rparr>,
      SystemBot\<lparr>user_ID := j, user_Username := ''bob''\<rparr>], ac_next_id = j + 1, ac_settings = [],
     ac_user_cache = (\<lambda>_. None), ac_setting_cache = (\<lambda>_. None), ac_tick = 0\<rparr>"

definition steady :: acc_env where
  "steady = \<lparr>ae_db = (\<lambda>_. None), ae_kept = (\<lambda>_ _. True), ae_now = int, ae_constraint = ''UNIQUE''\<rparr>"

lemma user_cache_refines_table_witness:
  "fst (store_GetUser steady (user_with_id 2) (snd (store_GetUser steady (user_with_id 1) (two_users 1 2))))
     = Inr (Some (SystemBot\<lparr>user_ID := 2, user_Username := ''bob''\<rparr>))"
proof -
  let ?w = "snd (store_GetUser steady (user_with_id 1) (two_users 1 2))"
  have start: "fresh_start (two_users 1 2)"
    by (simp add: fresh_start_def users_ok_def two_users_def)
  have step: "(user_step steady)\<^sup>*\<^sup>* (two_users 1 2) ?w"
    by (rule r_into_rtranclp) (rule gets)
  have w: "ac_next_id ?w = 3" "find (\<lambda>u. user_ID u = 2) (ac_users ?w) = Some (SystemBot\<lparr>user_ID := 2, user_Username := ''bob''\<rparr>)"
    by (simp_all add: store_GetUser_def cached_user_def list_one_user_def store_ListUsers_def
        sqlite_ListUsers_def db_call_def steady_def two_users_def user_with_id_def find_any_user_def
        user_matches_def tick_ac_def cache_user_def SystemBotID_def SystemBot_def)
  have "case fst (store_GetUser steady (user_with_id 2) ?w) of
           Inl e \<Rightarrow> ae_db steady (ac_tick ?w + 1) = Some e
         | Inr r \<Rightarrow> r = (if (2::int) = 0 then Some SystemBot else find (\<lambda>u. user_ID u = 2) (ac_users ?w))"
    by (rule user_cache_refines_table [OF start step]) (simp add: w)
  moreover have "ae_db steady k = None" for k by (simp add: steady_def)
  ultimately show ?thesis
    by (simp add: w split: sum.splits)
qed

lemma get_user_caches:
  assumes "fst (store_GetUser E (user_with_id i) w) = Inr (Some u)" "i \<noteq> 0" "user_inv w"
  shows "\<exists>k. k = rune_string i \<and> ac_user_cache (snd (store_GetUser E (user_with_id i) w)) k = Some u"
proof (cases "cached_user E i w")
  case (Pair r v)
  show ?thesis
  proof (cases r)
    case (Some x)
    with Pair assms show ?thesis
      by (auto simp: store_GetUser_def SystemBotID_def
          cached_user_def tick_ac_def split: if_splits)
  next
    case None
    have inv: "user_inv v" using user_inv_cached [OF assms(3), of E i] Pair by simp
    from None Pair assms have one: "fst (list_one_user E (user_with_id i) v) = Inr (Some u)"
      and eq: "store_GetUser E (user_with_id i) w = list_one_user E (user_with_id i) v"
      by (simp_all add: store_GetUser_def SystemBotID_def)
    from one have "find (\<lambda>u. user_ID u = i) (ac_users v) = Some u"
      by (auto simp: list_one_by_id [OF inv] split: option.splits)
    then have "user_ID u = i" by (auto simp: find_Some_iff)
    moreover have "ac_user_cache (snd (list_one_user E (user_with_id i) v)) (rune_string (user_ID u)) = Some u"
      using one
      by (auto simp: list_one_user_def and_then_def cache_user_def split: prod.splits sum.splits list.splits)
    ultimately show ?thesis by (simp add: eq)
  qed
qed

text \<open>
  The cache key is \<open>string(id)\<close>, one rune. All ids that are no code points (55296 to 57343,
  and those above 1114111) share the key U+FFFD: after one such user has been looked up, a look-up
  of another returns the first one, with the first one's name, role and id.
\<close>

theorem user_cache_confuses_users:
  assumes "user_inv w" "\<not> valid_rune i" "\<not> valid_rune j"
    and "fst (store_GetUser E (user_with_id i) w) = Inr (Some u)" "\<forall>k s. ae_kept E k s"
  shows "fst (store_GetUser E (user_with_id j) (snd (store_GetUser E (user_with_id i) w))) = Inr (Some u)"
proof -
  let ?w = "snd (store_GetUser E (user_with_id i) w)"
  have "i \<noteq> 0" "j \<noteq> 0" using assms(2,3) by (auto simp: valid_rune_def)
  then have "ac_user_cache ?w (rune_string i) = Some u"
    using get_user_caches [OF assms(4) _ assms(1)] by simp
  moreover have "rune_string i = rune_string j" using assms(2,3) by (simp add: rune_string_def)
  ultimately have "cached_user E j ?w = (Some u, tick_ac ?w)"
    using assms(5) by (simp add: cached_user_def)
  then show ?thesis
    using \<open>j \<noteq> 0\<close> by (simp add: store_GetUser_def SystemBotID_def)
qed

lemma user_cache_confuses_users_witness:
  "fst (store_GetUser steady (user_with_id 55297)
     (snd (store_GetUser steady (user_with_id 55296) (two_users 55296 55297))))
   = Inr (Some (SystemBot\<lparr>user_ID := 55296, user_Username := ''ann''\<rparr>))"
proof (rule user_cache_confuses_users)
  show inv: "user_inv (two_users 55296 55297)"
    by (rule user_invI) (simp_all add: two_users_def)
  show "fst (store_GetUser steady (user_with_id 55296) (two_users 55296 55297)) =
     Inr (Some (SystemBot\<lparr>user_ID := 55296, user_Username := ''ann''\<rparr>))"
    by (simp add: store_GetUser_def cached_user_def list_one_user_def store_ListUsers_def
        sqlite_ListUsers_def db_call_def steady_def two_users_def user_with_id_def find_any_user_def
        user_matches_def tick_ac_def cache_user_def SystemBotID_def SystemBot_def)
qed (simp_all add: valid_rune_def steady_def)

end
