(* ===== verification/SettingStore.thy ===== *)
theory SettingStore
  imports AccountStore
begin

section \<open>Settings of a user: sessions, access tokens, webhooks (store/user\_setting.go)\<close>

text \<open>
  One row of \<open>user_setting\<close> holds all refresh tokens of a user, another all personal access
  tokens, a third the webhooks. Every change reads the row (from the cache when it can),
  and writes it back whole.
\<close>

subsection \<open>The driver (store/db/sqlite/user\_setting.go)\<close>

definition setting_key_string :: "setting_key \<Rightarrow> string" where
  "setting_key_string k =
     (case k of KEY_UNSPECIFIED \<Rightarrow> ''KEY_UNSPECIFIED'' | GENERAL \<Rightarrow> ''GENERAL''
      | SHORTCUTS \<Rightarrow> ''SHORTCUTS'' | WEBHOOKS \<Rightarrow> ''WEBHOOKS''
      | REFRESH_TOKENS \<Rightarrow> ''REFRESH_TOKENS''
      | PERSONAL_ACCESS_TOKENS \<Rightarrow> ''PERSONAL_ACCESS_TOKENS'')"

definition same_row :: "user_setting \<Rightarrow> user_setting \<Rightarrow> bool" where
  "same_row s t \<longleftrightarrow> us_UserID s = us_UserID t \<and> us_Key s = us_Key t"

definition put_setting :: "user_setting \<Rightarrow> user_setting list \<Rightarrow> user_setting list" where
  "put_setting s rows =
     (if list_ex (same_row s) rows then map (\<lambda>r. if same_row s r then s else r) rows
      else rows @ [s])"

definition sqlite_UpsertUserSetting :: "acc_env \<Rightarrow> user_setting \<Rightarrow> accounts \<Rightarrow> user_setting call" where
  "sqlite_UpsertUserSetting E s = db_call E (\<lambda>w.
     (Inr s, w\<lparr>ac_settings := put_setting s (ac_settings w)\<rparr>))"

definition setting_matches :: "find_setting \<Rightarrow> user_setting \<Rightarrow> bool" where
  "setting_matches f s \<longleftrightarrow>
     (fs_Key f = KEY_UNSPECIFIED \<or> us_Key s = fs_Key f) \<and>
     (fs_UserID f = None \<or> fs_UserID f = Some (us_UserID s))"

definition sqlite_ListUserSettings :: "acc_env \<Rightarrow> find_setting \<Rightarrow> accounts \<Rightarrow> user_setting list call" where
  "sqlite_ListUserSettings E f = db_call E (\<lambda>w.
     (Inr (filter (setting_matches f) (ac_settings w)), w))"

fun tokens_of_value :: "setting_value \<Rightarrow> personal_token list" where
  "tokens_of_value (PersonalAccessTokens ts) = ts"
| "tokens_of_value _ = []"

definition has_hash :: "string \<Rightarrow> user_setting \<Rightarrow> bool" where
  "has_hash h s \<longleftrightarrow> us_Key s = PERSONAL_ACCESS_TOKENS \<and>
     list_ex (\<lambda>t. pat_TokenHash t = h) (tokens_of_value (us_Value s))"

text \<open>The owner and the token, straight from the table.\<close>

definition sqlite_GetUserByPATHash :: "acc_env \<Rightarrow> string \<Rightarrow> accounts \<Rightarrow> (int \<times> personal_token) call" where
  "sqlite_GetUserByPATHash E h = db_call E (\<lambda>w.
     case find (has_hash h) (ac_settings w) of
       None \<Rightarrow> (Inl ''sql: no rows in result set'', w)
     | Some s \<Rightarrow>
         (case find (\<lambda>t. pat_TokenHash t = h) (tokens_of_value (us_Value s)) of
            None \<Rightarrow> (Inl ''PAT not found'', w)
          | Some t \<Rightarrow> (Inr (us_UserID s, t), w)))"

subsection \<open>Settings with their cache\<close>

definition getUserSettingCacheKey :: "int \<Rightarrow> string \<Rightarrow> string" where
  "getUserSettingCacheKey userID key = itoa userID @ ''-'' @ key"

definition setting_cache_key :: "int \<Rightarrow> setting_key \<Rightarrow> string" where
  "setting_cache_key i k = getUserSettingCacheKey i (setting_key_string k)"

definition cache_setting :: "user_setting \<Rightarrow> accounts \<Rightarrow> accounts" where
  "cache_setting s w = w\<lparr>ac_setting_cache :=
     (ac_setting_cache w)(setting_cache_key (us_UserID s) (us_Key s) \<mapsto> s)\<rparr>"

definition cached_setting :: "acc_env \<Rightarrow> string \<Rightarrow> accounts \<Rightarrow> user_setting option \<times> accounts" where
  "cached_setting E k w =
     (if ae_kept E (ac_tick w) k then (ac_setting_cache w k, tick_ac w)
      else (None, tick_ac (w\<lparr>ac_setting_cache := (ac_setting_cache w)(k := None)\<rparr>)))"

text \<open>\<open>convertUserSettingToRaw\<close> refuses a key it does not know; \<open>convertUserSettingFromRaw\<close> skips it.\<close>

definition convertUserSettingToRaw :: "user_setting \<Rightarrow> string + user_setting" where
  "convertUserSettingToRaw s =
     (if us_Key s = KEY_UNSPECIFIED then Inl ''unsupported user setting key'' else Inr s)"

definition convertUserSettingFromRaw :: "user_setting \<Rightarrow> user_setting option" where
  "convertUserSettingFromRaw s = (if us_Key s = KEY_UNSPECIFIED then None else Some s)"

definition store_UpsertUserSetting :: "acc_env \<Rightarrow> user_setting \<Rightarrow> accounts \<Rightarrow> user_setting call" where
  "store_UpsertUserSetting E upsert w =
     and_then (convertUserSettingToRaw upsert, w) (\<lambda>raw w.
     and_then (sqlite_UpsertUserSetting E raw w) (\<lambda>raw w.
     case convertUserSettingFromRaw raw of
       None \<Rightarrow> (Inl ''unexpected nil user setting'', w)
     | Some s \<Rightarrow> (Inr s, cache_setting s w)))"

definition store_ListUserSettings :: "acc_env \<Rightarrow> find_setting \<Rightarrow> accounts \<Rightarrow> user_setting list call" where
  "store_ListUserSettings E f w =
     and_then (sqlite_ListUserSettings E f w) (\<lambda>raws w.
     let ss = List.map_filter convertUserSettingFromRaw raws
     in (Inr ss, fold cache_setting ss w))"

definition only_setting :: "acc_env \<Rightarrow> find_setting \<Rightarrow> accounts \<Rightarrow> user_setting option call" where
  "only_setting E f w =
     and_then (store_ListUserSettings E f w) (\<lambda>ss w.
     case ss of
       [] \<Rightarrow> (Inr None, w)
     | [s] \<Rightarrow> (Inr (Some s), cache_setting s w)
     | _ \<Rightarrow> (Inl (''expected 1 user setting, but got '' @ itoa (int (length ss))), w))"

definition store_GetUserSetting :: "acc_env \<Rightarrow> find_setting \<Rightarrow> accounts \<Rightarrow> user_setting option call" where
  "store_GetUserSetting E f w =
     (case fs_UserID f of
        None \<Rightarrow> only_setting E f w
      | Some i \<Rightarrow>
          (case cached_setting E (setting_cache_key i (fs_Key f)) w of
             (Some s, w) \<Rightarrow> (Inr (Some s), w)
           | (None, w) \<Rightarrow> only_setting E f w))"

definition setting_of :: "int \<Rightarrow> setting_key \<Rightarrow> find_setting" where
  "setting_of i k = \<lparr>fs_UserID = Some i, fs_Key = k\<rparr>"

definition save_setting :: "acc_env \<Rightarrow> int \<Rightarrow> setting_key \<Rightarrow> setting_value \<Rightarrow> accounts \<Rightarrow> unit call" where
  "save_setting E i k v w =
     and_then (store_UpsertUserSetting E \<lparr>us_UserID = i, us_Key = k, us_Value = v\<rparr> w)
       (\<lambda>_ w. (Inr (), w))"

subsection \<open>Refresh tokens\<close>

text \<open>A row of key \<open>REFRESH_TOKENS\<close> holds refresh tokens: the value is decoded by the key.\<close>

fun refresh_of_value :: "setting_value \<Rightarrow> refresh_token list" where
  "refresh_of_value (RefreshTokens ts) = ts"
| "refresh_of_value _ = []"

definition GetUserRefreshTokens :: "acc_env \<Rightarrow> int \<Rightarrow> accounts \<Rightarrow> refresh_token list call" where
  "GetUserRefreshTokens E i w =
     and_then (store_GetUserSetting E (setting_of i REFRESH_TOKENS) w) (\<lambda>s w.
       (Inr (case s of None \<Rightarrow> [] | Some s \<Rightarrow> refresh_of_value (us_Value s)), w))"

definition AddUserRefreshToken :: "acc_env \<Rightarrow> int \<Rightarrow> refresh_token \<Rightarrow> accounts \<Rightarrow> unit call" where
  "AddUserRefreshToken E i t w =
     and_then (GetUserRefreshTokens E i w) (\<lambda>ts w.
       save_setting E i REFRESH_TOKENS (RefreshTokens (ts @ [t])) w)"

definition RemoveUserRefreshToken :: "acc_env \<Rightarrow> int \<Rightarrow> string \<Rightarrow> accounts \<Rightarrow> unit call" where
  "RemoveUserRefreshToken E i tokenID w =
     and_then (GetUserRefreshTokens E i w) (\<lambda>ts w.
       save_setting E i REFRESH_TOKENS (RefreshTokens (filter (\<lambda>t. rt_TokenId t \<noteq> tokenID) ts)) w)"

definition GetUserRefreshTokenByID :: "acc_env \<Rightarrow> int \<Rightarrow> string \<Rightarrow> accounts \<Rightarrow> refresh_token option call" where
  "GetUserRefreshTokenByID E i tokenID w =
     and_then (GetUserRefreshTokens E i w) (\<lambda>ts w. (Inr (find (\<lambda>t. rt_TokenId t = tokenID) ts), w))"

subsection \<open>Personal access tokens\<close>

definition GetUserByPATHash :: "acc_env \<Rightarrow> string \<Rightarrow> accounts \<Rightarrow> (user \<times> personal_token) call" where
  "GetUserByPATHash E h w =
     and_then (sqlite_GetUserByPATHash E h w) (\<lambda>(i, t) w.
     and_then (store_GetUser E (user_with_id i) w) (\<lambda>u w.
       case u of None \<Rightarrow> (Inl ''user not found for PAT'', w) | Some u \<Rightarrow> (Inr (u, t), w)))"

definition GetUserPersonalAccessTokens :: "acc_env \<Rightarrow> int \<Rightarrow> accounts \<Rightarrow> personal_token list call" where
  "GetUserPersonalAccessTokens E i w =
     and_then (store_GetUserSetting E (setting_of i PERSONAL_ACCESS_TOKENS) w) (\<lambda>s w.
       (Inr (case s of None \<Rightarrow> [] | Some s \<Rightarrow> tokens_of_value (us_Value s)), w))"

definition AddUserPersonalAccessToken :: "acc_env \<Rightarrow> int \<Rightarrow> personal_token \<Rightarrow> accounts \<Rightarrow> unit call" where
  "AddUserPersonalAccessToken E i t w =
     and_then (GetUserPersonalAccessTokens E i w) (\<lambda>ts w.
       save_setting E i PERSONAL_ACCESS_TOKENS (PersonalAccessTokens (ts @ [t])) w)"

definition RemoveUserPersonalAccessToken :: "acc_env \<Rightarrow> int \<Rightarrow> string \<Rightarrow> accounts \<Rightarrow> unit call" where
  "RemoveUserPersonalAccessToken E i tokenID w =
     and_then (GetUserPersonalAccessTokens E i w) (\<lambda>ts w.
       save_setting E i PERSONAL_ACCESS_TOKENS
         (PersonalAccessTokens (filter (\<lambda>t. pat_TokenId t \<noteq> tokenID) ts)) w)"

text \<open>Assignment to the first element that satisfies a condition; the loop breaks there.\<close>

fun change_first :: "('a \<Rightarrow> bool) \<Rightarrow> ('a \<Rightarrow> 'a) \<Rightarrow> 'a list \<Rightarrow> 'a list" where
  "change_first P g [] = []"
| "change_first P g (x # xs) = (if P x then g x # xs else x # change_first P g xs)"

text \<open>
  The list that \<open>GetUserSetting\<close> returns is the one inside the cached message: a change of one
  of its elements is visible in the cache, even when the row is not written afterwards.
\<close>

definition change_in_cache :: "int \<Rightarrow> setting_key \<Rightarrow> setting_value \<Rightarrow> accounts \<Rightarrow> accounts" where
  "change_in_cache i k v w =
     (case ac_setting_cache w (setting_cache_key i k) of
        None \<Rightarrow> w
      | Some s \<Rightarrow> w\<lparr>ac_setting_cache :=
          (ac_setting_cache w)(setting_cache_key i k \<mapsto> s\<lparr>us_Value := v\<rparr>)\<rparr>)"

definition UpdatePATLastUsed :: "acc_env \<Rightarrow> int \<Rightarrow> string \<Rightarrow> int \<Rightarrow> accounts \<Rightarrow> unit call" where
  "UpdatePATLastUsed E i tokenID lastUsed w =
     and_then (GetUserPersonalAccessTokens E i w) (\<lambda>ts w.
       let v = PersonalAccessTokens
           (change_first (\<lambda>t. pat_TokenId t = tokenID) (\<lambda>t. t\<lparr>pat_LastUsedAt := Some lastUsed\<rparr>) ts)
       in save_setting E i PERSONAL_ACCESS_TOKENS v (change_in_cache i PERSONAL_ACCESS_TOKENS v w))"

subsection \<open>Webhooks\<close>

fun webhooks_of_value :: "setting_value \<Rightarrow> webhook list" where
  "webhooks_of_value (Webhooks hs) = hs"
| "webhooks_of_value _ = []"

definition GetUserWebhooks :: "acc_env \<Rightarrow> int \<Rightarrow> accounts \<Rightarrow> webhook list call" where
  "GetUserWebhooks E i w =
     and_then (store_GetUserSetting E (setting_of i WEBHOOKS) w) (\<lambda>s w.
       (Inr (case s of None \<Rightarrow> [] | Some s \<Rightarrow> webhooks_of_value (us_Value s)), w))"

definition AddUserWebhook :: "acc_env \<Rightarrow> int \<Rightarrow> webhook \<Rightarrow> accounts \<Rightarrow> unit call" where
  "AddUserWebhook E i hook w =
     and_then (GetUserWebhooks E i w) (\<lambda>hs w.
       let replaced = map (\<lambda>h. if wh_Id h = wh_Id hook then hook else h) hs;
           webhookExists = list_ex (\<lambda>h. wh_Id h = wh_Id hook) hs
       in save_setting E i WEBHOOKS
            (Webhooks (if webhookExists then replaced else replaced @ [hook])) w)"

definition RemoveUserWebhook :: "acc_env \<Rightarrow> int \<Rightarrow> string \<Rightarrow> accounts \<Rightarrow> unit call" where
  "RemoveUserWebhook E i webhookID w =
     and_then (GetUserWebhooks E i w) (\<lambda>hs w.
       save_setting E i WEBHOOKS (Webhooks (filter (\<lambda>h. webhookID \<noteq> wh_Id h) hs)) w)"

definition UpdateUserWebhook :: "acc_env \<Rightarrow> int \<Rightarrow> webhook \<Rightarrow> accounts \<Rightarrow> unit call" where
  "UpdateUserWebhook E i hook w =
     and_then (GetUserWebhooks E i w) (\<lambda>hs w.
       let v = Webhooks (change_first (\<lambda>h. wh_Id h = wh_Id hook) (\<lambda>_. hook) hs)
       in save_setting E i WEBHOOKS v (change_in_cache i WEBHOOKS v w))"

subsection \<open>Tables and cached copies\<close>

definition settings_ok :: "accounts \<Rightarrow> bool" where
  "settings_ok w \<longleftrightarrow> distinct (map (\<lambda>s. (us_UserID s, us_Key s)) (ac_settings w)) \<and>
     list_all (\<lambda>s. in_int32 (us_UserID s) \<and> us_Key s \<noteq> KEY_UNSPECIFIED) (ac_settings w)"

definition setting_keys_ok :: "accounts \<Rightarrow> bool" where
  "setting_keys_ok w \<longleftrightarrow> (\<forall>ck s. ac_setting_cache w ck = Some s \<longrightarrow>
     ck = setting_cache_key (us_UserID s) (us_Key s) \<and> in_int32 (us_UserID s) \<and> us_Key s \<noteq> KEY_UNSPECIFIED)"

definition coherent :: "setting_key \<Rightarrow> accounts \<Rightarrow> bool" where
  "coherent k w \<longleftrightarrow> (\<forall>ck s. ac_setting_cache w ck = Some s \<longrightarrow> us_Key s = k \<longrightarrow> s \<in> set (ac_settings w))"

definition set_inv :: "setting_key \<Rightarrow> accounts \<Rightarrow> bool" where
  "set_inv k w \<longleftrightarrow> settings_ok w \<and> setting_keys_ok w \<and> coherent k w"

definition stored :: "setting_key \<Rightarrow> (setting_value \<Rightarrow> 'a list) \<Rightarrow> accounts \<Rightarrow> int \<Rightarrow> 'a list" where
  "stored k un w i =
     (case find (\<lambda>s. us_UserID s = i \<and> us_Key s = k) (ac_settings w) of
        None \<Rightarrow> [] | Some s \<Rightarrow> un (us_Value s))"

abbreviation sessions :: "accounts \<Rightarrow> int \<Rightarrow> refresh_token list" where
  "sessions \<equiv> stored REFRESH_TOKENS refresh_of_value"

lemma setting_key_string_inject: "setting_key_string k = setting_key_string l \<Longrightarrow> k = l"
  by (cases k; cases l) (simp_all add: setting_key_string_def)

lemma setting_cache_key_inject:
  assumes "in_int32 i" "in_int32 j" "setting_cache_key i k = setting_cache_key j l"
  shows "i = j \<and> k = l"
proof -
  have no: "CHR ''-'' \<notin> set (rev (setting_key_string m))" for m
    by (cases m) (simp_all add: setting_key_string_def)
  have "rev (setting_cache_key n m) = rev (setting_key_string m) @ CHR ''-'' # rev (itoa n)" for n m
    by (simp add: setting_cache_key_def getUserSettingCacheKey_def)
  then have "rev (setting_key_string k) @ CHR ''-'' # rev (itoa i) = rev (setting_key_string l) @ CHR ''-'' # rev (itoa j)"
    using assms(3) by metis
  then have "rev (setting_key_string k) = rev (setting_key_string l) \<and> rev (itoa i) = rev (itoa j)"
    by (rule first_separator) (rule no)+
  then show ?thesis using setting_key_string_inject itoa_inject assms(1,2) by auto
qed

lemma find_SomeD: "find P xs = Some x \<Longrightarrow> x \<in> set xs \<and> P x"
  by (auto simp: find_Some_iff)

lemma find_by_filter: "find P xs = (case filter P xs of [] \<Rightarrow> None | x # _ \<Rightarrow> Some x)"
  by (induction xs) auto

lemma find_row:
  assumes "settings_ok w" "s \<in> set (ac_settings w)"
  shows "find (\<lambda>t. us_UserID t = us_UserID s \<and> us_Key t = us_Key s) (ac_settings w) = Some s"
proof -
  have "find (\<lambda>t. us_UserID t = us_UserID s \<and> us_Key t = us_Key s) rows = Some s"
    if "distinct (map (\<lambda>s. (us_UserID s, us_Key s)) rows)" "s \<in> set rows" for rows
    using that by (induction rows) (auto simp: image_iff)
  then show ?thesis using assms by (simp add: settings_ok_def)
qed

lemma filter_row:
  assumes "settings_ok w" "k \<noteq> KEY_UNSPECIFIED"
  shows "filter (setting_matches (setting_of i k)) (ac_settings w) =
     (case find (\<lambda>t. us_UserID t = i \<and> us_Key t = k) (ac_settings w) of None \<Rightarrow> [] | Some s \<Rightarrow> [s])"
proof -
  have m: "setting_matches (setting_of i k) = (\<lambda>t. us_UserID t = i \<and> us_Key t = k)"
    using assms(2) by (auto simp: setting_matches_def setting_of_def fun_eq_iff)
  have "length (filter (\<lambda>t. (us_UserID t, us_Key t) = (i, k)) (ac_settings w)) \<le> 1"
    using assms(1) by (intro distinct_map_filter_le1) (simp add: settings_ok_def)
  then show ?thesis
    by (cases "filter (\<lambda>t. us_UserID t = i \<and> us_Key t = k) (ac_settings w)")
      (simp_all add: m find_by_filter)
qed

lemma known_from_raw:
  "list_all (\<lambda>s. us_Key s \<noteq> KEY_UNSPECIFIED) ss \<Longrightarrow> List.map_filter convertUserSettingFromRaw ss = ss"
  by (induction ss) (auto simp: map_filter_simps convertUserSettingFromRaw_def)

subsubsection \<open>What keeps the invariant\<close>

lemma set_inv_tick [simp]: "set_inv k (tick_ac w) = set_inv k w"
  by (simp add: set_inv_def settings_ok_def setting_keys_ok_def coherent_def tick_ac_def)

lemma settings_tick [simp]: "ac_settings (tick_ac w) = ac_settings w"
  by (simp add: tick_ac_def)

lemma set_inv_forget: "set_inv k w \<Longrightarrow> set_inv k (w\<lparr>ac_setting_cache := (ac_setting_cache w)(c := None)\<rparr>)"
  by (auto simp: set_inv_def settings_ok_def setting_keys_ok_def coherent_def split: if_splits)

lemma set_inv_cache: "set_inv k w \<Longrightarrow> s \<in> set (ac_settings w) \<Longrightarrow> set_inv k (cache_setting s w)"
  by (auto simp: set_inv_def settings_ok_def setting_keys_ok_def coherent_def cache_setting_def
      list_all_iff split: if_splits)

lemma settings_cache [simp]: "ac_settings (cache_setting s w) = ac_settings w"
  by (simp add: cache_setting_def)

lemma put_setting_keys:
  "map (\<lambda>s. (us_UserID s, us_Key s)) (put_setting s rows) =
     map (\<lambda>s. (us_UserID s, us_Key s)) rows @
       (if list_ex (same_row s) rows then [] else [(us_UserID s, us_Key s)])"
  by (auto simp: put_setting_def same_row_def)

lemma put_setting_member: "s \<in> set (put_setting s rows)"
  by (auto simp: put_setting_def list_ex_iff image_iff)

lemma put_setting_other: "t \<in> set rows \<Longrightarrow> \<not> same_row s t \<Longrightarrow> t \<in> set (put_setting s rows)"
  by (auto simp: put_setting_def image_iff)

lemma set_inv_put:
  assumes "set_inv k w" "in_int32 (us_UserID s)" "us_Key s \<noteq> KEY_UNSPECIFIED"
  shows "set_inv k (cache_setting s (w\<lparr>ac_settings := put_setting s (ac_settings w)\<rparr>))"
proof -
  have "settings_ok (w\<lparr>ac_settings := put_setting s (ac_settings w)\<rparr>)"
    using assms
    by (auto simp: set_inv_def settings_ok_def put_setting_keys same_row_def list_ex_iff)
      (auto simp: put_setting_def list_all_iff)
  moreover have "setting_keys_ok (cache_setting s (w\<lparr>ac_settings := put_setting s (ac_settings w)\<rparr>))"
    using assms by (auto simp: set_inv_def setting_keys_ok_def cache_setting_def split: if_splits)
  moreover have "coherent k (cache_setting s (w\<lparr>ac_settings := put_setting s (ac_settings w)\<rparr>))"
    unfolding coherent_def
  proof (intro allI impI)
    fix ck t
    assume "ac_setting_cache (cache_setting s (w\<lparr>ac_settings := put_setting s (ac_settings w)\<rparr>)) ck = Some t"
      and k: "us_Key t = k"
    then have hit: "((ac_setting_cache w)(setting_cache_key (us_UserID s) (us_Key s) \<mapsto> s)) ck = Some t"
      by (simp add: cache_setting_def)
    have "t \<in> set (put_setting s (ac_settings w))"
    proof (cases "ck = setting_cache_key (us_UserID s) (us_Key s)")
      case True
      then show ?thesis using hit by (simp add: put_setting_member)
    next
      case False
      then have "t \<in> set (ac_settings w)" "ck = setting_cache_key (us_UserID t) (us_Key t)"
        using hit k assms(1) by (auto simp: set_inv_def coherent_def setting_keys_ok_def)
      moreover from this False have "\<not> same_row s t" by (auto simp: same_row_def)
      ultimately show ?thesis by (intro put_setting_other)
    qed
    then show "t \<in> set (ac_settings (cache_setting s (w\<lparr>ac_settings := put_setting s (ac_settings w)\<rparr>)))"
      by simp
  qed
  moreover have "settings_ok (cache_setting s v) = settings_ok v" for v
    by (simp add: settings_ok_def)
  ultimately show ?thesis by (simp add: set_inv_def)
qed

abbreviation row_of :: "accounts \<Rightarrow> int \<Rightarrow> setting_key \<Rightarrow> user_setting option" where
  "row_of w i k \<equiv> find (\<lambda>t. us_UserID t = i \<and> us_Key t = k) (ac_settings w)"

lemma row_put:
  "row_of (w\<lparr>ac_settings := put_setting s (ac_settings w)\<rparr>) j k =
     (if us_UserID s = j \<and> us_Key s = k then Some s else row_of w j k)"
proof -
  let ?Q = "\<lambda>t. us_UserID t = j \<and> us_Key t = k"
  have "find ?Q (put_setting s rows) = (if ?Q s then Some s else find ?Q rows)" for rows
  proof (cases "?Q s")
    case True
    then have Q: "?Q = same_row s" by (auto simp: same_row_def)
    have refl: "same_row s s" by (simp add: same_row_def)
    have "list_ex (same_row s) rows \<Longrightarrow> find (same_row s) (map (\<lambda>r. if same_row s r then s else r) rows) = Some s"
      by (induction rows) (auto simp: refl)
    moreover have "\<not> list_ex (same_row s) rows \<Longrightarrow> find (same_row s) (rows @ [s]) = Some s"
      by (induction rows) (auto simp: refl)
    ultimately show ?thesis using True unfolding Q put_setting_def by simp
  next
    case False
    then have "find ?Q (map (\<lambda>r. if same_row s r then s else r) rows) = find ?Q rows"
      by (induction rows) (auto simp: same_row_def)
    moreover have "find ?Q (rows @ [s]) = find ?Q rows"
      using False by (induction rows) auto
    ultimately show ?thesis using False by (auto simp: put_setting_def)
  qed
  then show ?thesis by simp
qed

lemma stored_row: "stored k un w i = (case row_of w i k of None \<Rightarrow> [] | Some s \<Rightarrow> un (us_Value s))"
  by (simp add: stored_def)

lemma stored_put:
  "stored k un (w\<lparr>ac_settings := put_setting s (ac_settings w)\<rparr>) j =
     (if us_UserID s = j \<and> us_Key s = k then un (us_Value s) else stored k un w j)"
  unfolding stored_row row_put by simp

subsubsection \<open>Reading and writing a row\<close>

definition same_users :: "accounts \<Rightarrow> accounts \<Rightarrow> bool" where
  "same_users w v \<longleftrightarrow> ac_users v = ac_users w \<and> ac_next_id v = ac_next_id w \<and>
     ac_user_cache v = ac_user_cache w"

lemma same_users_refl [simp]: "same_users w w"
  by (simp add: same_users_def)

lemma same_users_trans: "same_users u v \<Longrightarrow> same_users v w \<Longrightarrow> same_users u w"
  by (simp add: same_users_def)

lemma same_users_simps [simp]:
  "same_users w (tick_ac v) = same_users w v"
  "same_users (tick_ac w) v = same_users w v"
  "same_users w (cache_setting s v) = same_users w v"
  "same_users w (w\<lparr>ac_settings := rows\<rparr>)"
  "same_users w (w\<lparr>ac_setting_cache := c\<rparr>)"
  by (simp_all add: same_users_def tick_ac_def cache_setting_def)

lemma user_inv_same: "same_users w v \<Longrightarrow> user_inv v = user_inv w"
  by (simp add: same_users_def user_inv_def users_ok_def)

definition db_error :: "acc_env \<Rightarrow> string \<Rightarrow> bool" where
  "db_error E e \<longleftrightarrow> (\<exists>t. ae_db E t = Some e)"

lemma only_setting_row:
  assumes inv: "set_inv k w" and k0: "k0 \<noteq> KEY_UNSPECIFIED"
    and run: "only_setting E (setting_of i k0) w = (r, v)"
  shows "set_inv k v \<and> ac_settings v = ac_settings w \<and> same_users w v \<and>
     (case r of Inl e \<Rightarrow> db_error E e | Inr s \<Rightarrow> s = row_of w i k0)"
proof (cases "ae_db E (ac_tick w)")
  case (Some e)
  then show ?thesis
    using run inv
    by (auto simp: only_setting_def store_ListUserSettings_def sqlite_ListUserSettings_def
        db_call_def db_error_def)
next
  case None
  have rows: "filter (setting_matches (setting_of i k0)) (ac_settings w) =
      (case row_of w i k0 of None \<Rightarrow> [] | Some s \<Rightarrow> [s])"
    using inv k0 by (intro filter_row) (simp_all add: set_inv_def)
  show ?thesis
  proof (cases "row_of w i k0")
    case None': None
    then show ?thesis
      using run inv None rows
      by (auto simp: only_setting_def store_ListUserSettings_def sqlite_ListUserSettings_def
          db_call_def map_filter_simps)
  next
    case s: (Some s)
    then have "s \<in> set (ac_settings w)" "us_Key s = k0" by (auto dest: find_SomeD)
    then have "List.map_filter convertUserSettingFromRaw [s] = [s]"
      using k0 by (intro known_from_raw) simp
    moreover have "set_inv k (cache_setting s (cache_setting s (tick_ac w)))"
      using inv \<open>s \<in> set (ac_settings w)\<close> by (intro set_inv_cache) simp_all
    ultimately show ?thesis
      using run None rows s
      by (auto simp: only_setting_def store_ListUserSettings_def sqlite_ListUserSettings_def
          db_call_def)
  qed
qed

lemma cached_row:
  assumes "set_inv k w" "in_int32 i" "cached_setting E (setting_cache_key i k) w = (Some s, v)"
  shows "row_of w i k = Some s"
proof -
  from assms(1,3) have s: "setting_cache_key i k = setting_cache_key (us_UserID s) (us_Key s)"
    "in_int32 (us_UserID s)"
    by (auto simp: cached_setting_def set_inv_def setting_keys_ok_def split: if_splits)
  then have "us_UserID s = i" "us_Key s = k"
    using setting_cache_key_inject assms(2) by blast+
  moreover from this have "s \<in> set (ac_settings w)"
    using assms(1,3) by (auto simp: cached_setting_def set_inv_def coherent_def split: if_splits)
  ultimately show ?thesis using find_row assms(1) by (auto simp: set_inv_def)
qed

lemma get_setting:
  assumes inv: "set_inv k w" and k0: "k0 \<noteq> KEY_UNSPECIFIED" and i: "in_int32 i"
    and run: "store_GetUserSetting E (setting_of i k0) w = (r, v)"
  shows "set_inv k v \<and> ac_settings v = ac_settings w \<and> same_users w v \<and>
     (case r of Inl e \<Rightarrow> db_error E e | Inr s \<Rightarrow> k0 = k \<longrightarrow> s = row_of w i k)"
proof -
  obtain c u where c: "cached_setting E (setting_cache_key i k0) w = (c, u)" by fastforce
  then have u: "set_inv k u" "ac_settings u = ac_settings w" "same_users w u"
    using inv by (auto simp: cached_setting_def set_inv_forget split: if_splits)
  show ?thesis
  proof (cases c)
    case None
    with run c have "only_setting E (setting_of i k0) u = (r, v)"
      by (simp add: store_GetUserSetting_def setting_of_def)
    from only_setting_row [OF u(1) k0 this] u(2,3) show ?thesis
      by (auto split: sum.splits intro: same_users_trans)
  next
    case (Some s)
    with run c have "r = Inr (Some s)" "v = u"
      by (auto simp: store_GetUserSetting_def setting_of_def)
    moreover have "k0 = k \<Longrightarrow> row_of w i k = Some s" using cached_row [OF inv i] c Some by blast
    ultimately show ?thesis using u by auto
  qed
qed

lemma save_setting_row:
  assumes inv: "set_inv k w" and k0: "k0 \<noteq> KEY_UNSPECIFIED" and i: "in_int32 i"
    and run: "save_setting E i k0 x w = (r, v)"
  shows "set_inv k v \<and> same_users w v \<and>
     (case r of Inl e \<Rightarrow> db_error E e \<and> ac_settings v = ac_settings w
      | Inr _ \<Rightarrow> ac_settings v = put_setting \<lparr>us_UserID = i, us_Key = k0, us_Value = x\<rparr> (ac_settings w))"
proof (cases "ae_db E (ac_tick w)")
  case (Some e)
  then show ?thesis
    using run inv k0
    by (auto simp: save_setting_def store_UpsertUserSetting_def sqlite_UpsertUserSetting_def
        convertUserSettingToRaw_def db_call_def db_error_def)
next
  case None
  let ?s = "\<lparr>us_UserID = i, us_Key = k0, us_Value = x\<rparr>"
  have v: "r = Inr ()" "v = cache_setting ?s (tick_ac (w\<lparr>ac_settings := put_setting ?s (ac_settings w)\<rparr>))"
    using run k0 None
    by (auto simp: save_setting_def store_UpsertUserSetting_def sqlite_UpsertUserSetting_def
        convertUserSettingToRaw_def convertUserSettingFromRaw_def db_call_def)
  moreover have "cache_setting ?s (tick_ac u) = tick_ac (cache_setting ?s u)" for u
    by (simp add: cache_setting_def tick_ac_def)
  moreover have "set_inv k (cache_setting ?s (w\<lparr>ac_settings := put_setting ?s (ac_settings w)\<rparr>))"
    using inv k0 i by (intro set_inv_put) simp_all
  ultimately show ?thesis by simp
qed

subsubsection \<open>A list kept in one row\<close>

text \<open>
  Sessions, access tokens and webhooks are lists, each kept in a row of its own key. The
  contract of such a list: its row is wrapped and unwrapped without loss, and \<open>get\<close> is the
  look-up of the row. Then \<open>get\<close> returns the list of the table, cache or no cache, and an
  operation that writes back a function of what it read changes this list and no other.
\<close>

locale stored_list =
  fixes key :: setting_key
    and wrap :: "'a list \<Rightarrow> setting_value"
    and unwrap :: "setting_value \<Rightarrow> 'a list"
    and get :: "acc_env \<Rightarrow> int \<Rightarrow> accounts \<Rightarrow> 'a list call"
  assumes key_known: "key \<noteq> KEY_UNSPECIFIED"
    and unwrap_wrap: "unwrap (wrap xs) = xs"
    and get_looks_up: "get E i w =
      and_then (store_GetUserSetting E (setting_of i key) w)
        (\<lambda>s w. (Inr (case s of None \<Rightarrow> [] | Some s \<Rightarrow> unwrap (us_Value s)), w))"
begin

lemma get_keeps:
  assumes "set_inv k w" "in_int32 i" "get E i w = (r, v)"
  shows "set_inv k v \<and> ac_settings v = ac_settings w \<and> same_users w v"
proof -
  obtain q u where q: "store_GetUserSetting E (setting_of i key) w = (q, u)" by fastforce
  from get_setting [OF assms(1) key_known assms(2) this] assms(3) q show ?thesis
    by (cases q) (auto simp: get_looks_up)
qed

lemma get_reads:
  assumes "set_inv key w" "in_int32 i" "get E i w = (r, v)"
  shows "case r of Inl e \<Rightarrow> db_error E e | Inr xs \<Rightarrow> xs = stored key unwrap w i"
proof -
  obtain q u where q: "store_GetUserSetting E (setting_of i key) w = (q, u)" by fastforce
  from get_setting [OF assms(1) key_known assms(2) this] assms(3) q show ?thesis
    by (cases q) (auto simp: get_looks_up stored_def)
qed

lemma rewrite_keeps:
  assumes "set_inv k w" "in_int32 i"
    and "and_then (get E i w) (\<lambda>xs w. save_setting E i key (wrap (g xs)) w) = (r, v)"
  shows "set_inv k v \<and> same_users w v"
proof -
  obtain q u where q: "get E i w = (q, u)" by fastforce
  note u = get_keeps [OF assms(1,2) q]
  show ?thesis
  proof (cases q)
    case (Inl e)
    with u q assms(3) show ?thesis by auto
  next
    case (Inr xs)
    with q assms(3) have "save_setting E i key (wrap (g xs)) u = (r, v)" by simp
    from save_setting_row [OF _ key_known assms(2) this] u show ?thesis
      using same_users_trans by blast
  qed
qed

lemma rewrite_stored:
  assumes "set_inv key w" "in_int32 i"
    and "and_then (get E i w) (\<lambda>xs w. save_setting E i key (wrap (g xs)) w) = (r, v)"
  shows "case r of
      Inl e \<Rightarrow> db_error E e \<and> stored key unwrap v = stored key unwrap w
    | Inr _ \<Rightarrow> stored key unwrap v = (stored key unwrap w)(i := g (stored key unwrap w i))"
proof -
  obtain q u where q: "get E i w = (q, u)" by fastforce
  note u = get_keeps [OF assms(1,2) q]
  have same: "stored key unwrap u = stored key unwrap w" using u by (simp add: stored_def fun_eq_iff)
  show ?thesis
  proof (cases q)
    case (Inl e)
    with q assms(3) have "r = Inl e" "v = u" by auto
    with Inl get_reads [OF assms(1,2) q] same show ?thesis by simp
  next
    case (Inr xs)
    with q assms(3) have run: "save_setting E i key (wrap (g xs)) u = (r, v)" by simp
    have xs: "xs = stored key unwrap w i" using get_reads [OF assms(1,2) q] Inr by simp
    show ?thesis
    proof (cases r)
      case e: (Inl e)
      with save_setting_row [OF _ key_known assms(2) run] u have "db_error E e" "ac_settings v = ac_settings w"
        by auto
      with e show ?thesis by (simp add: stored_def fun_eq_iff)
    next
      case (Inr y)
      let ?s = "\<lparr>us_UserID = i, us_Key = key, us_Value = wrap (g xs)\<rparr>"
      from Inr save_setting_row [OF _ key_known assms(2) run] u
      have "ac_settings v = put_setting ?s (ac_settings w)" by auto
      then have "stored key unwrap v j = stored key unwrap (w\<lparr>ac_settings := put_setting ?s (ac_settings w)\<rparr>) j" for j
        by (simp add: stored_def)
      then show ?thesis using Inr xs by (auto simp: stored_put unwrap_wrap fun_eq_iff)
    qed
  qed
qed

end

interpretation sess: stored_list REFRESH_TOKENS RefreshTokens refresh_of_value GetUserRefreshTokens
  by unfold_locales (simp_all add: GetUserRefreshTokens_def)

interpretation pats: stored_list PERSONAL_ACCESS_TOKENS PersonalAccessTokens tokens_of_value
  GetUserPersonalAccessTokens
  by unfold_locales (simp_all add: GetUserPersonalAccessTokens_def)

interpretation hooks: stored_list WEBHOOKS Webhooks webhooks_of_value GetUserWebhooks
  by unfold_locales (simp_all add: GetUserWebhooks_def)

lemma AddUserRefreshToken_result:
  assumes "set_inv REFRESH_TOKENS w" "in_int32 i" "AddUserRefreshToken E i t w = (r, v)"
  shows "set_inv REFRESH_TOKENS v \<and> same_users w v \<and>
     (case r of Inl e \<Rightarrow> db_error E e \<and> sessions v = sessions w
      | Inr _ \<Rightarrow> sessions v = (sessions w)(i := sessions w i @ [t]))"
  using sess.rewrite_keeps [OF assms(1,2), of E "\<lambda>ts. ts @ [t]"]
    sess.rewrite_stored [OF assms(1,2), of E "\<lambda>ts. ts @ [t]"] assms(3)
  by (auto simp: AddUserRefreshToken_def)

lemma RemoveUserRefreshToken_result:
  assumes "set_inv REFRESH_TOKENS w" "in_int32 i" "RemoveUserRefreshToken E i tid w = (r, v)"
  shows "set_inv REFRESH_TOKENS v \<and> same_users w v \<and>
     (case r of Inl e \<Rightarrow> db_error E e \<and> sessions v = sessions w
      | Inr _ \<Rightarrow> sessions v = (sessions w)(i := filter (\<lambda>t. rt_TokenId t \<noteq> tid) (sessions w i)))"
  using sess.rewrite_keeps [OF assms(1,2), of E "filter (\<lambda>t. rt_TokenId t \<noteq> tid)"]
    sess.rewrite_stored [OF assms(1,2), of E "filter (\<lambda>t. rt_TokenId t \<noteq> tid)"] assms(3)
  by (auto simp: RemoveUserRefreshToken_def)

lemma GetUserRefreshTokenByID_result:
  assumes "set_inv REFRESH_TOKENS w" "in_int32 i" "GetUserRefreshTokenByID E i tid w = (r, v)"
  shows "set_inv REFRESH_TOKENS v \<and> same_users w v \<and> ac_settings v = ac_settings w \<and>
     (case r of Inl e \<Rightarrow> db_error E e | Inr t \<Rightarrow> t = find (\<lambda>t. rt_TokenId t = tid) (sessions w i))"
proof -
  obtain q u where q: "GetUserRefreshTokens E i w = (q, u)" by fastforce
  from sess.get_keeps [OF assms(1,2) q] sess.get_reads [OF assms(1,2) q] assms(3) q show ?thesis
    by (cases q) (auto simp: GetUserRefreshTokenByID_def)
qed

subsubsection \<open>Users do not touch settings\<close>

definition same_settings :: "accounts \<Rightarrow> accounts \<Rightarrow> bool" where
  "same_settings w v \<longleftrightarrow> ac_settings v = ac_settings w \<and> ac_setting_cache v = ac_setting_cache w \<and>
     ac_tick w \<le> ac_tick v"

lemma set_inv_same: "same_settings w v \<Longrightarrow> set_inv k v = set_inv k w"
  by (simp add: same_settings_def set_inv_def settings_ok_def setting_keys_ok_def coherent_def)

lemma same_settings_refl [simp]: "same_settings w w"
  by (simp add: same_settings_def)

lemma same_settings_trans: "same_settings u v \<Longrightarrow> same_settings v w \<Longrightarrow> same_settings u w"
  by (auto simp: same_settings_def)

lemma same_settings_stored: "same_settings w v \<Longrightarrow> stored k un v = stored k un w"
  by (simp add: same_settings_def stored_def fun_eq_iff)

lemma same_settings_cache_user [simp]: "same_settings w (cache_user u v) = same_settings w v"
  by (simp add: same_settings_def cache_user_def)

lemma same_settings_fold [simp]: "same_settings w (fold cache_user us v) = same_settings w v"
  by (induction us arbitrary: v) auto

lemma same_settings_db:
  assumes "same_settings w (snd (f w))"
  shows "same_settings w (snd (db_call E f w))"
  using assms by (auto simp: db_call_def same_settings_def tick_ac_def split: option.splits)

lemma same_settings_list: "same_settings w (snd (store_ListUsers E f w))"
  unfolding store_ListUsers_def
  by (rule and_then_keeps [where P = "same_settings w"])
    (auto simp: sqlite_ListUsers_def Let_def intro: same_settings_db)

lemma same_settings_list_one: "same_settings w (snd (list_one_user E f w))"
  unfolding list_one_user_def
  by (rule and_then_keeps [where P = "same_settings w"]) (auto intro: same_settings_list split: list.splits)

lemma same_settings_get: "same_settings w (snd (store_GetUser E f w))"
proof -
  have "same_settings w u" if "cached_user E i w = (r, u)" for i r u
    using that by (auto simp: cached_user_def same_settings_def tick_ac_def split: if_splits)
  then show ?thesis
    using same_settings_list_one same_settings_trans
    by (fastforce simp: store_GetUser_def split: option.splits prod.splits)
qed

text \<open>
  C29. Two requests of one user that overlap: one has read the sessions to add a session, the
  other revokes a session, the first writes back what it read. Both report success, and the
  revoked session is valid again.
\<close>

theorem overlapping_update_revives_session:
  assumes "set_inv REFRESH_TOKENS w" "in_int32 i"
    and "GetUserRefreshTokens E i w = (Inr ts, w1)"
    and "RemoveUserRefreshToken E i tid w1 = (Inr (), w2)"
    and "save_setting E i REFRESH_TOKENS (RefreshTokens (ts @ [t])) w2 = (Inr (), w3)"
  shows "find (\<lambda>t. rt_TokenId t = tid) (sessions w2 i) = None \<and> sessions w3 i = sessions w i @ [t]"
proof -
  have w1: "set_inv REFRESH_TOKENS w1" "sessions w1 = sessions w" "ts = sessions w i"
    using sess.get_keeps [OF assms(1,2,3)] sess.get_reads [OF assms(1,2,3)]
    by (auto simp: stored_def fun_eq_iff)
  have w2: "set_inv REFRESH_TOKENS w2"
    "sessions w2 i = filter (\<lambda>t. rt_TokenId t \<noteq> tid) (sessions w i)"
    using RemoveUserRefreshToken_result [OF w1(1) assms(2,4)] w1(2) by auto
  have "ac_settings w3 = put_setting
      \<lparr>us_UserID = i, us_Key = REFRESH_TOKENS, us_Value = RefreshTokens (ts @ [t])\<rparr> (ac_settings w2)"
    using save_setting_row [OF w2(1) _ assms(2,5)] by simp
  then have "sessions w3 i = ts @ [t]"
    using stored_put [of REFRESH_TOKENS refresh_of_value
        "\<lparr>us_UserID = i, us_Key = REFRESH_TOKENS, us_Value = RefreshTokens (ts @ [t])\<rparr>" w2 i]
    by (simp add: stored_def)
  then show ?thesis using w1(3) w2(2) by (auto simp: find_None_iff)
qed

definition no_client :: client_info where
  "no_client = \<lparr>ci_UserAgent = [], ci_IpAddress = [], ci_DeviceType = [], ci_Os = [], ci_Browser = []\<rparr>"

definition plain_session :: "string \<Rightarrow> refresh_token" where
  "plain_session tid = \<lparr>rt_TokenId = tid, rt_ExpiresAt = None, rt_CreatedAt = 0, rt_ClientInfo = no_client\<rparr>"

definition one_session :: accounts where
  "one_session = (two_users 1 2)\<lparr>ac_settings :=
     [\<lparr>us_UserID = 1, us_Key = REFRESH_TOKENS, us_Value = RefreshTokens [plain_session ''a'']\<rparr>]\<rparr>"

lemma one_session_inv: "set_inv REFRESH_TOKENS one_session"
  by (simp add: one_session_def two_users_def set_inv_def settings_ok_def setting_keys_ok_def
      coherent_def in_int32_def)

lemma steady_never_fails: "\<not> db_error steady e"
  by (simp add: db_error_def steady_def)

lemma overlapping_update_revives_session_witness:
  "\<exists>w3. sessions w3 1 = [plain_session ''a'', plain_session ''b'']"
proof -
  have one: "in_int32 1" by (simp add: in_int32_def)
  note inv = one_session_inv
  obtain r1 w1 where g: "GetUserRefreshTokens steady 1 one_session = (r1, w1)" by fastforce
  obtain ts where ts: "r1 = Inr ts"
    using sess.get_reads [OF inv one g] steady_never_fails by (cases r1) auto
  have w1: "set_inv REFRESH_TOKENS w1" using sess.get_keeps [OF inv one g] by blast
  obtain r2 w2 where rm: "RemoveUserRefreshToken steady 1 ''a'' w1 = (r2, w2)" by fastforce
  then have r2: "r2 = Inr ()" and w2: "set_inv REFRESH_TOKENS w2"
    using RemoveUserRefreshToken_result [OF w1 one rm] steady_never_fails by (cases r2; auto)+
  obtain r3 w3 where sv: "save_setting steady 1 REFRESH_TOKENS (RefreshTokens (ts @ [plain_session ''b''])) w2 = (r3, w3)"
    by fastforce
  then have r3: "r3 = Inr ()"
    using save_setting_row [OF w2 _ one sv] steady_never_fails by (cases r3) auto
  have "sessions w3 1 = sessions one_session 1 @ [plain_session ''b'']"
    using overlapping_update_revives_session [OF inv one] g ts rm r2 sv r3 by blast
  then show ?thesis by (simp add: one_session_def stored_def) blast
qed

end
