(* ===== verification/AuthTokens.thy ===== *)
theory AuthTokens
  imports SettingStore
begin

section \<open>Tokens (server/auth/token.go, extract.go)\<close>

text \<open>
  Access and refresh tokens are JSON web tokens signed with the server's secret; personal
  access tokens are random strings of which only the hash is stored. The JWT library
  (github.com/golang-jwt/jwt) is the parameter \<open>jwt_lib\<close>: \<open>SignedString\<close>, \<open>ParseWithClaims\<close>,
  and the two facts about a token's text that its documentation speaks of, what it decodes to
  and whether its signature verifies with a key. \<open>jwt_documented\<close> states that documentation.
  SHA-256, random numbers and UUIDs are parameters too.
\<close>

subsection \<open>Claims\<close>

record jwt_header =
  hd_alg :: string
  hd_kid :: "string option"   \<comment> \<open>\<open>None\<close>: absent, or not a string\<close>

text \<open>
  The JSON payload. A struct of claims (\<open>ClaimsMessage\<close>, \<open>AccessTokenClaims\<close>,
  \<open>RefreshTokenClaims\<close>) has some of the custom fields; the others are empty. Times are
  nanoseconds, rounded by \<open>jwt.NewNumericDate\<close>.
\<close>

record jwt_claims =
  cl_Name :: string
  cl_Type :: string
  cl_Role :: string
  cl_Status :: string
  cl_Username :: string
  cl_TokenID :: string
  cl_Issuer :: string
  cl_Subject :: string
  cl_Audience :: "string list"
  cl_IssuedAt :: "int option"
  cl_NotBefore :: "int option"
  cl_ExpiresAt :: "int option"

definition no_claims :: jwt_claims where
  "no_claims = \<lparr>cl_Name = [], cl_Type = [], cl_Role = [], cl_Status = [], cl_Username = [],
     cl_TokenID = [], cl_Issuer = [], cl_Subject = [], cl_Audience = [], cl_IssuedAt = None,
     cl_NotBefore = None, cl_ExpiresAt = None\<rparr>"

type_synonym keyfunc = "jwt_header \<Rightarrow> string + string"

record jwt_lib =
  jl_SignedString :: "jwt_header \<Rightarrow> jwt_claims \<Rightarrow> string \<Rightarrow> string + string"
  jl_ParseWithClaims :: "int \<Rightarrow> string \<Rightarrow> keyfunc \<Rightarrow> string \<Rightarrow> string \<Rightarrow> string + jwt_claims"
  jl_NewNumericDate :: "int \<Rightarrow> int"
  jl_decode :: "string \<Rightarrow> (jwt_header \<times> jwt_claims) option"
  jl_verifies :: "string \<Rightarrow> string \<Rightarrow> bool"

definition claims_in_force :: "int \<Rightarrow> string \<Rightarrow> string \<Rightarrow> jwt_claims \<Rightarrow> bool" where
  "claims_in_force t issuer audience c \<longleftrightarrow>
     cl_Issuer c = issuer \<and> audience \<in> set (cl_Audience c) \<and>
     (case cl_ExpiresAt c of None \<Rightarrow> True | Some e \<Rightarrow> t < e) \<and>
     (case cl_NotBefore c of None \<Rightarrow> True | Some b \<Rightarrow> b \<le> t)"

definition Issuer :: string where "Issuer = ''memos''"
definition KeyID :: string where "KeyID = ''v1''"
definition HS256 :: string where "HS256 = ''HS256''"
definition AccessTokenAudienceName :: string where "AccessTokenAudienceName = ''user.access-token''"
definition RefreshTokenAudienceName :: string where "RefreshTokenAudienceName = ''user.refresh-token''"
definition AccessTokenDuration :: int where "AccessTokenDuration = 15 * minute_ns"
definition RefreshTokenDuration :: int where "RefreshTokenDuration = 30 * 24 * hour_ns"
definition RefreshTokenCookieName :: string where "RefreshTokenCookieName = ''memos_refresh''"
definition PersonalAccessTokenPrefix :: string where "PersonalAccessTokenPrefix = ''memos_pat_''"

text \<open>
  A signed token decodes to what was signed and verifies with the key it was signed with.
  A token is accepted only if the key function accepts its header, the signature verifies
  with the key it returned, and the claims are in force; an HS256 token is accepted then.
\<close>

definition jwt_documented :: "jwt_lib \<Rightarrow> bool" where
  "jwt_documented L \<longleftrightarrow>
     (\<forall>h c k tok. jl_SignedString L h c k = Inr tok \<longrightarrow>
        jl_decode L tok = Some (h, c) \<and> jl_verifies L tok k) \<and>
     (\<forall>t tok kf iss aud c. jl_ParseWithClaims L t tok kf iss aud = Inr c \<longrightarrow>
        (\<exists>h k. jl_decode L tok = Some (h, c) \<and> kf h = Inr k \<and> jl_verifies L tok k \<and>
               claims_in_force t iss aud c)) \<and>
     (\<forall>t tok kf iss aud h c k. jl_decode L tok = Some (h, c) \<longrightarrow> hd_alg h = HS256 \<longrightarrow>
        kf h = Inr k \<longrightarrow> jl_verifies L tok k \<longrightarrow> claims_in_force t iss aud c \<longrightarrow>
        jl_ParseWithClaims L t tok kf iss aud = Inr c)"

subsection \<open>Making tokens\<close>

definition our_header :: jwt_header where
  "our_header = \<lparr>hd_alg = HS256, hd_kid = Some KeyID\<rparr>"

definition generateToken ::
  "jwt_lib \<Rightarrow> int \<Rightarrow> string \<Rightarrow> int \<Rightarrow> string \<Rightarrow> int \<Rightarrow> string \<Rightarrow> string + string" where
  "generateToken L t username userID audience expirationTime secret =
     jl_SignedString L our_header
       (no_claims\<lparr>cl_Name := username, cl_Issuer := Issuer, cl_Audience := [audience],
          cl_IssuedAt := Some (jl_NewNumericDate L t), cl_Subject := itoa userID,
          cl_ExpiresAt := (if expirationTime = zero_time then None
                           else Some (jl_NewNumericDate L expirationTime))\<rparr>) secret"

definition GenerateAccessToken ::
  "jwt_lib \<Rightarrow> int \<Rightarrow> string \<Rightarrow> int \<Rightarrow> int \<Rightarrow> string \<Rightarrow> string + string" where
  "GenerateAccessToken L t username userID expirationTime secret =
     generateToken L t username userID AccessTokenAudienceName expirationTime secret"

text \<open>The clock is read twice; \<open>t\<close> and \<open>t2\<close> are the readings.\<close>

definition access_claims :: "jwt_lib \<Rightarrow> int \<Rightarrow> int \<Rightarrow> int \<Rightarrow> string \<Rightarrow> string \<Rightarrow> string \<Rightarrow> jwt_claims" where
  "access_claims L t t2 userID username role status =
     no_claims\<lparr>cl_Type := ''access'', cl_Role := role, cl_Status := status, cl_Username := username,
       cl_Issuer := Issuer, cl_Audience := [AccessTokenAudienceName], cl_Subject := itoa userID,
       cl_IssuedAt := Some (jl_NewNumericDate L t2),
       cl_ExpiresAt := Some (jl_NewNumericDate L (t + AccessTokenDuration))\<rparr>"

definition GenerateAccessTokenV2 ::
  "jwt_lib \<Rightarrow> int \<Rightarrow> int \<Rightarrow> int \<Rightarrow> string \<Rightarrow> string \<Rightarrow> string \<Rightarrow> string \<Rightarrow> string + (string \<times> int)" where
  "GenerateAccessTokenV2 L t t2 userID username role status secret =
     (case jl_SignedString L our_header (access_claims L t t2 userID username role status) secret of
        Inl e \<Rightarrow> Inl e
      | Inr tok \<Rightarrow> Inr (tok, t + AccessTokenDuration))"

definition refresh_claims :: "jwt_lib \<Rightarrow> int \<Rightarrow> int \<Rightarrow> int \<Rightarrow> string \<Rightarrow> jwt_claims" where
  "refresh_claims L t t2 userID tokenID =
     no_claims\<lparr>cl_Type := ''refresh'', cl_TokenID := tokenID,
       cl_Issuer := Issuer, cl_Audience := [RefreshTokenAudienceName], cl_Subject := itoa userID,
       cl_IssuedAt := Some (jl_NewNumericDate L t2),
       cl_ExpiresAt := Some (jl_NewNumericDate L (t + RefreshTokenDuration))\<rparr>"

definition GenerateRefreshToken ::
  "jwt_lib \<Rightarrow> int \<Rightarrow> int \<Rightarrow> int \<Rightarrow> string \<Rightarrow> string \<Rightarrow> string + (string \<times> int)" where
  "GenerateRefreshToken L t t2 userID tokenID secret =
     (case jl_SignedString L our_header (refresh_claims L t t2 userID tokenID) secret of
        Inl e \<Rightarrow> Inl e
      | Inr tok \<Rightarrow> Inr (tok, t + RefreshTokenDuration))"

text \<open>
  \<open>util.RandomString\<close> draws an index for each letter from \<open>crypto/rand\<close>; \<open>None\<close> is its error.
\<close>

definition random_letters :: string where
  "random_letters = ''0123456789abcdefghijklmnopqrstuvwxyzABCDEFGHIJKLMNOPQRSTUVWXYZ''"

fun RandomString :: "nat \<Rightarrow> nat option list \<Rightarrow> string option" where
  "RandomString 0 draws = Some []"
| "RandomString (Suc n) [] = None"
| "RandomString (Suc n) (None # draws) = None"
| "RandomString (Suc n) (Some d # draws) =
     map_option (\<lambda>s. random_letters ! (d mod length random_letters) # s) (RandomString n draws)"

definition GeneratePersonalAccessToken :: "nat option list \<Rightarrow> string \<Rightarrow> string" where
  "GeneratePersonalAccessToken draws uuid =
     (case RandomString 32 draws of
        None \<Rightarrow> PersonalAccessTokenPrefix @ uuid
      | Some s \<Rightarrow> PersonalAccessTokenPrefix @ s)"

subsection \<open>Checking tokens\<close>

definition verifyJWTKeyFunc :: "string \<Rightarrow> keyfunc" where
  "verifyJWTKeyFunc secret h =
     (if hd_alg h \<noteq> HS256 then Inl (''unexpected signing method: '' @ hd_alg h)
      else case hd_kid h of
        None \<Rightarrow> Inl ''unexpected kid''
      | Some kid \<Rightarrow> if kid \<noteq> KeyID then Inl (''unexpected kid: '' @ kid) else Inr secret)"

definition ParseAccessTokenV2 :: "jwt_lib \<Rightarrow> int \<Rightarrow> string \<Rightarrow> string \<Rightarrow> string + jwt_claims" where
  "ParseAccessTokenV2 L t tok secret =
     (case jl_ParseWithClaims L t tok (verifyJWTKeyFunc secret) Issuer AccessTokenAudienceName of
        Inl e \<Rightarrow> Inl e
      | Inr c \<Rightarrow> if cl_Type c \<noteq> ''access'' then Inl ''invalid token type: expected access token''
                 else Inr c)"

definition ParseRefreshToken :: "jwt_lib \<Rightarrow> int \<Rightarrow> string \<Rightarrow> string \<Rightarrow> string + jwt_claims" where
  "ParseRefreshToken L t tok secret =
     (case jl_ParseWithClaims L t tok (verifyJWTKeyFunc secret) Issuer RefreshTokenAudienceName of
        Inl e \<Rightarrow> Inl e
      | Inr c \<Rightarrow> if cl_Type c \<noteq> ''refresh'' then Inl ''invalid token type: expected refresh token''
                 else Inr c)"

subsection \<open>Where a request carries its tokens\<close>

definition ExtractBearerToken :: "string \<Rightarrow> string" where
  "ExtractBearerToken authHeader =
     (if authHeader = [] then []
      else case fields_of authHeader of
        [scheme, tok] \<Rightarrow> if equal_fold scheme ''bearer'' then tok else []
      | _ \<Rightarrow> [])"

text \<open>
  \<open>net/http\<close>'s reading of a Cookie header: parts between semicolons, a name up to the first
  equals sign, a value perhaps in double quotes. At most 3000 cookies are read. The name we look
  for is a token, so the check of the name is subsumed by the comparison.
\<close>

definition valid_cookie_byte :: "char \<Rightarrow> bool" where
  "valid_cookie_byte b \<longleftrightarrow> byte_in 32 126 b \<and> b \<noteq> CHR 0x22 \<and> b \<noteq> CHR '';'' \<and> b \<noteq> CHR 0x5C"

definition parse_cookie_value :: "string \<Rightarrow> string option" where
  "parse_cookie_value raw =
     (let v = (if 1 < length raw \<and> hd raw = CHR 0x22 \<and> last raw = CHR 0x22 then butlast (tl raw) else raw)
      in if list_all valid_cookie_byte v then Some v else None)"

function cookie_values :: "string \<Rightarrow> string \<Rightarrow> string list" where
  "cookie_values name [] = []"
| "cookie_values name (c # cs) =
     (let (part, rest) = cut_at CHR '';'' (c # cs);
          p = trim_http part;
          (n, v) = cut_at CHR ''='' p
      in if p = [] \<or> trim_http n \<noteq> name then cookie_values name rest
         else case parse_cookie_value v of
           None \<Rightarrow> cookie_values name rest
         | Some x \<Rightarrow> x # cookie_values name rest)"
  by pat_completeness auto
termination
  by (relation "measure (\<lambda>(name, s). length s)")
    (auto split: if_splits prod.splits dest!: cut_at_rest simp: less_Suc_eq_le)

definition ExtractRefreshTokenFromCookie :: "string \<Rightarrow> string" where
  "ExtractRefreshTokenFromCookie cookieHeader =
     (if cookieHeader = [] \<or> 3000 < count_list cookieHeader CHR '';'' + 1 then []
      else case cookie_values RefreshTokenCookieName (trim_http cookieHeader) of
        [] \<Rightarrow> []
      | v # _ \<Rightarrow> v)"

subsection \<open>What the tokens guarantee\<close>

definition with_claims :: "jwt_lib \<Rightarrow> string \<Rightarrow> string \<Rightarrow> jwt_claims \<Rightarrow> bool" where
  "with_claims L secret tok c \<longleftrightarrow>
     jl_decode L tok = Some (our_header, c) \<and> jl_verifies L tok secret"

lemma verifyJWTKeyFunc_ok [simp]: "verifyJWTKeyFunc s h = Inr k \<longleftrightarrow> h = our_header \<and> k = s"
  by (cases h) (auto simp: verifyJWTKeyFunc_def our_header_def split: option.splits)

lemma ParseAccessTokenV2_iff:
  assumes "jwt_documented L"
  shows "ParseAccessTokenV2 L t tok secret = Inr c \<longleftrightarrow>
    with_claims L secret tok c \<and> claims_in_force t Issuer AccessTokenAudienceName c \<and> cl_Type c = ''access''"
proof
  assume "ParseAccessTokenV2 L t tok secret = Inr c"
  then have "jl_ParseWithClaims L t tok (verifyJWTKeyFunc secret) Issuer AccessTokenAudienceName = Inr c"
    "cl_Type c = ''access''"
    by (auto simp: ParseAccessTokenV2_def split: sum.splits if_splits)
  with assms show "with_claims L secret tok c \<and> claims_in_force t Issuer AccessTokenAudienceName c \<and> cl_Type c = ''access''"
    unfolding jwt_documented_def with_claims_def by fastforce
next
  assume *: "with_claims L secret tok c \<and> claims_in_force t Issuer AccessTokenAudienceName c \<and> cl_Type c = ''access''"
  have "jl_ParseWithClaims L t tok (verifyJWTKeyFunc secret) Issuer AccessTokenAudienceName = Inr c"
    using assms * unfolding jwt_documented_def with_claims_def
    by (metis our_header_def jwt_header.select_convs(1) verifyJWTKeyFunc_ok)
  with * show "ParseAccessTokenV2 L t tok secret = Inr c" by (simp add: ParseAccessTokenV2_def)
qed

lemma ParseRefreshToken_iff:
  assumes "jwt_documented L"
  shows "ParseRefreshToken L t tok secret = Inr c \<longleftrightarrow>
    with_claims L secret tok c \<and> claims_in_force t Issuer RefreshTokenAudienceName c \<and> cl_Type c = ''refresh''"
proof
  assume "ParseRefreshToken L t tok secret = Inr c"
  then have "jl_ParseWithClaims L t tok (verifyJWTKeyFunc secret) Issuer RefreshTokenAudienceName = Inr c"
    "cl_Type c = ''refresh''"
    by (auto simp: ParseRefreshToken_def split: sum.splits if_splits)
  with assms show "with_claims L secret tok c \<and> claims_in_force t Issuer RefreshTokenAudienceName c \<and> cl_Type c = ''refresh''"
    unfolding jwt_documented_def with_claims_def by fastforce
next
  assume *: "with_claims L secret tok c \<and> claims_in_force t Issuer RefreshTokenAudienceName c \<and> cl_Type c = ''refresh''"
  have "jl_ParseWithClaims L t tok (verifyJWTKeyFunc secret) Issuer RefreshTokenAudienceName = Inr c"
    using assms * unfolding jwt_documented_def with_claims_def
    by (metis our_header_def jwt_header.select_convs(1) verifyJWTKeyFunc_ok)
  with * show "ParseRefreshToken L t tok secret = Inr c" by (simp add: ParseRefreshToken_def)
qed

lemma signed_with_claims:
  assumes "jwt_documented L" "jl_SignedString L our_header c secret = Inr tok"
  shows "with_claims L secret tok c"
  using assms unfolding jwt_documented_def with_claims_def by blast

lemma with_claims_unique: "with_claims L s tok c \<Longrightarrow> with_claims L s' tok d \<Longrightarrow> c = d"
  by (simp add: with_claims_def)

lemma GenerateAccessTokenV2_claims:
  assumes "jwt_documented L" "GenerateAccessTokenV2 L t t2 i name role status secret = Inr (tok, e)"
  shows "with_claims L secret tok (access_claims L t t2 i name role status) \<and> e = t + AccessTokenDuration"
  using assms by (auto simp: GenerateAccessTokenV2_def intro: signed_with_claims split: sum.splits)

lemma GenerateRefreshToken_claims:
  assumes "jwt_documented L" "GenerateRefreshToken L t t2 i tid secret = Inr (tok, e)"
  shows "with_claims L secret tok (refresh_claims L t t2 i tid) \<and> e = t + RefreshTokenDuration"
  using assms by (auto simp: GenerateRefreshToken_def intro: signed_with_claims split: sum.splits)

text \<open>
  C28. The three kinds of JSON web token do not pass for each other: a refresh token and an
  old-style access token (made by \<open>GenerateAccessToken\<close>) are never accepted as an access token, an
  access token never as a refresh token, whatever the secret and the time of the check.
\<close>

theorem tokens_are_not_interchangeable:
  assumes "jwt_documented L"
    and "GenerateRefreshToken L t t2 i tid secret = Inr (rtok, re)"
    and "GenerateAccessTokenV2 L t t2 i name role status secret = Inr (atok, ae)"
    and "GenerateAccessToken L t name i e secret = Inr otok"
  shows "ParseAccessTokenV2 L u rtok s \<noteq> Inr c \<and> ParseRefreshToken L u atok s \<noteq> Inr c \<and>
    ParseAccessTokenV2 L u otok s \<noteq> Inr c \<and> ParseRefreshToken L u otok s \<noteq> Inr c"
proof -
  have "cl_Type d = []" if "with_claims L s otok d" for d
  proof -
    note signed_with_claims [OF assms(1) assms(4) [unfolded GenerateAccessToken_def generateToken_def]]
    from with_claims_unique [OF that this] show ?thesis by (simp add: no_claims_def)
  qed
  moreover have "cl_Type d = ''refresh''" if "with_claims L s rtok d" for d
    using GenerateRefreshToken_claims [OF assms(1,2)] with_claims_unique that
    by (fastforce simp: refresh_claims_def)
  moreover have "cl_Type d = ''access''" if "with_claims L s atok d" for d
    using GenerateAccessTokenV2_claims [OF assms(1,3)] with_claims_unique that
    by (fastforce simp: access_claims_def)
  ultimately show ?thesis
    unfolding ParseAccessTokenV2_iff [OF assms(1)] ParseRefreshToken_iff [OF assms(1)] by force
qed

text \<open>
  A fresh access token is read back as the user it was made for, until it expires.
\<close>

lemma access_token_accepted:
  assumes "jwt_documented L" "GenerateAccessTokenV2 L t t2 i name role status secret = Inr (tok, e)"
    and "u < jl_NewNumericDate L (t + AccessTokenDuration)"
  shows "ParseAccessTokenV2 L u tok secret = Inr (access_claims L t t2 i name role status)"
  using GenerateAccessTokenV2_claims [OF assms(1,2)] assms(3)
  by (simp add: ParseAccessTokenV2_iff [OF assms(1)] claims_in_force_def access_claims_def no_claims_def)

lemma refresh_token_accepted:
  assumes "jwt_documented L" "GenerateRefreshToken L t t2 i tid secret = Inr (tok, e)"
    and "u < jl_NewNumericDate L (t + RefreshTokenDuration)"
  shows "ParseRefreshToken L u tok secret = Inr (refresh_claims L t t2 i tid)"
  using GenerateRefreshToken_claims [OF assms(1,2)] assms(3)
  by (simp add: ParseRefreshToken_iff [OF assms(1)] claims_in_force_def refresh_claims_def no_claims_def)

subsection \<open>A library that does what is documented\<close>

text \<open>The tokens of a table, all signed with one key; the witnesses use it as the JWT library.\<close>

definition whole_seconds :: "int \<Rightarrow> int" where
  "whole_seconds t = second_ns * (t div second_ns)"

definition table_lib :: "(string \<times> jwt_claims) list \<Rightarrow> jwt_lib" where
  "table_lib tab = \<lparr>
     jl_SignedString = (\<lambda>h c k.
       if h = our_header \<and> k = ''key''
       then (case find (\<lambda>(t, d). d = c) tab of None \<Rightarrow> Inl ''no'' | Some (t, _) \<Rightarrow> Inr t)
       else Inl ''no''),
     jl_ParseWithClaims = (\<lambda>t tok kf iss aud.
       case map_of tab tok of None \<Rightarrow> Inl ''malformed''
       | Some c \<Rightarrow> (case kf our_header of Inl e \<Rightarrow> Inl e
           | Inr k \<Rightarrow> if k = ''key'' \<and> claims_in_force t iss aud c then Inr c else Inl ''invalid'')),
     jl_NewNumericDate = whole_seconds,
     jl_decode = (\<lambda>tok. map_option (\<lambda>c. (our_header, c)) (map_of tab tok)),
     jl_verifies = (\<lambda>tok k. k = ''key'')\<rparr>"

lemma table_lib_date [simp]: "jl_NewNumericDate (table_lib tab) = whole_seconds"
  by (simp add: table_lib_def)

lemma table_lib_documented:
  assumes "distinct (map fst tab)"
  shows "jwt_documented (table_lib tab)"
proof -
  have "map_of tab t = Some c" if "find (\<lambda>(t, d). d = c) tab = Some (t, c')" for t c c'
    using find_SomeD [OF that] assms by (auto intro: map_of_is_SomeI)
  then show ?thesis
    by (auto simp: jwt_documented_def table_lib_def split: if_splits option.splits sum.splits)
qed

definition sample_claims :: "(string \<times> jwt_claims) list" where
  "sample_claims =
     [(''r'', refresh_claims (table_lib []) 0 0 7 ''tid''),
      (''a'', access_claims (table_lib []) 0 0 7 ''ann'' ''USER'' ''NORMAL''),
      (''o'', no_claims\<lparr>cl_Name := ''ann'', cl_Issuer := Issuer, cl_Audience := [AccessTokenAudienceName],
         cl_IssuedAt := Some 0, cl_Subject := itoa 7, cl_ExpiresAt := None\<rparr>)]"

lemma sample_tokens:
  "jwt_documented (table_lib sample_claims)"
  "GenerateRefreshToken (table_lib sample_claims) 0 0 7 ''tid'' ''key'' = Inr (''r'', RefreshTokenDuration)"
  "GenerateAccessTokenV2 (table_lib sample_claims) 0 0 7 ''ann'' ''USER'' ''NORMAL'' ''key'' =
     Inr (''a'', AccessTokenDuration)"
  "GenerateAccessToken (table_lib sample_claims) 0 ''ann'' 7 zero_time ''key'' = Inr ''o''"
     apply (rule table_lib_documented, simp add: sample_claims_def)
    apply (simp add: GenerateRefreshToken_def table_lib_def sample_claims_def refresh_claims_def)
   apply (simp add: GenerateAccessTokenV2_def table_lib_def sample_claims_def access_claims_def
      refresh_claims_def no_claims_def)
  apply (simp add: GenerateAccessToken_def generateToken_def table_lib_def sample_claims_def access_claims_def
      refresh_claims_def no_claims_def whole_seconds_def)
  done

lemma tokens_are_not_interchangeable_witness:
  "(\<nexists>c. ParseAccessTokenV2 (table_lib sample_claims) 1 ''r'' ''key'' = Inr c) \<and>
   (\<nexists>c. ParseRefreshToken (table_lib sample_claims) 1 ''a'' ''key'' = Inr c)"
  using tokens_are_not_interchangeable [OF sample_tokens] by blast

subsection \<open>Cookies\<close>

text \<open>A Cookie header as browsers send it, of plain bytes.\<close>

definition plain_byte :: "char \<Rightarrow> bool" where
  "plain_byte b \<longleftrightarrow> valid_cookie_byte b \<and> \<not> http_space b"

definition plain_cookie :: "string \<times> string \<Rightarrow> bool" where
  "plain_cookie c \<longleftrightarrow> fst c \<noteq> [] \<and> CHR ''='' \<notin> set (fst c) \<and>
     list_all plain_byte (fst c) \<and> list_all plain_byte (snd c)"

definition cookie_pair :: "string \<times> string \<Rightarrow> string" where
  "cookie_pair c = fst c @ ''='' @ snd c"

definition cookie_header :: "(string \<times> string) list \<Rightarrow> string" where
  "cookie_header cs = join_with ''; '' (map cookie_pair cs)"

lemma plain_no_semicolon: "list_all plain_byte s \<Longrightarrow> CHR '';'' \<notin> set s"
  by (auto simp: list_all_iff plain_byte_def valid_cookie_byte_def)

lemma pair_no_semicolon: "plain_cookie c \<Longrightarrow> CHR '';'' \<notin> set (cookie_pair c)"
  by (auto simp: plain_cookie_def cookie_pair_def dest: plain_no_semicolon)

lemma trim_pair:
  assumes "plain_cookie c" "sp = [] \<or> sp = '' ''"
  shows "trim_http (sp @ cookie_pair c) = cookie_pair c"
proof -
  obtain x n where n: "fst c = x # n" using assms(1) by (cases "fst c") (auto simp: plain_cookie_def)
  have first: "\<not> http_space x" using assms(1) n by (auto simp: plain_cookie_def plain_byte_def)
  have "\<not> http_space (last (CHR ''='' # snd c))"
    using assms(1)
    by (cases "snd c" rule: rev_cases)
      (auto simp: plain_cookie_def plain_byte_def http_space_def byte_in_def list_all_iff)
  then have last: "\<not> http_space (last (cookie_pair c))" by (simp add: cookie_pair_def)
  have "dropWhile http_space (sp @ cookie_pair c) = cookie_pair c"
    using assms(2) first n by (auto simp: cookie_pair_def http_space_def byte_in_def)
  moreover have "dropWhile http_space (rev (cookie_pair c)) = rev (cookie_pair c)"
    using last by (simp add: dropWhile_eq_self_iff hd_rev)
  ultimately show ?thesis by (simp add: trim_http_def)
qed

lemma plain_value: "list_all plain_byte v \<Longrightarrow> parse_cookie_value v = Some v"
  by (cases v) (auto simp: parse_cookie_value_def plain_byte_def valid_cookie_byte_def list_all_iff Let_def)

lemma plain_name:
  assumes "plain_cookie c"
  shows "trim_http (fst c) = fst c"
proof (rule trim_http_id)
  have "hd (fst c) \<in> set (fst c)" "last (fst c) \<in> set (fst c)"
    using assms by (simp_all add: plain_cookie_def)
  then show "fst c = [] \<or> \<not> http_space (hd (fst c)) \<and> \<not> http_space (last (fst c))"
    using assms unfolding plain_cookie_def plain_byte_def list_all_iff by blast
qed

lemma cookie_values_nonempty:
  "s \<noteq> [] \<Longrightarrow> cookie_values name s =
     (let (part, rest) = cut_at CHR '';'' s; p = trim_http part; (n, v) = cut_at CHR ''='' p
      in if p = [] \<or> trim_http n \<noteq> name then cookie_values name rest
         else case parse_cookie_value v of None \<Rightarrow> cookie_values name rest
              | Some x \<Rightarrow> x # cookie_values name rest)"
  by (cases s) (simp_all only: cookie_values.simps)

lemma cookie_values_pair:
  assumes "plain_cookie c" "cut_at CHR '';'' line = (sp @ cookie_pair c, rest)" "sp = [] \<or> sp = '' ''" "line \<noteq> []"
  shows "cookie_values name line =
    (if fst c = name then snd c # cookie_values name rest else cookie_values name rest)"
proof -
  have "cut_at CHR ''='' (cookie_pair c) = (fst c, snd c)"
    using assms(1) cut_at_append [of "CHR ''=''" "fst c" "snd c"] by (simp add: plain_cookie_def cookie_pair_def)
  moreover have "cookie_pair c \<noteq> []" by (simp add: cookie_pair_def)
  moreover have "parse_cookie_value (snd c) = Some (snd c)"
    using assms(1) by (intro plain_value) (simp add: plain_cookie_def)
  moreover obtain n v where "c = (n, v)" by fastforce
  ultimately show ?thesis
    using assms plain_name [OF assms(1)] by (simp add: cookie_values_nonempty trim_pair)
qed

lemma cookie_values_header:
  assumes "list_all plain_cookie cs" "sp = [] \<or> sp = '' ''" "cs \<noteq> []"
  shows "cookie_values name (sp @ cookie_header cs) = map snd (filter (\<lambda>c. fst c = name) cs)"
  using assms
proof (induction cs arbitrary: sp)
  case (Cons c cs)
  have no: "CHR '';'' \<notin> set (sp @ cookie_pair c)"
    using Cons.prems by (auto dest: pair_no_semicolon)
  show ?case
  proof (cases cs)
    case Nil
    have "cookie_values name (sp @ cookie_pair c) =
        (if fst c = name then snd c # cookie_values name [] else cookie_values name [])"
      using Cons.prems cut_at_absent [OF no]
      by (intro cookie_values_pair [where sp = sp]) (simp_all add: cookie_pair_def)
    with Nil show ?thesis by (simp add: cookie_header_def)
  next
    case (Cons d ds)
    let ?rest = "'' '' @ cookie_header cs"
    have line: "sp @ cookie_header (c # cs) = (sp @ cookie_pair c) @ CHR '';'' # ?rest"
      using Cons by (simp add: cookie_header_def)
    have "cookie_values name (sp @ cookie_header (c # cs)) =
      (if fst c = name then snd c # cookie_values name ?rest else cookie_values name ?rest)"
      unfolding line using Cons.prems cut_at_append [OF no, of ?rest]
      by (intro cookie_values_pair [where sp = sp]) auto
    moreover have "cookie_values name ?rest = map snd (filter (\<lambda>c. fst c = name) cs)"
      using Cons.IH [of "'' ''"] Cons.prems Cons by simp
    ultimately show ?thesis by simp
  qed
qed simp

lemma count_header:
  "list_all plain_cookie cs \<Longrightarrow> count_list (cookie_header cs) CHR '';'' = length cs - 1"
proof (induction cs)
  case (Cons c cs)
  then show ?case
    using pair_no_semicolon [of c]
    by (cases cs) (auto simp: cookie_header_def count_list_append)
qed (simp add: cookie_header_def)

lemma trim_header:
  assumes "list_all plain_cookie cs" "cs \<noteq> []"
  shows "trim_http (cookie_header cs) = cookie_header cs"
proof (rule trim_http_id)
  have ends: "\<not> http_space (hd (cookie_pair c)) \<and> \<not> http_space (last (cookie_pair c))" if "plain_cookie c" for c
    using that
    by (cases "fst c"; cases "snd c" rule: rev_cases)
      (auto simp: plain_cookie_def cookie_pair_def plain_byte_def http_space_def byte_in_def list_all_iff)
  have ne: "cookie_pair c \<noteq> []" for c by (simp add: cookie_pair_def)
  have hd: "hd (cookie_header (c # cs)) = hd (cookie_pair c)" for c cs
    by (cases cs) (simp_all add: cookie_header_def ne)
  have last: "last (cookie_header cs) = last (cookie_pair (last cs))" if "cs \<noteq> []" for cs
    using that
  proof (induction cs)
    case (Cons c cs)
    have "join_with sep (cookie_pair d # ps) \<noteq> []" for sep d ps by (cases ps) (simp_all add: ne)
    with Cons show ?case by (cases cs) (simp_all add: cookie_header_def ne)
  qed simp
  have "plain_cookie (hd cs)" "plain_cookie (last cs)" using assms by (auto simp: list_all_iff)
  then show "cookie_header cs = [] \<or> \<not> http_space (hd (cookie_header cs)) \<and> \<not> http_space (last (cookie_header cs))"
    using ends hd [of "hd cs" "tl cs"] last [OF assms(2)] assms(2) by simp
qed

text \<open>
  A Cookie header as browsers send it, \<open>n1=v1; n2=v2; ...\<close>, with names and values of plain
  bytes: the refresh token is the value of the first cookie of its name, whatever the
  other cookies are.
\<close>

theorem refresh_cookie_roundtrip:
  assumes "list_all plain_cookie cs" "length cs \<le> 3000"
  shows "ExtractRefreshTokenFromCookie (cookie_header cs) =
    (case map_of cs RefreshTokenCookieName of None \<Rightarrow> [] | Some v \<Rightarrow> v)"
proof (cases cs)
  case Nil
  then show ?thesis by (simp add: ExtractRefreshTokenFromCookie_def cookie_header_def)
next
  case (Cons c ds)
  then have ne: "cs \<noteq> []" by simp
  have "cookie_header cs \<noteq> []"
    using Cons by (cases ds) (simp_all add: cookie_header_def cookie_pair_def)
  moreover have "cookie_values RefreshTokenCookieName (cookie_header cs) =
      map snd (filter (\<lambda>c. fst c = RefreshTokenCookieName) cs)"
    using cookie_values_header [OF assms(1) _ ne, of "[]"] by simp
  moreover have "(case map snd (filter (\<lambda>c. fst c = n) cs) of [] \<Rightarrow> [] | v # _ \<Rightarrow> v) =
      (case map_of cs n of None \<Rightarrow> [] | Some v \<Rightarrow> v)" for n
    by (induction cs) auto
  moreover have "\<not> 3000 < count_list (cookie_header cs) CHR '';'' + 1"
    using assms(2) ne unfolding count_header [OF assms(1)] by (cases cs) auto
  ultimately show ?thesis
    unfolding ExtractRefreshTokenFromCookie_def trim_header [OF assms(1) ne] by presburger
qed

lemma refresh_cookie_roundtrip_witness:
  "ExtractRefreshTokenFromCookie ''theme=dark; memos_refresh=ab.cd-e_f; lang=de'' = ''ab.cd-e_f''"
proof -
  let ?cs = "[(''theme'', ''dark''), (''memos_refresh'', ''ab.cd-e_f''), (''lang'', ''de'')]"
  have "ExtractRefreshTokenFromCookie (cookie_header ?cs) =
    (case map_of ?cs RefreshTokenCookieName of None \<Rightarrow> [] | Some v \<Rightarrow> v)"
    by (rule refresh_cookie_roundtrip)
      (simp_all add: plain_cookie_def plain_byte_def valid_cookie_byte_def http_space_def byte_in_def)
  then show ?thesis by (simp add: cookie_header_def cookie_pair_def RefreshTokenCookieName_def)
qed

end
