(* ===== verification/Authenticator.thy ===== *)
theory Authenticator
  imports AuthTokens
begin

section \<open>Who makes a request (server/auth/authenticator.go, context.go; acl\_config.go)\<close>

text \<open>
  A request is authenticated by an access token (checked by its signature alone), a personal
  access token or a refresh token (checked against the store), and the interceptor lets a
  request for a protected method through only with an identity.
\<close>

record auth_env =
  au_acc :: acc_env
  au_jwt :: jwt_lib
  au_secret :: string
  au_sha :: "string \<Rightarrow> string"   \<comment> \<open>SHA-256, in hexadecimal\<close>

record user_claims =
  uc_UserID :: int
  uc_Username :: string
  uc_Role :: string
  uc_Status :: string

text \<open>\<open>util.ConvertStringToInt32\<close>; the text of its error is abbreviated.\<close>

definition ConvertStringToInt32 :: "string \<Rightarrow> string + int" where
  "ConvertStringToInt32 s =
     (case parse_int32 s of None \<Rightarrow> Inl (''strconv.ParseInt: parsing '' @ s) | Some n \<Rightarrow> Inr n)"

definition HashPersonalAccessToken :: "auth_env \<Rightarrow> string \<Rightarrow> string" where
  "HashPersonalAccessToken A tok = au_sha A tok"

definition expired :: "int option \<Rightarrow> int \<Rightarrow> bool" where
  "expired expiresAt t = (case expiresAt of None \<Rightarrow> False | Some e \<Rightarrow> e < t)"

subsection \<open>The three ways to authenticate\<close>

definition AuthenticateByAccessTokenV2 :: "auth_env \<Rightarrow> int \<Rightarrow> string \<Rightarrow> string + user_claims" where
  "AuthenticateByAccessTokenV2 A t accessToken =
     (case ParseAccessTokenV2 (au_jwt A) t accessToken (au_secret A) of
        Inl e \<Rightarrow> Inl (wrap_msg ''invalid access token'' e)
      | Inr c \<Rightarrow>
          (case ConvertStringToInt32 (cl_Subject c) of
             Inl e \<Rightarrow> Inl (wrap_msg ''invalid user ID in token'' e)
           | Inr i \<Rightarrow> Inr \<lparr>uc_UserID = i, uc_Username = cl_Username c, uc_Role = cl_Role c,
                            uc_Status = cl_Status c\<rparr>))"

definition active_user :: "auth_env \<Rightarrow> int \<Rightarrow> accounts \<Rightarrow> user call" where
  "active_user A i w =
     and_then (map_err (wrap_msg ''failed to get user'') (store_GetUser (au_acc A) (user_with_id i) w))
       (\<lambda>u w. case u of
          None \<Rightarrow> (Inl ''user not found'', w)
        | Some u \<Rightarrow> if user_RowStatus u = RowArchived then (Inl ''user is archived'', w) else (Inr u, w))"

definition AuthenticateByRefreshToken :: "auth_env \<Rightarrow> string \<Rightarrow> accounts \<Rightarrow> (user \<times> string) call" where
  "AuthenticateByRefreshToken A refreshToken w =
     (case ParseRefreshToken (au_jwt A) (read_clock (au_acc A) w) refreshToken (au_secret A) of
        Inl e \<Rightarrow> (Inl (wrap_msg ''invalid refresh token'' e), w)
      | Inr c \<Rightarrow>
          (case ConvertStringToInt32 (cl_Subject c) of
             Inl e \<Rightarrow> (Inl (wrap_msg ''invalid user ID in token'' e), w)
           | Inr i \<Rightarrow>
               and_then (map_err (wrap_msg ''failed to get refresh token'')
                   (GetUserRefreshTokenByID (au_acc A) i (cl_TokenID c) w)) (\<lambda>s w.
               case s of
                 None \<Rightarrow> (Inl ''refresh token revoked'', w)
               | Some s \<Rightarrow>
                   if expired (rt_ExpiresAt s) (read_clock (au_acc A) w)
                   then (Inl ''refresh token expired'', w)
                   else and_then (active_user A i w) (\<lambda>u w. (Inr (u, cl_TokenID c), w)))))"

definition AuthenticateByPAT :: "auth_env \<Rightarrow> string \<Rightarrow> accounts \<Rightarrow> (user \<times> personal_token) call" where
  "AuthenticateByPAT A tok w =
     (if \<not> prefix PersonalAccessTokenPrefix tok then (Inl ''invalid PAT format'', w)
      else and_then (map_err (wrap_msg ''invalid PAT'')
          (GetUserByPATHash (au_acc A) (HashPersonalAccessToken A tok) w)) (\<lambda>(u, p) w.
        if expired (pat_ExpiresAt p) (read_clock (au_acc A) w) then (Inl ''PAT expired'', w)
        else if user_RowStatus u = RowArchived then (Inl ''user is archived'', w)
        else (Inr (u, p), w)))"

record auth_result =
  ar_User :: "user option"
  ar_Claims :: "user_claims option"
  ar_AccessToken :: string

text \<open>The \<open>Cookie\<close> header is tried when the Authorization header has not led to an answer.\<close>

definition user_by_cookie :: "auth_env \<Rightarrow> string \<Rightarrow> accounts \<Rightarrow> user option call" where
  "user_by_cookie A cookieHeader w =
     (if cookieHeader = [] \<or> ExtractRefreshTokenFromCookie cookieHeader = [] then (Inr None, w)
      else and_then (AuthenticateByRefreshToken A (ExtractRefreshTokenFromCookie cookieHeader) w)
             (\<lambda>(u, _) w. (Inr (Some u), w)))"

definition AuthenticateToUser :: "auth_env \<Rightarrow> string \<Rightarrow> string \<Rightarrow> accounts \<Rightarrow> user option call" where
  "AuthenticateToUser A authHeader cookieHeader w =
     (let tok = ExtractBearerToken authHeader in
      if authHeader = [] \<or> tok = [] then user_by_cookie A cookieHeader w
      else if \<not> prefix PersonalAccessTokenPrefix tok
      then (case AuthenticateByAccessTokenV2 A (read_clock (au_acc A) w) tok of
              Inr c \<Rightarrow> store_GetUser (au_acc A) (user_with_id (uc_UserID c)) w
            | Inl _ \<Rightarrow> user_by_cookie A cookieHeader w)
      else (case AuthenticateByPAT A tok w of
              (Inr (u, _), w) \<Rightarrow> (Inr (Some u), w)
            | (Inl _, w) \<Rightarrow> user_by_cookie A cookieHeader w))"

text \<open>
  \<open>Authenticate\<close> also starts a goroutine that records the use of a personal access token: the
  second component is its work, the user and the token.
\<close>

type_synonym spawned = "(int \<times> string) option"

definition Authenticate ::
  "auth_env \<Rightarrow> string \<Rightarrow> accounts \<Rightarrow> (auth_result option \<times> spawned) \<times> accounts" where
  "Authenticate A authHeader w =
     (let tok = ExtractBearerToken authHeader in
      if tok = [] then ((None, None), w)
      else if \<not> prefix PersonalAccessTokenPrefix tok
      then (case AuthenticateByAccessTokenV2 A (read_clock (au_acc A) w) tok of
              Inr c \<Rightarrow> ((Some \<lparr>ar_User = None, ar_Claims = Some c, ar_AccessToken = tok\<rparr>, None), w)
            | Inl _ \<Rightarrow> ((None, None), w))
      else (case AuthenticateByPAT A tok w of
              (Inr (u, p), w) \<Rightarrow>
                ((Some \<lparr>ar_User = Some u, ar_Claims = None, ar_AccessToken = tok\<rparr>,
                  Some (user_ID u, pat_TokenId p)), w)
            | (Inl _, w) \<Rightarrow> ((None, None), w)))"

definition run_spawned :: "auth_env \<Rightarrow> spawned \<Rightarrow> accounts \<Rightarrow> accounts" where
  "run_spawned A s w =
     (case s of None \<Rightarrow> w
      | Some (i, tid) \<Rightarrow> snd (UpdatePATLastUsed (au_acc A) i tid (read_clock (au_acc A) w) w))"

subsection \<open>The identity in the request context (context.go)\<close>

record ctx =
  cx_UserID :: "int option"
  cx_AccessToken :: "string option"
  cx_UserClaims :: "user_claims option"

definition no_ctx :: ctx where
  "no_ctx = \<lparr>cx_UserID = None, cx_AccessToken = None, cx_UserClaims = None\<rparr>"

definition GetUserID :: "ctx \<Rightarrow> int" where
  "GetUserID c = (case cx_UserID c of None \<Rightarrow> 0 | Some i \<Rightarrow> i)"

definition GetAccessToken :: "ctx \<Rightarrow> string" where
  "GetAccessToken c = (case cx_AccessToken c of None \<Rightarrow> [] | Some t \<Rightarrow> t)"

definition GetUserClaims :: "ctx \<Rightarrow> user_claims option" where
  "GetUserClaims c = cx_UserClaims c"

definition SetUserInContext :: "ctx \<Rightarrow> user \<Rightarrow> string \<Rightarrow> ctx" where
  "SetUserInContext c u accessToken =
     (let c = c\<lparr>cx_UserID := Some (user_ID u)\<rparr>
      in if accessToken \<noteq> [] then c\<lparr>cx_AccessToken := Some accessToken\<rparr> else c)"

definition SetUserClaimsInContext :: "ctx \<Rightarrow> user_claims \<Rightarrow> ctx" where
  "SetUserClaimsInContext c claims = c\<lparr>cx_UserClaims := Some claims\<rparr>"

definition ApplyToContext :: "ctx \<Rightarrow> auth_result option \<Rightarrow> ctx" where
  "ApplyToContext c result =
     (case result of
        None \<Rightarrow> c
      | Some r \<Rightarrow>
          (case ar_Claims r of
             Some claims \<Rightarrow> (SetUserClaimsInContext c claims)\<lparr>cx_UserID := Some (uc_UserID claims)\<rparr>
           | None \<Rightarrow>
               (case ar_User r of None \<Rightarrow> c | Some u \<Rightarrow> SetUserInContext c u (ar_AccessToken r))))"

subsection \<open>The access list and the interceptor (acl\_config.go, connect\_interceptors.go)\<close>

datatype code =
    Canceled | Unknown | InvalidArgument | NotFound | AlreadyExists | PermissionDenied
  | Unauthenticated | ResourceExhausted | FailedPrecondition | Aborted | OutOfRange
  | Unimplemented | Internal | Unavailable

text \<open>
  What a handler fails with: a status, an error without one, or a panic (which no
  \<open>if err != nil\<close> catches).
\<close>

datatype api_error = Status code string | Plain string | Panicked string

type_synonym 'a reply = "(api_error + 'a) \<times> accounts"

definition PublicMethods :: "string list" where
  "PublicMethods = [
     ''/memos.api.v1.AuthService/SignIn'',
     ''/memos.api.v1.AuthService/RefreshToken'',
     ''/memos.api.v1.InstanceService/GetInstanceProfile'',
     ''/memos.api.v1.InstanceService/GetInstanceSetting'',
     ''/memos.api.v1.UserService/CreateUser'',
     ''/memos.api.v1.UserService/GetUser'',
     ''/memos.api.v1.UserService/GetUserAvatar'',
     ''/memos.api.v1.UserService/GetUserStats'',
     ''/memos.api.v1.UserService/ListAllUserStats'',
     ''/memos.api.v1.UserService/SearchUsers'',
     ''/memos.api.v1.IdentityProviderService/ListIdentityProviders'',
     ''/memos.api.v1.MemoService/GetMemo'',
     ''/memos.api.v1.MemoService/ListMemos'',
     ''/memos.api.v1.MemoService/ListMemoComments'']"

definition IsPublicMethod :: "string \<Rightarrow> bool" where
  "IsPublicMethod procedure \<longleftrightarrow> procedure \<in> set PublicMethods"

type_synonym 'a endpoint = "ctx \<Rightarrow> accounts \<Rightarrow> 'a reply"

definition AuthInterceptor ::
  "auth_env \<Rightarrow> string \<Rightarrow> string \<Rightarrow> 'a endpoint \<Rightarrow> ctx \<Rightarrow> accounts \<Rightarrow> 'a reply \<times> spawned" where
  "AuthInterceptor A procedure authHeader handler c w =
     (case Authenticate A authHeader w of
        ((result, job), w) \<Rightarrow>
          if result = None \<and> \<not> IsPublicMethod procedure
          then ((Inl (Status Unauthenticated ''authentication required''), w), job)
          else (handler (ApplyToContext c result) w, job))"

text \<open>\<open>RecoveryInterceptor\<close> answers for a handler that panicked.\<close>

definition RecoveryInterceptor :: "'a reply \<Rightarrow> 'a reply" where
  "RecoveryInterceptor r =
     (case r of
        (Inl (Panicked _), w) \<Rightarrow> (Inl (Status Internal ''internal server error''), w)
      | _ \<Rightarrow> r)"

datatype log_level = LevelInfo | LevelError

definition classifyError :: "api_error option \<Rightarrow> log_level \<times> string" where
  "classifyError err =
     (case err of
        None \<Rightarrow> (LevelInfo, ''OK'')
      | Some (Status cd _) \<Rightarrow>
          if cd \<in> {Canceled, InvalidArgument, NotFound, AlreadyExists, PermissionDenied,
                   Unauthenticated, ResourceExhausted, FailedPrecondition, Aborted, OutOfRange}
          then (LevelInfo, ''client error'') else (LevelError, ''server error'')
      | Some _ \<Rightarrow> (LevelError, ''unknown error''))"

subsection \<open>What an accepted request has shown\<close>

definition valid_access_token :: "auth_env \<Rightarrow> int \<Rightarrow> string \<Rightarrow> jwt_claims \<Rightarrow> bool" where
  "valid_access_token A t tok c \<longleftrightarrow>
     with_claims (au_jwt A) (au_secret A) tok c \<and>
     claims_in_force t Issuer AccessTokenAudienceName c \<and> cl_Type c = ''access''"

lemma ConvertStringToInt32_Inr [simp]: "ConvertStringToInt32 s = Inr i \<longleftrightarrow> parse_int32 s = Some i"
  by (auto simp: ConvertStringToInt32_def split: option.splits)

lemma parse_int32_range: "parse_int32 s = Some i \<Longrightarrow> in_int32 i"
  by (auto simp: parse_int32_def split: option.splits if_splits)

lemma AuthenticateByAccessTokenV2_iff:
  assumes "jwt_documented (au_jwt A)"
  shows "AuthenticateByAccessTokenV2 A t tok = Inr u \<longleftrightarrow>
    (\<exists>c. valid_access_token A t tok c \<and> parse_int32 (cl_Subject c) = Some (uc_UserID u) \<and>
         uc_Username u = cl_Username c \<and> uc_Role u = cl_Role c \<and> uc_Status u = cl_Status c)"
    (is "?l \<longleftrightarrow> ?r")
proof
  assume ?l
  then obtain c i where "ParseAccessTokenV2 (au_jwt A) t tok (au_secret A) = Inr c"
    "parse_int32 (cl_Subject c) = Some i"
    "u = \<lparr>uc_UserID = i, uc_Username = cl_Username c, uc_Role = cl_Role c, uc_Status = cl_Status c\<rparr>"
    by (fastforce simp: AuthenticateByAccessTokenV2_def split: sum.splits)
  then show ?r by (auto simp: valid_access_token_def ParseAccessTokenV2_iff [OF assms])
next
  assume ?r
  then obtain c where c: "ParseAccessTokenV2 (au_jwt A) t tok (au_secret A) = Inr c"
    and u: "parse_int32 (cl_Subject c) = Some (uc_UserID u)" "uc_Username u = cl_Username c"
      "uc_Role u = cl_Role c" "uc_Status u = cl_Status c"
    by (auto simp: valid_access_token_def ParseAccessTokenV2_iff [OF assms])
  with u show ?l by (simp add: AuthenticateByAccessTokenV2_def ConvertStringToInt32_def)
qed

lemma active_user_Inr:
  "active_user A i w = (Inr u, v) \<longleftrightarrow>
     store_GetUser (au_acc A) (user_with_id i) w = (Inr (Some u), v) \<and> user_RowStatus u \<noteq> RowArchived"
  by (auto simp: active_user_def and_then_Inr split: option.splits if_splits)

lemma AuthenticateByRefreshToken_Inr:
  "AuthenticateByRefreshToken A tok w = (Inr (u, tid), v) \<longleftrightarrow>
    (\<exists>c i s w1. ParseRefreshToken (au_jwt A) (read_clock (au_acc A) w) tok (au_secret A) = Inr c \<and>
       parse_int32 (cl_Subject c) = Some i \<and> tid = cl_TokenID c \<and>
       GetUserRefreshTokenByID (au_acc A) i tid w = (Inr (Some s), w1) \<and>
       \<not> expired (rt_ExpiresAt s) (read_clock (au_acc A) w1) \<and> active_user A i w1 = (Inr u, v))"
    (is "?l \<longleftrightarrow> ?r")
proof
  assume ?l
  then show ?r
    by (auto simp: AuthenticateByRefreshToken_def and_then_Inr split: sum.splits option.splits if_splits)
next
  assume ?r
  then show ?l by (auto simp: AuthenticateByRefreshToken_def ConvertStringToInt32_def)
qed

text \<open>A refresh token that is accepted is signed, in force, and its session is in the store.\<close>

lemma AuthenticateByRefreshToken_sound:
  assumes "jwt_documented (au_jwt A)" "set_inv REFRESH_TOKENS w"
    and "AuthenticateByRefreshToken A tok w = (Inr (u, tid), v)"
  shows "\<exists>c i. with_claims (au_jwt A) (au_secret A) tok c \<and> cl_Type c = ''refresh'' \<and>
    cl_TokenID c = tid \<and> parse_int32 (cl_Subject c) = Some i \<and>
    find (\<lambda>s. rt_TokenId s = tid) (sessions w i) \<noteq> None \<and> user_RowStatus u \<noteq> RowArchived \<and>
    set_inv REFRESH_TOKENS v \<and> sessions v = sessions w"
proof -
  from assms(3) obtain c i s w1 where
    c: "ParseRefreshToken (au_jwt A) (read_clock (au_acc A) w) tok (au_secret A) = Inr c"
    and i: "parse_int32 (cl_Subject c) = Some i"
    and s: "GetUserRefreshTokenByID (au_acc A) i (cl_TokenID c) w = (Inr (Some s), w1)"
    and u: "active_user A i w1 = (Inr u, v)" and tid: "tid = cl_TokenID c"
    unfolding AuthenticateByRefreshToken_Inr by blast
  note w1 = GetUserRefreshTokenByID_result [OF assms(2) parse_int32_range [OF i] s]
  from u have "snd (store_GetUser (au_acc A) (user_with_id i) w1) = v" "user_RowStatus u \<noteq> RowArchived"
    by (simp_all add: active_user_Inr)
  with same_settings_get have "same_settings w1 v" by metis
  then have "set_inv REFRESH_TOKENS v" "sessions v = sessions w1"
    using w1 by (simp_all add: set_inv_same same_settings_stored)
  moreover have "sessions w1 = sessions w" using w1 by (auto simp: stored_def fun_eq_iff)
  moreover have "find (\<lambda>s. rt_TokenId s = tid) (sessions w i) = Some s" using w1 tid by simp
  ultimately show ?thesis
    using c i tid \<open>user_RowStatus u \<noteq> RowArchived\<close>
    by (intro exI [of _ c] exI [of _ i]) (auto simp: ParseRefreshToken_iff [OF assms(1)])
qed

text \<open>
  The row that holds the token's hash, its owner as the store answers in the state after the look
  up, and the clock read after that: all three are those of the request that starts in \<open>w\<close>.
\<close>

definition token_row :: "auth_env \<Rightarrow> string \<Rightarrow> accounts \<Rightarrow> (int \<times> personal_token) option" where
  "token_row A tok w =
     (case find (has_hash (au_sha A tok)) (ac_settings w) of
        None \<Rightarrow> None
      | Some s \<Rightarrow> map_option (Pair (us_UserID s))
          (find (\<lambda>t. pat_TokenHash t = au_sha A tok) (tokens_of_value (us_Value s))))"

definition valid_personal_token :: "auth_env \<Rightarrow> string \<Rightarrow> accounts \<Rightarrow> user \<Rightarrow> bool" where
  "valid_personal_token A tok w u \<longleftrightarrow>
     prefix PersonalAccessTokenPrefix tok \<and> user_RowStatus u \<noteq> RowArchived \<and>
     (case token_row A tok w of
        None \<Rightarrow> False
      | Some (i, p) \<Rightarrow>
          (case store_GetUser (au_acc A) (user_with_id i) (tick_ac w) of
             (Inr (Some x), v) \<Rightarrow> x = u \<and> \<not> expired (pat_ExpiresAt p) (read_clock (au_acc A) v)
           | _ \<Rightarrow> False))"

lemma sqlite_GetUserByPATHash_row:
  assumes "sqlite_GetUserByPATHash (au_acc A) (au_sha A tok) w = (Inr (i, p), v)"
  shows "token_row A tok w = Some (i, p) \<and> v = tick_ac w"
  using assms
  by (auto simp: sqlite_GetUserByPATHash_def token_row_def dest!: db_call_Inr split: option.splits)

lemma AuthenticateByPAT_sound:
  assumes "AuthenticateByPAT A tok w = (Inr (u, p), v)"
  shows "valid_personal_token A tok w u"
proof -
  from assms have pre: "prefix PersonalAccessTokenPrefix tok"
    and g: "GetUserByPATHash (au_acc A) (au_sha A tok) w = (Inr (u, p), v)"
    and ok: "\<not> expired (pat_ExpiresAt p) (read_clock (au_acc A) v)" "user_RowStatus u \<noteq> RowArchived"
    by (auto simp: AuthenticateByPAT_def HashPersonalAccessToken_def and_then_Inr split: if_splits)
  from g obtain i w1 where h: "sqlite_GetUserByPATHash (au_acc A) (au_sha A tok) w = (Inr (i, p), w1)"
    and u: "store_GetUser (au_acc A) (user_with_id i) w1 = (Inr (Some u), v)"
    by (auto simp: GetUserByPATHash_def and_then_Inr split: option.splits)
  from sqlite_GetUserByPATHash_row [OF h] u pre ok show ?thesis
    by (simp add: valid_personal_token_def)
qed

lemma Authenticate_sound:
  assumes "jwt_documented (au_jwt A)" "Authenticate A authHeader w = ((Some r, job), v)"
  shows "(\<exists>c. valid_access_token A (read_clock (au_acc A) w) (ExtractBearerToken authHeader) c \<and>
            parse_int32 (cl_Subject c) = Some (GetUserID (ApplyToContext d (Some r)))) \<or>
         (\<exists>u. valid_personal_token A (ExtractBearerToken authHeader) w u \<and>
            user_ID u = GetUserID (ApplyToContext d (Some r)))"
proof (cases "prefix PersonalAccessTokenPrefix (ExtractBearerToken authHeader)")
  case True
  with assms(2) obtain u p where "AuthenticateByPAT A (ExtractBearerToken authHeader) w = (Inr (u, p), v)"
    and r: "r = \<lparr>ar_User = Some u, ar_Claims = None, ar_AccessToken = ExtractBearerToken authHeader\<rparr>"
    by (auto simp: Authenticate_def Let_def split: if_splits prod.splits sum.splits)
  then have "valid_personal_token A (ExtractBearerToken authHeader) w u"
    using AuthenticateByPAT_sound by blast
  then show ?thesis
    using r by (auto simp: ApplyToContext_def SetUserInContext_def GetUserID_def Let_def)
next
  case False
  with assms(2) obtain c where
    c: "AuthenticateByAccessTokenV2 A (read_clock (au_acc A) w) (ExtractBearerToken authHeader) = Inr c"
    and r: "r = \<lparr>ar_User = None, ar_Claims = Some c, ar_AccessToken = ExtractBearerToken authHeader\<rparr>"
    by (auto simp: Authenticate_def Let_def split: if_splits prod.splits sum.splits)
  from c show ?thesis
    using r unfolding AuthenticateByAccessTokenV2_iff [OF assms(1)]
    by (auto simp: ApplyToContext_def SetUserClaimsInContext_def GetUserID_def)
qed

text \<open>
  C25. The handler of a method that is not public runs only for a request with credentials: a
  signed access token in force, whose subject is the user id the handler sees, or a personal
  access token whose hash is in the settings table at the request, whose owner, as the store
  answers for the row that holds it, is not archived and is the user the handler sees, and which
  has not expired at the clock the request reads. Every other request is answered with
  \<open>Unauthenticated\<close>, and the handler does not run.
\<close>

theorem protected_methods_need_credentials:
  assumes "jwt_documented (au_jwt A)" "\<not> IsPublicMethod procedure"
    and "fst (AuthInterceptor A procedure authHeader handler c w) = (r, v)"
  shows "r = Inl (Status Unauthenticated ''authentication required'') \<or>
    (\<exists>d w'. (r, v) = handler d w' \<and>
      ((\<exists>cl. valid_access_token A (read_clock (au_acc A) w) (ExtractBearerToken authHeader) cl \<and>
             parse_int32 (cl_Subject cl) = Some (GetUserID d)) \<or>
       (\<exists>u. valid_personal_token A (ExtractBearerToken authHeader) w u \<and> user_ID u = GetUserID d)))"
proof -
  obtain res job w' where a: "Authenticate A authHeader w = ((res, job), w')"
    by (cases "Authenticate A authHeader w") auto
  show ?thesis
  proof (cases res)
    case None
    with a assms(2,3) show ?thesis by (simp add: AuthInterceptor_def)
  next
    case (Some x)
    with a assms(3) have "(r, v) = handler (ApplyToContext c (Some x)) w'"
      by (simp add: AuthInterceptor_def)
    with Authenticate_sound [OF assms(1), of authHeader w x job w' c] a Some show ?thesis by blast
  qed
qed

definition sample_auth :: auth_env where
  "sample_auth = \<lparr>au_acc = steady, au_jwt = table_lib sample_claims, au_secret = ''key'', au_sha = id\<rparr>"

text \<open>The handler of the example answers with the user id it sees.\<close>

lemma bearer_a: "ExtractBearerToken ''Bearer a'' = ''a''"
  by code_simp

lemma protected_methods_need_credentials_witness:
  "\<exists>cl. valid_access_token sample_auth 0 ''a'' cl \<and> parse_int32 (cl_Subject cl) = Some 7"
proof -
  let ?w = "two_users 1 7" and ?h = "\<lambda>d w. (Inr (GetUserID d), w)"
  note tok = bearer_a
  have doc: "jwt_documented (au_jwt sample_auth)" using sample_tokens by (simp add: sample_auth_def)
  have parsed: "AuthenticateByAccessTokenV2 sample_auth 0 ''a'' =
      Inr \<lparr>uc_UserID = 7, uc_Username = ''ann'', uc_Role = ''USER'', uc_Status = ''NORMAL''\<rparr>"
  proof -
    have "ParseAccessTokenV2 (table_lib sample_claims) 0 ''a'' ''key'' =
        Inr (access_claims (table_lib sample_claims) 0 0 7 ''ann'' ''USER'' ''NORMAL'')"
      by (rule access_token_accepted [OF sample_tokens(1,3)])
        (simp add: whole_seconds_def AccessTokenDuration_def minute_ns_def second_ns_def)
    then show ?thesis
      by (simp add: AuthenticateByAccessTokenV2_def sample_auth_def access_claims_def
          ConvertStringToInt32_def parse_int32_itoa in_int32_def)
  qed
  have "read_clock (au_acc sample_auth) ?w = 0"
    by (simp add: sample_auth_def steady_def two_users_def read_clock_def)
  then have run: "fst (AuthInterceptor sample_auth ''/memos.api.v1.MemoService/DeleteMemo'' ''Bearer a'' ?h no_ctx ?w)
      = (Inr 7, ?w)"
    by (simp add: AuthInterceptor_def Authenticate_def tok parsed PersonalAccessTokenPrefix_def
        ApplyToContext_def SetUserClaimsInContext_def GetUserID_def)
  have "\<not> IsPublicMethod ''/memos.api.v1.MemoService/DeleteMemo''"
    by (simp add: IsPublicMethod_def PublicMethods_def)
  from protected_methods_need_credentials [OF doc this run]
  have "(\<exists>cl. valid_access_token sample_auth 0 ''a'' cl \<and> parse_int32 (cl_Subject cl) = Some 7) \<or>
      (\<exists>u. valid_personal_token sample_auth ''a'' ?w u)"
    using \<open>read_clock (au_acc sample_auth) ?w = 0\<close> by (auto simp: tok)
  then show ?thesis
    by (auto simp: valid_personal_token_def PersonalAccessTokenPrefix_def)
qed

text \<open>
  C30. \<open>AuthenticateToUser\<close> (the file server's check) lets an archived user pass with an access
  token: the user is loaded and returned without a look at its status. The other two credentials
  look at it: in no state does \<open>AuthenticateByPAT\<close> or \<open>AuthenticateByRefreshToken\<close> return an
  archived user.
\<close>

theorem archived_user_passes_with_access_token:
  assumes "jwt_documented (au_jwt A)" "ExtractBearerToken authHeader = tok" "tok \<noteq> []"
    and "\<not> prefix PersonalAccessTokenPrefix tok"
    and "valid_access_token A (read_clock (au_acc A) w) tok c" "parse_int32 (cl_Subject c) = Some i"
    and "store_GetUser (au_acc A) (user_with_id i) w = (Inr (Some u), v)"
    and "user_RowStatus u = RowArchived"
  shows "AuthenticateToUser A authHeader cookieHeader w = (Inr (Some u), v) \<and>
    AuthenticateByPAT A t s \<noteq> (Inr (u, p), s1) \<and>
    AuthenticateByRefreshToken A t s \<noteq> (Inr (u, tid), s1)"
proof -
  have "AuthenticateByAccessTokenV2 A (read_clock (au_acc A) w) tok =
      Inr \<lparr>uc_UserID = i, uc_Username = cl_Username c, uc_Role = cl_Role c, uc_Status = cl_Status c\<rparr>"
    using assms(5,6) by (subst AuthenticateByAccessTokenV2_iff [OF assms(1)]) auto
  moreover have "authHeader \<noteq> []" using assms(2,3) by (auto simp: ExtractBearerToken_def)
  ultimately have "AuthenticateToUser A authHeader cookieHeader w = (Inr (Some u), v)"
    using assms by (simp add: AuthenticateToUser_def Let_def)
  moreover have "AuthenticateByPAT A t s \<noteq> (Inr (u, p), s1)"
    using AuthenticateByPAT_sound [of A t s u p s1] assms(8) by (auto simp: valid_personal_token_def)
  moreover have "AuthenticateByRefreshToken A t s \<noteq> (Inr (u, tid), s1)"
    using assms(8) by (auto simp: AuthenticateByRefreshToken_Inr active_user_Inr)
  ultimately show ?thesis by blast
qed

definition archived_account :: accounts where
  "archived_account = (two_users 1 7)\<lparr>ac_users := [SystemBot\<lparr>user_ID := 7, user_RowStatus := RowArchived\<rparr>]\<rparr>"

lemma archived_user_passes_with_access_token_witness:
  "\<exists>u v. AuthenticateToUser sample_auth ''Bearer a'' [] archived_account = (Inr (Some u), v) \<and>
     user_RowStatus u = RowArchived"
proof -
  let ?c = "access_claims (table_lib sample_claims) 0 0 7 ''ann'' ''USER'' ''NORMAL''"
  let ?u = "SystemBot\<lparr>user_ID := 7, user_RowStatus := RowArchived\<rparr>"
  note tok = bearer_a
  have doc: "jwt_documented (au_jwt sample_auth)" using sample_tokens by (simp add: sample_auth_def)
  have "ParseAccessTokenV2 (table_lib sample_claims) 0 ''a'' ''key'' = Inr ?c"
    by (rule access_token_accepted [OF sample_tokens(1,3)])
      (simp add: whole_seconds_def AccessTokenDuration_def minute_ns_def second_ns_def)
  moreover have "read_clock (au_acc sample_auth) archived_account = 0"
    by (simp add: sample_auth_def steady_def two_users_def archived_account_def read_clock_def)
  ultimately have valid: "valid_access_token sample_auth (read_clock (au_acc sample_auth) archived_account) ''a'' ?c"
    unfolding ParseAccessTokenV2_iff [OF sample_tokens(1)]
    by (simp add: valid_access_token_def sample_auth_def)
  have sub: "parse_int32 (cl_Subject ?c) = Some 7"
    by (simp add: access_claims_def parse_int32_itoa in_int32_def)
  obtain v where get: "store_GetUser (au_acc sample_auth) (user_with_id 7) archived_account = (Inr (Some ?u), v)"
    by (simp add: store_GetUser_def cached_user_def list_one_user_def store_ListUsers_def
        sqlite_ListUsers_def db_call_def steady_def sample_auth_def archived_account_def two_users_def
        user_matches_def tick_ac_def SystemBotID_def user_with_id_def find_any_user_def)
  have "AuthenticateToUser sample_auth ''Bearer a'' [] archived_account = (Inr (Some ?u), v)"
    using archived_user_passes_with_access_token [OF doc tok _ _ valid sub get, of "[]"]
    by (simp add: PersonalAccessTokenPrefix_def)
  then show ?thesis by auto
qed

end
