(* ===== verification/ClientInfo.thy ===== *)
theory ClientInfo
  imports AuthTokens CivilTime
begin

section \<open>Client information and cookies (server/router/api/v1/auth\_service.go)\<close>

text \<open>
  What a session remembers of the client it was opened from, guessed from the User-Agent
  header, and the cookie that carries the refresh token. \<open>to_lower\<close> is exact for ASCII
  user agents.
\<close>

subsection \<open>The request metadata (connect\_interceptors.go)\<close>

type_synonym metadata = "(string \<Rightarrow> string list) option"

definition md_Get :: "metadata \<Rightarrow> string \<Rightarrow> string list" where
  "md_Get md key = (case md of None \<Rightarrow> [] | Some m \<Rightarrow> m key)"

text \<open>\<open>MetadataInterceptor\<close>: the headers of a Connect request that the services get to see.\<close>

definition MetadataInterceptor :: "(string \<Rightarrow> string) \<Rightarrow> metadata" where
  "MetadataInterceptor header = Some (\<lambda>key.
     let v = (if key = ''user-agent'' then header ''User-Agent''
              else if key = ''x-forwarded-for'' then header ''X-Forwarded-For''
              else if key = ''x-real-ip'' then header ''X-Real-Ip''
              else if key = ''cookie'' then header ''Cookie'' else [])
     in if v = [] then [] else [v])"

subsection \<open>The user agent\<close>

text \<open>\<open>rest_after s mark\<close>: what follows the first \<open>mark\<close>; \<open>upto s end\<close>: what precedes \<open>end\<close>.\<close>

definition rest_after :: "string \<Rightarrow> string \<Rightarrow> string option" where
  "rest_after s mark = map_option (\<lambda>i. drop (i + length mark) s) (str_index s mark)"

definition upto_mark :: "string \<Rightarrow> string \<Rightarrow> string option" where
  "upto_mark s mark = map_option (\<lambda>i. take i s) (str_index s mark)"

definition underscores_to_dots :: "string \<Rightarrow> string" where
  "underscores_to_dots s = replace_char CHR ''_'' CHR ''.'' s"

definition named_version :: "string \<Rightarrow> string option \<Rightarrow> string" where
  "named_version name version = (case version of None \<Rightarrow> name | Some v \<Rightarrow> name @ '' '' @ v)"

definition ios_version :: "string \<Rightarrow> string" where
  "ios_version rest = named_version ''iOS'' (map_option underscores_to_dots (upto_mark rest '' ''))"

text \<open>Up to a semicolon, or else up to a closing parenthesis.\<close>

definition bracketed_version :: "string \<Rightarrow> string option" where
  "bracketed_version rest =
     (case upto_mark rest '';'' of Some v \<Rightarrow> Some v | None \<Rightarrow> upto_mark rest '')'')"

definition detect_device :: "string \<Rightarrow> string" where
  "detect_device ua =
     (if str_contains ua ''ipad'' \<or> str_contains ua ''tablet'' then ''tablet''
      else if str_contains ua ''mobile'' \<or> str_contains ua ''android'' \<or> str_contains ua ''iphone''
        \<or> str_contains ua ''ipod'' \<or> str_contains ua ''windows phone'' \<or> str_contains ua ''blackberry''
      then ''mobile'' else ''desktop'')"

definition detect_os :: "string \<Rightarrow> string" where
  "detect_os ua =
     (if str_contains ua ''iphone os'' \<or> str_contains ua ''cpu os'' then
        (case rest_after ua ''cpu os '' of
           Some rest \<Rightarrow> ios_version rest
         | None \<Rightarrow> (case rest_after ua ''iphone os '' of Some rest \<Rightarrow> ios_version rest | None \<Rightarrow> ''iOS''))
      else if str_contains ua ''android'' then
        (case rest_after ua ''android '' of
           Some rest \<Rightarrow> named_version ''Android'' (bracketed_version rest) | None \<Rightarrow> ''Android'')
      else if str_contains ua ''windows nt 10.0'' then ''Windows 10/11''
      else if str_contains ua ''windows nt 6.3'' then ''Windows 8.1''
      else if str_contains ua ''windows nt 6.1'' then ''Windows 7''
      else if str_contains ua ''windows'' then ''Windows''
      else if str_contains ua ''mac os x'' then
        (case rest_after ua ''mac os x '' of
           Some rest \<Rightarrow> named_version ''macOS'' (map_option underscores_to_dots (bracketed_version rest))
         | None \<Rightarrow> ''macOS'')
      else if str_contains ua ''linux'' then ''Linux''
      else if str_contains ua ''cros'' then ''Chrome OS''
      else [])"

text \<open>Up to a space, or else all the rest.\<close>

definition browser_version :: "string \<Rightarrow> string \<Rightarrow> string \<Rightarrow> string" where
  "browser_version name mark ua =
     (case rest_after ua mark of
        None \<Rightarrow> name
      | Some rest \<Rightarrow> name @ '' '' @ (case upto_mark rest '' '' of None \<Rightarrow> rest | Some v \<Rightarrow> v))"

definition detect_browser :: "string \<Rightarrow> string" where
  "detect_browser ua =
     (if str_contains ua ''edg/'' then browser_version ''Edge'' ''edg/'' ua
      else if str_contains ua ''chrome/'' \<and> \<not> str_contains ua ''edg''
      then browser_version ''Chrome'' ''chrome/'' ua
      else if str_contains ua ''firefox/'' then browser_version ''Firefox'' ''firefox/'' ua
      else if str_contains ua ''safari/'' \<and> \<not> str_contains ua ''chrome'' \<and> \<not> str_contains ua ''edg''
      then browser_version ''Safari'' ''version/'' ua
      else if str_contains ua ''opera/'' \<or> str_contains ua ''opr/'' then ''Opera''
      else [])"

definition empty_client_info :: client_info where
  "empty_client_info = \<lparr>ci_UserAgent = [], ci_IpAddress = [], ci_DeviceType = [], ci_Os = [], ci_Browser = []\<rparr>"

definition parseUserAgent :: "string \<Rightarrow> client_info \<Rightarrow> client_info" where
  "parseUserAgent userAgent info =
     (if userAgent = [] then info
      else (let ua = to_lower userAgent in
        info\<lparr>ci_DeviceType := detect_device ua,
             ci_Os := (if detect_os ua = [] then ci_Os info else detect_os ua),
             ci_Browser := (if detect_browser ua = [] then ci_Browser info else detect_browser ua)\<rparr>))"

definition extractClientInfo :: "metadata \<Rightarrow> client_info" where
  "extractClientInfo md =
     (let info = (case md_Get md ''user-agent'' of
           [] \<Rightarrow> empty_client_info
         | ua # _ \<Rightarrow> parseUserAgent ua (empty_client_info\<lparr>ci_UserAgent := ua\<rparr>))
      in case md_Get md ''x-forwarded-for'' of
           forwarded # _ \<Rightarrow> info\<lparr>ci_IpAddress := trim_space (hd (split_on CHR '','' forwarded))\<rparr>
         | [] \<Rightarrow> (case md_Get md ''x-real-ip'' of
               realIP # _ \<Rightarrow> info\<lparr>ci_IpAddress := realIP\<rparr>
             | [] \<Rightarrow> info))"

subsection \<open>The refresh token cookie\<close>

definition weekday_names :: "string list" where
  "weekday_names = [''Sun'', ''Mon'', ''Tue'', ''Wed'', ''Thu'', ''Fri'', ''Sat'']"

definition month_names :: "string list" where
  "month_names = [''Jan'', ''Feb'', ''Mar'', ''Apr'', ''May'', ''Jun'', ''Jul'', ''Aug'', ''Sep'', ''Oct'',
     ''Nov'', ''Dec'']"

definition two_digits :: "int \<Rightarrow> string" where
  "two_digits n = (if n < 10 then ''0'' @ itoa n else itoa n)"

text \<open>\<open>Format("Mon, 02 Jan 2006 15:04:05 GMT")\<close>, for years of four digits.\<close>

definition http_date :: "int \<Rightarrow> string" where
  "http_date t =
     (let u = unix t in
      weekday_names ! nat (clock_weekday utc u) @ '', '' @ two_digits (clock_mday utc u) @ '' '' @
      month_names ! nat (clock_month utc u - 1) @ '' '' @ itoa (clock_year utc u) @ '' '' @
      two_digits (clock_hour utc u) @ '':'' @ two_digits (clock_minute utc u) @ '':'' @
      two_digits (clock_second utc u) @ '' GMT'')"

definition secure_request :: "metadata \<Rightarrow> bool" where
  "secure_request md \<longleftrightarrow> list_ex (prefix ''https://'') (md_Get md ''origin'')"

definition buildRefreshTokenCookie :: "metadata \<Rightarrow> string \<Rightarrow> int \<Rightarrow> string" where
  "buildRefreshTokenCookie md refreshToken expireTime =
     join_with ''; ''
       ([RefreshTokenCookieName @ ''='' @ refreshToken, ''Path=/'', ''HttpOnly''] @
        (if expireTime = zero_time then [''Expires=Thu, 01 Jan 1970 00:00:00 GMT'']
         else [''Expires='' @ http_date expireTime]) @
        (if secure_request md then [''SameSite=Lax'', ''Secure''] else [''SameSite=Lax'']))"

subsection \<open>Properties\<close>

text \<open>
  A request that comes through the Connect handlers is never taken for an HTTPS request: the
  interceptor does not pass the Origin header on, so the refresh token cookie never
  carries the attribute \<open>Secure\<close>, whatever the client sent.
\<close>

theorem connect_cookie_is_never_secure:
  "buildRefreshTokenCookie (MetadataInterceptor header) tok e =
     RefreshTokenCookieName @ ''='' @ tok @ ''; Path=/; HttpOnly; Expires='' @
     (if e = zero_time then ''Thu, 01 Jan 1970 00:00:00 GMT'' else http_date e) @ ''; SameSite=Lax''"
  by (simp add: buildRefreshTokenCookie_def secure_request_def MetadataInterceptor_def md_Get_def)

text \<open>
  Opera announces itself as \<open>Chrome/... OPR/...\<close>; the check for Chrome comes first, so a user
  agent with both is never reported as Opera.
\<close>

theorem opera_is_reported_as_chrome:
  assumes "str_contains (to_lower ua) ''chrome/''" "\<not> str_contains (to_lower ua) ''edg''"
  shows "ci_Browser (parseUserAgent ua info) = browser_version ''Chrome'' ''chrome/'' (to_lower ua)"
proof -
  have "str_contains x ''edg/'' \<Longrightarrow> str_contains x ''edg''" for x
    by (induction x) (auto simp: str_contains_def prefix_def split: if_splits)
  moreover have "browser_version ''Chrome'' m x \<noteq> []" for m x
    by (auto simp: browser_version_def split: option.splits)
  moreover have "ua \<noteq> []" using assms(1) by (auto simp: str_contains_def)
  ultimately show ?thesis
    using assms by (auto simp: parseUserAgent_def detect_browser_def Let_def)
qed

lemma opera_is_reported_as_chrome_witness:
  "ci_Browser (parseUserAgent ''Mozilla/5.0 Chrome/106.0 Safari/537.36 OPR/92.0'' empty_client_info) = ''Chrome 106.0''"
proof -
  let ?ua = "''Mozilla/5.0 Chrome/106.0 Safari/537.36 OPR/92.0''"
  have 1: "str_contains (to_lower ?ua) ''chrome/''" by code_simp
  have 2: "\<not> str_contains (to_lower ?ua) ''edg''" by code_simp
  have "browser_version ''Chrome'' ''chrome/'' (to_lower ?ua) = ''Chrome 106.0''" by code_simp
  then show ?thesis by (simp only: opera_is_reported_as_chrome [OF 1 2])
qed

end
