(* ===== verification/AuthService.thy ===== *)
theory AuthService
  imports Authenticator ClientInfo
begin

section \<open>Sessions (server/router/api/v1/auth\_service.go)\<close>

text \<open>
  Sign-in, the exchange of a refresh token, sign-out. bcrypt, UUIDs, random numbers, the
  OAuth2 client, regular expressions of administrators, the instance settings and
  \<open>grpc.SetHeader\<close> are oracles of \<open>api_env\<close>, indexed by the tick where they can differ
  from call to call.
\<close>

subsection \<open>The environment\<close>

record general_setting =
  gs_DisallowUserRegistration :: bool
  gs_DisallowPasswordAuth :: bool
  gs_DisallowChangeUsername :: bool
  gs_DisallowChangeNickname :: bool

datatype idp_type = OAUTH2 | OtherIdp

record identity_provider =
  ip_Type :: idp_type
  ip_IdentifierFilter :: string

record idp_user_info =
  ui_Identifier :: string
  ui_DisplayName :: string
  ui_Email :: string
  ui_AvatarURL :: string

text \<open>\<open>ap_oauth\<close> is the exchange of the code for a token and the query of the user, which can fail with a status.\<close>

record api_env =
  ap_auth :: auth_env
  ap_uuid :: "nat \<Rightarrow> string"
  ap_random :: "nat \<Rightarrow> nat option list"
  ap_general :: "nat \<Rightarrow> string + general_setting"
  ap_idp :: "nat \<Rightarrow> int \<Rightarrow> string + identity_provider option"
  ap_oauth :: "nat \<Rightarrow> string \<Rightarrow> api_error + idp_user_info"
  ap_regexp :: "string \<Rightarrow> string + (string \<Rightarrow> bool)"
  ap_hash_password :: "nat \<Rightarrow> string \<Rightarrow> string + string"
  ap_password_matches :: "string \<Rightarrow> string \<Rightarrow> bool"
  ap_header_error :: "nat \<Rightarrow> string option"

abbreviation acc_of :: "api_env \<Rightarrow> acc_env" where
  "acc_of P \<equiv> au_acc (ap_auth P)"

text \<open>The value an oracle has at this tick.\<close>

definition ask :: "(nat \<Rightarrow> 'a) \<Rightarrow> accounts \<Rightarrow> 'a \<times> accounts" where
  "ask f w = (f (ac_tick w), tick_ac w)"

definition status_of :: "code \<Rightarrow> string \<Rightarrow> string \<Rightarrow> api_error" where
  "status_of c msg err = Status c (msg @ '': '' @ err)"

definition code_name :: "code \<Rightarrow> string" where
  "code_name c = (case c of
     Canceled \<Rightarrow> ''Canceled'' | Unknown \<Rightarrow> ''Unknown'' | InvalidArgument \<Rightarrow> ''InvalidArgument''
   | NotFound \<Rightarrow> ''NotFound'' | AlreadyExists \<Rightarrow> ''AlreadyExists''
   | PermissionDenied \<Rightarrow> ''PermissionDenied'' | Unauthenticated \<Rightarrow> ''Unauthenticated''
   | ResourceExhausted \<Rightarrow> ''ResourceExhausted'' | FailedPrecondition \<Rightarrow> ''FailedPrecondition''
   | Aborted \<Rightarrow> ''Aborted'' | OutOfRange \<Rightarrow> ''OutOfRange'' | Unimplemented \<Rightarrow> ''Unimplemented''
   | Internal \<Rightarrow> ''Internal'' | Unavailable \<Rightarrow> ''Unavailable'')"

fun error_text :: "api_error \<Rightarrow> string" where
  "error_text (Status c m) = ''rpc error: code = '' @ code_name c @ '' desc = '' @ m"
| "error_text (Plain m) = m"
| "error_text (Panicked m) = m"

text \<open>\<open>status.Errorf(code, msg, err)\<close> for the error of a service call; a panic stays a panic.\<close>

definition rewrap :: "code \<Rightarrow> string \<Rightarrow> api_error \<Rightarrow> api_error" where
  "rewrap c msg e = (case e of Panicked m \<Rightarrow> Panicked m | _ \<Rightarrow> status_of c msg (error_text e))"

definition SetResponseHeader :: "api_env \<Rightarrow> accounts \<Rightarrow> (string + unit) \<times> accounts" where
  "SetResponseHeader P w =
     (case ask (ap_header_error P) w of (None, w) \<Rightarrow> (Inr (), w) | (Some e, w) \<Rightarrow> (Inl e, w))"

definition GetInstanceGeneralSetting :: "api_env \<Rightarrow> accounts \<Rightarrow> (string + general_setting) \<times> accounts" where
  "GetInstanceGeneralSetting P w = ask (ap_general P) w"

subsection \<open>The current user\<close>

definition fetchCurrentUser :: "api_env \<Rightarrow> ctx \<Rightarrow> accounts \<Rightarrow> user option call" where
  "fetchCurrentUser P c w =
     (let userID = GetUserID c in
      if userID = 0 then (Inr None, w)
      else and_then (store_GetUser (acc_of P) (user_with_id userID) w) (\<lambda>u w.
        case u of None \<Rightarrow> (Inl (''user '' @ itoa userID @ '' not found''), w)
        | Some u \<Rightarrow> (Inr (Some u), w)))"

text \<open>The cookie that makes the browser drop the refresh token; the value is the header that was set.\<close>

definition clearAuthCookies :: "api_env \<Rightarrow> metadata \<Rightarrow> accounts \<Rightarrow> (string + string) \<times> accounts" where
  "clearAuthCookies P md w =
     (let refreshCookie = buildRefreshTokenCookie md [] zero_time in
      and_then (map_err (wrap_msg ''failed to set refresh cookie'') (SetResponseHeader P w))
        (\<lambda>_ w. (Inr refreshCookie, w)))"

definition GetCurrentUser :: "api_env \<Rightarrow> metadata \<Rightarrow> ctx \<Rightarrow> accounts \<Rightarrow> user reply" where
  "GetCurrentUser P md c w =
     and_then (map_err (status_of Unauthenticated ''failed to get current user'') (fetchCurrentUser P c w))
       (\<lambda>u w. case u of
          Some u \<Rightarrow> (Inr u, w)
        | None \<Rightarrow> and_then (map_err (status_of Internal ''failed to clear auth cookies'') (clearAuthCookies P md w))
            (\<lambda>_ w. (Inl (Status Unauthenticated ''user not found''), w)))"

subsection \<open>Sign-in\<close>

record session =
  se_AccessToken :: string
  se_AccessExpiresAt :: int
  se_Cookie :: string   \<comment> \<open>the Set-Cookie header\<close>

definition new_session :: "string \<Rightarrow> int \<Rightarrow> int \<Rightarrow> client_info \<Rightarrow> refresh_token" where
  "new_session tokenID e t info =
     \<lparr>rt_TokenId = tokenID, rt_ExpiresAt = Some e, rt_CreatedAt = t, rt_ClientInfo = info\<rparr>"

text \<open>The access token of \<open>doSignIn\<close> and \<open>RefreshToken\<close>, after the cookie has been set.\<close>

definition issue_access :: "api_env \<Rightarrow> user \<Rightarrow> string \<Rightarrow> accounts \<Rightarrow> session reply" where
  "issue_access P u cookie w =
     (let t = read_clock (acc_of P) w; w = tick_ac w; t2 = read_clock (acc_of P) w in
      case GenerateAccessTokenV2 (au_jwt (ap_auth P)) t t2 (user_ID u) (user_Username u)
             (user_Role u) (user_RowStatus u) (au_secret (ap_auth P)) of
        Inl e \<Rightarrow> (Inl (status_of Internal ''failed to generate access token'' e), w)
      | Inr (tok, e) \<Rightarrow> (Inr \<lparr>se_AccessToken = tok, se_AccessExpiresAt = e, se_Cookie = cookie\<rparr>, w))"

text \<open>An error of the store is only logged: the cookie is set all the same.\<close>

definition doSignIn :: "api_env \<Rightarrow> metadata \<Rightarrow> user \<Rightarrow> accounts \<Rightarrow> session reply" where
  "doSignIn P md u w =
     (let (tokenID, w) = ask (ap_uuid P) w;
          t = read_clock (acc_of P) w; w = tick_ac w; t2 = read_clock (acc_of P) w in
      case GenerateRefreshToken (au_jwt (ap_auth P)) t t2 (user_ID u) tokenID (au_secret (ap_auth P)) of
        Inl e \<Rightarrow> (Inl (status_of Internal ''failed to generate refresh token'' e), w)
      | Inr (tok, e) \<Rightarrow>
          (let w = snd (AddUserRefreshToken (acc_of P) (user_ID u)
                     (new_session tokenID e (read_clock (acc_of P) w) (extractClientInfo md)) w)
           in and_then (map_err (status_of Internal ''failed to set refresh token cookie'')
                         (SetResponseHeader P w))
                (\<lambda>_ w. issue_access P u (buildRefreshTokenCookie md tok e) w)))"

datatype credentials =
    PasswordCredentials string string          \<comment> \<open>username, password\<close>
  | SsoCredentials int string                  \<comment> \<open>identity provider, authorization code\<close>
  | NoCredentials

definition bad_password :: api_error where
  "bad_password = Status InvalidArgument ''unmatched username and password''"

definition password_user :: "api_env \<Rightarrow> string \<Rightarrow> string \<Rightarrow> accounts \<Rightarrow> user reply" where
  "password_user P username password w =
     and_then (map_err (status_of Internal ''failed to get user, error'')
         (store_GetUser (acc_of P) (user_named username) w)) (\<lambda>u w.
     case u of
       None \<Rightarrow> (Inl bad_password, w)
     | Some u \<Rightarrow>
         if \<not> ap_password_matches P (user_PasswordHash u) password then (Inl bad_password, w)
         else and_then (map_err (status_of Internal ''failed to get instance general setting, error'')
             (GetInstanceGeneralSetting P w)) (\<lambda>g w.
           if gs_DisallowPasswordAuth g \<and> user_Role u = RoleUser
           then (Inl (Status PermissionDenied ''password signin is not allowed''), w)
           else (Inr u, w)))"

text \<open>
  \<open>userInfo\<close> stays nil for a provider that is not OAuth2; reading its field panics.
\<close>

definition sso_user_info :: "api_env \<Rightarrow> identity_provider \<Rightarrow> string \<Rightarrow> accounts \<Rightarrow> idp_user_info option reply" where
  "sso_user_info P idp code w =
     (case ip_Type idp of
        OAUTH2 \<Rightarrow> and_then (ask (\<lambda>k. ap_oauth P k code) w) (\<lambda>i w. (Inr (Some i), w))
      | OtherIdp \<Rightarrow> (Inr None, w))"

definition nil_dereference :: api_error where
  "nil_dereference = Panicked ''invalid memory address or nil pointer dereference''"

definition identifier_allowed :: "api_env \<Rightarrow> string \<Rightarrow> idp_user_info option \<Rightarrow> accounts \<Rightarrow> unit reply" where
  "identifier_allowed P pattern info w =
     (if pattern = [] then (Inr (), w)
      else case ap_regexp P pattern of
        Inl e \<Rightarrow> (Inl (status_of Internal ''failed to compile identifier filter regex, error'' e), w)
      | Inr matches \<Rightarrow>
          (case info of
             None \<Rightarrow> (Inl nil_dereference, w)
           | Some i \<Rightarrow>
               if matches (ui_Identifier i) then (Inr (), w)
               else (Inl (Status PermissionDenied (''identifier '' @ ui_Identifier i @ '' is not allowed'')), w)))"

definition blank_user :: user where
  "blank_user = SystemBot\<lparr>user_ID := 0, user_Username := [], user_Role := [], user_Nickname := []\<rparr>"

definition create_sso_user :: "api_env \<Rightarrow> idp_user_info \<Rightarrow> accounts \<Rightarrow> user reply" where
  "create_sso_user P i w =
     (let (draws, w) = ask (ap_random P) w in
      case RandomString 20 draws of
        None \<Rightarrow> (Inl (status_of Internal ''failed to generate random password, error'' []), w)
      | Some password \<Rightarrow>
          and_then (map_err (status_of Internal ''failed to generate password hash, error'')
              (ask (\<lambda>k. ap_hash_password P k password) w)) (\<lambda>h w.
          map_err (status_of Internal ''failed to create user, error'')
            (store_CreateUser (acc_of P) (blank_user\<lparr>user_Username := ui_Identifier i,
               user_Role := RoleUser, user_Nickname := ui_DisplayName i, user_Email := ui_Email i,
               user_AvatarURL := ui_AvatarURL i, user_PasswordHash := h\<rparr>) w)))"

definition sign_up_sso :: "api_env \<Rightarrow> idp_user_info \<Rightarrow> accounts \<Rightarrow> user reply" where
  "sign_up_sso P i w =
     and_then (map_err (status_of Internal ''failed to get instance general setting, error'')
         (GetInstanceGeneralSetting P w)) (\<lambda>g w.
     if gs_DisallowUserRegistration g
     then (Inl (Status PermissionDenied ''user registration is not allowed''), w)
     else create_sso_user P i w)"

definition sso_user :: "api_env \<Rightarrow> int \<Rightarrow> string \<Rightarrow> accounts \<Rightarrow> user reply" where
  "sso_user P idpID code w =
     and_then (map_err (status_of Internal ''failed to get identity provider, error'')
         (ask (\<lambda>k. ap_idp P k idpID) w)) (\<lambda>idp w.
     case idp of
       None \<Rightarrow> (Inl (Status InvalidArgument ''identity provider not found''), w)
     | Some idp \<Rightarrow>
         and_then (sso_user_info P idp code w) (\<lambda>info w.
         and_then (identifier_allowed P (ip_IdentifierFilter idp) info w) (\<lambda>_ w.
         case info of
           None \<Rightarrow> (Inl nil_dereference, w)
         | Some i \<Rightarrow>
             and_then (map_err (status_of Internal ''failed to get user, error'')
                 (store_GetUser (acc_of P) (user_named (ui_Identifier i)) w)) (\<lambda>u w.
             case u of Some u \<Rightarrow> (Inr u, w) | None \<Rightarrow> sign_up_sso P i w))))"

definition SignIn :: "api_env \<Rightarrow> metadata \<Rightarrow> credentials \<Rightarrow> accounts \<Rightarrow> (user \<times> session) reply" where
  "SignIn P md creds w =
     and_then (case creds of
         PasswordCredentials username password \<Rightarrow> password_user P username password w
       | SsoCredentials idpID code \<Rightarrow> sso_user P idpID code w
       | NoCredentials \<Rightarrow> (Inl (Status InvalidArgument ''invalid credentials''), w)) (\<lambda>u w.
     if user_RowStatus u = RowArchived
     then (Inl (Status PermissionDenied (''user has been archived with username '' @ user_Username u)), w)
     else and_then (map_err (rewrap Internal ''failed to sign in'') (doSignIn P md u w))
            (\<lambda>s w. (Inr (u, s), w)))"

subsection \<open>Exchanging a refresh token, signing out\<close>

definition cookie_token :: "metadata \<Rightarrow> string" where
  "cookie_token md =
     (case md_Get md ''cookie'' of [] \<Rightarrow> [] | h # _ \<Rightarrow> ExtractRefreshTokenFromCookie h)"

definition RefreshToken :: "api_env \<Rightarrow> metadata \<Rightarrow> accounts \<Rightarrow> session reply" where
  "RefreshToken P md w =
     (if cookie_token md = [] then (Inl (Status Unauthenticated ''refresh token not found''), w)
      else and_then (map_err (status_of Unauthenticated ''invalid refresh token'')
          (AuthenticateByRefreshToken (ap_auth P) (cookie_token md) w)) (\<lambda>(u, oldTokenID) w.
        let (newTokenID, w) = ask (ap_uuid P) w;
            t = read_clock (acc_of P) w; w = tick_ac w; t2 = read_clock (acc_of P) w in
        case GenerateRefreshToken (au_jwt (ap_auth P)) t t2 (user_ID u) newTokenID (au_secret (ap_auth P)) of
          Inl e \<Rightarrow> (Inl (status_of Internal ''failed to generate refresh token'' e), w)
        | Inr (tok, e) \<Rightarrow>
            and_then (map_err (status_of Internal ''failed to store refresh token'')
                (AddUserRefreshToken (acc_of P) (user_ID u)
                   (new_session newTokenID e (read_clock (acc_of P) w) (extractClientInfo md)) w)) (\<lambda>_ w.
            let w = snd (RemoveUserRefreshToken (acc_of P) (user_ID u) oldTokenID w) in
            and_then (map_err (status_of Internal ''failed to set refresh token cookie'')
                (SetResponseHeader P w)) (\<lambda>_ w.
            issue_access P u (buildRefreshTokenCookie md tok e) w))))"

definition SignOut :: "api_env \<Rightarrow> metadata \<Rightarrow> ctx \<Rightarrow> accounts \<Rightarrow> string reply" where
  "SignOut P md c w =
     (let w = (case GetUserClaims c of
          None \<Rightarrow> w
        | Some claims \<Rightarrow>
            if cookie_token md = [] then w
            else (case ParseRefreshToken (au_jwt (ap_auth P)) (read_clock (acc_of P) w)
                    (cookie_token md) (au_secret (ap_auth P)) of
                Inl _ \<Rightarrow> w
              | Inr rc \<Rightarrow> snd (RemoveUserRefreshToken (acc_of P) (uc_UserID claims) (cl_TokenID rc) w)))
      in map_err (status_of Internal ''failed to clear auth cookies, error'') (clearAuthCookies P md w))"

end
