(* ===== verification/SessionSafety.thy ===== *)
theory SessionSafety
  imports AuthService
begin

section \<open>A refresh token works once\<close>

text \<open>
  Time passes and ids grow (\<open>later\<close>); the store keeps its invariants, every session has an id
  that was drawn before now (\<open>sess_ok\<close>); and a session that is gone stays gone (\<open>dead\<close>). Each
  operation of the authentication service is shown to keep this (\<open>good\<close>), by its parts.
\<close>

named_theorems later_intros \<open>operations only move forward\<close>
named_theorems good_intros \<open>operations keep the sessions in order\<close>

definition later :: "accounts \<Rightarrow> accounts \<Rightarrow> bool" where
  "later w v \<longleftrightarrow> ac_tick w \<le> ac_tick v \<and> ac_next_id w \<le> ac_next_id v"

definition ids_small :: "accounts \<Rightarrow> bool" where
  "ids_small w \<longleftrightarrow> ac_next_id w \<le> 55296"

definition sess_ok :: "api_env \<Rightarrow> accounts \<Rightarrow> bool" where
  "sess_ok P w \<longleftrightarrow> user_inv w \<and> set_inv REFRESH_TOKENS w \<and>
     (\<forall>i s. s \<in> set (sessions w i) \<longrightarrow> (\<exists>k. k < ac_tick w \<and> rt_TokenId s = ap_uuid P k))"

definition dead :: "api_env \<Rightarrow> accounts \<Rightarrow> int \<Rightarrow> string \<Rightarrow> bool" where
  "dead P w i tid \<longleftrightarrow> tid \<notin> rt_TokenId ` set (sessions w i) \<and> (\<forall>k. ac_tick w \<le> k \<longrightarrow> ap_uuid P k \<noteq> tid)"

definition good :: "api_env \<Rightarrow> accounts \<Rightarrow> accounts \<Rightarrow> bool" where
  "good P w v \<longleftrightarrow> (sess_ok P w \<and> ids_small v \<longrightarrow>
     sess_ok P v \<and> (\<forall>i tid. dead P w i tid \<longrightarrow> dead P v i tid))"

subsection \<open>Moving forward\<close>

lemma later_refl [simp]: "later w w"
  by (simp add: later_def)

lemma later_trans: "later u v \<Longrightarrow> later v w \<Longrightarrow> later u w"
  by (auto simp: later_def)

lemma later_simps [simp]:
  "later w (tick_ac w)" "later w (cache_user u v) = later w v" "later w (cache_setting s v) = later w v"
  "later w (v\<lparr>ac_user_cache := uc\<rparr>) = later w v" "later w (v\<lparr>ac_setting_cache := sc\<rparr>) = later w v"
  "later w (v\<lparr>ac_users := us\<rparr>) = later w v" "later w (v\<lparr>ac_settings := ss\<rparr>) = later w v"
  by (auto simp: later_def tick_ac_def cache_user_def cache_setting_def)

lemma later_insert: "later w (w\<lparr>ac_users := us, ac_next_id := ac_next_id w + 1\<rparr>)"
  by (simp add: later_def)

lemma later_tick [later_intros]: "later w v \<Longrightarrow> later w (tick_ac v)"
  by (auto simp: later_def tick_ac_def)

lemma later_fold [simp]:
  "later w (fold cache_user us v) = later w v" "later w (fold cache_setting ss v) = later w v"
  by (induction us arbitrary: v; simp) (induction ss arbitrary: v; simp)

lemma later_then [later_intros]:
  assumes "later w (snd m)" and "\<And>a s. m = (Inr a, s) \<Longrightarrow> later s (snd (f a s))"
  shows "later w (snd (and_then m f))"
proof (rule and_then_keeps [where P = "later w"])
  show "later w (snd (f a s))" if "m = (Inr a, s)" "later w s" for a s
    using later_trans [OF that(2) assms(2) [OF that(1)]] .
qed (rule assms(1))

lemma later_db: "later w (snd (f w)) \<Longrightarrow> later w (snd (db_call E f w))"
  by (auto simp: db_call_def intro: later_intros split: option.splits)

lemma later_list_users [later_intros]: "later w (snd (store_ListUsers E f w))"
  unfolding store_ListUsers_def
  by (rule later_then) (auto simp: sqlite_ListUsers_def Let_def intro: later_db)

lemma later_list_one [later_intros]: "later w (snd (list_one_user E f w))"
  unfolding list_one_user_def
  by (rule later_then) (auto intro: later_intros split: list.splits)

lemma later_get_user [later_intros]: "later w (snd (store_GetUser E f w))"
proof -
  have "later w u" if "cached_user E i w = (r, u)" for i r u
    using that by (auto simp: cached_user_def split: if_splits intro: later_tick)
  then show ?thesis
    using later_list_one later_trans
    by (fastforce simp: store_GetUser_def split: option.splits prod.splits)
qed

lemma later_create_user [later_intros]: "later w (snd (store_CreateUser E c w))"
  unfolding store_CreateUser_def sqlite_CreateUser_def
  by (rule later_then) (auto simp: Let_def later_insert intro!: later_db)

lemma later_update_user [later_intros]: "later w (snd (store_UpdateUser E up w))"
  unfolding store_UpdateUser_def sqlite_UpdateUser_def
  by (rule later_then) (auto simp: Let_def intro!: later_db split: option.splits)

lemma later_delete_user [later_intros]: "later w (snd (store_DeleteUser E i w))"
  unfolding store_DeleteUser_def sqlite_DeleteUser_def
  by (rule later_then) (auto intro: later_db)

lemma later_only_setting: "later w (snd (only_setting E f w))"
  unfolding only_setting_def store_ListUserSettings_def sqlite_ListUserSettings_def
  by (intro later_then later_db) (auto simp: Let_def split: list.splits)

lemma later_get_setting [later_intros]: "later w (snd (store_GetUserSetting E f w))"
proof -
  have "later w u" if "cached_setting E k w = (r, u)" for k r u
    using that by (auto simp: cached_setting_def split: if_splits intro: later_tick)
  then show ?thesis
    using later_only_setting later_trans
    by (fastforce simp: store_GetUserSetting_def split: option.splits prod.splits)
qed

lemma later_save_setting [later_intros]: "later w (snd (save_setting E i k v w))"
  unfolding save_setting_def store_UpsertUserSetting_def sqlite_UpsertUserSetting_def
  by (intro later_then later_db) (auto split: option.splits)

lemma later_tokens [later_intros]:
  "later w (snd (GetUserRefreshTokens E i w))"
  "later w (snd (AddUserRefreshToken E i t w))"
  "later w (snd (RemoveUserRefreshToken E i tid w))"
  "later w (snd (GetUserRefreshTokenByID E i tid w))"
  unfolding GetUserRefreshTokens_def AddUserRefreshToken_def RemoveUserRefreshToken_def
    GetUserRefreshTokenByID_def
  by (auto intro!: later_intros)

subsection \<open>Keeping the sessions in order\<close>

lemma good_refl [simp]: "good P w w"
  by (simp add: good_def)

lemma good_trans: "good P u v \<Longrightarrow> good P v w \<Longrightarrow> later v w \<Longrightarrow> good P u w"
  by (auto simp: good_def ids_small_def later_def)

lemma good_then [good_intros]:
  assumes "good P w (snd m)"
    and "\<And>a s. m = (Inr a, s) \<Longrightarrow> later s (snd (f a s))"
    and "\<And>a s. m = (Inr a, s) \<Longrightarrow> sess_ok P w \<Longrightarrow> ids_small s \<Longrightarrow> good P s (snd (f a s))"
  shows "good P w (snd (and_then m f))"
proof (cases m)
  case (Pair r s)
  show ?thesis
  proof (cases r)
    case (Inl e)
    with Pair assms(1) show ?thesis by simp
  next
    case (Inr a)
    with Pair have m: "m = (Inr a, s)" by simp
    note l = assms(2) [OF m]
    show ?thesis
      unfolding good_def
    proof (intro impI)
      assume *: "sess_ok P w \<and> ids_small (snd (and_then m f))"
      then have "ids_small s" using l m by (simp add: ids_small_def later_def)
      with * assms(3) [OF m] assms(1) m
      show "sess_ok P (snd (and_then m f)) \<and> (\<forall>i tid. dead P w i tid \<longrightarrow> dead P (snd (and_then m f)) i tid)"
        by (auto simp: good_def)
    qed
  qed
qed

text \<open>What leaves the sessions alone and keeps the users in order.\<close>

lemma good_users:
  assumes "same_settings w v" "user_inv w \<Longrightarrow> user_inv v"
  shows "good P w v"
proof -
  have eq: "sessions v = sessions w" "set_inv REFRESH_TOKENS v = set_inv REFRESH_TOKENS w" "ac_tick w \<le> ac_tick v"
    using assms(1) by (simp_all add: same_settings_stored set_inv_same) (simp add: same_settings_def)
  then show ?thesis
    using assms(2) unfolding good_def sess_ok_def dead_def by (metis order_trans order_less_le_trans)
qed

lemma good_tick [good_intros]: "good P w (tick_ac w)"
  by (rule good_users) (simp_all add: same_settings_def tick_ac_def user_inv_def users_ok_def)

lemma good_get_user [good_intros]: "good P w (snd (store_GetUser E f w))"
  by (rule good_users) (auto intro: same_settings_get user_inv_get)

lemma same_settings_rows:
  "same_settings w (v\<lparr>ac_users := us\<rparr>) = same_settings w v"
  "same_settings w (v\<lparr>ac_users := us, ac_next_id := n\<rparr>) = same_settings w v"
  "same_settings w (v\<lparr>ac_user_cache := c\<rparr>) = same_settings w v"
  by (simp_all add: same_settings_def)

lemma same_settings_create: "same_settings w (snd (store_CreateUser E c w))"
  unfolding store_CreateUser_def sqlite_CreateUser_def
  by (rule and_then_keeps [where P = "same_settings w"])
    (auto simp: Let_def same_settings_rows intro!: same_settings_db)

lemma same_settings_update: "same_settings w (snd (store_UpdateUser E up w))"
  unfolding store_UpdateUser_def sqlite_UpdateUser_def
  by (rule and_then_keeps [where P = "same_settings w"])
    (auto simp: Let_def same_settings_rows intro!: same_settings_db split: option.splits)

lemma same_settings_delete: "same_settings w (snd (store_DeleteUser E i w))"
  unfolding store_DeleteUser_def sqlite_DeleteUser_def
  by (rule and_then_keeps [where P = "same_settings w"])
    (auto simp: same_settings_rows intro!: same_settings_db)

lemma good_create_user [good_intros]: "good P w (snd (store_CreateUser E c w))"
  by (rule good_users) (auto intro: same_settings_create user_inv_create)

lemma good_user_step: "user_step E w v \<Longrightarrow> good P w v"
  by (erule user_step.cases)
    (auto intro!: good_users intro: same_settings_create same_settings_update same_settings_delete
      same_settings_get same_settings_list inv_intros)

lemma later_user_step: "user_step E w v \<Longrightarrow> later w v"
  by (erule user_step.cases) (auto intro: later_intros)

subsection \<open>The token list of a user\<close>

lemma good_fewer:
  assumes "later w v"
    and "sess_ok P w \<Longrightarrow> set_inv REFRESH_TOKENS v \<and> same_users w v \<and> (\<forall>j. set (sessions v j) \<subseteq> set (sessions w j))"
  shows "good P w v"
  unfolding good_def
proof (intro impI conjI allI)
  assume "sess_ok P w \<and> ids_small v"
  then have ok: "sess_ok P w" and *: "set_inv REFRESH_TOKENS v" "same_users w v"
    and less: "\<And>j. set (sessions v j) \<subseteq> set (sessions w j)"
    using assms(2) by auto
  have t: "ac_tick w \<le> ac_tick v" using assms(1) by (simp add: later_def)
  have "\<exists>k. k < ac_tick v \<and> rt_TokenId s = ap_uuid P k" if "s \<in> set (sessions v i)" for i s
    using that less [of i] ok t unfolding sess_ok_def by (meson order_less_le_trans subsetD)
  then show "sess_ok P v" using ok * by (simp add: sess_ok_def user_inv_same)
  fix i tid assume "dead P w i tid"
  then show "dead P v i tid" using less [of i] t unfolding dead_def by (auto simp: image_iff)
qed

lemma good_remove [good_intros]:
  assumes "in_int32 i"
  shows "good P w (snd (RemoveUserRefreshToken E i tid w))"
proof (rule good_fewer)
  show "later w (snd (RemoveUserRefreshToken E i tid w))" by (rule later_intros)
  assume "sess_ok P w"
  moreover obtain r v where rv: "RemoveUserRefreshToken E i tid w = (r, v)" by fastforce
  ultimately show "set_inv REFRESH_TOKENS (snd (RemoveUserRefreshToken E i tid w)) \<and>
      same_users w (snd (RemoveUserRefreshToken E i tid w)) \<and>
      (\<forall>j. set (sessions (snd (RemoveUserRefreshToken E i tid w)) j) \<subseteq> set (sessions w j))"
    using RemoveUserRefreshToken_result [OF _ assms rv]
    by (auto simp: sess_ok_def split: sum.splits if_splits)
qed

lemma good_find [good_intros]:
  assumes "in_int32 i"
  shows "good P w (snd (GetUserRefreshTokenByID E i tid w))"
proof (rule good_fewer)
  show "later w (snd (GetUserRefreshTokenByID E i tid w))" by (rule later_intros)
  assume "sess_ok P w"
  moreover obtain r v where rv: "GetUserRefreshTokenByID E i tid w = (r, v)" by fastforce
  ultimately show "set_inv REFRESH_TOKENS (snd (GetUserRefreshTokenByID E i tid w)) \<and>
      same_users w (snd (GetUserRefreshTokenByID E i tid w)) \<and>
      (\<forall>j. set (sessions (snd (GetUserRefreshTokenByID E i tid w)) j) \<subseteq> set (sessions w j))"
    using GetUserRefreshTokenByID_result [OF _ assms rv] by (auto simp: sess_ok_def stored_def)
qed

text \<open>A new session has an id that nobody has seen: it revives nothing.\<close>

lemma good_new_session:
  assumes "in_int32 i"
  shows "good P w (snd (AddUserRefreshToken E i (new_session (ap_uuid P (ac_tick w)) e t info)
           (tick_ac (tick_ac w))))"
    (is "good P w ?v")
  unfolding good_def
proof (intro impI conjI allI)
  assume "sess_ok P w \<and> ids_small ?v"
  then have ok: "sess_ok P w" by simp
  let ?w = "tick_ac (tick_ac w)" and ?s = "new_session (ap_uuid P (ac_tick w)) e t info"
  obtain r v where rv: "AddUserRefreshToken E i ?s ?w = (r, v)" by fastforce
  have "set_inv REFRESH_TOKENS ?w" using ok by (simp add: sess_ok_def)
  note res = AddUserRefreshToken_result [OF this assms rv]
  then have v: "set_inv REFRESH_TOKENS v" "same_users w v" by auto
  have "sessions ?w = sessions w" by (simp add: stored_def fun_eq_iff)
  then have sub: "\<And>j. set (sessions v j) \<subseteq> set (sessions w j) \<union> {?s}"
    using res by (auto split: sum.splits if_splits)
  have "later ?w v" using later_tokens(2) [of ?w E i ?s] rv by simp
  then have t: "ac_tick w < ac_tick v" by (simp add: later_def tick_ac_def)
  have "\<exists>k. k < ac_tick v \<and> rt_TokenId x = ap_uuid P k" if "x \<in> set (sessions v j)" for j x
  proof (cases "x = ?s")
    case True
    then show ?thesis using t by (intro exI [of _ "ac_tick w"]) (simp add: new_session_def)
  next
    case False
    with that sub [of j] have "x \<in> set (sessions w j)" by auto
    then obtain k where "k < ac_tick w" "rt_TokenId x = ap_uuid P k"
      using ok unfolding sess_ok_def by blast
    with t show ?thesis by (intro exI [of _ k]) simp
  qed
  then show "sess_ok P ?v" using ok v rv by (simp add: sess_ok_def user_inv_same)
  fix j tid assume d: "dead P w j tid"
  then have "rt_TokenId ?s \<noteq> tid" by (auto simp: dead_def new_session_def)
  then show "dead P ?v j tid"
    using d sub [of j] t rv unfolding dead_def by (auto simp: image_iff)
qed

subsection \<open>Users that requests find\<close>

definition small_user :: "user \<Rightarrow> bool" where
  "small_user u \<longleftrightarrow> in_int32 (user_ID u)"

definition good_user :: "api_env \<Rightarrow> accounts \<Rightarrow> ('e + user) \<times> accounts \<Rightarrow> bool" where
  "good_user P w m \<longleftrightarrow> later w (snd m) \<and> good P w (snd m) \<and>
     (\<forall>u. fst m = Inr u \<longrightarrow> sess_ok P w \<longrightarrow> ids_small (snd m) \<longrightarrow> small_user u)"

lemma got_user:
  assumes "user_inv w" "store_GetUser E f w = (Inr (Some u), v)"
  shows "u = SystemBot \<or> u \<in> set (ac_users w)"
proof -
  have listed: "u \<in> set (ac_users x)" if "list_one_user E f x = (Inr (Some u), y)" for x y
  proof -
    from that obtain us s where us: "store_ListUsers E f x = (Inr us, s)"
      and "(case us of [] \<Rightarrow> (Inr None, s) :: user option call | u # _ \<Rightarrow> (Inr (Some u), cache_user u s)) = (Inr (Some u), y :: accounts)"
      by (auto simp: list_one_user_def and_then_Inr)
    then have "u \<in> set us" by (cases us) auto
    with store_ListUsers_rows [OF us] show ?thesis by auto
  qed
  show ?thesis
    using assms
    by (auto simp: store_GetUser_def cached_user_def user_inv_def split: option.splits prod.splits if_splits
        dest!: listed)
qed

lemma row_is_small:
  assumes "user_inv w" "u = SystemBot \<or> u \<in> set (ac_users w)" "ids_small w"
  shows "small_user u"
  using assms
  by (auto simp: small_user_def user_inv_def users_ok_def ids_small_def list_all_iff in_int32_def
      SystemBot_def SystemBotID_def)

lemma good_user_then:
  assumes "later w (snd m)" "good P w (snd m)"
    and "\<And>a s. m = (Inr a, s) \<Longrightarrow> later s (snd (f a s))"
    and "\<And>a s. m = (Inr a, s) \<Longrightarrow> sess_ok P w \<Longrightarrow> ids_small s \<Longrightarrow> good_user P s (f a s)"
  shows "good_user P w (and_then m f)"
proof -
  have "good P w (snd (and_then m f))"
    using assms by (intro good_then) (auto simp: good_user_def)
  moreover have "later w (snd (and_then m f))" using assms(1,3) by (rule later_then)
  moreover have "small_user u"
    if u: "fst (and_then m f) = Inr u" and ok: "sess_ok P w" and sm: "ids_small (snd (and_then m f))" for u
  proof -
    from u obtain a s where m: "m = (Inr a, s)" by (cases m; cases "fst m") auto
    with sm have "ids_small s" using assms(3) [OF m] by (simp add: ids_small_def later_def)
    moreover from this have "sess_ok P s" using assms(2) ok m by (simp add: good_def)
    ultimately show ?thesis
      using assms(4) [OF m ok] u sm m by (simp add: good_user_def)
  qed
  ultimately show ?thesis by (simp add: good_user_def)
qed

lemma good_user_fail: "good_user P w (Inl e, w)"
  by (simp add: good_user_def)

lemma good_user_map_err [simp]: "good_user P w (map_err g m) = good_user P w m"
  by (cases m; cases "fst m") (auto simp: good_user_def)

lemma ask_moves: "later w (snd (ask f w))" "good P w (snd (ask f w))"
  by (simp_all add: ask_def later_intros good_intros)

subsection \<open>The operations\<close>

lemma later_ask [later_intros]: "ask f w = (x, s) \<Longrightarrow> later w s"
  by (auto simp: ask_def)

lemma good_user_found:
  assumes "store_GetUser E f w = (Inr (Some u), s)" "sess_ok P w" "ids_small s"
  shows "small_user u"
proof -
  have "later w s" using later_get_user [of w E f] assms(1) by simp
  then have "ids_small w" using assms(3) by (simp add: ids_small_def later_def)
  then show ?thesis
    using got_user [OF _ assms(1)] row_is_small assms(2) by (auto simp: sess_ok_def)
qed

lemma good_user_ok: "small_user u \<Longrightarrow> good_user P s (Inr u, s)"
  by (simp add: good_user_def)

lemma good_user_later: "good_user P w m \<Longrightarrow> later w (snd m)"
  by (simp add: good_user_def)

lemma good_password_user: "good_user P w (password_user P name pw w)"
  unfolding password_user_def GetInstanceGeneralSetting_def
  by (auto intro!: good_user_then later_then good_user_ok good_user_fail
      simp: ask_moves later_get_user good_get_user split: option.splits if_splits;
      rule good_user_found; assumption)

lemma later_sso_parts:
  "later w (snd (sso_user_info P idp c w))" "later w (snd (identifier_allowed P pat info w))"
  by (auto simp: sso_user_info_def identifier_allowed_def ask_moves intro!: later_then
      split: idp_type.splits sum.splits option.splits)

lemma good_sso_parts:
  "good P w (snd (sso_user_info P idp c w))" "good P w (snd (identifier_allowed P pat info w))"
  by (auto simp: sso_user_info_def identifier_allowed_def ask_moves intro!: good_then
      split: idp_type.splits sum.splits option.splits)

lemma created_user_small:
  assumes "store_CreateUser E c w = (Inr u, s)" "sess_ok P w" "ids_small s"
  shows "small_user u"
proof -
  obtain v where "sqlite_CreateUser E c w = (Inr u, v)" "s = cache_user u v"
    using assms(1) by (auto simp: store_CreateUser_def and_then_Inr)
  then have "u \<in> set (ac_users s)"
    by (auto simp: sqlite_CreateUser_def Let_def dest!: db_call_Inr split: if_splits)
  moreover have "user_inv s"
    using user_inv_create [of w E c] assms(1,2) by (simp add: sess_ok_def)
  ultimately show ?thesis using row_is_small assms(3) by blast
qed

lemma good_user_create: "good_user P w (store_CreateUser E c w)"
proof (cases "store_CreateUser E c w")
  case (Pair r s)
  then show ?thesis
    using later_create_user [of w E c] good_create_user [of P w E c] created_user_small [of E c w _ s P]
    by (auto simp: good_user_def)
qed

lemma good_user_after_tick:
  assumes "good_user P (tick_ac s) m"
  shows "good_user P s m"
proof -
  have l: "later (tick_ac s) (snd m)" using assms by (simp add: good_user_def)
  then have "later s (snd m)" using later_trans [of s "tick_ac s"] by simp
  moreover have "good P s (snd m)"
    using good_trans [OF good_tick _ l] assms by (simp add: good_user_def)
  moreover have "sess_ok P (tick_ac s)" if "sess_ok P s" "ids_small (snd m)"
    using good_tick [of P s] that l by (auto simp: good_def ids_small_def later_def)
  ultimately show ?thesis using assms by (auto simp: good_user_def)
qed

lemma good_hashed:
  "good_user P s (and_then (map_err g (ask f s)) (\<lambda>h w. map_err g' (store_CreateUser E (c h) w)))"
  by (rule good_user_then) (auto simp: ask_moves later_create_user intro: good_user_create)

lemma good_create_sso: "good_user P w (create_sso_user P i w)"
proof -
  have draw: "ask (ap_random P) w = (ap_random P (ac_tick w), tick_ac w)" by (simp add: ask_def)
  show ?thesis
    unfolding create_sso_user_def draw Let_def prod.case
    by (rule good_user_after_tick)
      (cases "RandomString 20 (ap_random P (ac_tick w))"; simp only: option.case good_user_fail good_hashed)
qed

lemma good_sign_up: "good_user P w (sign_up_sso P i w)"
  unfolding sign_up_sso_def GetInstanceGeneralSetting_def
  by (auto intro!: good_user_then good_user_fail good_create_sso
      simp: ask_moves good_user_later [OF good_create_sso] split: if_splits)

lemma good_sso_user: "good_user P w (sso_user P idp c w)"
  unfolding sso_user_def
  by (auto intro!: good_user_then later_then good_user_ok good_user_fail good_sign_up
      simp: ask_moves later_get_user good_get_user later_sso_parts good_sso_parts
        good_user_later [OF good_sign_up]
      split: option.splits if_splits;
      rule good_user_found; assumption)

lemma issue_access_moves:
  "later w (snd (issue_access P u c w))" "good P w (snd (issue_access P u c w))"
  by (auto simp: issue_access_def Let_def later_intros good_intros split: sum.splits)

lemma header_moves:
  "later w (snd (SetResponseHeader P w))" "good P w (snd (SetResponseHeader P w))"
  by (auto simp: SetResponseHeader_def ask_def later_intros good_intros split: option.splits)

lemma finish_moves:
  "later w (snd (and_then (map_err g (SetResponseHeader P w)) (\<lambda>_ w. issue_access P u c w)))"
  "good P w (snd (and_then (map_err g (SetResponseHeader P w)) (\<lambda>_ w. issue_access P u c w)))"
  by (auto intro!: later_then good_then simp: header_moves issue_access_moves)

lemma later_two: "later w (tick_ac (tick_ac w))"
  by (simp add: later_def tick_ac_def)

lemma good_two: "good P w (tick_ac (tick_ac w))"
  by (rule good_trans [OF good_tick good_tick]) simp

lemma later_doSignIn: "later w (snd (doSignIn P md u w))"
  unfolding doSignIn_def ask_def Let_def prod.case
  by (auto split: sum.split intro: later_two later_trans [OF later_two]
      later_trans [OF later_tokens(2) finish_moves(1)])

lemma good_doSignIn:
  assumes "small_user u"
  shows "good P w (snd (doSignIn P md u w))"
proof -
  have i: "in_int32 (user_ID u)" using assms by (simp add: small_user_def)
  show ?thesis
    unfolding doSignIn_def ask_def Let_def prod.case
    by (auto split: sum.split intro: good_two good_trans [OF good_new_session [OF i] finish_moves(2) finish_moves(1)])
qed

lemma later_auth_refresh: "later w (snd (AuthenticateByRefreshToken A tok w))"
  unfolding AuthenticateByRefreshToken_def active_user_def
  by (auto intro!: later_then simp: later_tokens later_get_user split: sum.splits option.splits)

lemma good_auth_refresh: "good P w (snd (AuthenticateByRefreshToken A tok w))"
  unfolding AuthenticateByRefreshToken_def active_user_def
  by (auto intro!: good_then later_then good_find parse_int32_range
      simp: later_tokens later_get_user good_get_user split: sum.splits option.splits)

text \<open>The user of an accepted refresh token is the subject of its claims.\<close>

lemma auth_refresh_subject:
  assumes "AuthenticateByRefreshToken A tok w = (Inr (u, tid), s)" "sess_ok P w" "ids_small s"
  shows "\<exists>c. ParseRefreshToken (au_jwt A) (read_clock (au_acc A) w) tok (au_secret A) = Inr c \<and>
    parse_int32 (cl_Subject c) = Some (user_ID u) \<and> tid = cl_TokenID c"
proof -
  from assms(1) obtain c i x w1 where
    c: "ParseRefreshToken (au_jwt A) (read_clock (au_acc A) w) tok (au_secret A) = Inr c"
    and i: "parse_int32 (cl_Subject c) = Some i" and tid: "tid = cl_TokenID c"
    and g: "GetUserRefreshTokenByID (au_acc A) i tid w = (Inr (Some x), w1)"
    and "active_user A i w1 = (Inr u, s)"
    unfolding AuthenticateByRefreshToken_Inr by blast
  then have u: "store_GetUser (au_acc A) (user_with_id i) w1 = (Inr (Some u), s)"
    by (simp add: active_user_Inr)
  then have "ids_small w1"
    using later_get_user [of w1 "au_acc A" "user_with_id i"] assms(3) by (simp add: ids_small_def later_def)
  moreover from this have "sess_ok P w1"
    using good_find [OF parse_int32_range [OF i], of P w "au_acc A" tid] g assms(2) by (simp add: good_def)
  ultimately have "user_ID u = i" using got_by_id [OF _ _ u] by (simp add: sess_ok_def ids_small_def)
  with c i tid show ?thesis by auto
qed

lemma auth_refresh_small:
  assumes "AuthenticateByRefreshToken A tok w = (Inr (u, tid), s)" "sess_ok P w" "ids_small s"
  shows "in_int32 (user_ID u)"
  using auth_refresh_subject [OF assms] parse_int32_range by blast

text \<open>The tail of \<open>RefreshToken\<close>: store the new session, drop the old one, set the cookie, sign an access token.\<close>

lemma rotate_later:
  "later s (snd (and_then (map_err g (AddUserRefreshToken E i t (tick_ac (tick_ac s)))) (\<lambda>_ w.
     and_then (map_err h (SetResponseHeader P (snd (RemoveUserRefreshToken E i old w)))) (\<lambda>_ w.
     issue_access P u c w))))"
  by (auto intro!: later_then intro: later_trans [OF later_two later_tokens(2)]
      later_trans [OF later_tokens(3) header_moves(1)] simp: issue_access_moves)

lemma rotate_good:
  assumes "in_int32 i"
  shows "good P s (snd (and_then (map_err g (AddUserRefreshToken E i
      (new_session (ap_uuid P (ac_tick s)) e t info) (tick_ac (tick_ac s)))) (\<lambda>_ w.
     and_then (map_err h (SetResponseHeader P (snd (RemoveUserRefreshToken E i old w)))) (\<lambda>_ w.
     issue_access P u c w))))"
  by (auto intro!: good_then later_then
      intro: good_new_session [OF assms] later_trans [OF later_tokens(3) header_moves(1)]
        good_trans [OF good_remove [OF assms] header_moves(2) header_moves(1)]
      simp: issue_access_moves)

lemma later_RefreshToken: "later w (snd (RefreshToken P md w))"
  unfolding RefreshToken_def ask_def Let_def prod.case
  by (auto intro!: later_then simp: later_auth_refresh rotate_later later_two split: sum.split prod.splits)

lemma good_RefreshToken: "good P w (snd (RefreshToken P md w))"
  unfolding RefreshToken_def ask_def Let_def prod.case
  by (auto intro!: good_then later_then rotate_good
      simp: later_auth_refresh good_auth_refresh rotate_later later_two good_two split: sum.split prod.splits;
      rule auth_refresh_small; assumption)

lemma later_SignIn: "later w (snd (SignIn P md creds w))"
  unfolding SignIn_def
  by (auto intro!: later_then simp: later_doSignIn good_user_later [OF good_password_user]
      good_user_later [OF good_sso_user] split: credentials.splits)

lemma good_SignIn: "good P w (snd (SignIn P md creds w))"
proof (cases creds)
  case (PasswordCredentials n p)
  show ?thesis
    using good_password_user [of P w n p]
    unfolding SignIn_def PasswordCredentials credentials.case
    by (auto intro!: good_then later_then good_doSignIn simp: later_doSignIn good_user_def)
next
  case (SsoCredentials n p)
  show ?thesis
    using good_sso_user [of P w n p]
    unfolding SignIn_def SsoCredentials credentials.case
    by (auto intro!: good_then later_then good_doSignIn simp: later_doSignIn good_user_def)
next
  case NoCredentials
  then show ?thesis by (simp add: SignIn_def)
qed

lemma clear_moves: "later w (snd (clearAuthCookies P md w))" "good P w (snd (clearAuthCookies P md w))"
  by (auto simp: clearAuthCookies_def Let_def header_moves intro!: later_then good_then)

lemma later_SignOut: "later w (snd (SignOut P md c w))"
  unfolding SignOut_def Let_def
  by (auto simp: clear_moves intro: later_trans [OF later_tokens(3) clear_moves(1)] split: option.split sum.split)

lemma good_SignOut:
  assumes "\<And>claims. GetUserClaims c = Some claims \<Longrightarrow> in_int32 (uc_UserID claims)"
  shows "good P w (snd (SignOut P md c w))"
  unfolding SignOut_def Let_def
  by (auto simp: clear_moves
      intro: good_trans [OF good_remove [OF assms] clear_moves(2) clear_moves(1)] split: option.split sum.split)

subsection \<open>Every run of the service\<close>

text \<open>
  The requests of the service in any order, with what the rest of the server does to the users.
  \<open>UserClaims.UserID\<close> is an int32.
\<close>

inductive auth_step :: "api_env \<Rightarrow> accounts \<Rightarrow> accounts \<Rightarrow> bool" for P where
  signs_in: "auth_step P w (snd (SignIn P md creds w))"
| refreshes: "auth_step P w (snd (RefreshToken P md w))"
| signs_out: "(\<And>claims. GetUserClaims c = Some claims \<Longrightarrow> in_int32 (uc_UserID claims)) \<Longrightarrow>
    auth_step P w (snd (SignOut P md c w))"
| changes_users: "user_step (acc_of P) w v \<Longrightarrow> auth_step P w v"

lemma auth_step_moves: "auth_step P w v \<Longrightarrow> later w v \<and> good P w v"
  by (erule auth_step.cases)
    (auto simp: later_SignIn good_SignIn later_RefreshToken good_RefreshToken later_SignOut
      intro: good_SignOut good_user_step later_user_step)

lemma auth_steps_move: "(auth_step P)\<^sup>*\<^sup>* w v \<Longrightarrow> later w v \<and> good P w v"
proof (induction rule: rtranclp_induct)
  case (step u v)
  then show ?case using auth_step_moves [OF step(2)] good_trans later_trans by blast
qed simp

interpretation auth: state_machine "sess_ok P" "auth_step P" "\<lambda>w. ids_small w \<longrightarrow> sess_ok P w" for P
proof
  show "ids_small t \<longrightarrow> sess_ok P t"
    if "ids_small s \<longrightarrow> sess_ok P s" "auth_step P s t" for s t
    using auth_step_moves [OF that(2)] that(1) by (auto simp: later_def good_def ids_small_def)
qed simp

text \<open>Outside a failing database, rotation removes the session of the old token.\<close>

lemma no_db_error: "(\<And>n. ae_db E n = None) \<Longrightarrow> \<not> db_error E e"
  by (simp add: db_error_def)

lemma RefreshToken_Inr:
  assumes "RefreshToken P md w = (Inr x, v)"
  obtains u old s e t info g h c where
    "AuthenticateByRefreshToken (ap_auth P) (cookie_token md) w = (Inr (u, old), s)"
    "and_then (map_err g (AddUserRefreshToken (acc_of P) (user_ID u)
        (new_session (ap_uuid P (ac_tick s)) e t info) (tick_ac (tick_ac s)))) (\<lambda>_ w.
     and_then (map_err h (SetResponseHeader P (snd (RemoveUserRefreshToken (acc_of P) (user_ID u) old w)))) (\<lambda>_ w.
     issue_access P u c w)) = (Inr x, v)"
proof -
  let ?gen = "\<lambda>u s. GenerateRefreshToken (au_jwt (ap_auth P)) (read_clock (acc_of P) (tick_ac s))
      (read_clock (acc_of P) (tick_ac (tick_ac s))) (user_ID u) (ap_uuid P (ac_tick s)) (au_secret (ap_auth P))"
  from assms obtain u old s
    where auth: "AuthenticateByRefreshToken (ap_auth P) (cookie_token md) w = (Inr (u, old), s)"
      and rest: "(case ?gen u s of
          Inl e \<Rightarrow> (Inl (status_of Internal ''failed to generate refresh token'' e), tick_ac (tick_ac s))
        | Inr (tok, e) \<Rightarrow>
            and_then (map_err (status_of Internal ''failed to store refresh token'')
                (AddUserRefreshToken (acc_of P) (user_ID u)
                   (new_session (ap_uuid P (ac_tick s)) e (read_clock (acc_of P) (tick_ac (tick_ac s)))
                     (extractClientInfo md)) (tick_ac (tick_ac s)))) (\<lambda>_ w.
            and_then (map_err (status_of Internal ''failed to set refresh token cookie'')
                (SetResponseHeader P (snd (RemoveUserRefreshToken (acc_of P) (user_ID u) old w)))) (\<lambda>_ w.
            issue_access P u (buildRefreshTokenCookie md tok e) w))) = (Inr x, v)"
    unfolding RefreshToken_def ask_def Let_def prod.case
    by (auto simp only: and_then_Inr map_err_Inr prod.inject sum.distinct simp_thms prod.case
        split_paired_Ex split: if_splits)
  obtain tok e where "?gen u s = Inr (tok, e)" using rest by (cases "?gen u s") auto
  with rest show ?thesis by (intro that [OF auth]) (simp only: sum.case prod.case)
qed

lemma removal_kills:
  assumes "sess_ok P w" "in_int32 i" "\<And>n. ae_db (acc_of P) n = None"
    and "\<And>k. ac_tick w \<le> k \<Longrightarrow> ap_uuid P k \<noteq> old"
  shows "dead P (snd (RemoveUserRefreshToken (acc_of P) i old w)) i old"
proof -
  obtain r v where rm: "RemoveUserRefreshToken (acc_of P) i old w = (r, v)" by fastforce
  have "later w v" using later_tokens(3) [of w "acc_of P" i old] rm by simp
  moreover have "sessions v = (sessions w)(i := filter (\<lambda>t. rt_TokenId t \<noteq> old) (sessions w i))"
    using RemoveUserRefreshToken_result [OF _ assms(2) rm] assms(1) no_db_error [OF assms(3)]
    by (auto simp: sess_ok_def split: sum.splits)
  ultimately show ?thesis using assms(4) rm by (auto simp: dead_def later_def)
qed

lemma rotation_kills:
  assumes "sess_ok P s" "in_int32 i" "\<And>n. ae_db (acc_of P) n = None"
    and "\<And>k. ac_tick s \<le> k \<Longrightarrow> ap_uuid P k \<noteq> old"
    and "and_then (map_err g (AddUserRefreshToken (acc_of P) i
        (new_session (ap_uuid P (ac_tick s)) e t info) (tick_ac (tick_ac s)))) (\<lambda>_ w.
     and_then (map_err h (SetResponseHeader P (snd (RemoveUserRefreshToken (acc_of P) i old w)))) (\<lambda>_ w.
     issue_access P u c w)) = (Inr x, v)"
  shows "ids_small v \<Longrightarrow> dead P v i old"
proof -
  let ?n = "new_session (ap_uuid P (ac_tick s)) e t info" and ?s = "tick_ac (tick_ac s)"
  from assms(5) obtain w1 where add: "AddUserRefreshToken (acc_of P) i ?n ?s = (Inr (), w1)"
    and fin: "and_then (map_err h (SetResponseHeader P (snd (RemoveUserRefreshToken (acc_of P) i old w1)))) (\<lambda>_ w.
     issue_access P u c w) = (Inr x, v)"
    by (auto simp: and_then_Inr)
  obtain r w2 where rm: "RemoveUserRefreshToken (acc_of P) i old w1 = (r, w2)" by fastforce
  have "later ?s w1" using later_tokens(2) [of ?s "acc_of P" i ?n] add by simp
  then have t1: "ac_tick s \<le> ac_tick w1" by (simp add: later_def tick_ac_def)
  have "later w1 w2" using later_tokens(3) [of w1 "acc_of P" i old] rm by simp
  have g1: "good P s w1" using good_new_session [OF assms(2), of P s "acc_of P" e t info] add by simp
  have v: "later w2 v" "good P w2 v" using finish_moves [where w = w2 and g = h and P = P and u = u and c = c] fin rm by simp_all
  assume small: "ids_small v"
  then have "ids_small w1" using v(1) \<open>later w1 w2\<close> by (simp add: later_def ids_small_def)
  then have ok1: "sess_ok P w1" using g1 assms(1) by (simp add: good_def)
  have "dead P w2 i old"
    using removal_kills [OF ok1 assms(2,3), of old] assms(4) t1 rm by simp
  moreover have "sess_ok P w2"
    using good_remove [OF assms(2), of P w1 "acc_of P" old] ok1 rm small v(1)
    by (simp add: good_def later_def ids_small_def)
  ultimately show "dead P v i old" using v(2) small by (simp add: good_def)
qed

text \<open>A session that is gone authenticates nobody.\<close>

lemma dead_token_refused:
  assumes "sess_ok P w" "dead P w i (cl_TokenID c)"
    and "\<And>d t. ParseRefreshToken (au_jwt (ap_auth P)) t tok (au_secret (ap_auth P)) = Inr d \<Longrightarrow> d = c"
    and "parse_int32 (cl_Subject c) = Some i"
  shows "\<exists>e. fst (AuthenticateByRefreshToken (ap_auth P) tok w) = Inl e"
proof (cases "AuthenticateByRefreshToken (ap_auth P) tok w")
  case (Pair r v)
  have False if "r = Inr y" for y
  proof -
    from Pair that obtain u tid where "AuthenticateByRefreshToken (ap_auth P) tok w = (Inr (u, tid), v)"
      by (cases y) auto
    then obtain d j s w1 where d: "ParseRefreshToken (au_jwt (ap_auth P)) (read_clock (acc_of P) w) tok (au_secret (ap_auth P)) = Inr d"
      and j: "parse_int32 (cl_Subject d) = Some j"
      and g: "GetUserRefreshTokenByID (acc_of P) j (cl_TokenID d) w = (Inr (Some s), w1)"
      unfolding AuthenticateByRefreshToken_Inr by blast
    have eq: "d = c" "j = i" using assms(3) [OF d] j assms(4) by auto
    have "find (\<lambda>t. rt_TokenId t = cl_TokenID c) (sessions w i) = Some s"
      using GetUserRefreshTokenByID_result [OF _ parse_int32_range [OF j] g] assms(1) eq
      by (simp add: sess_ok_def)
    then have "s \<in> set (sessions w i)" "rt_TokenId s = cl_TokenID c" by (auto simp: find_Some_iff)
    then show False using assms(2) by (force simp: dead_def)
  qed
  with Pair show ?thesis by (cases r) auto
qed

text \<open>The session of an accepted token was drawn before.\<close>

lemma drawn_before:
  assumes "AuthenticateByRefreshToken (ap_auth P) tok w = (Inr (u, tid), s)" "sess_ok P w"
  shows "\<exists>k < ac_tick w. tid = ap_uuid P k"
proof -
  from assms(1) obtain c :: jwt_claims and i x w1
    where i: "parse_int32 (cl_Subject c) = Some i" and tid: "tid = cl_TokenID c"
    and g: "GetUserRefreshTokenByID (acc_of P) i tid w = (Inr (Some x), w1)"
    unfolding AuthenticateByRefreshToken_Inr by blast
  have "find (\<lambda>t. rt_TokenId t = tid) (sessions w i) = Some x"
    using GetUserRefreshTokenByID_result [OF _ parse_int32_range [OF i] g] assms(2) by (simp add: sess_ok_def)
  then have "x \<in> set (sessions w i)" "rt_TokenId x = tid" by (auto simp: find_Some_iff)
  then show ?thesis using assms(2) unfolding sess_ok_def by blast
qed

lemma stays_dead:
  assumes "jwt_documented (au_jwt (ap_auth P))"
    and "ParseRefreshToken (au_jwt (ap_auth P)) t tok (au_secret (ap_auth P)) = Inr d"
    and "parse_int32 (cl_Subject d) = Some i" "sess_ok P v" "dead P v i (cl_TokenID d)"
    and "(auth_step P)\<^sup>*\<^sup>* v u" "ids_small u"
  shows "\<exists>e. fst (AuthenticateByRefreshToken (ap_auth P) tok u) = Inl e"
proof -
  have "sess_ok P u" "dead P u i (cl_TokenID d)"
    using auth_steps_move [OF assms(6)] assms(4,5,7) by (simp_all add: good_def)
  then show ?thesis
  proof (rule dead_token_refused)
    show "f = d" if "ParseRefreshToken (au_jwt (ap_auth P)) tm tok (au_secret (ap_auth P)) = Inr f" for f tm
      using that assms(2) unfolding ParseRefreshToken_iff [OF assms(1)] by (auto dest: with_claims_unique)
  qed (rule assms(3))
qed

text \<open>
  C24. A refresh token works once, while requests do not overlap and no database call fails.
  After a successful exchange the old token is then refused in every state the service reaches:
  sign-ins, exchanges, sign-outs and changes of users in any order, one after another, never let
  it in again, nor does a restart of the caches. The conditions matter: the exchange only logs a
  failure to remove the old session, and C30 shows a request that overlaps with another bring a
  session back. (Also, UUIDs do not repeat and user ids stay below 55296, from where on two users
  can share a place in the user cache.)
\<close>

theorem refresh_token_works_once:
  assumes "jwt_documented (au_jwt (ap_auth P))" "inj (ap_uuid P)"
    and "\<And>n. ae_db (acc_of P) n = None"
    and "sess_ok P w" "RefreshToken P md w = (Inr x, v)"
    and "(auth_step P)\<^sup>*\<^sup>* v u" "ac_next_id u \<le> 55296"
  shows "\<exists>e. fst (AuthenticateByRefreshToken (ap_auth P) (cookie_token md) u) = Inl e"
proof -
  obtain a old s e t info g h c where
    auth: "AuthenticateByRefreshToken (ap_auth P) (cookie_token md) w = (Inr (a, old), s)"
    and run: "and_then (map_err g (AddUserRefreshToken (acc_of P) (user_ID a)
        (new_session (ap_uuid P (ac_tick s)) e t info) (tick_ac (tick_ac s)))) (\<lambda>_ w.
     and_then (map_err h (SetResponseHeader P (snd (RemoveUserRefreshToken (acc_of P) (user_ID a) old w)))) (\<lambda>_ w.
     issue_access P a c w)) = (Inr x, v)"
    using assms(5) by (rule RefreshToken_Inr)
  have small: "ids_small u" using assms(7) by (simp add: ids_small_def)
  note vu = auth_steps_move [OF assms(6)]
  have sv: "later s v" using rotate_later [of s g "acc_of P" "user_ID a" "new_session (ap_uuid P (ac_tick s)) e t info" h P old a c]
    by (simp only: run snd_conv)
  have small_v: "ids_small v" "ids_small s"
    using small conjunct1 [OF vu] sv by (simp_all add: ids_small_def later_def)
  have s: "sess_ok P s" "later w s"
    using good_auth_refresh [of P w "ap_auth P" "cookie_token md"]
      later_auth_refresh [of w "ap_auth P" "cookie_token md"] auth assms(4) small_v by (auto simp: good_def)
  from auth_refresh_subject [OF auth assms(4) small_v(2)] obtain d where
    d: "ParseRefreshToken (au_jwt (ap_auth P)) (read_clock (acc_of P) w) (cookie_token md) (au_secret (ap_auth P)) = Inr d"
    and i: "parse_int32 (cl_Subject d) = Some (user_ID a)" and old: "old = cl_TokenID d" by blast
  have "ap_uuid P k \<noteq> old" if "ac_tick s \<le> k" for k
    using drawn_before [OF auth assms(4)] that s(2) assms(2) by (auto simp: later_def inj_eq)
  then have "dead P v (user_ID a) old"
    using rotation_kills [OF s(1) parse_int32_range [OF i] assms(3) _ run] small_v(1) by blast
  moreover have "sess_ok P v"
    using good_RefreshToken [of P w md] assms(4,5) small_v(1) by (simp add: good_def)
  ultimately show ?thesis using stays_dead [OF assms(1) d i _ _ assms(6)] small old by simp
qed

definition rotating_api :: api_env where
  "rotating_api = \<lparr>
     ap_auth = \<lparr>au_acc = steady\<lparr>ae_now := (\<lambda>_. 0)\<rparr>, au_jwt = table_lib
        [(''r'', refresh_claims (table_lib []) 0 0 7 []),
         (''n'', refresh_claims (table_lib []) 0 0 7 (replicate 5 CHR ''u'')),
         (''a'', access_claims (table_lib []) 0 0 7 ''ann'' ''USER'' ''NORMAL'')],
        au_secret = ''key'', au_sha = id\<rparr>,
     ap_uuid = (\<lambda>k. replicate k CHR ''u''), ap_random = (\<lambda>_. []), ap_general = (\<lambda>_. Inl []),
     ap_idp = (\<lambda>_ _. Inr None), ap_oauth = (\<lambda>_ _. Inl (Plain [])), ap_regexp = (\<lambda>_. Inl []),
     ap_hash_password = (\<lambda>_. Inr), ap_password_matches = (=), ap_header_error = (\<lambda>_. None)\<rparr>"

definition ann_signed_in :: accounts where
  "ann_signed_in = (two_users 1 7)\<lparr>
     ac_users := [SystemBot\<lparr>user_ID := 7, user_Username := ''ann'', user_Role := RoleUser, user_RowStatus := RowNormal\<rparr>],
     ac_settings := [\<lparr>us_UserID = 7, us_Key = REFRESH_TOKENS, us_Value = RefreshTokens
       [\<lparr>rt_TokenId = [], rt_ExpiresAt = None, rt_CreatedAt = 0, rt_ClientInfo = extractClientInfo None\<rparr>]\<rparr>],
     ac_tick := 1\<rparr>"

definition ann_cookie :: metadata where
  "ann_cookie = Some ((\<lambda>_. [])(''cookie'' := [''memos_refresh=r'']))"

lemma rotating_start: "sess_ok rotating_api ann_signed_in"
  unfolding sess_ok_def
proof (intro conjI allI impI)
  show "user_inv ann_signed_in"
    by (simp add: user_inv_def users_ok_def ann_signed_in_def two_users_def)
  show "set_inv REFRESH_TOKENS ann_signed_in"
    by (simp add: set_inv_def settings_ok_def setting_keys_ok_def coherent_def ann_signed_in_def two_users_def in_int32_def)
  show "\<exists>k. k < ac_tick ann_signed_in \<and> rt_TokenId s = ap_uuid rotating_api k"
    if "s \<in> set (sessions ann_signed_in i)" for i s
    using that by (auto simp: stored_def ann_signed_in_def rotating_api_def
        split: if_splits option.splits)
qed

text \<open>The second use of the cookie fails, and so does every later one.\<close>

lemma refresh_token_works_once_witness:
  "\<exists>e. fst (AuthenticateByRefreshToken (ap_auth rotating_api) (cookie_token ann_cookie)
     (snd (RefreshToken rotating_api ann_cookie (snd (RefreshToken rotating_api ann_cookie ann_signed_in))))) = Inl e"
proof -
  let ?v = "snd (RefreshToken rotating_api ann_cookie ann_signed_in)"
  have "case fst (RefreshToken rotating_api ann_cookie ann_signed_in) of Inl _ \<Rightarrow> False | Inr _ \<Rightarrow> True"
    by code_simp
  then obtain x where run: "RefreshToken rotating_api ann_cookie ann_signed_in = (Inr x, ?v)"
    by (cases "RefreshToken rotating_api ann_cookie ann_signed_in") (auto split: sum.splits)
  have doc: "jwt_documented (au_jwt (ap_auth rotating_api))"
    by (simp add: rotating_api_def table_lib_documented)
  have "inj (ap_uuid rotating_api)" by (auto simp: rotating_api_def inj_def dest: arg_cong [where f = length])
  moreover have "ae_db (acc_of rotating_api) n = None" for n by (simp add: rotating_api_def steady_def)
  moreover have "(auth_step rotating_api)\<^sup>*\<^sup>* ?v (snd (RefreshToken rotating_api ann_cookie ?v))"
    by (rule r_into_rtranclp) (rule refreshes)
  moreover have "ac_next_id (snd (RefreshToken rotating_api ann_cookie ?v)) \<le> 55296" by code_simp
  ultimately show ?thesis
    using refresh_token_works_once [OF doc _ _ rotating_start run] by blast
qed

text \<open>
  C26. Signing out ends the session, while requests do not overlap and no database call fails: if
  the access token and the refresh token of the request belong to the same user, the refresh token
  is refused from then on, whatever requests the service answers next, one after another. The
  conditions matter: \<open>SignOut\<close> discards the error of the removal and answers with success, and
  C30 shows what an overlapping request does. (Also, UUIDs do not repeat and user ids stay
  below 55296.)
\<close>

theorem sign_out_ends_session:
  assumes "jwt_documented (au_jwt (ap_auth P))" "inj (ap_uuid P)"
    and "\<And>n. ae_db (acc_of P) n = None"
    and "sess_ok P w" "AuthenticateByRefreshToken (ap_auth P) (cookie_token md) w = (Inr (a, old), s)"
    and "cookie_token md \<noteq> []"
    and "GetUserClaims c = Some claims" "uc_UserID claims = user_ID a" "ac_next_id s \<le> 55296"
    and "(auth_step P)\<^sup>*\<^sup>* (snd (SignOut P md c w)) u" "ac_next_id u \<le> 55296"
  shows "\<exists>e. fst (AuthenticateByRefreshToken (ap_auth P) (cookie_token md) u) = Inl e"
proof -
  have small: "ids_small s" "ids_small u" using assms(9,11) by (simp_all add: ids_small_def)
  from auth_refresh_subject [OF assms(5,4) small(1)] obtain d where
    d: "ParseRefreshToken (au_jwt (ap_auth P)) (read_clock (acc_of P) w) (cookie_token md) (au_secret (ap_auth P)) = Inr d"
    and i: "parse_int32 (cl_Subject d) = Some (user_ID a)" and old: "old = cl_TokenID d" by blast
  let ?w1 = "snd (RemoveUserRefreshToken (acc_of P) (user_ID a) old w)"
  have out: "SignOut P md c w = map_err (status_of Internal ''failed to clear auth cookies, error'') (clearAuthCookies P md ?w1)"
    using assms(6-8) d old by (simp add: SignOut_def)
  note later_u = conjunct1 [OF auth_steps_move [OF assms(10)]]
  have "later ?w1 (snd (SignOut P md c w))" unfolding out by (simp add: clear_moves)
  then have small1: "ids_small (snd (SignOut P md c w))" "ids_small ?w1"
    using later_u small(2) by (simp_all add: later_def ids_small_def)
  have "ap_uuid P k \<noteq> old" if "ac_tick w \<le> k" for k
    using drawn_before [OF assms(5,4)] that assms(2) by (auto simp: inj_eq)
  then have "dead P ?w1 (user_ID a) old"
    using removal_kills [OF assms(4) parse_int32_range [OF i] assms(3)] by simp
  moreover have "sess_ok P ?w1"
    using good_remove [OF parse_int32_range [OF i], of P w "acc_of P" old] assms(4) small1(2) by (simp add: good_def)
  moreover have "good P ?w1 (snd (SignOut P md c w))" unfolding out by (simp add: clear_moves)
  ultimately have "sess_ok P (snd (SignOut P md c w)) \<and> dead P (snd (SignOut P md c w)) (user_ID a) old"
    using small1(1) by (simp add: good_def)
  then show ?thesis using stays_dead [OF assms(1) d i _ _ assms(10) small(2)] old by simp
qed

definition ann_ctx :: ctx where
  "ann_ctx = SetUserClaimsInContext no_ctx
     \<lparr>uc_UserID = 7, uc_Username = ''ann'', uc_Role = RoleUser, uc_Status = RowNormal\<rparr>"

lemma sign_out_ends_session_witness:
  "\<exists>e. fst (AuthenticateByRefreshToken (ap_auth rotating_api) (cookie_token ann_cookie)
     (snd (SignOut rotating_api ann_cookie ann_ctx ann_signed_in))) = Inl e"
proof -
  let ?r = "AuthenticateByRefreshToken (ap_auth rotating_api) (cookie_token ann_cookie) ann_signed_in"
  have "case ?r of (Inl _, _) \<Rightarrow> False | (Inr (a, _), s) \<Rightarrow> user_ID a = 7 \<and> ac_next_id s \<le> 55296" by code_simp
  then obtain a old s where auth: "?r = (Inr (a, old), s)" and a: "user_ID a = 7" "ac_next_id s \<le> 55296"
    by (auto split: prod.splits sum.splits)
  have doc: "jwt_documented (au_jwt (ap_auth rotating_api))"
    by (simp add: rotating_api_def table_lib_documented)
  have uuid: "inj (ap_uuid rotating_api)"
    by (auto simp: rotating_api_def inj_def dest: arg_cong [where f = length])
  have db: "ae_db (acc_of rotating_api) n = None" for n by (simp add: rotating_api_def steady_def)
  have cookie: "cookie_token ann_cookie \<noteq> []" by code_simp
  have claims: "GetUserClaims ann_ctx = Some \<lparr>uc_UserID = 7, uc_Username = ''ann'', uc_Role = RoleUser, uc_Status = RowNormal\<rparr>"
    by (simp add: ann_ctx_def GetUserClaims_def SetUserClaimsInContext_def)
  have small: "ac_next_id (snd (SignOut rotating_api ann_cookie ann_ctx ann_signed_in)) \<le> 55296" by code_simp
  show ?thesis
    by (rule sign_out_ends_session [OF doc uuid db rotating_start auth cookie claims _ a(2) rtranclp.rtrancl_refl small])
      (simp add: a(1))
qed

end
