(* ===== verification/ResourceNames.thy ===== *)
theory ResourceNames
  imports GoLib
begin

section \<open>Resource names (server/router/api/v1/resource\_name.go)\<close>

text \<open>
  The names of the API, \<open>users/7\<close>, \<open>memos/abc/reactions/3\<close>, and what the services read from
  them. \<open>%q\<close> is written as the text between double quotes; its escapes are left out.
\<close>

subsection \<open>Parsing\<close>

definition InstanceSettingNamePrefix :: string where "InstanceSettingNamePrefix = ''instance/settings/''"
definition UserNamePrefix :: string where "UserNamePrefix = ''users/''"
definition MemoNamePrefix :: string where "MemoNamePrefix = ''memos/''"
definition AttachmentNamePrefix :: string where "AttachmentNamePrefix = ''attachments/''"
definition ReactionNamePrefix :: string where "ReactionNamePrefix = ''reactions/''"
definition InboxNamePrefix :: string where "InboxNamePrefix = ''inboxes/''"
definition IdentityProviderNamePrefix :: string where "IdentityProviderNamePrefix = ''identity-providers/''"
definition ActivityNamePrefix :: string where "ActivityNamePrefix = ''activities/''"

abbreviation slash :: char where "slash \<equiv> CHR 0x2F"

definition in_quotes :: "string \<Rightarrow> string" where
  "in_quotes s = CHR 0x22 # s @ [CHR 0x22]"

text \<open>The loop over the prefixes, two parts of the name for each.\<close>

fun name_tokens :: "string \<Rightarrow> string list \<Rightarrow> string list \<Rightarrow> string + string list" where
  "name_tokens name (p # ps) (a # b # parts) =
     (if a @ ''/'' \<noteq> p then Inl (''invalid prefix '' @ in_quotes p @ '' in request '' @ in_quotes name)
      else if b = [] then Inl (''invalid request '' @ in_quotes name @ '' with empty prefix '' @ in_quotes p)
      else (case name_tokens name ps parts of Inl e \<Rightarrow> Inl e | Inr ts \<Rightarrow> Inr (b # ts)))"
| "name_tokens name _ _ = Inr []"

definition GetNameParentTokens :: "string \<Rightarrow> string list \<Rightarrow> string + string list" where
  "GetNameParentTokens name tokenPrefixes =
     (let parts = split_on slash name in
      if length parts \<noteq> 2 * length tokenPrefixes then Inl (''invalid request '' @ in_quotes name)
      else name_tokens name tokenPrefixes parts)"

definition ExtractInstanceSettingKeyFromName :: "string \<Rightarrow> string + string" where
  "ExtractInstanceSettingKeyFromName name =
     (let p = ''instance/settings/'' in
      if \<not> prefix p name
      then Inl (''invalid instance setting name: expected prefix '' @ in_quotes p @ '', got '' @ in_quotes name)
      else let settingKey = drop (length p) name in
        if settingKey = [] then Inl (''invalid instance setting name: empty setting key in '' @ in_quotes name)
        else if slash \<in> set settingKey
        then Inl (''invalid instance setting name: setting key cannot contain '' @ [CHR 0x27, slash, CHR 0x27] @
                  '' in '' @ in_quotes name)
        else Inr settingKey)"

definition token_id :: "string \<Rightarrow> string \<Rightarrow> string + int" where
  "token_id what s = (case parse_int32 s of
     None \<Rightarrow> Inl (''invalid '' @ what @ '' '' @ in_quotes s) | Some i \<Rightarrow> Inr i)"

definition id_from_name :: "string \<Rightarrow> string \<Rightarrow> string \<Rightarrow> string + int" where
  "id_from_name p what name =
     (case GetNameParentTokens name [p] of Inl e \<Rightarrow> Inl e | Inr ts \<Rightarrow> token_id what (hd ts))"

definition uid_from_name :: "string \<Rightarrow> string \<Rightarrow> string + string" where
  "uid_from_name p name =
     (case GetNameParentTokens name [p] of Inl e \<Rightarrow> Inl e | Inr ts \<Rightarrow> Inr (hd ts))"

definition ExtractUserIDFromName :: "string \<Rightarrow> string + int" where
  "ExtractUserIDFromName = id_from_name UserNamePrefix ''user ID''"

definition extractUserIdentifierFromName :: "string \<Rightarrow> string" where
  "extractUserIdentifierFromName name =
     (case GetNameParentTokens name [UserNamePrefix] of Inr (t # _) \<Rightarrow> t | _ \<Rightarrow> [])"

definition ExtractMemoUIDFromName :: "string \<Rightarrow> string + string" where
  "ExtractMemoUIDFromName = uid_from_name MemoNamePrefix"

definition ExtractAttachmentUIDFromName :: "string \<Rightarrow> string + string" where
  "ExtractAttachmentUIDFromName = uid_from_name AttachmentNamePrefix"

definition ExtractMemoReactionIDFromName :: "string \<Rightarrow> string + (string \<times> int)" where
  "ExtractMemoReactionIDFromName name =
     (case GetNameParentTokens name [MemoNamePrefix, ReactionNamePrefix] of
        Inl e \<Rightarrow> Inl e
      | Inr ts \<Rightarrow> (case token_id ''reaction ID'' (ts ! 1) of Inl e \<Rightarrow> Inl e | Inr i \<Rightarrow> Inr (hd ts, i)))"

definition ExtractInboxIDFromName :: "string \<Rightarrow> string + int" where
  "ExtractInboxIDFromName = id_from_name InboxNamePrefix ''inbox ID''"

definition ExtractIdentityProviderIDFromName :: "string \<Rightarrow> string + int" where
  "ExtractIdentityProviderIDFromName = id_from_name IdentityProviderNamePrefix ''identity provider ID''"

definition ExtractActivityIDFromName :: "string \<Rightarrow> string + int" where
  "ExtractActivityIDFromName = id_from_name ActivityNamePrefix ''activity ID''"

subsection \<open>Names read in user\_service.go\<close>

definition ExtractUserIDAndSettingKeyFromName :: "string \<Rightarrow> string + (int \<times> string)" where
  "ExtractUserIDAndSettingKeyFromName name =
     (case split_on slash name of
        [a, i, b, k] \<Rightarrow>
          if a \<noteq> ''users'' \<or> b \<noteq> ''settings'' then Inl (''invalid resource name format: '' @ name)
          else (case parse_int32 i of None \<Rightarrow> Inl (''invalid user ID: '' @ i) | Some u \<Rightarrow> Inr (u, k))
      | _ \<Rightarrow> Inl (''invalid resource name format: '' @ name))"

definition parseUserWebhookName :: "string \<Rightarrow> string + (string \<times> int)" where
  "parseUserWebhookName name =
     (case split_on slash name of
        [a, i, b, k] \<Rightarrow>
          if a \<noteq> ''users'' \<or> b \<noteq> ''webhooks'' then Inl ''invalid webhook name format''
          else (case parse_int32 i of None \<Rightarrow> Inl ''invalid user ID in webhook name'' | Some u \<Rightarrow> Inr (k, u))
      | _ \<Rightarrow> Inl ''invalid webhook name format'')"

definition extractWebhookIDFromName :: "string \<Rightarrow> string" where
  "extractWebhookIDFromName name =
     (case split_on slash name of
        a # _ # b # k # _ \<Rightarrow> if a = ''users'' \<and> b = ''webhooks'' then k else []
      | _ \<Rightarrow> [])"

text \<open>
  The regular expression \<open>^users/(\d+)/notifications/(\d+)$\<close>; the number is read as a 64-bit
  integer and cut to 32 bits.
\<close>

definition some_digits :: "string \<Rightarrow> bool" where
  "some_digits s \<longleftrightarrow> s \<noteq> [] \<and> list_all (byte_in 48 57) s"

definition ExtractNotificationIDFromName :: "string \<Rightarrow> string + int" where
  "ExtractNotificationIDFromName name =
     (case split_on slash name of
        [a, u, b, n] \<Rightarrow>
          if a = ''users'' \<and> some_digits u \<and> b = ''notifications'' \<and> some_digits n
          then (case atoi n of
              None \<Rightarrow> Inl (''invalid notification id: '' @ n) | Some i \<Rightarrow> Inr (wrap32 i))
          else Inl (''invalid notification name: '' @ name)
      | _ \<Rightarrow> Inl (''invalid notification name: '' @ name))"

subsection \<open>Names determine their parts\<close>

lemma split_on_cons: "c \<notin> set p \<Longrightarrow> split_on c (p @ c # s) = p # split_on c s"
  by (induction p) auto

lemma split_on_parts: "p \<in> set (split_on c s) \<Longrightarrow> c \<notin> set p"
proof (induction s arbitrary: p)
  case (Cons x s)
  obtain q qs where "split_on c s = q # qs" by (cases "split_on c s") auto
  with Cons show ?case by (auto split: if_splits)
qed simp

lemma split_on_join:
  assumes "ps \<noteq> []" "list_all (\<lambda>p. c \<notin> set p) ps"
  shows "split_on c (join_with [c] ps) = ps"
  using assms by (induction "[c]" ps rule: join_with.induct) (auto simp: split_on_no_sep split_on_cons)

lemma split_on_iff:
  "split_on c s = ps \<longleftrightarrow> ps \<noteq> [] \<and> list_all (\<lambda>p. c \<notin> set p) ps \<and> s = join_with [c] ps"
  using split_on_join [of ps c] join_split_on [of c s] split_on_parts [of _ c s] split_on_nonempty [of c s]
  by (auto simp: list_all_iff simp del: split_on_nonempty)

text \<open>The name with the given tokens.\<close>

fun named :: "string list \<Rightarrow> string list \<Rightarrow> string list" where
  "named (p # ps) (t # ts) = butlast p # t # named ps ts"
| "named _ _ = []"

definition collection :: "string \<Rightarrow> bool" where
  "collection p \<longleftrightarrow> p \<noteq> [] \<and> last p = slash \<and> slash \<notin> set (butlast p)"

definition token :: "string \<Rightarrow> bool" where
  "token t \<longleftrightarrow> t \<noteq> [] \<and> slash \<notin> set t"

lemma name_tokens_iff:
  assumes "list_all collection ps" "length parts = 2 * length ps" "list_all (\<lambda>p. slash \<notin> set p) parts"
  shows "name_tokens name ps parts = Inr ts \<longleftrightarrow>
    length ts = length ps \<and> list_all token ts \<and> parts = named ps ts"
  using assms
proof (induction name ps parts arbitrary: ts rule: name_tokens.induct)
  case (1 name p ps a b parts)
  have p: "a @ ''/'' = p \<longleftrightarrow> a = butlast p"
    using 1(2) by (auto simp: collection_def snoc_eq_iff_butlast)
  have IH: "name_tokens name ps parts = Inr us \<longleftrightarrow>
      length us = length ps \<and> list_all token us \<and> parts = named ps us" if "a = butlast p" "b \<noteq> []" for us
  proof -
    have "\<not> a @ ''/'' \<noteq> p" using p that(1) by blast
    from 1(1) [OF this that(2)] 1(2-4) show ?thesis by simp
  qed
  show ?case
  proof (cases "a = butlast p \<and> b \<noteq> []")
    case True
    then have "name_tokens name (p # ps) (a # b # parts) = Inr ts \<longleftrightarrow>
        (\<exists>us. name_tokens name ps parts = Inr us \<and> ts = b # us)"
      using p by (auto split: sum.splits)
    then have "name_tokens name (p # ps) (a # b # parts) = Inr ts \<longleftrightarrow>
        (\<exists>us. (length us = length ps \<and> list_all token us \<and> parts = named ps us) \<and> ts = b # us)"
      using IH True by simp
    moreover have "token b" using True 1(4) by (simp add: token_def)
    ultimately show ?thesis
      using True by (cases ts) (auto simp del: name_tokens.simps)
  next
    case False
    then show ?thesis using p by (cases ts) (auto simp: token_def)
  qed
qed auto

lemma GetNameParentTokens_iff:
  assumes "list_all collection ps" "ps \<noteq> []"
  shows "GetNameParentTokens name ps = Inr ts \<longleftrightarrow>
    length ts = length ps \<and> list_all token ts \<and> name = join_with ''/'' (named ps ts)"
proof -
  have slashless: "list_all (\<lambda>p. slash \<notin> set p) (named ps ts)" if "list_all token ts"
    using assms(1) that by (induction ps ts rule: named.induct) (auto simp: collection_def token_def)
  have len: "length ts = length ps \<Longrightarrow> length (named ps ts) = 2 * length ps"
    by (induction ps ts rule: named.induct) auto
  have ne: "length ts = length ps \<Longrightarrow> named ps ts \<noteq> []"
    using assms(2) len by fastforce
  show ?thesis
  proof (cases "length (split_on slash name) = 2 * length ps")
    case True
    have "list_all (\<lambda>p. slash \<notin> set p) (split_on slash name)" by (simp add: list_all_iff split_on_parts)
    note iff = name_tokens_iff [OF assms(1) True this, of name ts]
    show ?thesis
      using True iff slashless ne unfolding split_on_iff by (auto simp: GetNameParentTokens_def)
  next
    case False
    moreover have False if "length ts = length ps" "list_all token ts" "name = join_with ''/'' (named ps ts)"
      using that False len slashless ne split_on_join [of "named ps ts" slash] by simp
    ultimately show ?thesis by (auto simp: GetNameParentTokens_def)
  qed
qed

lemma one_token:
  assumes "collection p"
  shows "GetNameParentTokens name [p] = Inr ts \<longleftrightarrow> (\<exists>t. ts = [t] \<and> token t \<and> name = p @ t)"
proof -
  obtain q where "p = q @ ''/''" using assms by (cases p rule: rev_cases) (auto simp: collection_def)
  with assms show ?thesis
    by (subst GetNameParentTokens_iff) (auto simp: length_Suc_conv)
qed

lemma collections:
  "collection UserNamePrefix" "collection MemoNamePrefix" "collection AttachmentNamePrefix"
  "collection ReactionNamePrefix" "collection InboxNamePrefix" "collection IdentityProviderNamePrefix"
  "collection ActivityNamePrefix"
  by (simp_all add: collection_def UserNamePrefix_def MemoNamePrefix_def AttachmentNamePrefix_def
      ReactionNamePrefix_def InboxNamePrefix_def IdentityProviderNamePrefix_def ActivityNamePrefix_def)

lemma uid_from_name_iff:
  assumes "collection p"
  shows "uid_from_name p name = Inr u \<longleftrightarrow> token u \<and> name = p @ u"
proof (cases "GetNameParentTokens name [p]")
  case (Inl e)
  then show ?thesis using one_token [OF assms, of name "[u]"] by (auto simp: uid_from_name_def)
next
  case (Inr ts)
  then show ?thesis using one_token [OF assms, of name ts] by (auto simp: uid_from_name_def)
qed

lemma id_from_name_iff:
  assumes "collection p"
  shows "id_from_name p what name = Inr i \<longleftrightarrow> (\<exists>t. token t \<and> parse_int32 t = Some i \<and> name = p @ t)"
proof (cases "GetNameParentTokens name [p]")
  case (Inl e)
  then show ?thesis using one_token [OF assms, of name] by (auto simp: id_from_name_def)
next
  case (Inr ts)
  then show ?thesis using one_token [OF assms, of name ts]
    by (auto simp: id_from_name_def token_id_def split: option.splits)
qed

lemma itoa_token: "token (itoa i)"
proof -
  have d: "byte_in 48 57 c" if "c \<in> set (nat_digits n)" for c n
    using that
  proof (induction n rule: nat_digits.induct)
    case (1 n)
    then show ?case
      by (subst (asm) (2) nat_digits.simps) (auto simp: digit_char_def byte_in_def split: if_splits)
  qed
  have "slash \<notin> set (nat_digits n)" for n using d [of slash n] by (auto simp: byte_in_def)
  moreover have "nat_digits n \<noteq> []" for n by (subst nat_digits.simps) simp
  ultimately show ?thesis by (simp add: token_def itoa_def)
qed

lemma user_name_roundtrip: "in_int32 i \<Longrightarrow> ExtractUserIDFromName (UserNamePrefix @ itoa i) = Inr i"
  unfolding ExtractUserIDFromName_def id_from_name_iff [OF collections(1)]
  using itoa_token parse_int32_itoa by blast

lemma four_parts:
  assumes "slash \<notin> set a" "slash \<notin> set b"
  shows "split_on slash name = [a, t, b, k] \<longleftrightarrow>
    slash \<notin> set t \<and> slash \<notin> set k \<and> name = a @ ''/'' @ t @ ''/'' @ b @ ''/'' @ k"
  using assms by (auto simp: split_on_iff)

lemma setting_key_iff:
  "ExtractUserIDAndSettingKeyFromName name = Inr (i, k) \<longleftrightarrow>
    (\<exists>t. split_on slash name = [''users'', t, ''settings'', k] \<and> parse_int32 t = Some i)"
  by (auto simp: ExtractUserIDAndSettingKeyFromName_def split: list.splits if_splits option.splits)

lemma webhook_name_iff:
  "parseUserWebhookName name = Inr (k, i) \<longleftrightarrow>
    (\<exists>t. split_on slash name = [''users'', t, ''webhooks'', k] \<and> parse_int32 t = Some i)"
  by (auto simp: parseUserWebhookName_def split: list.splits if_splits option.splits)

lemma instance_key_iff:
  "ExtractInstanceSettingKeyFromName name = Inr k \<longleftrightarrow> token k \<and> name = ''instance/settings/'' @ k"
  by (auto simp: ExtractInstanceSettingKeyFromName_def Let_def token_def prefix_def)

text \<open>
  C32. The parsers of the names of memos, attachments, users, reactions, inboxes, identity
  providers, activities, instance settings, user settings and webhooks accept exactly the names of
  their collection and return the part that is written there: the uid or key as it is (not empty
  and without a slash; the key of a user setting or a webhook may be empty), the number as
  \<open>ParseInt\<close> reads it in 32 bits. So a memo, an attachment and an instance setting have one name
  each, a number may have several spellings, and no name is read by the parser of another
  collection.
\<close>

theorem resource_name_roundtrip:
  "(ExtractMemoUIDFromName name = Inr uid \<longleftrightarrow> token uid \<and> name = ''memos/'' @ uid) \<and>
   (ExtractAttachmentUIDFromName name = Inr uid \<longleftrightarrow> token uid \<and> name = ''attachments/'' @ uid) \<and>
   (ExtractUserIDFromName name = Inr i \<longleftrightarrow> (\<exists>t. token t \<and> parse_int32 t = Some i \<and> name = ''users/'' @ t)) \<and>
   (ExtractMemoReactionIDFromName name = Inr (uid, i) \<longleftrightarrow>
      (\<exists>t. token uid \<and> token t \<and> parse_int32 t = Some i \<and> name = ''memos/'' @ uid @ ''/reactions/'' @ t)) \<and>
   (ExtractInboxIDFromName name = Inr i \<longleftrightarrow> (\<exists>t. token t \<and> parse_int32 t = Some i \<and> name = ''inboxes/'' @ t)) \<and>
   (ExtractIdentityProviderIDFromName name = Inr i \<longleftrightarrow>
      (\<exists>t. token t \<and> parse_int32 t = Some i \<and> name = ''identity-providers/'' @ t)) \<and>
   (ExtractActivityIDFromName name = Inr i \<longleftrightarrow>
      (\<exists>t. token t \<and> parse_int32 t = Some i \<and> name = ''activities/'' @ t)) \<and>
   (ExtractInstanceSettingKeyFromName name = Inr k \<longleftrightarrow> token k \<and> name = ''instance/settings/'' @ k) \<and>
   (ExtractUserIDAndSettingKeyFromName name = Inr (i, k) \<longleftrightarrow>
      (\<exists>t. slash \<notin> set t \<and> slash \<notin> set k \<and> parse_int32 t = Some i \<and>
           name = ''users/'' @ t @ ''/settings/'' @ k)) \<and>
   (parseUserWebhookName name = Inr (k, i) \<longleftrightarrow>
      (\<exists>t. slash \<notin> set t \<and> slash \<notin> set k \<and> parse_int32 t = Some i \<and>
           name = ''users/'' @ t @ ''/webhooks/'' @ k))"
proof (intro conjI)
  show "ExtractMemoUIDFromName name = Inr uid \<longleftrightarrow> token uid \<and> name = ''memos/'' @ uid"
    unfolding ExtractMemoUIDFromName_def uid_from_name_iff [OF collections(2)] by (simp add: MemoNamePrefix_def)
  show "ExtractAttachmentUIDFromName name = Inr uid \<longleftrightarrow> token uid \<and> name = ''attachments/'' @ uid"
    unfolding ExtractAttachmentUIDFromName_def uid_from_name_iff [OF collections(3)]
    by (simp add: AttachmentNamePrefix_def)
  show "ExtractUserIDFromName name = Inr i \<longleftrightarrow> (\<exists>t. token t \<and> parse_int32 t = Some i \<and> name = ''users/'' @ t)"
    unfolding ExtractUserIDFromName_def id_from_name_iff [OF collections(1)] by (simp add: UserNamePrefix_def)
  let ?ps = "[MemoNamePrefix, ReactionNamePrefix]"
  have two: "GetNameParentTokens name ?ps = Inr ts \<longleftrightarrow>
      (\<exists>u t. ts = [u, t] \<and> token u \<and> token t \<and> name = ''memos/'' @ u @ ''/reactions/'' @ t)" for ts
    by (subst GetNameParentTokens_iff)
      (auto simp: collection_def length_Suc_conv MemoNamePrefix_def ReactionNamePrefix_def numeral_2_eq_2)
  show "ExtractMemoReactionIDFromName name = Inr (uid, i) \<longleftrightarrow>
      (\<exists>t. token uid \<and> token t \<and> parse_int32 t = Some i \<and> name = ''memos/'' @ uid @ ''/reactions/'' @ t)"
  proof -
    have "ExtractMemoReactionIDFromName name = Inr (uid, i) \<longleftrightarrow>
        (\<exists>t. GetNameParentTokens name ?ps = Inr [uid, t] \<and> parse_int32 t = Some i)"
    proof (cases "GetNameParentTokens name ?ps")
      case (Inr ts)
      then obtain u t where "ts = [u, t]" using two [of ts] by blast
      with Inr show ?thesis
        by (auto simp: ExtractMemoReactionIDFromName_def token_id_def split: option.splits)
    qed (simp add: ExtractMemoReactionIDFromName_def)
    then show ?thesis unfolding two by blast
  qed
  show "ExtractInboxIDFromName name = Inr i \<longleftrightarrow> (\<exists>t. token t \<and> parse_int32 t = Some i \<and> name = ''inboxes/'' @ t)"
    unfolding ExtractInboxIDFromName_def id_from_name_iff [OF collections(5)] by (simp add: InboxNamePrefix_def)
  show "ExtractIdentityProviderIDFromName name = Inr i \<longleftrightarrow>
      (\<exists>t. token t \<and> parse_int32 t = Some i \<and> name = ''identity-providers/'' @ t)"
    unfolding ExtractIdentityProviderIDFromName_def id_from_name_iff [OF collections(6)]
    by (simp add: IdentityProviderNamePrefix_def)
  show "ExtractActivityIDFromName name = Inr i \<longleftrightarrow>
      (\<exists>t. token t \<and> parse_int32 t = Some i \<and> name = ''activities/'' @ t)"
    unfolding ExtractActivityIDFromName_def id_from_name_iff [OF collections(7)]
    by (simp add: ActivityNamePrefix_def)
  show "ExtractInstanceSettingKeyFromName name = Inr k \<longleftrightarrow> token k \<and> name = ''instance/settings/'' @ k"
    by (rule instance_key_iff)
  show "ExtractUserIDAndSettingKeyFromName name = Inr (i, k) \<longleftrightarrow>
      (\<exists>t. slash \<notin> set t \<and> slash \<notin> set k \<and> parse_int32 t = Some i \<and>
           name = ''users/'' @ t @ ''/settings/'' @ k)"
    unfolding setting_key_iff by (subst four_parts) auto
  show "parseUserWebhookName name = Inr (k, i) \<longleftrightarrow>
      (\<exists>t. slash \<notin> set t \<and> slash \<notin> set k \<and> parse_int32 t = Some i \<and>
           name = ''users/'' @ t @ ''/webhooks/'' @ k)"
    unfolding webhook_name_iff by (subst four_parts) auto
qed

text \<open>
  The number of a notification is cut to 32 bits: names whose numbers differ by a multiple of
  2 to the 32 are names of the same notification.
\<close>

theorem notification_numbers_wrap:
  assumes "0 \<le> n" "n + 2 ^ 32 * k < 2 ^ 63" "0 \<le> k" "some_digits u"
  shows "ExtractNotificationIDFromName (''users/'' @ u @ ''/notifications/'' @ itoa (n + 2 ^ 32 * k)) =
    Inr (wrap32 n)"
proof -
  let ?s = "itoa (n + 2 ^ 32 * k)"
  have pos: "0 \<le> n + 2 ^ 32 * k" using assms by simp
  have dig: "byte_in 48 57 c" if "c \<in> set (nat_digits m)" for c m
    using that
  proof (induction m rule: nat_digits.induct)
    case (1 m)
    then show ?case
      by (subst (asm) (2) nat_digits.simps) (auto simp: digit_char_def byte_in_def split: if_splits)
  qed
  have digits: "some_digits ?s"
    using pos dig itoa_token [of "n + 2 ^ 32 * k"] by (auto simp: some_digits_def itoa_def list_all_iff token_def)
  have no: "slash \<notin> set s" if "some_digits s" for s
    using that by (auto simp: some_digits_def list_all_iff byte_in_def)
  have "''users/'' @ u @ ''/notifications/'' @ ?s = join_with ''/'' [''users'', u, ''notifications'', ?s]" by simp
  then have "split_on slash (''users/'' @ u @ ''/notifications/'' @ ?s) = [''users'', u, ''notifications'', ?s]"
    using split_on_join [of "[''users'', u, ''notifications'', ?s]" slash] no [OF digits] no [OF assms(4)] by simp
  moreover have "atoi ?s = Some (n + 2 ^ 32 * k)"
    using assms(2) pos by (intro atoi_itoa) (simp add: in_int64_def min_int64_def max_int64_def)
  moreover have "wrap32 (n + 2 ^ 32 * k) = wrap32 n"
    by (simp add: wrap32_def signed_take_bit_eq_iff_take_bit_eq take_bit_eq_mod)
  ultimately show ?thesis
    using digits assms(4) by (simp only: ExtractNotificationIDFromName_def list.case if_True simp_thms option.case)
qed

lemma notification_numbers_wrap_witness:
  "ExtractNotificationIDFromName (''users/1/notifications/'' @ itoa 4294967301) = Inr 5"
proof -
  have "some_digits ''1''" by (simp add: some_digits_def byte_in_def)
  then show ?thesis using notification_numbers_wrap [of 5 1 "''1''"] by (simp add: wrap32_id)
qed

end
