(* ===== verification/UserApi.thy ===== *)
theory UserApi
  imports SessionSafety ResourceNames FilterParser
begin

section \<open>The users of the API (server/router/api/v1/user\_service.go, common.go)\<close>

text \<open>
  Listing, reading, creating, changing and deleting users. The CEL compiler that reads the
  filter of \<open>ListUsers\<close> and the question whether a RAGFlow runner is configured are
  fields of \<open>user_env\<close>; everything else comes from \<open>api_env\<close>.
\<close>

subsection \<open>Messages\<close>

datatype user_role = Role_UNSPECIFIED | Role_ADMIN | Role_USER | Role_Other int
datatype state = State_UNSPECIFIED | State_NORMAL | State_ARCHIVED | State_Other int

record api_user =
  pu_Name :: string
  pu_Role :: user_role
  pu_Username :: string
  pu_Email :: string
  pu_DisplayName :: string
  pu_AvatarUrl :: string
  pu_Description :: string
  pu_Password :: string
  pu_State :: state
  pu_CreateTime :: int   \<comment> \<open>seconds\<close>
  pu_UpdateTime :: int

definition empty_api_user :: api_user where
  "empty_api_user = \<lparr>pu_Name = [], pu_Role = Role_UNSPECIFIED, pu_Username = [], pu_Email = [],
     pu_DisplayName = [], pu_AvatarUrl = [], pu_Description = [], pu_Password = [],
     pu_State = State_UNSPECIFIED, pu_CreateTime = 0, pu_UpdateTime = 0\<rparr>"

record user_env =
  ue_api :: api_env
  ue_cel :: "string \<Rightarrow> string + expr"
  ue_runner :: bool

abbreviation store_of :: "user_env \<Rightarrow> acc_env" where
  "store_of U \<equiv> acc_of (ue_api U)"

subsection \<open>Conversions\<close>

definition convertStateFromStore :: "string \<Rightarrow> state" where
  "convertStateFromStore s =
     (if s = RowNormal then State_NORMAL else if s = RowArchived then State_ARCHIVED else State_UNSPECIFIED)"

definition convertStateToStore :: "state \<Rightarrow> string" where
  "convertStateToStore s = (if s = State_ARCHIVED then RowArchived else RowNormal)"

definition convertUserRoleFromStore :: "string \<Rightarrow> user_role" where
  "convertUserRoleFromStore r =
     (if r = RoleAdmin then Role_ADMIN else if r = RoleUser then Role_USER else Role_UNSPECIFIED)"

definition convertUserRoleToStore :: "user_role \<Rightarrow> string" where
  "convertUserRoleToStore r = (if r = Role_ADMIN then RoleAdmin else RoleUser)"

definition isSuperUser :: "user \<Rightarrow> bool" where
  "isSuperUser u \<longleftrightarrow> user_Role u = RoleAdmin"

text \<open>
  The regular expression \<open>^data:(?P<type>.+);base64,(?P<base64>.+)\<close>: all within one line, with
  the last \<open>;base64,\<close> that leaves something on both sides.
\<close>

definition newline :: char where "newline = CHR 0x0A"

definition data_splits :: "string \<Rightarrow> nat list" where
  "data_splits line =
     filter (\<lambda>i. prefix '';base64,'' (drop i line) \<and> i + 8 < length line) [1..<length line]"

definition extractImageInfo :: "string \<Rightarrow> string + (string \<times> string)" where
  "extractImageInfo dataURI =
     (let line = takeWhile (\<lambda>c. c \<noteq> newline) (drop 5 dataURI) in
      if \<not> prefix ''data:'' dataURI \<or> data_splits line = [] then Inl ''invalid data URI format''
      else let i = last (data_splits line) in Inr (take i line, drop (i + 8) line))"

definition user_name_of :: "int \<Rightarrow> string" where
  "user_name_of i = UserNamePrefix @ itoa i"

definition convertUserFromStore :: "user \<Rightarrow> api_user" where
  "convertUserFromStore u =
     \<lparr>pu_Name = user_name_of (user_ID u), pu_Role = convertUserRoleFromStore (user_Role u),
      pu_Username = user_Username u, pu_Email = user_Email u, pu_DisplayName = user_Nickname u,
      pu_AvatarUrl =
        (if user_AvatarURL u \<noteq> [] \<and> \<not> isl (extractImageInfo (user_AvatarURL u))
         then ''/file/'' @ user_name_of (user_ID u) @ ''/avatar''
         else user_AvatarURL u),
      pu_Description = user_Description u, pu_Password = [],
      pu_State = convertStateFromStore (user_RowStatus u),
      pu_CreateTime = user_CreatedTs u, pu_UpdateTime = user_UpdatedTs u\<rparr>"

text \<open>\<open>base.UIDMatcher\<close>: \<open>^[a-zA-Z0-9]([a-zA-Z0-9-]{0,30}[a-zA-Z0-9])?$\<close>.\<close>

definition alphanumeric :: "char \<Rightarrow> bool" where
  "alphanumeric c \<longleftrightarrow> byte_in 48 57 c \<or> byte_in 65 90 c \<or> byte_in 97 122 c"

definition UIDMatcher :: "string \<Rightarrow> bool" where
  "UIDMatcher s \<longleftrightarrow> s \<noteq> [] \<and> length s \<le> 32 \<and> alphanumeric (hd s) \<and> alphanumeric (last s) \<and>
     list_all (\<lambda>c. alphanumeric c \<or> c = CHR ''-'') s"

definition valid_username :: "string \<Rightarrow> bool" where
  "valid_username s \<longleftrightarrow> UIDMatcher (to_lower s)"

subsection \<open>Who asks\<close>

definition require_user :: "api_env \<Rightarrow> string \<Rightarrow> ctx \<Rightarrow> accounts \<Rightarrow> user reply" where
  "require_user P msg c w =
     and_then (map_err (status_of Internal msg) (fetchCurrentUser P c w)) (\<lambda>u w.
     case u of
       None \<Rightarrow> (Inl (Status Unauthenticated ''user not authenticated''), w)
     | Some u \<Rightarrow> (Inr u, w))"

text \<open>\<open>currentUser, _ := s.fetchCurrentUser(ctx)\<close>\<close>

definition maybe_user :: "api_env \<Rightarrow> ctx \<Rightarrow> accounts \<Rightarrow> user option \<times> accounts" where
  "maybe_user P c w = (case fetchCurrentUser P c w of (Inl _, w) \<Rightarrow> (None, w) | (Inr u, w) \<Rightarrow> (u, w))"

definition permission_denied :: api_error where
  "permission_denied = Status PermissionDenied ''permission denied''"

definition require_self_or_admin :: "api_env \<Rightarrow> string \<Rightarrow> int \<Rightarrow> ctx \<Rightarrow> accounts \<Rightarrow> user reply" where
  "require_self_or_admin P msg i c w =
     and_then (require_user P msg c w) (\<lambda>u w.
     if user_ID u \<noteq> i \<and> user_Role u \<noteq> RoleAdmin then (Inl permission_denied, w) else (Inr u, w))"

text \<open>An argument that is read by a function without state.\<close>

definition argument :: "string \<Rightarrow> string + 'a \<Rightarrow> accounts \<Rightarrow> 'a reply" where
  "argument msg r w = (case r of Inl e \<Rightarrow> (Inl (status_of InvalidArgument msg e), w) | Inr a \<Rightarrow> (Inr a, w))"

subsection \<open>Listing and reading\<close>

text \<open>\<open>extractUsernameFromFilter\<close> on the tree of the CEL compiler.\<close>

definition extractUsernameFromComparison :: "expr \<Rightarrow> expr \<Rightarrow> string option" where
  "extractUsernameFromComparison l r =
     (case (l, r) of
        (IdentExpr x, ConstExpr (StringValue s)) \<Rightarrow> if x = ''username'' \<and> s \<noteq> [] then Some s else None
      | _ \<Rightarrow> None)"

definition extractUsernameFromAST :: "expr \<Rightarrow> string + string" where
  "extractUsernameFromAST e =
     (case e of
        CallExpr _ f args \<Rightarrow>
          if f \<noteq> ''_==_'' then Inl (''unsupported operator: '' @ f @ '' (only '' @ [CHR 0x27] @ ''=='' @ [CHR 0x27] @ '' is supported)'')
          else (case args of
              [a, b] \<Rightarrow>
                (case extractUsernameFromComparison a b of
                   Some s \<Rightarrow> Inr s
                 | None \<Rightarrow>
                     (case extractUsernameFromComparison b a of
                        Some s \<Rightarrow> Inr s
                      | None \<Rightarrow> Inl (''filter must compare '' @ [CHR 0x27] @ ''username'' @ [CHR 0x27] @ '' field with a string constant'')))
            | _ \<Rightarrow> Inl ''invalid comparison expression'')
      | _ \<Rightarrow> Inl (''filter must be a comparison expression (e.g., username == '' @ [CHR 0x27] @ ''value'' @ [CHR 0x27] @ '')''))"

definition extractUsernameFromFilter :: "(string \<Rightarrow> string + expr) \<Rightarrow> string \<Rightarrow> string + string" where
  "extractUsernameFromFilter cel filterStr =
     (let filterStr = trim_space filterStr in
      if filterStr = [] then Inr []
      else case cel filterStr of
        Inl e \<Rightarrow> Inl (wrap_msg (''invalid filter expression: '' @ filterStr) e)
      | Inr e \<Rightarrow> extractUsernameFromAST e)"

definition ListUsers :: "user_env \<Rightarrow> ctx \<Rightarrow> string \<Rightarrow> accounts \<Rightarrow> api_user list reply" where
  "ListUsers U c filterStr w =
     and_then (require_user (ue_api U) ''failed to get user'' c w) (\<lambda>current w.
     if user_Role current \<noteq> RoleAdmin then (Inl permission_denied, w)
     else and_then (argument ''invalid filter'' (if filterStr = [] then Inr []
                      else extractUsernameFromFilter (ue_cel U) filterStr) w) (\<lambda>username w.
     and_then (map_err (status_of Internal ''failed to list users'')
         (store_ListUsers (store_of U) (if username = [] then find_any_user else user_named username) w)) (\<lambda>us w.
     (Inr (map convertUserFromStore us), w))))"

definition GetUser :: "user_env \<Rightarrow> string \<Rightarrow> accounts \<Rightarrow> api_user reply" where
  "GetUser U name w =
     (let identifier = extractUserIdentifierFromName name in
      if identifier = [] then (Inl (Status InvalidArgument (''invalid user name: '' @ name)), w)
      else and_then (map_err (status_of Internal ''failed to get user'')
          (store_GetUser (store_of U) (case parse_int32 identifier of
             Some i \<Rightarrow> user_with_id i | None \<Rightarrow> user_named identifier) w)) (\<lambda>u w.
        case u of
          None \<Rightarrow> (Inl (Status NotFound ''user not found''), w)
        | Some u \<Rightarrow> (Inr (convertUserFromStore u), w)))"

subsection \<open>Creating\<close>

record create_user_request =
  cu_User :: "api_user option"
  cu_ValidateOnly :: bool

definition may_register :: "api_env \<Rightarrow> user option \<Rightarrow> accounts \<Rightarrow> unit reply" where
  "may_register P current w =
     (if (case current of None \<Rightarrow> True | Some u \<Rightarrow> \<not> isSuperUser u)
      then and_then (map_err (status_of Internal ''failed to get instance general setting, error'')
             (GetInstanceGeneralSetting P w)) (\<lambda>g w.
           if gs_DisallowUserRegistration g
           then (Inl (Status PermissionDenied ''user registration is not allowed''), w)
           else (Inr (), w))
      else (Inr (), w))"

definition roleToAssign :: "bool \<Rightarrow> user option \<Rightarrow> user_role \<Rightarrow> string" where
  "roleToAssign isFirstUser current requested =
     (if isFirstUser then RoleAdmin
      else case current of
        None \<Rightarrow> RoleUser
      | Some u \<Rightarrow>
          if user_Role u = RoleAdmin \<and> requested \<noteq> Role_UNSPECIFIED
          then convertUserRoleToStore requested else RoleUser)"

text \<open>What is decided before anything is written: the user of the request and its role.\<close>

definition admit_by :: "api_env \<Rightarrow> user option \<Rightarrow> create_user_request \<Rightarrow> accounts \<Rightarrow> (api_user \<times> string) reply" where
  "admit_by P current req w =
     and_then (map_err (status_of Internal ''failed to list users'')
         (store_ListUsers (acc_of P) (find_any_user\<lparr>fu_Limit := Some 1\<rparr>) w)) (\<lambda>allUsers w.
     let isFirstUser = (allUsers = []) in
     and_then (if isFirstUser then (Inr (), w) else may_register P current w) (\<lambda>_ w.
     case cu_User req of
       None \<Rightarrow> (Inl nil_dereference, w)
     | Some ru \<Rightarrow>
         if \<not> valid_username (pu_Username ru)
         then (Inl (Status InvalidArgument (''invalid username: '' @ pu_Username ru)), w)
         else (Inr (ru, roleToAssign isFirstUser current (pu_Role ru)), w)))"

definition admit_user :: "api_env \<Rightarrow> ctx \<Rightarrow> create_user_request \<Rightarrow> accounts \<Rightarrow> (api_user \<times> string) reply" where
  "admit_user P c req w = (let (current, w) = maybe_user P c w in admit_by P current req w)"

definition insert_user :: "api_env \<Rightarrow> api_user \<Rightarrow> string \<Rightarrow> accounts \<Rightarrow> api_user reply" where
  "insert_user P ru role w =
     and_then (map_err (status_of Internal ''failed to generate password hash'')
         (ask (\<lambda>k. ap_hash_password P k (pu_Password ru)) w)) (\<lambda>h w.
     and_then (map_err (status_of Internal ''failed to create user'')
         (store_CreateUser (acc_of P) (blank_user\<lparr>user_Username := pu_Username ru, user_Role := role,
            user_Email := pu_Email ru, user_Nickname := pu_DisplayName ru, user_PasswordHash := h\<rparr>) w)) (\<lambda>u w.
     (Inr (convertUserFromStore u), w)))"

definition CreateUser :: "user_env \<Rightarrow> ctx \<Rightarrow> create_user_request \<Rightarrow> accounts \<Rightarrow> api_user reply" where
  "CreateUser U c req w =
     and_then (admit_user (ue_api U) c req w) (\<lambda>(ru, role) w.
     if cu_ValidateOnly req
     then (Inr (empty_api_user\<lparr>pu_Username := pu_Username ru, pu_Email := pu_Email ru,
            pu_DisplayName := pu_DisplayName ru, pu_Role := convertUserRoleFromStore role\<rparr>), w)
     else insert_user (ue_api U) ru role w)"

subsection \<open>Changing\<close>

record update_user_request =
  uq_User :: "api_user option"
  uq_UpdateMask :: "string list"   \<comment> \<open>empty: no mask, or a mask without paths\<close>
  uq_AllowMissing :: bool

definition no_update :: "int \<Rightarrow> update_user" where
  "no_update i = \<lparr>uu_ID = i, uu_UpdatedTs = None, uu_RowStatus = None, uu_Username = None, uu_Role = None,
     uu_Email = None, uu_Nickname = None, uu_AvatarURL = None, uu_PasswordHash = None, uu_Description = None\<rparr>"

definition allowedAvatarTypes :: "string list" where
  "allowedAvatarTypes = [''image/png'', ''image/jpeg'', ''image/jpg'', ''image/gif'', ''image/webp'']"

definition check_avatar :: "string \<Rightarrow> api_error option" where
  "check_avatar url =
     (if url = [] then None
      else case extractImageInfo url of
        Inl e \<Rightarrow> Some (status_of InvalidArgument ''invalid avatar format'' e)
      | Inr (imageType, _) \<Rightarrow>
          if imageType \<in> set allowedAvatarTypes then None
          else Some (Status InvalidArgument (''invalid avatar image type: '' @ imageType @
                 ''. Only PNG, JPEG, GIF, and WebP are allowed'')))"

text \<open>One path of the mask.\<close>

definition update_user_field ::
  "api_env \<Rightarrow> general_setting \<Rightarrow> user \<Rightarrow> api_user \<Rightarrow> string \<Rightarrow> update_user \<Rightarrow> accounts \<Rightarrow> update_user reply" where
  "update_user_field P g current ru field up w =
     (if field = ''username'' then
        (if gs_DisallowChangeUsername g
         then (Inl (Status PermissionDenied ''permission denied: disallow change username''), w)
         else if \<not> valid_username (pu_Username ru)
         then (Inl (Status InvalidArgument (''invalid username: '' @ pu_Username ru)), w)
         else (Inr (up\<lparr>uu_Username := Some (pu_Username ru)\<rparr>), w))
      else if field = ''display_name'' then
        (if gs_DisallowChangeNickname g
         then (Inl (Status PermissionDenied ''permission denied: disallow change nickname''), w)
         else (Inr (up\<lparr>uu_Nickname := Some (pu_DisplayName ru)\<rparr>), w))
      else if field = ''email'' then (Inr (up\<lparr>uu_Email := Some (pu_Email ru)\<rparr>), w)
      else if field = ''avatar_url'' then
        (case check_avatar (pu_AvatarUrl ru) of
           Some e \<Rightarrow> (Inl e, w)
         | None \<Rightarrow> (Inr (up\<lparr>uu_AvatarURL := Some (pu_AvatarUrl ru)\<rparr>), w))
      else if field = ''description'' then (Inr (up\<lparr>uu_Description := Some (pu_Description ru)\<rparr>), w)
      else if field = ''role'' then
        (if user_Role current \<noteq> RoleAdmin then (Inl permission_denied, w)
         else (Inr (up\<lparr>uu_Role := Some (convertUserRoleToStore (pu_Role ru))\<rparr>), w))
      else if field = ''password'' then
        and_then (map_err (status_of Internal ''failed to generate password hash'')
            (ask (\<lambda>k. ap_hash_password P k (pu_Password ru)) w)) (\<lambda>h w.
          (Inr (up\<lparr>uu_PasswordHash := Some h\<rparr>), w))
      else if field = ''state'' then
        (Inr (up\<lparr>uu_RowStatus := Some (convertStateToStore (pu_State ru))\<rparr>), w)
      else (Inl (Status InvalidArgument (''invalid update path: '' @ field)), w))"

fun update_user_fields ::
  "api_env \<Rightarrow> general_setting \<Rightarrow> user \<Rightarrow> api_user \<Rightarrow> string list \<Rightarrow> update_user \<Rightarrow> accounts \<Rightarrow> update_user reply" where
  "update_user_fields P g current ru [] up w = (Inr up, w)"
| "update_user_fields P g current ru (f # fs) up w =
     and_then (update_user_field P g current ru f up w) (\<lambda>up w. update_user_fields P g current ru fs up w)"

definition found_user :: "api_env \<Rightarrow> int \<Rightarrow> accounts \<Rightarrow> user reply" where
  "found_user P i w =
     and_then (map_err (status_of Internal ''failed to get user'') (store_GetUser (acc_of P) (user_with_id i) w)) (\<lambda>u w.
     case u of None \<Rightarrow> (Inl (Status NotFound ''user not found''), w) | Some u \<Rightarrow> (Inr u, w))"

definition change_user :: "api_env \<Rightarrow> user \<Rightarrow> api_user \<Rightarrow> string list \<Rightarrow> user \<Rightarrow> accounts \<Rightarrow> api_user reply" where
  "change_user P current ru paths u w =
     (let (now, w) = ask (ae_now (acc_of P)) w in
      and_then (map_err (status_of Internal ''failed to get instance general setting'')
          (GetInstanceGeneralSetting P w)) (\<lambda>g w.
      and_then (update_user_fields P g current ru paths
          ((no_update (user_ID u))\<lparr>uu_UpdatedTs := Some (unix now)\<rparr>) w) (\<lambda>up w.
      and_then (map_err (status_of Internal ''failed to update user'') (store_UpdateUser (acc_of P) up w)) (\<lambda>v w.
      (Inr (convertUserFromStore v), w)))))"

definition UpdateUser :: "user_env \<Rightarrow> ctx \<Rightarrow> update_user_request \<Rightarrow> accounts \<Rightarrow> api_user reply" where
  "UpdateUser U c req w =
     (let P = ue_api U in
      if uq_UpdateMask req = [] then (Inl (Status InvalidArgument ''update mask is empty''), w)
      else case uq_User req of
        None \<Rightarrow> (Inl nil_dereference, w)
      | Some ru \<Rightarrow>
          and_then (argument ''invalid user name'' (ExtractUserIDFromName (pu_Name ru)) w) (\<lambda>userID w.
          and_then (require_self_or_admin P ''failed to get user'' userID c w) (\<lambda>current w.
          and_then (found_user P userID w) (\<lambda>u w.
          change_user P current ru (uq_UpdateMask req) u w))))"

text \<open>The reply lists the users whose knowledge base the RAGFlow runner is told to clean up.\<close>

definition DeleteUser :: "user_env \<Rightarrow> ctx \<Rightarrow> string \<Rightarrow> accounts \<Rightarrow> int list reply" where
  "DeleteUser U c name w =
     (let P = ue_api U in
      and_then (argument ''invalid user name'' (ExtractUserIDFromName name) w) (\<lambda>userID w.
      and_then (require_self_or_admin P ''failed to get user'' userID c w) (\<lambda>current w.
      and_then (found_user P userID w) (\<lambda>u w.
      and_then (map_err (status_of Internal ''failed to delete user'')
          (store_DeleteUser (acc_of P) (user_ID u) w)) (\<lambda>_ w.
      (Inr (if ue_runner U then [userID] else []), w))))))"

subsection \<open>Rows that requests leave behind\<close>

definition admins :: "accounts \<Rightarrow> int set" where
  "admins w = {user_ID u | u. u \<in> set (ac_users w) \<and> user_Role u = RoleAdmin}"

text \<open>The requester of \<open>c\<close> is an administrator.\<close>

definition asked_by_admin :: "ctx \<Rightarrow> accounts \<Rightarrow> bool" where
  "asked_by_admin c w \<longleftrightarrow> GetUserID c \<in> admins w"

end
