(* ===== verification/UserRoles.thy ===== *)
theory UserRoles
  imports UserApi
begin

section \<open>Who can make an administrator\<close>

text \<open>
  Most calls leave the rows of the user table alone (\<open>same_rows\<close>). The four that write them
  are followed row by row: only the very first user, or an administrator, changes the set of administrators.
\<close>

named_theorems rows_intros \<open>calls that do not write the user table\<close>

definition same_rows :: "accounts \<Rightarrow> accounts \<Rightarrow> bool" where
  "same_rows w v \<longleftrightarrow> ac_users v = ac_users w \<and> ac_next_id v = ac_next_id w"

lemma same_rows_simps [simp]:
  "same_rows w w" "same_rows (tick_ac w) v = same_rows w v" "same_rows w (tick_ac v) = same_rows w v" "same_rows w (cache_user u v) = same_rows w v"
  "same_rows w (cache_setting s v) = same_rows w v"
  "same_rows w (v\<lparr>ac_user_cache := uc\<rparr>) = same_rows w v"
  "same_rows w (v\<lparr>ac_setting_cache := sc\<rparr>) = same_rows w v"
  "same_rows w (v\<lparr>ac_settings := ss\<rparr>) = same_rows w v"
  by (simp_all add: same_rows_def tick_ac_def cache_user_def cache_setting_def)

lemma same_rows_fold [simp]:
  "same_rows w (fold cache_user us v) = same_rows w v"
  "same_rows w (fold cache_setting ss v) = same_rows w v"
  by (induction us arbitrary: v; simp) (induction ss arbitrary: v; simp)

lemma same_rows_trans: "same_rows u v \<Longrightarrow> same_rows v w \<Longrightarrow> same_rows u w"
  by (simp add: same_rows_def)

lemma rows_then [rows_intros]:
  assumes "same_rows w (snd m)" and "\<And>a s. m = (Inr a, s) \<Longrightarrow> same_rows s (snd (f a s))"
  shows "same_rows w (snd (and_then m f))"
proof (rule and_then_keeps [where P = "same_rows w"])
  show "same_rows w (snd (f a s))" if "m = (Inr a, s)" "same_rows w s" for a s
    using same_rows_trans [OF that(2) assms(2) [OF that(1)]] .
qed (rule assms(1))

lemma rows_db: "same_rows w (snd (f w)) \<Longrightarrow> same_rows w (snd (db_call E f w))"
  by (simp add: db_call_def split: option.splits)

lemma rows_list_users [rows_intros]: "same_rows w (snd (store_ListUsers E f w))"
  unfolding store_ListUsers_def sqlite_ListUsers_def
  by (rule rows_then) (auto simp: Let_def intro: rows_db)

lemma rows_list_one [rows_intros]: "same_rows w (snd (list_one_user E f w))"
  unfolding list_one_user_def
  by (rule rows_then) (auto intro: rows_intros split: list.splits)

lemma rows_get_user [rows_intros]: "same_rows w (snd (store_GetUser E f w))"
proof -
  have "same_rows w u" if "cached_user E i w = (r, u)" for i r u
    using that by (auto simp: cached_user_def split: if_splits)
  then show ?thesis
    using rows_list_one same_rows_trans
    by (fastforce simp: store_GetUser_def split: option.splits prod.splits)
qed

lemma rows_only_setting: "same_rows w (snd (only_setting E f w))"
  unfolding only_setting_def store_ListUserSettings_def sqlite_ListUserSettings_def
  by (intro rows_then rows_db) (auto simp: Let_def split: list.splits)

lemma rows_get_setting [rows_intros]: "same_rows w (snd (store_GetUserSetting E f w))"
proof -
  have "same_rows w u" if "cached_setting E k w = (r, u)" for k r u
    using that by (auto simp: cached_setting_def split: if_splits)
  then show ?thesis
    using rows_only_setting same_rows_trans
    by (fastforce simp: store_GetUserSetting_def split: option.splits prod.splits)
qed

lemma rows_save_setting [rows_intros]: "same_rows w (snd (save_setting E i k v w))"
  unfolding save_setting_def store_UpsertUserSetting_def sqlite_UpsertUserSetting_def
  by (intro rows_then rows_db) (auto split: option.splits)

lemma rows_tokens [rows_intros]:
  "same_rows w (snd (GetUserRefreshTokens E i w))"
  "same_rows w (snd (AddUserRefreshToken E i t w))"
  "same_rows w (snd (RemoveUserRefreshToken E i tid w))"
  "same_rows w (snd (GetUserRefreshTokenByID E i tid w))"
  unfolding GetUserRefreshTokens_def AddUserRefreshToken_def RemoveUserRefreshToken_def
    GetUserRefreshTokenByID_def
  by (auto intro!: rows_intros)

lemma rows_ask [rows_intros, simp]: "same_rows w (snd (ask f w))"
  by (simp add: ask_def)

lemma rows_header [rows_intros]: "same_rows w (snd (SetResponseHeader P w))"
  by (simp add: SetResponseHeader_def ask_def split: option.splits)

lemma rows_access [rows_intros]: "same_rows w (snd (issue_access P u c w))"
  by (simp add: issue_access_def Let_def split: sum.splits)

lemma rows_finish: "same_rows w (snd (and_then (map_err g (SetResponseHeader P w)) (\<lambda>_ w. issue_access P u c w)))"
  by (auto intro!: rows_intros)

lemma rows_doSignIn [rows_intros]: "same_rows w (snd (doSignIn P md u w))"
proof -
  have "same_rows w (snd (and_then (map_err g (SetResponseHeader P (snd (AddUserRefreshToken (acc_of P) i t (tick_ac (tick_ac w))))))
      (\<lambda>_ w. issue_access P u c w)))" for g i t c
    by (rule same_rows_trans [OF _ rows_finish]) (use rows_tokens(2) [of "tick_ac (tick_ac w)"] in simp)
  then show ?thesis
    unfolding doSignIn_def ask_def Let_def prod.case by (auto split: sum.split)
qed

lemma rows_auth_refresh [rows_intros]: "same_rows w (snd (AuthenticateByRefreshToken A tok w))"
  unfolding AuthenticateByRefreshToken_def active_user_def
  by (auto intro!: rows_intros split: sum.splits option.splits)

lemma rows_RefreshToken: "same_rows w (snd (RefreshToken P md w))"
proof -
  have tail: "same_rows s (snd (and_then (map_err g (AddUserRefreshToken E i t (tick_ac (tick_ac s)))) (\<lambda>_ w.
     and_then (map_err h (SetResponseHeader P (snd (RemoveUserRefreshToken E i old w)))) (\<lambda>_ w.
     issue_access P u c w))))" for s g E i t h old u c
  proof (rule rows_then)
    show "same_rows s (snd (map_err g (AddUserRefreshToken E i t (tick_ac (tick_ac s)))))"
      using rows_tokens(2) [of "tick_ac (tick_ac s)"] by simp
    show "same_rows v (snd (and_then (map_err h (SetResponseHeader P (snd (RemoveUserRefreshToken E i old v)))) (\<lambda>_ w.
        issue_access P u c w)))" for v
      using same_rows_trans [OF rows_tokens(3) rows_finish] .
  qed
  show ?thesis
    unfolding RefreshToken_def ask_def Let_def prod.case
    by (auto intro!: rows_then rows_auth_refresh tail split: sum.split prod.splits)
qed

lemma rows_clear: "same_rows w (snd (clearAuthCookies P md w))"
  unfolding clearAuthCookies_def Let_def by (auto intro!: rows_intros)

lemma rows_SignOut: "same_rows w (snd (SignOut P md c w))"
  unfolding SignOut_def Let_def
  by (auto simp: rows_clear intro: same_rows_trans [OF rows_tokens(3) rows_clear] split: option.split sum.split)

lemma rows_fetch [rows_intros]: "same_rows w (snd (fetchCurrentUser P c w))"
  unfolding fetchCurrentUser_def Let_def by (auto intro!: rows_intros split: option.splits)

lemma rows_who [rows_intros]:
  "same_rows w (snd (require_user P msg c w))" "same_rows w (snd (maybe_user P c w))"
  "same_rows w (snd (require_self_or_admin P msg i c w))" "same_rows w (snd (found_user P i w))"
  "same_rows w (snd (argument msg r w))"
proof -
  show req: "same_rows w (snd (require_user P msg c w))" for w
    unfolding require_user_def by (auto intro!: rows_intros split: option.splits)
  show "same_rows w (snd (maybe_user P c w))"
    using rows_fetch [of w P c] by (auto simp: maybe_user_def split: prod.splits sum.splits)
  show "same_rows w (snd (require_self_or_admin P msg i c w))"
    unfolding require_self_or_admin_def by (auto intro!: rows_then req)
  show "same_rows w (snd (found_user P i w))"
    unfolding found_user_def by (auto intro!: rows_intros split: option.splits)
  show "same_rows w (snd (argument msg r w))"
    by (simp add: argument_def split: sum.splits)
qed


lemma inv_fetch: "user_inv w \<Longrightarrow> user_inv (snd (fetchCurrentUser P c w))"
  unfolding fetchCurrentUser_def Let_def
  by (auto intro!: and_then_keeps [where P = user_inv] user_inv_get split: option.splits)

text \<open>The current user is the row with the id of the request.\<close>

lemma current_row:
  assumes "user_inv w" "ids_small w" "fetchCurrentUser P c w = (Inr (Some u), v)"
  shows "u \<in> set (ac_users w) \<and> user_ID u = GetUserID c"
proof -
  from assms(3) have i: "GetUserID c \<noteq> 0" and "store_GetUser (acc_of P) (user_with_id (GetUserID c)) w = (Inr (Some u), v)"
    by (auto simp: fetchCurrentUser_def Let_def and_then_Inr split: if_splits option.splits)
  then have "find (\<lambda>u. user_ID u = GetUserID c) (ac_users w) = Some u"
    using get_user_row [OF assms(1), of "acc_of P" "GetUserID c"] assms(2) by (simp add: ids_small_def)
  then show ?thesis by (auto simp: find_Some_iff)
qed

lemma current_not_admin:
  assumes "user_inv w" "ids_small w" "fetchCurrentUser P c w = (Inr (Some u), v)" "\<not> asked_by_admin c w"
  shows "user_Role u \<noteq> RoleAdmin"
  using current_row [OF assms(1-3)] assms(4) by (auto simp: asked_by_admin_def admins_def)

lemma self_or_admin:
  assumes "user_inv w" "ids_small w" "require_self_or_admin P msg i c w = (Inr u, v)" "\<not> asked_by_admin c w"
  shows "user_Role u \<noteq> RoleAdmin \<and> i = GetUserID c \<and> user_inv v \<and> ids_small v"
proof -
  from assms(3) have f: "fetchCurrentUser P c w = (Inr (Some u), v)" and *: "user_ID u = i \<or> user_Role u = RoleAdmin"
    by (auto simp: require_self_or_admin_def require_user_def and_then_Inr split: if_splits option.splits)
  moreover have "ids_small v" using rows_fetch [of w P c] f assms(2) by (simp add: same_rows_def ids_small_def)
  ultimately show ?thesis
    using current_row [OF assms(1,2) f] current_not_admin [OF assms(1,2) f assms(4)] inv_fetch [OF assms(1), of P c] by auto
qed

subsection \<open>The four writes\<close>

lemma admins_same: "same_rows w v \<Longrightarrow> admins v = admins w"
  by (simp add: same_rows_def admins_def)

lemma admins_then:
  assumes "same_rows w (snd m)" and "\<And>a s. m = (Inr a, s) \<Longrightarrow> same_rows w s \<Longrightarrow> admins (snd (f a s)) = admins w"
  shows "admins (snd (and_then m f)) = admins w"
proof (cases m)
  case (Pair r s)
  with assms show ?thesis by (cases r) (auto simp: admins_same)
qed

lemma admins_roles: "admins w = {i. (i, RoleAdmin) \<in> set (map (\<lambda>u. (user_ID u, user_Role u)) (ac_users w))}"
  by (auto simp: admins_def image_iff)

lemma admins_update:
  assumes "uu_Role up = None" "distinct (map user_ID (ac_users w))"
  shows "admins (snd (store_UpdateUser E up w)) = admins w"
proof (cases "sqlite_UpdateUser E up w")
  case (Pair r v)
  show ?thesis
  proof (cases r)
    case (Inl e)
    then have "v = tick_ac w"
      using Pair by (auto simp: sqlite_UpdateUser_def db_call_def Let_def split: option.splits if_splits)
    then show ?thesis using Inl Pair by (simp add: store_UpdateUser_def admins_def tick_ac_def)
  next
    case (Inr n)
    then obtain u where u: "find (\<lambda>u. user_ID u = uu_ID up) (ac_users w) = Some u"
      and n: "n = set_user_columns up u"
      and v: "v = tick_ac (w\<lparr>ac_users := map (\<lambda>x. if user_ID x = uu_ID up then n else x) (ac_users w)\<rparr>)"
      using Pair
      by (auto simp: sqlite_UpdateUser_def Let_def dest!: db_call_Inr split: option.splits if_splits)
    have same: "user_ID n = user_ID u" "user_Role n = user_Role u"
      using n assms(1) by (simp_all add: set_user_columns_def or_else_def)
    have u': "u \<in> set (ac_users w)" "user_ID u = uu_ID up" using u by (auto simp: find_Some_iff)
    have only: "x = u" if "x \<in> set (ac_users w)" "user_ID x = uu_ID up" for x
      using that u' assms(2) by (auto simp: distinct_map inj_on_def)
    have "(\<lambda>x. (user_ID x, user_Role x)) (if user_ID x = uu_ID up then n else x) = (user_ID x, user_Role x)"
      if "x \<in> set (ac_users w)" for x
      using same only [OF that] by auto
    then have "map (\<lambda>x. (user_ID x, user_Role x)) (ac_users v) = map (\<lambda>x. (user_ID x, user_Role x)) (ac_users w)"
      unfolding v by (simp add: tick_ac_def)
    then have "admins v = admins w" by (simp add: admins_roles)
    then show ?thesis using Inr Pair by (simp add: store_UpdateUser_def admins_def cache_user_def)
  qed
qed

lemma admins_delete: "i \<notin> admins w \<Longrightarrow> admins (snd (store_DeleteUser E i w)) = admins w"
  by (auto simp: store_DeleteUser_def sqlite_DeleteUser_def db_call_def admins_def tick_ac_def split: option.splits)

lemma admins_create:
  assumes "user_Role c \<noteq> RoleAdmin"
  shows "admins (snd (store_CreateUser E c w)) = admins w"
  using assms
  by (auto simp: store_CreateUser_def sqlite_CreateUser_def db_call_def admins_def tick_ac_def cache_user_def Let_def
      split: option.splits)

text \<open>A user that is no administrator never gets a role into an update.\<close>

lemma fields_of_user:
  assumes "user_Role current \<noteq> RoleAdmin"
  shows "update_user_fields P g current ru fs up w = (Inr up', v) \<Longrightarrow> uu_Role up' = uu_Role up \<and> uu_ID up' = uu_ID up"
  using assms
  by (induction P g current ru fs up w arbitrary: v rule: update_user_fields.induct)
    (fastforce simp: update_user_field_def and_then_Inr split: if_splits option.splits)+

lemma rows_fields: "same_rows w (snd (update_user_fields P g current ru fs up w))"
proof (induction P g current ru fs up w rule: update_user_fields.induct)
  case (2 P g current ru f fs up w)
  have "same_rows w (snd (update_user_field P g current ru f up w))"
    by (auto simp: update_user_field_def intro!: rows_then split: option.splits)
  with 2 show ?case by (auto intro!: rows_then)
qed simp

lemma admins_last:
  "admins (snd m) = A \<Longrightarrow> admins (snd (and_then (map_err g m) (\<lambda>a w. (Inr (f a), w)))) = A"
  by (cases m; cases "fst m") auto

lemma admins_change:
  assumes "user_Role current \<noteq> RoleAdmin" "same_rows w s" "distinct (map user_ID (ac_users w))"
  shows "admins (snd (change_user P current ru paths u s)) = admins w"
  unfolding change_user_def ask_def Let_def prod.case GetInstanceGeneralSetting_def
proof (intro admins_last admins_then)
  fix g s1 up s2
  assume run: "update_user_fields P g current ru paths
      ((no_update (user_ID u))\<lparr>uu_UpdatedTs := Some (unix (ae_now (acc_of P) (ac_tick s)))\<rparr>) s1 = (Inr up, s2)"
    and s2: "same_rows w s2"
  have "uu_Role up = None" using fields_of_user [OF assms(1) run] by (simp add: no_update_def)
  moreover have "distinct (map user_ID (ac_users s2))" using s2 assms(3) by (simp add: same_rows_def)
  ultimately show "admins (snd (store_UpdateUser (acc_of P) up s2)) = admins w"
    using admins_update admins_same [OF s2] by simp
qed (use assms(2) same_rows_trans [OF _ rows_fields] in simp_all)

lemma admins_UpdateUser:
  assumes "user_inv w" "ids_small w" "\<not> asked_by_admin c w"
  shows "admins (snd (UpdateUser U c req w)) = admins w"
proof -
  have dist: "distinct (map user_ID (ac_users w))" using assms(1) by (simp add: user_inv_def users_ok_def)
  have "admins (snd (and_then (require_self_or_admin P msg i c w) (\<lambda>current w. and_then (found_user P i w) (\<lambda>u w.
      change_user P current ru paths u w)))) = admins w" for P msg i ru paths
  proof (intro admins_then rows_who)
    fix current s u s1
    assume who: "require_self_or_admin P msg i c w = (Inr current, s)" and s1: "same_rows w s1"
    from self_or_admin [OF assms(1,2) who assms(3)] have "user_Role current \<noteq> RoleAdmin" by simp
    then show "admins (snd (change_user P current ru paths u s1)) = admins w"
      by (rule admins_change [OF _ s1 dist])
  qed (use same_rows_trans [OF _ rows_who(4)] in blast)
  then show ?thesis
    unfolding UpdateUser_def Let_def by (auto simp: argument_def split: option.split sum.split)
qed


lemma admins_DeleteUser:
  assumes "user_inv w" "ids_small w" "\<not> asked_by_admin c w"
  shows "admins (snd (DeleteUser U c name w)) = admins w"
proof -
  have "admins (snd (and_then (require_self_or_admin P msg i c w) (\<lambda>current w. and_then (found_user P i w) (\<lambda>u w.
      and_then (map_err g (store_DeleteUser (acc_of P) (user_ID u) w)) (\<lambda>_ w. (Inr notified, w)))))) = admins w"
    for P msg i g and notified :: "int list"
  proof (intro admins_last admins_then rows_who)
    fix current s u s1
    assume who: "require_self_or_admin P msg i c w = (Inr current, s)"
      and u: "found_user P i s = (Inr u, s1)" and s1: "same_rows w s1"
    note self = self_or_admin [OF assms(1,2) who assms(3)]
    have "store_GetUser (acc_of P) (user_with_id i) s = (Inr (Some u), s1)"
      using u by (auto simp: found_user_def and_then_Inr split: option.splits)
    then have "user_ID u = GetUserID c" using got_by_id [of s "acc_of P" i] self by (simp add: ids_small_def)
    then have "user_ID u \<notin> admins s1" using assms(3) admins_same [OF s1] by (simp add: asked_by_admin_def)
    then show "admins (snd (store_DeleteUser (acc_of P) (user_ID u) s1)) = admins w"
      using admins_delete admins_same [OF s1] by simp
  qed (use same_rows_trans [OF _ rows_who(4)] in blast)
  then show ?thesis
    unfolding DeleteUser_def Let_def by (auto simp: argument_def split: sum.split)
qed

lemma admins_insert:
  assumes "same_rows w s" "role \<noteq> RoleAdmin"
  shows "admins (snd (insert_user P ru role s)) = admins w"
  unfolding insert_user_def
proof (intro admins_last admins_then)
  fix h s1 assume "same_rows w s1"
  then show "admins (snd (store_CreateUser (acc_of P) (blank_user\<lparr>user_Username := pu_Username ru, user_Role := role,
      user_Email := pu_Email ru, user_Nickname := pu_DisplayName ru, user_PasswordHash := h\<rparr>) s1)) = admins w"
    using admins_create assms(2) admins_same by simp
qed (use assms(1) in \<open>simp add: ask_def\<close>)

lemma list_one_empty:
  assumes "store_ListUsers E (find_any_user\<lparr>fu_Limit := Some 1\<rparr>) w = (Inr [], v)"
  shows "ac_users w = []"
proof -
  have "sort_key user_order (filter (user_matches (find_any_user\<lparr>fu_Limit := Some 1\<rparr>)) (ac_users w)) = []"
    using assms
    by (auto simp: store_ListUsers_def sqlite_ListUsers_def and_then_Inr find_any_user_def Let_def dest!: db_call_Inr)
  then have "filter (user_matches (find_any_user\<lparr>fu_Limit := Some 1\<rparr>)) (ac_users w) = []"
    by (metis length_0_conv length_sort)
  moreover have "user_matches (find_any_user\<lparr>fu_Limit := Some 1\<rparr>) u" for u
    by (simp add: user_matches_def find_any_user_def)
  ultimately show ?thesis by simp
qed

text \<open>Once there is a user, only an administrator decides on a role.\<close>

lemma rows_register: "same_rows w (snd (may_register P u w))"
  by (auto simp: may_register_def GetInstanceGeneralSetting_def intro!: rows_then)

lemma rows_admit_by: "same_rows w (snd (admit_by P u req w))"
  unfolding admit_by_def Let_def
  by (auto intro!: rows_then rows_register rows_list_users split: option.split)

lemma admit_role:
  assumes "admit_by P u req w = (Inr (ru, role), v)" "ac_users w \<noteq> []"
    and "\<And>x. u = Some x \<Longrightarrow> user_Role x \<noteq> RoleAdmin"
  shows "role = RoleUser"
  using assms(1,3) list_one_empty [of _ w] assms(2)
  by (auto simp: admit_by_def Let_def and_then_Inr roleToAssign_def split: option.splits if_splits)

lemma admins_CreateUser:
  assumes "user_inv w" "ids_small w" "\<not> asked_by_admin c w" "admins w \<noteq> {}"
  shows "admins (snd (CreateUser U c req w)) = admins w"
proof -
  let ?P = "ue_api U"
  obtain u s where who: "maybe_user ?P c w = (u, s)" by fastforce
  then have s: "same_rows w s" using rows_who(2) [of w ?P c] by simp
  have u: "user_Role x \<noteq> RoleAdmin" if "u = Some x" for x
    using current_not_admin [OF assms(1,2) _ assms(3), of ?P x s] who that
    by (auto simp: maybe_user_def split: prod.splits sum.splits)
  have ne: "ac_users s \<noteq> []" using assms(4) s by (auto simp: same_rows_def admins_def)
  have "admins (snd (CreateUser U c req w)) =
      admins (snd (and_then (admit_by ?P u req s) (\<lambda>(ru, role) w.
        if cu_ValidateOnly req
        then (Inr (empty_api_user\<lparr>pu_Username := pu_Username ru, pu_Email := pu_Email ru,
               pu_DisplayName := pu_DisplayName ru, pu_Role := convertUserRoleFromStore role\<rparr>), w)
        else insert_user ?P ru role w)))"
    by (simp add: CreateUser_def admit_user_def who)
  also have "\<dots> = admins w"
  proof (rule admins_then)
    show "same_rows w (snd (admit_by ?P u req s))" using same_rows_trans [OF s rows_admit_by] .
    fix a s1 assume run: "admit_by ?P u req s = (Inr a, s1)" and s1: "same_rows w s1"
    obtain ru role where a: "a = (ru, role)" by fastforce
    have "role \<noteq> RoleAdmin" using admit_role [OF run [unfolded a] ne u] by (simp add: RoleUser_def RoleAdmin_def)
    then show "admins (snd ((case a of (ru, role) \<Rightarrow> \<lambda>w.
        if cu_ValidateOnly req
        then (Inr (empty_api_user\<lparr>pu_Username := pu_Username ru, pu_Email := pu_Email ru,
               pu_DisplayName := pu_DisplayName ru, pu_Role := convertUserRoleFromStore role\<rparr>), w)
        else insert_user ?P ru role w) s1)) = admins w"
      using admins_insert [OF s1] admins_same [OF s1] by (simp add: a)
  qed
  finally show ?thesis .
qed

subsection \<open>Signing in\<close>

lemma rows_password_user: "same_rows w (snd (password_user P n pw w))"
  unfolding password_user_def GetInstanceGeneralSetting_def
  by (auto intro!: rows_intros split: option.splits)

lemma rows_sso_parts:
  "same_rows w (snd (sso_user_info P idp c w))" "same_rows w (snd (identifier_allowed P pat info w))"
  by (auto simp: sso_user_info_def identifier_allowed_def intro!: rows_intros
      split: idp_type.splits sum.splits option.splits)

lemma admins_sso_create: "admins (snd (create_sso_user P i w)) = admins w"
proof -
  have draw: "ask (ap_random P) w = (ap_random P (ac_tick w), tick_ac w)" by (simp add: ask_def)
  show ?thesis
  proof (cases "RandomString 20 (ap_random P (ac_tick w))")
    case None
    then show ?thesis by (simp add: create_sso_user_def draw admins_same)
  next
    case (Some password)
    show ?thesis
      unfolding create_sso_user_def draw Let_def prod.case Some option.case
    proof (rule admins_then)
      fix h s assume "same_rows w s"
      then show "admins (snd (map_err (status_of Internal ''failed to create user, error'')
          (store_CreateUser (acc_of P) (blank_user\<lparr>user_Username := ui_Identifier i,
             user_Role := RoleUser, user_Nickname := ui_DisplayName i, user_Email := ui_Email i,
             user_AvatarURL := ui_AvatarURL i, user_PasswordHash := h\<rparr>) s))) = admins w"
        using admins_create admins_same by (simp add: RoleUser_def RoleAdmin_def)
    qed (simp add: ask_def)
  qed
qed

definition keeps_admins :: "accounts \<Rightarrow> accounts \<Rightarrow> bool" where
  "keeps_admins w v \<longleftrightarrow> admins v = admins w"

lemma kept_rows: "same_rows w v \<Longrightarrow> keeps_admins w v"
  by (simp add: keeps_admins_def admins_same)

lemma kept_then:
  assumes "keeps_admins w (snd m)" and "\<And>a s. m = (Inr a, s) \<Longrightarrow> keeps_admins s (snd (f a s))"
  shows "keeps_admins w (snd (and_then m f))"
  by (rule and_then_keeps [where P = "keeps_admins w"]) (use assms in \<open>auto simp: keeps_admins_def\<close>)

lemma kept_sign_up: "keeps_admins w (snd (sign_up_sso P i w))"
  unfolding sign_up_sso_def GetInstanceGeneralSetting_def
  by (rule kept_then) (simp_all add: kept_rows, simp add: keeps_admins_def admins_sso_create)

lemma admins_sso_user: "admins (snd (sso_user P idp c w)) = admins w"
proof -
  have "keeps_admins w (snd (sso_user P idp c w))"
    unfolding sso_user_def
    by (auto intro!: kept_then kept_sign_up kept_rows [OF rows_sso_parts(1)] kept_rows [OF rows_sso_parts(2)]
        kept_rows [OF rows_get_user] simp: kept_rows split: option.split)
  then show ?thesis by (simp add: keeps_admins_def)
qed

lemma admins_SignIn: "admins (snd (SignIn P md creds w)) = admins w"
proof -
  have tail: "admins (snd (if user_RowStatus u = RowArchived
       then (Inl (Status PermissionDenied (''user has been archived with username '' @ user_Username u)), s)
       else and_then (map_err (rewrap Internal ''failed to sign in'') (doSignIn P md u s)) (\<lambda>x w. (Inr (u, x), w)))) = admins s"
    for u s
    by (simp add: admins_last [OF admins_same [OF rows_doSignIn]])
  have "admins (snd (and_then m (\<lambda>u w. if user_RowStatus u = RowArchived
       then (Inl (Status PermissionDenied (''user has been archived with username '' @ user_Username u)), w)
       else and_then (map_err (rewrap Internal ''failed to sign in'') (doSignIn P md u w)) (\<lambda>x w. (Inr (u, x), w))))) = admins (snd m)"
    for m :: "user reply"
    using tail by (cases m; cases "fst m") auto
  then show ?thesis
    unfolding SignIn_def
    by (simp add: admins_sso_user admins_same [OF rows_password_user] split: credentials.split)
qed

subsection \<open>Every sequence of requests\<close>

text \<open>Requests keep the sessions in order, too: they touch no settings and keep the users well-formed.\<close>

definition user_move :: "accounts \<Rightarrow> accounts \<Rightarrow> bool" where
  "user_move w v \<longleftrightarrow> same_settings w v \<and> later w v \<and> (user_inv w \<longrightarrow> user_inv v)"

named_theorems move_intros \<open>requests of the user service\<close>

lemma move_refl [simp]: "user_move w w"
  by (simp add: user_move_def)

lemma move_trans: "user_move u v \<Longrightarrow> user_move v w \<Longrightarrow> user_move u w"
  unfolding user_move_def using same_settings_trans later_trans by blast

lemma move_then [move_intros]:
  assumes "user_move w (snd m)" and "\<And>a s. m = (Inr a, s) \<Longrightarrow> user_move s (snd (f a s))"
  shows "user_move w (snd (and_then m f))"
proof (rule and_then_keeps [where P = "user_move w"])
  show "user_move w (snd (f a s))" if "m = (Inr a, s)" "user_move w s" for a s
    using move_trans [OF that(2) assms(2) [OF that(1)]] .
qed (rule assms(1))

lemma move_store [move_intros]:
  "user_move w (snd (store_ListUsers E f w))" "user_move w (snd (store_GetUser E f w))"
  "user_move w (snd (store_CreateUser E cu w))" "user_move w (snd (store_UpdateUser E up w))"
  "user_move w (snd (store_DeleteUser E i w))"
  by (simp_all add: user_move_def same_settings_list same_settings_get same_settings_create same_settings_update
      same_settings_delete later_intros inv_intros)

lemma move_tick [simp]: "user_move w (tick_ac w)"
  by (simp add: user_move_def same_settings_def tick_ac_def later_def user_inv_def users_ok_def)

lemma move_ask [simp]: "user_move w (snd (ask f w))"
  by (simp add: ask_def)

lemma move_fetch [move_intros]: "user_move w (snd (fetchCurrentUser P c w))"
  unfolding fetchCurrentUser_def Let_def by (auto intro!: move_intros split: option.splits)

lemma move_who [move_intros]:
  "user_move w (snd (require_user P msg c w))" "user_move w (snd (maybe_user P c w))"
  "user_move w (snd (require_self_or_admin P msg i c w))" "user_move w (snd (found_user P i w))"
  "user_move w (snd (argument msg r w))"
proof -
  show req: "user_move w (snd (require_user P msg c w))" for w
    unfolding require_user_def by (auto intro!: move_intros split: option.splits)
  show "user_move w (snd (maybe_user P c w))"
    using move_fetch [of w P c] by (auto simp: maybe_user_def split: prod.splits sum.splits)
  show "user_move w (snd (require_self_or_admin P msg i c w))"
    unfolding require_self_or_admin_def by (auto intro!: move_then req)
  show "user_move w (snd (found_user P i w))"
    unfolding found_user_def by (auto intro!: move_intros split: option.splits)
  show "user_move w (snd (argument msg r w))"
    by (simp add: argument_def split: sum.splits)
qed

lemma move_admit: "user_move w (snd (admit_by P u req w))"
  unfolding admit_by_def Let_def may_register_def GetInstanceGeneralSetting_def
  by (auto intro!: move_then move_store split: option.split)

lemma move_insert: "user_move w (snd (insert_user P ru role w))"
  unfolding insert_user_def by (auto intro!: move_then move_store)

lemma move_CreateUser: "user_move w (snd (CreateUser U c req w))"
proof -
  have "user_move w (snd (admit_user (ue_api U) c req w))"
    using move_trans [OF move_who(2) [of w "ue_api U" c] move_admit]
    by (simp add: admit_user_def Let_def split_def)
  then show ?thesis unfolding CreateUser_def by (auto intro!: move_then move_insert split: prod.splits)
qed

lemma move_fields: "user_move w (snd (update_user_fields P g current ru fs up w))"
proof (induction P g current ru fs up w rule: update_user_fields.induct)
  case (2 P g current ru f fs up w)
  have "user_move w (snd (update_user_field P g current ru f up w))"
    by (auto simp: update_user_field_def intro!: move_then split: option.splits)
  with 2 show ?case by (auto intro!: move_then)
qed simp

lemma move_UpdateUser: "user_move w (snd (UpdateUser U c req w))"
proof -
  have "user_move s (snd (change_user P current ru paths u s))" for P current ru paths u s
    unfolding change_user_def ask_def Let_def prod.case GetInstanceGeneralSetting_def
    by (rule move_trans [OF move_tick]) (auto intro!: move_then move_store move_fields)
  then show ?thesis
    unfolding UpdateUser_def Let_def by (auto intro!: move_intros split: option.split)
qed

lemma move_others:
  "user_move w (snd (ListUsers U c f w))" "user_move w (snd (GetUser U name w))"
  "user_move w (snd (DeleteUser U c name w))"
  unfolding ListUsers_def GetUser_def DeleteUser_def Let_def
  by (auto intro!: move_intros split: option.split)

lemma good_move: "user_move w v \<Longrightarrow> good P w v"
  by (auto simp: user_move_def intro: good_users)

text \<open>A request with its context, on behalf of somebody who is no administrator.\<close>

inductive user_request :: "user_env \<Rightarrow> accounts \<Rightarrow> accounts \<Rightarrow> bool" for U where
  lists: "user_request U w (snd (ListUsers U c f w))"
| reads: "user_request U w (snd (GetUser U name w))"
| creates: "\<not> asked_by_admin c w \<Longrightarrow> user_request U w (snd (CreateUser U c req w))"
| updates: "\<not> asked_by_admin c w \<Longrightarrow> user_request U w (snd (UpdateUser U c upd w))"
| deletes: "\<not> asked_by_admin c w \<Longrightarrow> user_request U w (snd (DeleteUser U c name w))"
| signs_in: "user_request U w (snd (SignIn (ue_api U) md creds w))"
| refreshes: "user_request U w (snd (RefreshToken (ue_api U) md w))"
| signs_out: "(\<And>claims. GetUserClaims c = Some claims \<Longrightarrow> in_int32 (uc_UserID claims)) \<Longrightarrow>
    user_request U w (snd (SignOut (ue_api U) md c w))"

lemma moved: "user_move w v \<Longrightarrow> later w v \<and> good P w v"
  using good_move by (auto simp: user_move_def)

lemma request_moves: "user_request U w v \<Longrightarrow> later w v \<and> good (ue_api U) w v"
  by (erule user_request.cases; simp only:)
    (simp_all add: moved move_others move_CreateUser move_UpdateUser later_SignIn good_SignIn
      later_RefreshToken good_RefreshToken later_SignOut good_SignOut)

lemma request_admins:
  assumes "user_request U w v" "user_inv w" "ids_small w" "admins w \<noteq> {}"
  shows "admins v = admins w"
proof -
  have "same_rows w (snd (ListUsers U c f w))" "same_rows w (snd (GetUser U name w))" for c f name
    unfolding ListUsers_def GetUser_def Let_def by (auto intro!: rows_intros split: option.split)
  note same = admins_same [OF this(1)] admins_same [OF this(2)]
  show ?thesis
    using assms(1)
    by (cases; simp only: simp_thms same admins_SignIn admins_same [OF rows_RefreshToken] admins_same [OF rows_SignOut]
        admins_CreateUser [OF assms(2,3) _ assms(4)] admins_UpdateUser [OF assms(2,3)] admins_DeleteUser [OF assms(2,3)])
qed

text \<open>
  C31. Nobody but an administrator makes or unmakes an administrator: once the instance has an
  administrator, and as long as user ids stay below 55296 (the lemma \<open>user_cache_confuses_users\<close>
  shows what happens from there on), the set of administrators is the same after any sequence of
  sign-ins, token exchanges, sign-outs and requests to list, read, create, change or delete users,
  when no request comes from an administrator.
\<close>

theorem only_admins_change_admins:
  assumes "(user_request U)\<^sup>*\<^sup>* w v" "sess_ok (ue_api U) w" "admins w \<noteq> {}" "ac_next_id v \<le> 55296"
  shows "admins v = admins w"
  using assms(1,4)
proof (induction rule: rtranclp_induct)
  case (step u v)
  have "later u v" using request_moves [OF step(2)] by simp
  then have small: "ids_small u" using step(4) by (simp add: later_def ids_small_def)
  then have same: "admins u = admins w" using step(3) by (simp add: ids_small_def)
  have "later w u \<and> good (ue_api U) w u"
    using step(1)
  proof (induction rule: rtranclp_induct)
    case (step x y)
    then show ?case using request_moves [OF step(2)] good_trans later_trans by blast
  qed simp
  then have "user_inv u" using assms(2) small by (simp add: good_def sess_ok_def)
  then show ?case using request_admins [OF step(2) _ small] same assms(3) by simp
qed simp

end
