(* ===== verification/UserHazards.thy ===== *)
theory UserHazards
  imports UserRoles
begin

section \<open>Where the user service surprises\<close>

text \<open>
  Archived users, numeric user names, and two registrations at once; and concrete runs of the
  theorems on roles.
\<close>

subsection \<open>Calls that succeed\<close>

text \<open>The calls of this section meet no failing database; \<open>settled\<close> collects what they need.\<close>

definition settled :: "api_env \<Rightarrow> accounts \<Rightarrow> bool" where
  "settled P w \<longleftrightarrow> user_inv w \<and> ids_small w \<and> (\<forall>n. ae_db (acc_of P) n = None)"

lemma settled_found:
  assumes "settled P w" "find (\<lambda>u. user_ID u = i) (ac_users w) = Some u"
  shows "u \<in> set (ac_users w)" "user_ID u = i" "0 < i"
proof -
  show u: "u \<in> set (ac_users w)" "user_ID u = i" using assms(2) by (auto simp: find_Some_iff)
  then show "0 < i" using assms(1) by (auto simp: settled_def user_inv_def users_ok_def list_all_iff)
qed

lemma settled_get:
  assumes "settled P w" "find (\<lambda>u. user_ID u = i) (ac_users w) = Some u"
  obtains s where "store_GetUser (acc_of P) (user_with_id i) w = (Inr (Some u), s)" "same_rows w s" "settled P s"
proof -
  obtain r s where g: "store_GetUser (acc_of P) (user_with_id i) w = (r, s)" by fastforce
  note settled_found(3) [OF assms]
  with get_user_row [of w "acc_of P" i] assms g have "r = Inr (Some u)"
    by (auto simp: settled_def ids_small_def split: sum.splits)
  moreover have "same_rows w s" using rows_get_user [of w "acc_of P" "user_with_id i"] g by simp
  moreover have "user_inv s" using user_inv_get [of w "acc_of P" "user_with_id i"] assms(1) g by (simp add: settled_def)
  ultimately show ?thesis
    using that assms(1) g by (simp add: settled_def same_rows_def ids_small_def)
qed

lemma settled_fetch:
  assumes "settled P w" "find (\<lambda>u. user_ID u = GetUserID c) (ac_users w) = Some u"
  obtains s where "fetchCurrentUser P c w = (Inr (Some u), s)" "same_rows w s" "settled P s"
proof -
  have "GetUserID c \<noteq> 0"
    using settled_found(3) [OF assms] by simp
  moreover obtain s where "store_GetUser (acc_of P) (user_with_id (GetUserID c)) w = (Inr (Some u), s)"
    "same_rows w s" "settled P s"
    using settled_get [OF assms] .
  ultimately show ?thesis using that by (simp add: fetchCurrentUser_def)
qed

subsection \<open>Archived users\<close>

text \<open>
  C33. Archiving a user does not take hold while an access token lives: neither the interceptor (which
  trusts the claims) nor \<open>UpdateUser\<close> looks at the status, so an archived user can set its own
  state back to NORMAL.
\<close>

theorem archived_user_restores_itself:
  assumes "settled (ue_api U) w" "distinct (map user_Username (ac_users w))"
    and "\<And>n. ap_general (ue_api U) n = Inr g"
    and "find (\<lambda>u. user_ID u = GetUserID c) (ac_users w) = Some u" "user_RowStatus u = RowArchived"
    and "pu_Name ru = ''users/'' @ itoa (GetUserID c)" "pu_State ru \<noteq> State_ARCHIVED"
    and "uq_User req = Some ru" "uq_UpdateMask req = [''state'']"
  shows "\<exists>x v t. UpdateUser U c req w = (Inr x, v) \<and> pu_State x = State_NORMAL \<and>
    find (\<lambda>u. user_ID u = GetUserID c) (ac_users v) = Some (u\<lparr>user_RowStatus := RowNormal, user_UpdatedTs := t\<rparr>)"
proof -
  let ?P = "ue_api U" and ?i = "GetUserID c"
  have u: "u \<in> set (ac_users w)" "user_ID u = ?i" using assms(4) by (auto simp: find_Some_iff)
  then have "in_int32 ?i"
    using row_is_small [of w u] assms(1) by (auto simp: settled_def small_user_def)
  then have name: "ExtractUserIDFromName (pu_Name ru) = Inr ?i"
    using user_name_roundtrip assms(6) by (simp add: UserNamePrefix_def)
  obtain s1 where s1: "fetchCurrentUser ?P c w = (Inr (Some u), s1)" "same_rows w s1" "settled ?P s1"
    using settled_fetch [OF assms(1,4)] .
  obtain s2 where s2: "store_GetUser (acc_of ?P) (user_with_id ?i) s1 = (Inr (Some u), s2)" "same_rows s1 s2" "settled ?P s2"
    using settled_get [OF s1(3), of ?i u] s1(2) assms(4) by (auto simp: same_rows_def)
  define s3 where "s3 = tick_ac (tick_ac s2)"
  define t where "t = unix (ae_now (acc_of ?P) (ac_tick s2))"
  define up where "up = (no_update ?i)\<lparr>uu_UpdatedTs := Some t, uu_RowStatus := Some RowNormal\<rparr>"
  let ?v = "u\<lparr>user_RowStatus := RowNormal, user_UpdatedTs := t\<rparr>"
  have rows: "ac_users s3 = ac_users w" using s1(2) s2(2) by (simp add: s3_def same_rows_def tick_ac_def)
  have set_cols: "set_user_columns up u = ?v"
    by (simp add: up_def no_update_def set_user_columns_def or_else_def)
  have "user_Username u \<notin> user_Username ` set (filter (\<lambda>x. user_ID x \<noteq> ?i) (ac_users w))"
    using assms(2) u by (auto simp: distinct_map inj_on_def)
  moreover have "uu_ID up = ?i" "\<not> no_user_columns up"
    by (simp_all add: up_def no_update_def no_user_columns_def)
  ultimately have "sqlite_UpdateUser (acc_of ?P) up s3 =
      (Inr ?v, tick_ac (s3\<lparr>ac_users := map (\<lambda>x. if user_ID x = ?i then ?v else x) (ac_users w)\<rparr>))"
    using s2(3) rows assms(4) set_cols by (simp add: sqlite_UpdateUser_def db_call_def settled_def s3_def Let_def)
  then have upd: "store_UpdateUser (acc_of ?P) up s3 = (Inr ?v, cache_user ?v (tick_ac (s3\<lparr>ac_users :=
      map (\<lambda>x. if user_ID x = ?i then ?v else x) (ac_users w)\<rparr>)))" (is "_ = (_, ?end)")
    by (simp add: store_UpdateUser_def)
  have "change_user ?P u ru [''state''] u s2 = (Inr (convertUserFromStore ?v), ?end)"
    using upd assms(3,7) u(2)
    by (simp add: change_user_def ask_def Let_def GetInstanceGeneralSetting_def update_user_field_def s3_def up_def
        t_def convertStateToStore_def)
  then have run: "UpdateUser U c req w = (Inr (convertUserFromStore ?v), ?end)"
    using name s1(1) s2(1) u(2) assms(8,9)
    by (simp add: UpdateUser_def Let_def argument_def require_self_or_admin_def require_user_def found_user_def)
  have "find (\<lambda>u. user_ID u = ?i) (map (\<lambda>x. if user_ID x = ?i then ?v else x) us) =
      (if find (\<lambda>u. user_ID u = ?i) us = None then None else Some ?v)" for us
    using u(2) by (induction us) auto
  then have "find (\<lambda>u. user_ID u = ?i) (ac_users ?end) = Some ?v"
    using assms(4) by (simp add: cache_user_def tick_ac_def)
  with run show ?thesis
    by (intro exI conjI) (assumption, simp add: convertUserFromStore_def convertStateFromStore_def, assumption)
qed

definition easy_settings :: general_setting where
  "easy_settings = \<lparr>gs_DisallowUserRegistration = False, gs_DisallowPasswordAuth = False,
     gs_DisallowChangeUsername = False, gs_DisallowChangeNickname = False\<rparr>"

definition open_users :: user_env where
  "open_users = \<lparr>ue_api = rotating_api\<lparr>ap_general := (\<lambda>_. Inr easy_settings)\<rparr>,
     ue_cel = (\<lambda>_. Inl []), ue_runner = False\<rparr>"

definition team :: accounts where
  "team = ann_signed_in\<lparr>ac_users :=
     [SystemBot\<lparr>user_ID := 1, user_Username := ''root'', user_Role := RoleAdmin, user_RowStatus := RowNormal\<rparr>,
      SystemBot\<lparr>user_ID := 7, user_Username := ''ann'', user_Role := RoleUser, user_RowStatus := RowArchived\<rparr>]\<rparr>"

definition ctx_of :: "int \<Rightarrow> ctx" where
  "ctx_of i = no_ctx\<lparr>cx_UserID := Some i\<rparr>"

definition change_request :: "string \<Rightarrow> update_user_request" where
  "change_request path = \<lparr>uq_User = Some (empty_api_user\<lparr>pu_Name := ''users/7'', pu_Role := Role_ADMIN,
     pu_State := State_NORMAL\<rparr>), uq_UpdateMask = [path], uq_AllowMissing = False\<rparr>"

lemma team_settled: "settled (ue_api open_users) team"
  by (simp add: settled_def user_inv_def users_ok_def team_def ann_signed_in_def two_users_def open_users_def
      rotating_api_def steady_def ids_small_def)

lemma itoa_7: "itoa 7 = ''7''"
  by code_simp

lemma archived_user_restores_itself_witness:
  "\<exists>x v. UpdateUser open_users (ctx_of 7) (change_request ''state'') team = (Inr x, v) \<and> pu_State x = State_NORMAL"
proof -
  let ?ann = "SystemBot\<lparr>user_ID := 7, user_Username := ''ann'', user_Role := RoleUser, user_RowStatus := RowArchived\<rparr>"
  let ?ru = "empty_api_user\<lparr>pu_Name := ''users/7'', pu_Role := Role_ADMIN, pu_State := State_NORMAL\<rparr>"
  have "distinct (map user_Username (ac_users team))" by (simp add: team_def)
  moreover have "ap_general (ue_api open_users) n = Inr easy_settings" for n by (simp add: open_users_def)
  moreover have "find (\<lambda>u. user_ID u = GetUserID (ctx_of 7)) (ac_users team) = Some ?ann"
    by (simp add: team_def ctx_of_def GetUserID_def)
  moreover have "pu_Name ?ru = ''users/'' @ itoa (GetUserID (ctx_of 7))"
    by (simp add: ctx_of_def GetUserID_def itoa_7)
  ultimately show ?thesis
    using archived_user_restores_itself [OF team_settled, of easy_settings "ctx_of 7" ?ann ?ru "change_request ''state''"]
    by (auto simp: change_request_def)
qed

lemma only_admins_change_admins_witness:
  "admins (snd (UpdateUser open_users (ctx_of 7) (change_request ''role'') team)) = {1}"
proof -
  let ?v = "snd (UpdateUser open_users (ctx_of 7) (change_request ''role'') team)"
  have admins: "admins team = {1}" by (simp add: admins_roles team_def RoleUser_def RoleAdmin_def)
  have "\<not> asked_by_admin (ctx_of 7) team"
    by (simp add: asked_by_admin_def admins ctx_of_def GetUserID_def)
  then have step: "(user_request open_users)\<^sup>*\<^sup>* team ?v" by (intro r_into_rtranclp updates)
  have "sess_ok (ue_api open_users) team"
  proof -
    have "sessions team = sessions ann_signed_in" "set_inv REFRESH_TOKENS team = set_inv REFRESH_TOKENS ann_signed_in"
      by (simp_all add: fun_eq_iff stored_def team_def set_inv_def settings_ok_def setting_keys_ok_def coherent_def)
    then show ?thesis
      using rotating_start team_settled
      by (simp add: sess_ok_def settled_def team_def open_users_def rotating_api_def)
  qed
  moreover have "ac_next_id ?v \<le> 55296" by code_simp
  ultimately show ?thesis using only_admins_change_admins [OF step] admins by simp
qed

subsection \<open>Numeric user names\<close>

lemma digits_value_digits: "digits_value acc s = Some v \<Longrightarrow> list_all (byte_in 48 57) s"
  by (induction acc s rule: digits_value.induct) (auto simp: digit_value_def split: option.splits if_splits)

lemma number_is_token:
  assumes "parse_int32 n = Some j"
  shows "token n"
proof (cases n)
  case Nil
  then show ?thesis using assms by (simp add: parse_int32_def atoi_def)
next
  case (Cons c t)
  have "list_all (byte_in 48 57) t \<and> (byte_in 48 57 c \<or> c = CHR ''-'' \<or> c = CHR ''+'')"
    using assms Cons
    by (auto simp: parse_int32_def atoi_def unsigned_value_def digit_value_def
        dest: digits_value_digits split: option.splits if_splits)
  then show ?thesis using Cons by (auto simp: token_def list_all_iff byte_in_def)
qed

text \<open>
  A user name may consist of digits, but in a resource name digits are an id: the name of a
  user called \<open>n\<close> denotes the user with the id \<open>n\<close>, who is somebody else, or nobody.
\<close>

theorem numeric_username_denotes_id:
  assumes "settled (ue_api U) w" "u \<in> set (ac_users w)" "parse_int32 (user_Username u) = Some j" "j \<noteq> 0"
    and "user_ID u \<noteq> j"
  shows "fst (GetUser U (''users/'' @ user_Username u) w) =
    (case find (\<lambda>x. user_ID x = j) (ac_users w) of
       None \<Rightarrow> Inl (Status NotFound ''user not found'') | Some x \<Rightarrow> Inr (convertUserFromStore x)) \<and>
    fst (GetUser U (''users/'' @ user_Username u) w) \<noteq> Inr (convertUserFromStore u)"
proof -
  have "GetNameParentTokens (''users/'' @ user_Username u) [UserNamePrefix] = Inr [user_Username u]"
    using number_is_token [OF assms(3)] one_token [OF collections(1)] by (simp add: UserNamePrefix_def)
  then have id: "extractUserIdentifierFromName (''users/'' @ user_Username u) = user_Username u"
    by (simp add: extractUserIdentifierFromName_def)
  obtain r v where g: "store_GetUser (store_of U) (user_with_id j) w = (r, v)" by fastforce
  then have "r = Inr (find (\<lambda>x. user_ID x = j) (ac_users w))"
    using get_user_row [of w "store_of U" j] assms(1,4) by (auto simp: settled_def ids_small_def split: sum.splits)
  then have eq: "fst (GetUser U (''users/'' @ user_Username u) w) =
    (case find (\<lambda>x. user_ID x = j) (ac_users w) of
       None \<Rightarrow> Inl (Status NotFound ''user not found'') | Some x \<Rightarrow> Inr (convertUserFromStore x))"
    using id g assms(3) number_is_token [OF assms(3)]
    by (simp add: GetUser_def token_def split: option.splits)
  moreover have "convertUserFromStore x \<noteq> convertUserFromStore u"
    if x: "find (\<lambda>x. user_ID x = j) (ac_users w) = Some x" for x
  proof
    assume "convertUserFromStore x = convertUserFromStore u"
    then have "itoa j = itoa (user_ID u)"
      using settled_found(2) [OF assms(1) x] by (simp add: convertUserFromStore_def user_name_of_def)
    moreover have "in_int32 j" using assms(3) parse_int32_range by blast
    moreover have "in_int32 (user_ID u)"
      using row_is_small [of w u] assms(1,2) by (auto simp: settled_def small_user_def)
    ultimately show False using itoa_inject assms(5) by blast
  qed
  ultimately show ?thesis by (auto split: option.splits)
qed

definition numbered :: accounts where
  "numbered = team\<lparr>ac_users :=
     [SystemBot\<lparr>user_ID := 1, user_Username := ''7''\<rparr>, SystemBot\<lparr>user_ID := 7, user_Username := ''ann''\<rparr>]\<rparr>"

lemma numeric_username_denotes_id_witness:
  "map_sum id pu_Username (fst (GetUser open_users ''users/7'' numbered)) = Inr ''ann''"
proof -
  have "settled (ue_api open_users) numbered"
    by (simp add: settled_def user_inv_def users_ok_def numbered_def team_def ann_signed_in_def two_users_def
        open_users_def rotating_api_def steady_def ids_small_def)
  moreover have "SystemBot\<lparr>user_ID := 1, user_Username := ''7''\<rparr> \<in> set (ac_users numbered)"
    by (simp add: numbered_def)
  moreover have "parse_int32 ''7'' = Some 7" by code_simp
  ultimately show ?thesis
    using numeric_username_denotes_id [of open_users numbered "SystemBot\<lparr>user_ID := 1, user_Username := ''7''\<rparr>" 7]
    by (simp add: numbered_def convertUserFromStore_def)
qed

subsection \<open>Two first users\<close>

text \<open>
  C34. The first user becomes an administrator; whether a user is the first is decided before it is
  inserted. Two registrations that overlap on an empty instance both make an administrator.
\<close>

theorem two_first_users_are_admins:
  assumes "ac_users w = []" "\<And>n. ae_db (acc_of P) n = None" "0 < ac_next_id w"
    and "\<And>n p. \<exists>h. ap_hash_password P n p = Inr h"
    and "cu_User r1 = Some a" "cu_User r2 = Some b" "valid_username (pu_Username a)" "valid_username (pu_Username b)"
    and "pu_Username a \<noteq> pu_Username b"
  shows "\<exists>w1 w2 x w3 y w4. admit_user P no_ctx r1 w = (Inr (a, RoleAdmin), w1) \<and>
    admit_user P no_ctx r2 w1 = (Inr (b, RoleAdmin), w2) \<and>
    insert_user P a RoleAdmin w2 = (Inr x, w3) \<and> insert_user P b RoleAdmin w3 = (Inr y, w4) \<and>
    admins w4 = {ac_next_id w, ac_next_id w + 1}"
proof -
  have who: "maybe_user P no_ctx s = (None, s)" for s
    by (simp add: maybe_user_def fetchCurrentUser_def GetUserID_def no_ctx_def)
  have admit: "admit_user P no_ctx r s = (Inr (ru, RoleAdmin), tick_ac s)"
    if "ac_users s = []" "cu_User r = Some ru" "valid_username (pu_Username ru)" for r ru s
    using that assms(2)
    by (simp add: admit_user_def who admit_by_def store_ListUsers_def sqlite_ListUsers_def db_call_def
        find_any_user_def Let_def roleToAssign_def)
  have insert: "\<exists>x s'. insert_user P ru RoleAdmin s = (Inr x, s') \<and> ac_next_id s' = ac_next_id s + 1 \<and>
      map (\<lambda>u. (user_ID u, user_Role u, user_Username u)) (ac_users s') =
      map (\<lambda>u. (user_ID u, user_Role u, user_Username u)) (ac_users s) @ [(ac_next_id s, RoleAdmin, pu_Username ru)]"
    if "pu_Username ru \<notin> user_Username ` set (ac_users s)" for ru s
  proof -
    obtain h where "ap_hash_password P (ac_tick s) (pu_Password ru) = Inr h" using assms(4) by blast
    then show ?thesis
      using that assms(2)
      by (simp add: insert_user_def ask_def store_CreateUser_def sqlite_CreateUser_def db_call_def Let_def
          cache_user_def tick_ac_def)
  qed
  let ?w2 = "tick_ac (tick_ac w)"
  have rows2: "ac_users ?w2 = []" "ac_next_id ?w2 = ac_next_id w" using assms(1) by (simp_all add: tick_ac_def)
  obtain x w3 where x: "insert_user P a RoleAdmin ?w2 = (Inr x, w3)" "ac_next_id w3 = ac_next_id w + 1"
    "map (\<lambda>u. (user_ID u, user_Role u, user_Username u)) (ac_users w3) = [(ac_next_id w, RoleAdmin, pu_Username a)]"
    using insert [of a ?w2] rows2 by auto
  then have "user_Username ` set (ac_users w3) = {pu_Username a}" by (cases "ac_users w3") auto
  then obtain y w4 where y: "insert_user P b RoleAdmin w3 = (Inr y, w4)"
    "map (\<lambda>u. (user_ID u, user_Role u, user_Username u)) (ac_users w4) =
      [(ac_next_id w, RoleAdmin, pu_Username a), (ac_next_id w + 1, RoleAdmin, pu_Username b)]"
    using insert [of b w3] assms(9) x by auto
  have "map (\<lambda>u. (user_ID u, user_Role u)) (ac_users w4) =
      map (\<lambda>(i, r, n). (i, r)) (map (\<lambda>u. (user_ID u, user_Role u, user_Username u)) (ac_users w4))"
    by simp
  then have "admins w4 = {ac_next_id w, ac_next_id w + 1}"
    unfolding admins_roles y(2) by auto
  moreover have "ac_users (tick_ac w) = []" using assms(1) by (simp add: tick_ac_def)
  ultimately show ?thesis
    using admit [OF assms(1) assms(5,7)] admit [OF _ assms(6,8), of "tick_ac w"] x(1) y(1) by blast
qed

definition signing_up :: "string \<Rightarrow> create_user_request" where
  "signing_up n = \<lparr>cu_User = Some (empty_api_user\<lparr>pu_Username := n\<rparr>), cu_ValidateOnly = False\<rparr>"

lemma two_first_users_are_admins_witness:
  "\<exists>w1 w2 x w3 y w4. admit_user rotating_api no_ctx (signing_up ''ann'') (team\<lparr>ac_users := []\<rparr>) =
      (Inr (empty_api_user\<lparr>pu_Username := ''ann''\<rparr>, RoleAdmin), w1) \<and>
    admit_user rotating_api no_ctx (signing_up ''bob'') w1 = (Inr (empty_api_user\<lparr>pu_Username := ''bob''\<rparr>, RoleAdmin), w2) \<and>
    insert_user rotating_api (empty_api_user\<lparr>pu_Username := ''ann''\<rparr>) RoleAdmin w2 = (Inr x, w3) \<and>
    insert_user rotating_api (empty_api_user\<lparr>pu_Username := ''bob''\<rparr>) RoleAdmin w3 = (Inr y, w4) \<and>
    admins w4 = {8, 9}"
proof -
  have ids: "ac_next_id (team\<lparr>ac_users := []\<rparr>) = 8" by (simp add: team_def ann_signed_in_def two_users_def)
  have "ae_db (acc_of rotating_api) n = None" for n by (simp add: rotating_api_def steady_def)
  moreover have "\<exists>h. ap_hash_password rotating_api n p = Inr h" for n p by (simp add: rotating_api_def)
  moreover have "valid_username ''ann''" "valid_username ''bob''" by code_simp+
  ultimately show ?thesis
    using two_first_users_are_admins [of "team\<lparr>ac_users := []\<rparr>" rotating_api "signing_up ''ann''"
        "empty_api_user\<lparr>pu_Username := ''ann''\<rparr>" "signing_up ''bob''" "empty_api_user\<lparr>pu_Username := ''bob''\<rparr>"]
    by (simp add: signing_up_def ids empty_api_user_def)
qed

end
