(* ===== verification/WebhookGuard.thy ===== *)
theory WebhookGuard
  imports AuthService
begin

section \<open>Where webhooks may go (plugin/webhook/validate.go, webhook.go)\<close>

text \<open>
  The check of a webhook URL when it is stored, and the check of the address when the webhook
  is sent. \<open>net.ParseIP\<close>, \<open>net.ParseCIDR\<close> and \<open>IPNet.Contains\<close> are written out on lists of
  bytes, 4 for IPv4 and 16 for IPv6. The URL parser, \<open>net.SplitHostPort\<close> and the answers of the
  resolver are parameters; the resolver may answer each question differently.
\<close>

subsection \<open>Addresses\<close>

type_synonym ip = "8 word list"

definition v4InV6Prefix :: ip where
  "v4InV6Prefix = replicate 10 0 @ [255, 255]"

definition To4 :: "ip \<Rightarrow> ip option" where
  "To4 a = (if length a = 4 then Some a
     else if length a = 16 \<and> take 12 a = v4InV6Prefix then Some (drop 12 a) else None)"

text \<open>The fields of \<open>1.2.3.4\<close>: four decimal numbers up to 255 without leading zeros.\<close>

definition v4_field :: "string \<Rightarrow> 8 word option" where
  "v4_field s =
     (case digits_value 0 s of
        None \<Rightarrow> None
      | Some n \<Rightarrow>
          if s = [] \<or> 1 < length s \<and> hd s = CHR ''0'' \<or> 255 < n then None
          else Some (word_of_int n))"

definition parseIPv4 :: "string \<Rightarrow> ip option" where
  "parseIPv4 s =
     (let fs = map v4_field (split_on CHR ''.'' s)
      in if length fs = 4 \<and> None \<notin> set fs then Some (map the fs) else None)"

definition hex_value :: "char \<Rightarrow> nat option" where
  "hex_value c =
     (if byte_in 48 57 c then Some (of_char c - 48)
      else if byte_in 97 102 c then Some (of_char c - 87)
      else if byte_in 65 70 c then Some (of_char c - 55) else None)"

definition is_hex :: "char \<Rightarrow> bool" where
  "is_hex c \<longleftrightarrow> hex_value c \<noteq> None"

definition hex_group :: "string \<Rightarrow> nat" where
  "hex_group s = foldl (\<lambda>acc c. 16 * acc + (case hex_value c of None \<Rightarrow> 0 | Some d \<Rightarrow> d)) 0 s"

text \<open>
  The loop of \<open>parseIPv6\<close>: groups of at most four hexadecimal digits, up to the room that is
  left (counted in pairs of bytes), the position of the ellipsis, and an IPv4 address at the
  end. The result is what was read, the ellipsis and the rest of the text.
\<close>

fun v6_groups :: "nat \<Rightarrow> string \<Rightarrow> ip \<Rightarrow> nat option \<Rightarrow> (ip \<times> nat option \<times> string) option" where
  "v6_groups 0 s acc ell = Some (acc, ell, s)"
| "v6_groups (Suc n) s acc ell =
     (let g = takeWhile is_hex s; rest = drop (length g) s in
      if g = [] \<or> 4 < length g then None
      else if rest \<noteq> [] \<and> hd rest = CHR ''.'' then
        (if ell = None \<and> length acc \<noteq> 12 \<or> 12 < length acc then None
         else case parseIPv4 s of None \<Rightarrow> None | Some v \<Rightarrow> Some (acc @ v, ell, []))
      else
        let acc = acc @ [word_of_nat (hex_group g div 256), word_of_nat (hex_group g)] in
        if rest = [] then Some (acc, ell, [])
        else if hd rest \<noteq> CHR '':'' \<or> length rest = 1 then None
        else if rest ! 1 = CHR '':'' then
          (if ell \<noteq> None then None
           else if length rest = 2 then Some (acc, Some (length acc), [])
           else v6_groups n (drop 2 rest) acc (Some (length acc)))
        else v6_groups n (tl rest) acc ell)"

definition parseIPv6 :: "string \<Rightarrow> ip option" where
  "parseIPv6 s =
     (if s = ''::'' then Some (replicate 16 0)
      else
        let lead = prefix ''::'' s in
        case v6_groups 8 (if lead then drop 2 s else s) [] (if lead then Some 0 else None) of
          None \<Rightarrow> None
        | Some (bytes, ell, rest) \<Rightarrow>
            if rest \<noteq> [] then None
            else if length bytes < 16 then
              (case ell of
                 None \<Rightarrow> None
               | Some e \<Rightarrow> Some (take e bytes @ replicate (16 - length bytes) 0 @ drop e bytes))
            else if ell \<noteq> None then None else Some bytes)"

text \<open>An address with a zone is no address for \<open>net.ParseIP\<close>; IPv4 comes back in 4 bytes here.\<close>

definition ParseAddr :: "string \<Rightarrow> ip option" where
  "ParseAddr s =
     (case find (\<lambda>c. c = CHR ''.'' \<or> c = CHR '':'' \<or> c = CHR ''%'') s of
        None \<Rightarrow> None
      | Some c \<Rightarrow>
          if CHR ''%'' \<in> set s then None
          else if c = CHR ''.'' then parseIPv4 s else parseIPv6 s)"

definition ParseIP :: "string \<Rightarrow> ip option" where
  "ParseIP s = map_option (\<lambda>a. if length a = 4 then v4InV6Prefix @ a else a) (ParseAddr s)"

subsection \<open>Networks\<close>

unbundle bit_operations_syntax

record ip_net =
  net_IP :: ip
  net_Mask :: ip

definition mask_byte :: "nat \<Rightarrow> 8 word" where
  "mask_byte n = (if 8 \<le> n then 255 else NOT (mask (8 - n)))"

definition CIDRMask :: "nat \<Rightarrow> nat \<Rightarrow> ip" where
  "CIDRMask n len = map (\<lambda>i. mask_byte (n - 8 * i)) [0..<len]"

definition ParseCIDR :: "string \<Rightarrow> ip_net option" where
  "ParseCIDR s =
     (let (addr, m) = cut_at CHR ''/'' s in
      case (ParseAddr addr, digits_value 0 m) of
        (Some a, Some n) \<Rightarrow>
          if m = [] \<or> int (8 * length a) < n then None
          else let bits = CIDRMask (nat n) (length a)
            in Some \<lparr>net_IP = map2 (AND) a bits, net_Mask = bits\<rparr>
      | _ \<Rightarrow> None)"

definition Contains :: "ip_net \<Rightarrow> ip \<Rightarrow> bool" where
  "Contains n a =
     (let (nn, m) = (case To4 (net_IP n) of
            None \<Rightarrow> (net_IP n, net_Mask n)
          | Some v \<Rightarrow> (v, if length (net_Mask n) = 16 then drop 12 (net_Mask n) else net_Mask n));
          x = (case To4 a of None \<Rightarrow> a | Some v \<Rightarrow> v)
      in length x = length nn \<and> list_all2 (=) (map2 (AND) nn m) (map2 (AND) x m))"

definition reservedCIDRs :: "string list" where
  "reservedCIDRs = [''127.0.0.0/8'', ''10.0.0.0/8'', ''172.16.0.0/12'', ''192.168.0.0/16'',
     ''169.254.0.0/16'', ''::1/128'', ''fc00::/7'', ''fe80::/10'']"

text \<open>\<open>init\<close>, which panics when a range does not parse: then the result is \<open>None\<close>.\<close>

fun init_networks :: "string list \<Rightarrow> ip_net list option" where
  "init_networks [] = Some []"
| "init_networks (cidr # cidrs) =
     (case (ParseCIDR cidr, init_networks cidrs) of (Some n, Some ns) \<Rightarrow> Some (n # ns) | _ \<Rightarrow> None)"

definition reservedNetworks :: "ip_net list" where
  "reservedNetworks = (case init_networks reservedCIDRs of None \<Rightarrow> [] | Some ns \<Rightarrow> ns)"

definition isReservedIP :: "ip \<Rightarrow> bool" where
  "isReservedIP a \<longleftrightarrow> list_ex (\<lambda>n. Contains n a) reservedNetworks"

definition reserved_text :: "string \<Rightarrow> bool" where
  "reserved_text s = (case ParseIP s of None \<Rightarrow> False | Some a \<Rightarrow> isReservedIP a)"

subsection \<open>The two checks\<close>

record net_env =
  ne_parse_url :: "string \<Rightarrow> string + (string \<times> string)"   \<comment> \<open>scheme and host name\<close>
  ne_split_host_port :: "string \<Rightarrow> (string \<times> string) option"
  ne_lookup :: "nat \<Rightarrow> string \<Rightarrow> string + string list"

definition ValidateURL :: "net_env \<Rightarrow> nat \<Rightarrow> string \<Rightarrow> api_error option" where
  "ValidateURL N k rawURL =
     (case ne_parse_url N rawURL of
        Inl e \<Rightarrow> Some (status_of InvalidArgument ''invalid webhook URL'' e)
      | Inr (scheme, host) \<Rightarrow>
          if scheme \<noteq> ''http'' \<and> scheme \<noteq> ''https''
          then Some (Status InvalidArgument
                 (''webhook URL must use http or https scheme, got '' @ CHR 0x22 # scheme @ [CHR 0x22]))
          else case ne_lookup N k host of
            Inl e \<Rightarrow> Some (status_of InvalidArgument ''webhook URL hostname could not be resolved'' e)
          | Inr ips \<Rightarrow>
              if list_ex reserved_text ips
              then Some (Status InvalidArgument ''webhook URL must not resolve to a reserved or private IP address'')
              else None)"

text \<open>
  The connection of a webhook: the answer is an error or the addresses that \<open>net.Dialer\<close> tries.
  The dialer is given the host name, not the address that was checked, and resolves it itself.
\<close>

definition safeDialContext :: "net_env \<Rightarrow> nat \<Rightarrow> string \<Rightarrow> string + string list" where
  "safeDialContext N k addr =
     (case ne_split_host_port N addr of
        None \<Rightarrow> Inl (''webhook: invalid address '' @ CHR 0x22 # addr @ [CHR 0x22])
      | Some (host, port) \<Rightarrow>
          (case ne_lookup N k host of
             Inl e \<Rightarrow> Inl (wrap_msg (''webhook: failed to resolve host '' @ CHR 0x22 # host @ [CHR 0x22]) e)
           | Inr ips \<Rightarrow>
               if list_ex reserved_text ips
               then Inl ''webhook: connection to reserved/private IP address is not allowed''
               else ne_lookup N (k + 1) host))"

subsection \<open>Which addresses are reserved\<close>

lemmas v6_next = v6_groups.simps(2) [of "pred_numeral n" for n, folded numeral_eq_Suc]

lemma replicate_numeral: "replicate (numeral n) x = x # replicate (pred_numeral n) x"
  by (simp add: numeral_eq_Suc)

lemmas address_simps = ParseAddr_def parseIPv6_def v6_next replicate_numeral hex_value_def is_hex_def
  hex_group_def Let_def byte_in_def v4_field_def parseIPv4_def digit_value_def
lemmas cidr_simps = ParseCIDR_def CIDRMask_def mask_byte_def upt_rec mask_eq_decr_exp address_simps

lemma cidr_v4:
  "ParseCIDR ''127.0.0.0/8'' = Some \<lparr>net_IP = [127, 0, 0, 0], net_Mask = [255, 0, 0, 0]\<rparr>"
  "ParseCIDR ''10.0.0.0/8'' = Some \<lparr>net_IP = [10, 0, 0, 0], net_Mask = [255, 0, 0, 0]\<rparr>"
  "ParseCIDR ''172.16.0.0/12'' = Some \<lparr>net_IP = [172, 16, 0, 0], net_Mask = [255, 240, 0, 0]\<rparr>"
  "ParseCIDR ''192.168.0.0/16'' = Some \<lparr>net_IP = [192, 168, 0, 0], net_Mask = [255, 255, 0, 0]\<rparr>"
  "ParseCIDR ''169.254.0.0/16'' = Some \<lparr>net_IP = [169, 254, 0, 0], net_Mask = [255, 255, 0, 0]\<rparr>"
  by (simp_all add: cidr_simps)

lemma cidr_v6:
  "ParseCIDR ''::1/128'' = Some \<lparr>net_IP = replicate 15 0 @ [1], net_Mask = replicate 16 255\<rparr>"
  "ParseCIDR ''fc00::/7'' = Some \<lparr>net_IP = 252 # replicate 15 0, net_Mask = 254 # replicate 15 0\<rparr>"
  "ParseCIDR ''fe80::/10'' = Some \<lparr>net_IP = 254 # 128 # replicate 14 0, net_Mask = 255 # 192 # replicate 14 0\<rparr>"
  by (simp add: cidr_simps, simp add: cidr_simps, simp add: cidr_simps)

text \<open>\<open>init\<close> does not panic.\<close>

lemma networks_parse: "init_networks reservedCIDRs = Some reservedNetworks"
  by (simp add: reservedNetworks_def reservedCIDRs_def cidr_v4 cidr_v6)

lemma bit_window: "(n :: nat) AND push_bit k (mask m) = 2 ^ k * (n div 2 ^ k mod 2 ^ m)"
proof -
  have "n AND push_bit k (mask m) = push_bit k (take_bit m (drop_bit k n))"
    by (rule bit_eqI) (auto simp: bit_simps)
  then show ?thesis by (simp add: push_bit_eq_mult take_bit_eq_mod drop_bit_eq_div mult.commute)
qed

lemma masked_byte:
  fixes b :: "8 word"
  shows "16 = b AND 240 \<longleftrightarrow> unat b div 16 = 1"
    and "252 = b AND 254 \<longleftrightarrow> unat b div 2 = 126"
    and "128 = b AND 192 \<longleftrightarrow> unat b div 64 = 2"
proof -
  have "unat b < 256" using unsigned_less [of b, where ?'a = nat] by simp
  then have "unat b div 16 < 16" "unat b div 2 < 128" "unat b div 64 < 4" by simp_all
  then show "16 = b AND 240 \<longleftrightarrow> unat b div 16 = 1"
    "252 = b AND 254 \<longleftrightarrow> unat b div 2 = 126"
    "128 = b AND 192 \<longleftrightarrow> unat b div 64 = 2"
    using bit_window [of "unat b" 4 4] bit_window [of "unat b" 1 7] bit_window [of "unat b" 6 2]
    by (auto simp: word_eq_iff_unsigned [where ?'a = nat] unsigned_and_eq push_bit_eq_mult mask_eq_exp_minus_1)
qed

text \<open>The ranges, as the comments of the source name them.\<close>

definition documented_range :: "ip \<Rightarrow> bool" where
  "documented_range a =
     (case To4 a of
        Some v \<Rightarrow>
          let x = unat (v ! 0); y = unat (v ! 1) in
          x = 127 \<or> x = 10 \<or> (x = 172 \<and> y div 16 = 1) \<or> (x = 192 \<and> y = 168) \<or> (x = 169 \<and> y = 254)
      | None \<Rightarrow>
          length a = 16 \<and>
          (a = replicate 15 0 @ [1] \<or> unat (a ! 0) div 2 = 126 \<or> (unat (a ! 0) = 254 \<and> unat (a ! 1) div 64 = 2)))"

lemma all_bits: "(255 :: 8 word) = - 1"
  by simp

lemma byte_is: "n < 256 \<Longrightarrow> unat (b :: 8 word) = n \<longleftrightarrow> b = word_of_nat n"
  by (auto simp: word_eq_iff_unsigned [where ?'a = nat] unsigned_of_nat take_bit_eq_mod)

lemma length_4: "length v = 4 \<longleftrightarrow> (\<exists>a b c d. v = [a, b, c, d])"
  by (auto simp: length_Suc_conv numeral_eq_Suc)

lemma length_16: "length v = 16 \<longleftrightarrow>
    (\<exists>a0 a1 a2 a3 a4 a5 a6 a7 a8 a9 b0 b1 b2 b3 b4 b5.
       v = [a0, a1, a2, a3, a4, a5, a6, a7, a8, a9, b0, b1, b2, b3, b4, b5])"
  by (auto simp: length_Suc_conv numeral_eq_Suc)

lemmas reserved_list = isReservedIP_def reservedNetworks_def reservedCIDRs_def cidr_v4 cidr_v6

lemma reserved_v4: "isReservedIP [a, b, c, d] = documented_range [a, b, c, d]"
  by (simp add: reserved_list documented_range_def Contains_def To4_def v4InV6Prefix_def replicate_numeral
      masked_byte Let_def all_bits byte_is)

lemma reserved_v6:
  assumes "length a = 16" "To4 a = None"
  shows "isReservedIP a = documented_range a"
proof -
  obtain a0 a1 a2 a3 a4 a5 a6 a7 a8 a9 b0 b1 b2 b3 b4 b5
    where a: "a = [a0, a1, a2, a3, a4, a5, a6, a7, a8, a9, b0, b1, b2, b3, b4, b5]"
    using assms(1) unfolding length_16 by blast
  show ?thesis
    using assms(2) unfolding a
    by (simp add: reserved_list documented_range_def Contains_def To4_def v4InV6Prefix_def replicate_numeral
      masked_byte all_bits byte_is)
qed

lemma parseIPv4_length: "parseIPv4 s = Some v \<Longrightarrow> length v = 4"
  by (auto simp: parseIPv4_def Let_def split: if_splits)

lemma v6_groups_length:
  "v6_groups n s acc ell = Some (bs, e, r) \<Longrightarrow> length acc + 2 * n = 16 \<Longrightarrow>
     length bs \<le> 16 \<and> length acc \<le> length bs \<and> (\<forall>k. ell = Some k \<longrightarrow> e = Some k)"
proof (induction n s acc ell rule: v6_groups.induct)
  case (2 n s acc ell)
  then show ?case
    by (fastforce simp: Let_def dest: parseIPv4_length split: if_splits option.splits)
qed simp

lemma v6_ellipsis:
  "v6_groups n s acc ell = Some (bs, e, r) \<Longrightarrow> (\<forall>k. ell = Some k \<longrightarrow> k \<le> length acc) \<Longrightarrow>
     length acc \<le> length bs \<and> (\<forall>k. e = Some k \<longrightarrow> k \<le> length bs)"
proof (induction n s acc ell rule: v6_groups.induct)
  case (2 n s acc ell)
  then show ?case
    by (fastforce simp: Let_def split: if_splits option.splits)
qed auto

lemma ParseIP_length:
  assumes "ParseIP s = Some a"
  shows "length a = 16"
proof -
  have "length b = 16" if "parseIPv6 t = Some b" for t b
  proof (cases "t = ''::''")
    case False
    let ?s = "if prefix ''::'' t then drop 2 t else t" and ?e = "if prefix ''::'' t then Some 0 else None"
    from False that obtain bs e where g: "v6_groups 8 ?s [] ?e = Some (bs, e, [])"
      and b: "if length bs < 16 then \<exists>k. e = Some k \<and> b = take k bs @ replicate (16 - length bs) 0 @ drop k bs
              else b = bs"
      by (auto simp: parseIPv6_def Let_def split: option.splits if_splits)
    have "length bs \<le> 16" using v6_groups_length [OF g] by simp
    moreover have "\<forall>k. e = Some k \<longrightarrow> k \<le> length bs" using v6_ellipsis [OF g] by simp
    ultimately show ?thesis using b by (auto split: if_splits)
  qed (use that in \<open>auto simp: parseIPv6_def\<close>)
  then show ?thesis
    using assms parseIPv4_length
    by (fastforce simp: ParseIP_def ParseAddr_def v4InV6Prefix_def split: if_splits option.splits)
qed

lemma To4_16: "length a = 16 \<Longrightarrow> To4 a = Some v \<Longrightarrow> a = v4InV6Prefix @ v \<and> length v = 4"
  by (auto simp: To4_def split: if_splits) (metis append_take_drop_id)

lemma reserved_mapped: "isReservedIP (v4InV6Prefix @ [a, b, c, d]) = isReservedIP [a, b, c, d]"
  by (simp add: isReservedIP_def Contains_def To4_def v4InV6Prefix_def)

lemma documented_mapped: "documented_range (v4InV6Prefix @ [a, b, c, d]) = documented_range [a, b, c, d]"
  by (simp add: documented_range_def To4_def v4InV6Prefix_def)

lemma guard_matches_documentation:
  assumes "ParseIP s = Some a"
  shows "isReservedIP a = documented_range a"
proof (cases "To4 a")
  case None
  then show ?thesis using reserved_v6 ParseIP_length [OF assms] by blast
next
  case (Some v)
  then obtain b c d e where "a = v4InV6Prefix @ [b, c, d, e]"
    using To4_16 ParseIP_length [OF assms] length_4 by metis
  then show ?thesis by (simp add: reserved_mapped documented_mapped reserved_v4)
qed

text \<open>
  C35. The check accepts a URL exactly when its scheme is http or https, its host resolves, and no
  address of the answer that \<open>net.ParseIP\<close> reads, in whatever form it is written, lies in a range
  that the list of the source names: loopback, private, link-local and their IPv6 equivalents. An
  address that \<open>net.ParseIP\<close> does not read is passed over, so a link-local address with a zone is
  accepted (the lemma \<open>zoned_address_passes\<close>).
\<close>

theorem accepted_url_avoids_reserved:
  "ValidateURL N k url = None \<longleftrightarrow>
    (\<exists>scheme host ips. ne_parse_url N url = Inr (scheme, host) \<and>
      (scheme = ''http'' \<or> scheme = ''https'') \<and> ne_lookup N k host = Inr ips \<and>
      (\<forall>s a. s \<in> set ips \<and> ParseIP s = Some a \<longrightarrow> \<not> documented_range a))"
proof -
  have addresses: "\<not> list_ex reserved_text ips \<longleftrightarrow>
      (\<forall>s a. s \<in> set ips \<and> ParseIP s = Some a \<longrightarrow> \<not> documented_range a)" for ips
    using guard_matches_documentation
    by (auto simp: list_ex_iff reserved_text_def split: option.splits)
  have "ValidateURL N k url = None \<longleftrightarrow>
    (\<exists>scheme host ips. ne_parse_url N url = Inr (scheme, host) \<and>
      (scheme = ''http'' \<or> scheme = ''https'') \<and> ne_lookup N k host = Inr ips \<and>
      \<not> list_ex reserved_text ips)"
    by (auto simp: ValidateURL_def split: sum.splits)
  then show ?thesis unfolding addresses .
qed

text \<open>A resolver that answers differently the second time.\<close>

definition rebinding :: net_env where
  "rebinding = \<lparr>ne_parse_url = (\<lambda>u. Inr (''https'', drop 8 u)),
     ne_split_host_port = (\<lambda>a. Some (fst (cut_at CHR '':'' a), snd (cut_at CHR '':'' a))),
     ne_lookup = (\<lambda>k h. Inr [if k = 0 then ''93.184.216.34'' else ''127.0.0.1''])\<rparr>"

lemma sample_addresses:
  "ParseIP ''93.184.216.34'' = Some (v4InV6Prefix @ [93, 184, 216, 34])"
  "ParseIP ''127.0.0.1'' = Some (v4InV6Prefix @ [127, 0, 0, 1])"
  by (simp_all add: ParseIP_def address_simps)

lemma sample_reserved: "\<not> reserved_text ''93.184.216.34''" "reserved_text ''127.0.0.1''"
  by (simp_all add: reserved_text_def sample_addresses reserved_mapped reserved_v4 documented_range_def To4_def)

lemma accepted_url_avoids_reserved_witness:
  "ValidateURL rebinding 0 ''https://h'' = None \<and> \<not> documented_range (v4InV6Prefix @ [93, 184, 216, 34])"
proof -
  have ok: "ValidateURL rebinding 0 ''https://h'' = None"
    by (simp add: ValidateURL_def rebinding_def sample_reserved)
  from iffD1 [OF accepted_url_avoids_reserved ok] show ?thesis
    using ok by (auto simp: rebinding_def sample_addresses)
qed

text \<open>
  When the addresses of the first answer pass the check, the connection goes to whatever the
  resolver answers next, reserved or not: the dialer is given the name and resolves it again.
\<close>

theorem dialer_resolves_again:
  assumes "ne_split_host_port N addr = Some (host, port)"
    and "ne_lookup N k host = Inr ips" and "\<forall>s \<in> set ips. \<not> reserved_text s"
  shows "safeDialContext N k addr = ne_lookup N (k + 1) host"
  using assms by (auto simp: safeDialContext_def list_ex_iff)

lemma dialer_resolves_again_witness:
  "safeDialContext rebinding 0 ''h:443'' = Inr [''127.0.0.1''] \<and> reserved_text ''127.0.0.1''"
  using dialer_resolves_again [of rebinding "''h:443''" "''h''" "''443''" 0 "[''93.184.216.34'']"]
  by (simp add: rebinding_def sample_reserved)

text \<open>A link-local address with a zone is no address for \<open>net.ParseIP\<close> and is passed over.\<close>

lemma zoned_address_passes:
  "ParseIP ''fe80::1'' = Some (254 # 128 # replicate 13 0 @ [1])"
  "documented_range (254 # 128 # replicate 13 0 @ [1])"
  "\<not> reserved_text ''fe80::1%eth0''"
  by (simp_all add: ParseIP_def address_simps documented_range_def To4_def v4InV6Prefix_def reserved_text_def)

text \<open>The unspecified addresses, which systems route to the local host, are in no range.\<close>

lemma unspecified_not_reserved: "\<not> reserved_text ''0.0.0.0''" "\<not> reserved_text ''::''"
proof -
  have "ParseIP ''0.0.0.0'' = Some (v4InV6Prefix @ [0, 0, 0, 0])" "ParseIP ''::'' = Some (replicate 16 0)"
    by (simp_all add: ParseIP_def address_simps)
  then show "\<not> reserved_text ''0.0.0.0''" "\<not> reserved_text ''::''"
    using guard_matches_documentation
    by (simp_all add: reserved_text_def documented_range_def To4_def v4InV6Prefix_def replicate_numeral)
qed

end
