(* ===== verification/UserSettings.thy ===== *)
theory UserSettings
  imports UserHazards WebhookGuard CivilTime
begin

section \<open>Settings, access tokens and webhooks of a user (server/router/api/v1/user\_service.go)\<close>

text \<open>
  The handlers that read and write the rows of \<open>user_setting\<close>. Random bytes, the URL check of
  webhooks and the zone of the server are fields of \<open>setting_env\<close>; times are nanoseconds.
\<close>

subsection \<open>Messages\<close>

record user_webhook =
  pw_Name :: string
  pw_Url :: string
  pw_DisplayName :: string

datatype api_setting_value =
    GeneralSetting general_user_setting | WebhooksSetting "user_webhook list"

record api_user_setting =
  ps_Name :: string
  ps_Value :: "api_setting_value option"

record api_personal_token =
  pp_Name :: string
  pp_Description :: string
  pp_ExpiresAt :: "int option"
  pp_CreatedAt :: int
  pp_LastUsedAt :: "int option"

record setting_env =
  se_api :: api_env
  se_net :: net_env
  se_bytes :: "nat \<Rightarrow> nat list"
  se_zone :: zone

abbreviation db_of :: "setting_env \<Rightarrow> acc_env" where
  "db_of S \<equiv> acc_of (se_api S)"

subsection \<open>Conversions\<close>

definition getDefaultUserGeneralSetting :: general_user_setting where
  "getDefaultUserGeneralSetting = \<lparr>gu_Locale = ''en'', gu_MemoVisibility = ''PRIVATE'', gu_Theme = []\<rparr>"

definition empty_general :: general_user_setting where
  "empty_general = \<lparr>gu_Locale = [], gu_MemoVisibility = [], gu_Theme = []\<rparr>"

definition convertSettingKeyToStore :: "string \<Rightarrow> string + setting_key" where
  "convertSettingKeyToStore key =
     (if key = ''GENERAL'' then Inr GENERAL
      else if key = ''WEBHOOKS'' then Inr WEBHOOKS
      else Inl (''unknown setting key: '' @ key))"

definition convertSettingKeyFromStore :: "setting_key \<Rightarrow> string" where
  "convertSettingKeyFromStore k =
     (case k of GENERAL \<Rightarrow> ''GENERAL'' | SHORTCUTS \<Rightarrow> ''SHORTCUTS'' | WEBHOOKS \<Rightarrow> ''WEBHOOKS''
      | _ \<Rightarrow> ''unknown'')"

definition setting_name :: "int \<Rightarrow> string \<Rightarrow> string" where
  "setting_name i key = ''users/'' @ itoa i @ ''/settings/'' @ key"

definition convertUserWebhookFromUserSetting :: "int \<Rightarrow> webhook \<Rightarrow> user_webhook" where
  "convertUserWebhookFromUserSetting i h =
     \<lparr>pw_Name = ''users/'' @ itoa i @ ''/webhooks/'' @ wh_Id h, pw_Url = wh_Url h, pw_DisplayName = wh_Title h\<rparr>"

fun GetGeneral :: "setting_value \<Rightarrow> general_user_setting option" where
  "GetGeneral (General g) = Some g"
| "GetGeneral _ = None"

definition convertUserSettingFromStore :: "user_setting option \<Rightarrow> int \<Rightarrow> setting_key \<Rightarrow> api_user_setting" where
  "convertUserSettingFromStore storeSetting i key =
     (case storeSetting of
        None \<Rightarrow>
          \<lparr>ps_Name = setting_name i (convertSettingKeyFromStore key),
           ps_Value = Some (if key = WEBHOOKS then WebhooksSetting []
                       else GeneralSetting getDefaultUserGeneralSetting)\<rparr>
      | Some s \<Rightarrow>
          \<lparr>ps_Name = setting_name i (convertSettingKeyFromStore (us_Key s)),
           ps_Value = Some (
             if us_Key s = GENERAL then
               GeneralSetting (case GetGeneral (us_Value s) of Some g \<Rightarrow> g | None \<Rightarrow> getDefaultUserGeneralSetting)
             else if us_Key s = WEBHOOKS then
               WebhooksSetting (map (convertUserWebhookFromUserSetting i) (webhooks_of_value (us_Value s)))
             else GeneralSetting getDefaultUserGeneralSetting)\<rparr>)"

definition GetGeneralSetting :: "api_user_setting \<Rightarrow> general_user_setting option" where
  "GetGeneralSetting s = (case ps_Value s of Some (GeneralSetting g) \<Rightarrow> Some g | _ \<Rightarrow> None)"

definition GetWebhooksSetting :: "api_user_setting \<Rightarrow> user_webhook list option" where
  "GetWebhooksSetting s = (case ps_Value s of Some (WebhooksSetting hs) \<Rightarrow> Some hs | _ \<Rightarrow> None)"

definition convertUserSettingToStore :: "api_user_setting \<Rightarrow> int \<Rightarrow> setting_key \<Rightarrow> string + user_setting" where
  "convertUserSettingToStore s i key =
     (if key = GENERAL then
        (case GetGeneralSetting s of
           None \<Rightarrow> Inl ''general setting is required''
         | Some g \<Rightarrow> Inr \<lparr>us_UserID = i, us_Key = key, us_Value = General g\<rparr>)
      else if key = WEBHOOKS then
        (case GetWebhooksSetting s of
           None \<Rightarrow> Inl ''webhooks setting is required''
         | Some hs \<Rightarrow> Inr \<lparr>us_UserID = i, us_Key = key, us_Value = Webhooks (map (\<lambda>h.
             \<lparr>wh_Id = extractWebhookIDFromName (pw_Name h), wh_Title = pw_DisplayName h, wh_Url = pw_Url h\<rparr>) hs)\<rparr>)
      else Inl (''unsupported setting key: '' @ setting_key_string key))"

subsection \<open>Settings\<close>

definition require_self :: "api_env \<Rightarrow> int \<Rightarrow> ctx \<Rightarrow> accounts \<Rightarrow> user reply" where
  "require_self P i c w =
     and_then (require_user P ''failed to get current user'' c w) (\<lambda>u w.
     if user_ID u \<noteq> i then (Inl permission_denied, w) else (Inr u, w))"

definition GetUserSetting :: "setting_env \<Rightarrow> ctx \<Rightarrow> string \<Rightarrow> accounts \<Rightarrow> api_user_setting reply" where
  "GetUserSetting S c name w =
     and_then (argument ''invalid resource name'' (ExtractUserIDAndSettingKeyFromName name) w) (\<lambda>(userID, settingKey) w.
     and_then (require_self (se_api S) userID c w) (\<lambda>_ w.
     and_then (argument ''invalid setting key'' (convertSettingKeyToStore settingKey) w) (\<lambda>storeKey w.
     and_then (map_err (status_of Internal ''failed to get user setting'')
         (store_GetUserSetting (db_of S) (setting_of userID storeKey) w)) (\<lambda>s w.
     (Inr (convertUserSettingFromStore s userID storeKey), w)))))"

record update_setting_request =
  sr_Setting :: "api_user_setting option"
  sr_UpdateMask :: "string list"

text \<open>The loop over the mask; \<open>None\<close> is the panic of a path without an incoming value.\<close>

fun merge_general :: "general_user_setting option \<Rightarrow> string list \<Rightarrow> general_user_setting \<Rightarrow> general_user_setting option" where
  "merge_general inc [] g = Some g"
| "merge_general inc (f # fs) g =
     (if f = ''memo_visibility'' then
        (case inc of None \<Rightarrow> None | Some n \<Rightarrow> merge_general inc fs (g\<lparr>gu_MemoVisibility := gu_MemoVisibility n\<rparr>))
      else if f = ''theme'' then
        (case inc of None \<Rightarrow> None | Some n \<Rightarrow> merge_general inc fs (g\<lparr>gu_Theme := gu_Theme n\<rparr>))
      else if f = ''locale'' then
        (case inc of None \<Rightarrow> None | Some n \<Rightarrow> merge_general inc fs (g\<lparr>gu_Locale := gu_Locale n\<rparr>))
      else merge_general inc fs g)"

text \<open>An error of the first read is dropped, as if there were no row.\<close>

definition existing_general :: "setting_env \<Rightarrow> int \<Rightarrow> accounts \<Rightarrow> general_user_setting \<times> accounts" where
  "existing_general S i w =
     (case store_GetUserSetting (db_of S) (setting_of i GENERAL) w of
        (Inr (Some s), w) \<Rightarrow> (case GetGeneral (us_Value s) of Some g \<Rightarrow> g | None \<Rightarrow> empty_general, w)
      | (_, w) \<Rightarrow> (empty_general, w))"

definition write_general :: "setting_env \<Rightarrow> int \<Rightarrow> api_user_setting \<Rightarrow> string list \<Rightarrow> accounts \<Rightarrow> unit reply" where
  "write_general S userID st paths w =
     (let (old, w) = existing_general S userID w in
      case merge_general (GetGeneralSetting st) paths old of
        None \<Rightarrow> (Inl nil_dereference, w)
      | Some updated \<Rightarrow>
          and_then (argument ''failed to convert setting''
              (convertUserSettingToStore \<lparr>ps_Name = ps_Name st, ps_Value = Some (GeneralSetting updated)\<rparr> userID GENERAL) w)
            (\<lambda>s w.
          and_then (map_err (status_of Internal ''failed to upsert user setting'')
              (store_UpsertUserSetting (db_of S) s w)) (\<lambda>_ w. (Inr (), w))))"

definition UpdateUserSetting :: "setting_env \<Rightarrow> ctx \<Rightarrow> update_setting_request \<Rightarrow> accounts \<Rightarrow> api_user_setting reply" where
  "UpdateUserSetting S c req w =
     (case sr_Setting req of
        None \<Rightarrow> (Inl nil_dereference, w)
      | Some st \<Rightarrow>
          and_then (argument ''invalid resource name'' (ExtractUserIDAndSettingKeyFromName (ps_Name st)) w)
            (\<lambda>(userID, settingKey) w.
          and_then (require_self (se_api S) userID c w) (\<lambda>_ w.
          if sr_UpdateMask req = [] then (Inl (Status InvalidArgument ''update mask is empty''), w)
          else and_then (argument ''invalid setting key'' (convertSettingKeyToStore settingKey) w) (\<lambda>storeKey w.
          if storeKey \<noteq> GENERAL
          then (Inl (Status InvalidArgument (''setting type '' @ setting_key_string storeKey @
                  '' should not be updated via UpdateUserSetting'')), w)
          else and_then (write_general S userID st (sr_UpdateMask req) w) (\<lambda>_ w.
            GetUserSetting S c (ps_Name st) w)))))"

definition ListUserSettings :: "setting_env \<Rightarrow> ctx \<Rightarrow> string \<Rightarrow> accounts \<Rightarrow> api_user_setting list reply" where
  "ListUserSettings S c parent w =
     and_then (argument ''invalid parent name'' (ExtractUserIDFromName parent) w) (\<lambda>userID w.
     and_then (require_self (se_api S) userID c w) (\<lambda>_ w.
     and_then (map_err (status_of Internal ''failed to list user settings'')
         (store_ListUserSettings (db_of S) \<lparr>fs_UserID = Some userID, fs_Key = KEY_UNSPECIFIED\<rparr> w)) (\<lambda>rows w.
     let settings = map (\<lambda>s. convertUserSettingFromStore (Some s) userID (us_Key s)) rows;
         hasGeneral = list_ex (\<lambda>s. GetGeneralSetting s \<noteq> None) settings
     in (Inr (if hasGeneral then settings
          else \<lparr>ps_Name = ''users/'' @ itoa userID @ ''/settings/general'',
                ps_Value = Some (GeneralSetting getDefaultUserGeneralSetting)\<rparr> # settings), w))))"

subsection \<open>Personal access tokens\<close>

text \<open>
  The check of the three token handlers: the claims of the request, or the current user, whose
  lookup may fail without a trace. Only the list may be read by administrators.
\<close>

definition may_use_tokens :: "api_env \<Rightarrow> bool \<Rightarrow> int \<Rightarrow> ctx \<Rightarrow> accounts \<Rightarrow> unit reply" where
  "may_use_tokens P admins_too i c w =
     (if (case GetUserClaims c of None \<Rightarrow> True | Some cl \<Rightarrow> uc_UserID cl \<noteq> i) then
        (case maybe_user P c w of
           (None, w) \<Rightarrow> (Inl permission_denied, w)
         | (Some u, w) \<Rightarrow>
             if user_ID u \<noteq> i \<and> \<not> (admins_too \<and> user_Role u = RoleAdmin)
             then (Inl permission_denied, w) else (Inr (), w))
      else (Inr (), w))"

definition token_name :: "string \<Rightarrow> string \<Rightarrow> string" where
  "token_name parent tokenID = parent @ ''/personalAccessTokens/'' @ tokenID"

definition api_token :: "string \<Rightarrow> personal_token \<Rightarrow> api_personal_token" where
  "api_token parent t =
     \<lparr>pp_Name = token_name parent (pat_TokenId t), pp_Description = pat_Description t,
      pp_ExpiresAt = pat_ExpiresAt t, pp_CreatedAt = pat_CreatedAt t, pp_LastUsedAt = pat_LastUsedAt t\<rparr>"

definition ListPersonalAccessTokens :: "setting_env \<Rightarrow> ctx \<Rightarrow> string \<Rightarrow> accounts \<Rightarrow> api_personal_token list reply" where
  "ListPersonalAccessTokens S c parent w =
     and_then (argument ''invalid user name'' (ExtractUserIDFromName parent) w) (\<lambda>userID w.
     and_then (may_use_tokens (se_api S) True userID c w) (\<lambda>_ w.
     and_then (map_err (status_of Internal ''failed to get access tokens'')
         (GetUserPersonalAccessTokens (db_of S) userID w)) (\<lambda>ts w.
     (Inr (map (api_token parent) ts), w))))"

record create_token_request =
  ct_Parent :: string
  ct_Description :: string
  ct_ExpiresInDays :: int

definition days_later :: "zone \<Rightarrow> int \<Rightarrow> int \<Rightarrow> int" where
  "days_later z t days = add_date z (unix t) 0 0 days * second_ns + t mod second_ns"

text \<open>The draws of the handler, in its order: token id, token (with a UUID to fall back to), times.\<close>

definition new_token :: "setting_env \<Rightarrow> create_token_request \<Rightarrow> accounts \<Rightarrow> (string \<times> personal_token) \<times> accounts" where
  "new_token S req w =
     (let P = se_api S;
          (tokenID, w) = ask (ap_uuid P) w;
          (draws, w) = ask (ap_random P) w;
          (uuid, w) = ask (ap_uuid P) w;
          tok = GeneratePersonalAccessToken draws uuid;
          (expiresAt, w) = (if 0 < ct_ExpiresInDays req
             then let (t, w) = ask (ae_now (db_of S)) w in (Some (days_later (se_zone S) t (ct_ExpiresInDays req)), w)
             else (None, w));
          (createdAt, w) = ask (ae_now (db_of S)) w
      in ((tok, \<lparr>pat_TokenId = tokenID, pat_TokenHash = HashPersonalAccessToken (ap_auth P) tok,
             pat_Description = ct_Description req, pat_ExpiresAt = expiresAt, pat_CreatedAt = createdAt,
             pat_LastUsedAt = None\<rparr>), w))"

definition CreatePersonalAccessToken ::
  "setting_env \<Rightarrow> ctx \<Rightarrow> create_token_request \<Rightarrow> accounts \<Rightarrow> (api_personal_token \<times> string) reply" where
  "CreatePersonalAccessToken S c req w =
     and_then (argument ''invalid user name'' (ExtractUserIDFromName (ct_Parent req)) w) (\<lambda>userID w.
     and_then (may_use_tokens (se_api S) False userID c w) (\<lambda>_ w.
     case new_token S req w of ((tok, record), w) \<Rightarrow>
     and_then (map_err (status_of Internal ''failed to create access token'')
         (AddUserPersonalAccessToken (db_of S) userID record w)) (\<lambda>_ w.
     (Inr (api_token (ct_Parent req) record, tok), w))))"

definition token_of_name :: "string \<Rightarrow> api_error + (int \<times> string)" where
  "token_of_name name =
     (case split_on slash name of
        [a, b, c, d] \<Rightarrow>
          if a \<noteq> ''users'' \<or> c \<noteq> ''personalAccessTokens''
          then Inl (Status InvalidArgument ''invalid personal access token name'')
          else (case ConvertStringToInt32 b of
              Inl e \<Rightarrow> Inl (status_of InvalidArgument ''invalid user ID'' e)
            | Inr i \<Rightarrow> Inr (i, d))
      | _ \<Rightarrow> Inl (Status InvalidArgument ''invalid personal access token name''))"

definition DeletePersonalAccessToken :: "setting_env \<Rightarrow> ctx \<Rightarrow> string \<Rightarrow> accounts \<Rightarrow> unit reply" where
  "DeletePersonalAccessToken S c name w =
     and_then (token_of_name name, w) (\<lambda>(userID, tokenID) w.
     and_then (may_use_tokens (se_api S) False userID c w) (\<lambda>_ w.
     map_err (status_of Internal ''failed to delete access token'')
       (RemoveUserPersonalAccessToken (db_of S) userID tokenID w)))"

subsection \<open>Webhooks\<close>

definition validated :: "setting_env \<Rightarrow> string \<Rightarrow> accounts \<Rightarrow> unit reply" where
  "validated S url w =
     (case ask (\<lambda>k. ValidateURL (se_net S) k url) w of (None, w) \<Rightarrow> (Inr (), w) | (Some e, w) \<Rightarrow> (Inl e, w))"

definition hex_digit :: "nat \<Rightarrow> char" where
  "hex_digit n = (if n < 10 then byte (48 + n) else byte (87 + n))"

definition generateUserWebhookID :: "nat list \<Rightarrow> string" where
  "generateUserWebhookID bytes = concat (map (\<lambda>b. [hex_digit (b div 16), hex_digit (b mod 16)]) bytes)"

definition ListUserWebhooks :: "setting_env \<Rightarrow> ctx \<Rightarrow> string \<Rightarrow> accounts \<Rightarrow> user_webhook list reply" where
  "ListUserWebhooks S c parent w =
     and_then (argument ''invalid parent'' (ExtractUserIDFromName parent) w) (\<lambda>userID w.
     and_then (require_self_or_admin (se_api S) ''failed to get current user'' userID c w) (\<lambda>_ w.
     and_then (map_err (status_of Internal ''failed to get user webhooks'') (GetUserWebhooks (db_of S) userID w)) (\<lambda>hs w.
     (Inr (map (convertUserWebhookFromUserSetting userID) hs), w))))"

text \<open>The webhook of the request is \<open>None\<close> when the field is missing.\<close>

definition CreateUserWebhook ::
  "setting_env \<Rightarrow> ctx \<Rightarrow> string \<Rightarrow> user_webhook option \<Rightarrow> accounts \<Rightarrow> user_webhook reply" where
  "CreateUserWebhook S c parent hook w =
     and_then (argument ''invalid parent'' (ExtractUserIDFromName parent) w) (\<lambda>userID w.
     and_then (require_self_or_admin (se_api S) ''failed to get current user'' userID c w) (\<lambda>_ w.
     case hook of
       None \<Rightarrow> (Inl nil_dereference, w)
     | Some h \<Rightarrow>
         if pw_Url h = [] then (Inl (Status InvalidArgument ''webhook URL is required''), w)
         else and_then (validated S (trim_space (pw_Url h)) w) (\<lambda>_ w.
           case ask (se_bytes S) w of (bytes, w) \<Rightarrow>
           let stored = \<lparr>wh_Id = generateUserWebhookID bytes, wh_Title = pw_DisplayName h, wh_Url = trim_space (pw_Url h)\<rparr> in
           and_then (map_err (status_of Internal ''failed to create webhook'')
               (AddUserWebhook (db_of S) userID stored w)) (\<lambda>_ w.
           (Inr (convertUserWebhookFromUserSetting userID stored), w)))))"

definition set_url :: "setting_env \<Rightarrow> user_webhook \<Rightarrow> webhook \<Rightarrow> accounts \<Rightarrow> webhook reply" where
  "set_url S h up w =
     (if pw_Url h = [] then (Inr up, w)
      else and_then (validated S (trim_space (pw_Url h)) w) (\<lambda>_ w.
        (Inr (up\<lparr>wh_Url := trim_space (pw_Url h)\<rparr>), w)))"

fun update_webhook_fields ::
  "setting_env \<Rightarrow> user_webhook \<Rightarrow> string list \<Rightarrow> webhook \<Rightarrow> accounts \<Rightarrow> webhook reply" where
  "update_webhook_fields S h [] up w = (Inr up, w)"
| "update_webhook_fields S h (p # ps) up w =
     (if p = ''url'' then and_then (set_url S h up w) (\<lambda>up w. update_webhook_fields S h ps up w)
      else if p = ''display_name'' then update_webhook_fields S h ps (up\<lparr>wh_Title := pw_DisplayName h\<rparr>) w
      else update_webhook_fields S h ps up w)"

record update_webhook_request =
  uw_Webhook :: "user_webhook option"
  uw_UpdateMask :: "string list option"

definition found_webhook :: "setting_env \<Rightarrow> int \<Rightarrow> string \<Rightarrow> accounts \<Rightarrow> webhook reply" where
  "found_webhook S userID webhookID w =
     and_then (map_err (status_of Internal ''failed to get user webhooks'') (GetUserWebhooks (db_of S) userID w)) (\<lambda>hs w.
     case find (\<lambda>h. wh_Id h = webhookID) hs of
       None \<Rightarrow> (Inl (Status NotFound ''webhook not found''), w)
     | Some h \<Rightarrow> (Inr h, w))"

definition UpdateUserWebhook_handler ::
  "setting_env \<Rightarrow> ctx \<Rightarrow> update_webhook_request \<Rightarrow> accounts \<Rightarrow> user_webhook reply" where
  "UpdateUserWebhook_handler S c req w =
     (case uw_Webhook req of
        None \<Rightarrow> (Inl (Status InvalidArgument ''webhook is required''), w)
      | Some h \<Rightarrow>
          and_then (argument ''invalid webhook name'' (parseUserWebhookName (pw_Name h)) w) (\<lambda>(webhookID, userID) w.
          and_then (require_self_or_admin (se_api S) ''failed to get current user'' userID c w) (\<lambda>_ w.
          and_then (found_webhook S userID webhookID w) (\<lambda>target w.
          and_then (case uw_UpdateMask req of
              Some paths \<Rightarrow> update_webhook_fields S h paths (target\<lparr>wh_Id := webhookID\<rparr>) w
            | None \<Rightarrow> and_then (set_url S h (target\<lparr>wh_Id := webhookID\<rparr>) w) (\<lambda>up w.
                (Inr (up\<lparr>wh_Title := pw_DisplayName h\<rparr>), w))) (\<lambda>up w.
          and_then (map_err (status_of Internal ''failed to update webhook'')
              (UpdateUserWebhook (db_of S) userID up w)) (\<lambda>_ w.
          (Inr (convertUserWebhookFromUserSetting userID up), w)))))))"

definition DeleteUserWebhook :: "setting_env \<Rightarrow> ctx \<Rightarrow> string \<Rightarrow> accounts \<Rightarrow> unit reply" where
  "DeleteUserWebhook S c name w =
     and_then (argument ''invalid webhook name'' (parseUserWebhookName name) w) (\<lambda>(webhookID, userID) w.
     and_then (require_self_or_admin (se_api S) ''failed to get current user'' userID c w) (\<lambda>_ w.
     and_then (found_webhook S userID webhookID w) (\<lambda>_ w.
     map_err (status_of Internal ''failed to delete webhook'')
       (RemoveUserWebhook (db_of S) userID webhookID w))))"

end
