(* ===== verification/SettingsSafety.thy ===== *)
theory SettingsSafety
  imports UserSettings
begin

section \<open>What the settings handlers may change\<close>

text \<open>
  Every request of the settings handlers as a step, and the rows it can change: those of the
  user who asks, and webhooks of anyone for an administrator. Then the life of a personal
  access token and the merge of general settings.
\<close>

named_theorems table_intros \<open>operations that leave the settings alone\<close>

definition same_table :: "accounts \<Rightarrow> accounts \<Rightarrow> bool" where
  "same_table w v \<longleftrightarrow> ac_settings v = ac_settings w"

lemma same_table_simps [simp]:
  "same_table w w"
  "same_table w (tick_ac v) = same_table w v"
  "same_table w (cache_setting s v) = same_table w v"
  "same_table w (w\<lparr>ac_setting_cache := c\<rparr>)"
  "same_table (tick_ac w) v = same_table w v"
  by (simp_all add: same_table_def tick_ac_def cache_setting_def)

lemma same_table_fold [simp]: "same_table w (fold cache_setting ss v) = same_table w v"
  by (induction ss arbitrary: v) auto

lemma same_table_trans: "same_table u v \<Longrightarrow> same_table v w \<Longrightarrow> same_table u w"
  by (simp add: same_table_def)

lemma table_then [table_intros]:
  assumes "same_table w (snd m)" and "\<And>a s. m = (Inr a, s) \<Longrightarrow> same_table s (snd (f a s))"
  shows "same_table w (snd (and_then m f))"
proof (cases m)
  case (Pair r s)
  with assms show ?thesis by (cases r) (auto intro: same_table_trans)
qed

lemma table_settings: "same_settings w v \<Longrightarrow> same_table w v"
  by (simp add: same_settings_def same_table_def)

lemma table_get_user [table_intros]: "same_table w (snd (store_GetUser E f w))"
  by (rule table_settings) (rule same_settings_get)

lemma table_list_settings [table_intros]: "same_table w (snd (store_ListUserSettings E f w))"
  by (auto simp: store_ListUserSettings_def sqlite_ListUserSettings_def db_call_def Let_def intro!: table_intros
      split: option.splits)

lemma table_only_setting: "same_table w (snd (only_setting E f w))"
  unfolding only_setting_def
  by (rule table_then [OF table_list_settings]) (auto split: list.splits)

lemma table_get_setting [table_intros]: "same_table w (snd (store_GetUserSetting E f w))"
proof -
  have "same_table w u" if "cached_setting E k w = (r, u)" for k r u
    using that by (auto simp: cached_setting_def split: if_splits)
  then show ?thesis
    using table_only_setting same_table_trans
    by (fastforce simp: store_GetUserSetting_def split: option.splits prod.splits)
qed

lemma table_lists [table_intros]:
  "same_table w (snd (GetUserPersonalAccessTokens E i w))"
  "same_table w (snd (GetUserWebhooks E i w))"
  by (auto simp: GetUserPersonalAccessTokens_def GetUserWebhooks_def intro!: table_then table_get_setting)

lemma table_ask [simp]: "same_table w (snd (ask f w))"
  by (simp add: ask_def)

lemma table_who [table_intros]:
  "same_table w (snd (fetchCurrentUser P c w))"
  "same_table w (snd (maybe_user P c w))"
  "same_table w (snd (require_user P msg c w))"
  "same_table w (snd (require_self P i c w))"
  "same_table w (snd (require_self_or_admin P msg i c w))"
proof -
  show f: "same_table w (snd (fetchCurrentUser P c w))" for w
    by (auto simp: fetchCurrentUser_def Let_def intro!: table_intros split: option.splits)
  then show "same_table w (snd (maybe_user P c w))"
    by (auto simp: maybe_user_def split: prod.splits sum.splits dest: arg_cong [of _ _ snd])
      (metis snd_conv)+
  show u: "same_table w (snd (require_user P msg c w))" for msg w
    unfolding require_user_def by (rule table_then) (use f in \<open>auto split: option.splits\<close>)
  show "same_table w (snd (require_self P i c w))" "same_table w (snd (require_self_or_admin P msg i c w))"
    unfolding require_self_def require_self_or_admin_def by (rule table_then [OF u]; simp)+
qed

lemma table_argument [table_intros]: "same_table w (snd (argument msg r w))"
  by (simp add: argument_def split: sum.splits)

subsection \<open>Rows that an operation may write\<close>

definition writes :: "(int \<Rightarrow> setting_key \<Rightarrow> bool) \<Rightarrow> accounts \<Rightarrow> accounts \<Rightarrow> bool" where
  "writes A w v \<longleftrightarrow> (\<forall>i k. \<not> A i k \<longrightarrow> row_of v i k = row_of w i k)"

lemma writes_none: "same_table w v \<Longrightarrow> writes A w v"
  by (simp add: writes_def same_table_def)

lemma writes_trans: "writes A u v \<Longrightarrow> writes A v w \<Longrightarrow> writes A u w"
  by (simp add: writes_def)

lemma writes_then:
  assumes "writes A w (snd m)" and "\<And>a s. m = (Inr a, s) \<Longrightarrow> writes A s (snd (f a s))"
  shows "writes A w (snd (and_then m f))"
proof (cases m)
  case (Pair r s)
  with assms show ?thesis by (cases r) (auto intro: writes_trans)
qed

text \<open>A first part that reads, and a second part that runs only when the first succeeded.\<close>

lemma writes_after:
  assumes "same_table w (snd m)" and "\<And>a s. m = (Inr a, s) \<Longrightarrow> same_table w s \<Longrightarrow> writes A s (snd (f a s))"
  shows "writes A w (snd (and_then m f))"
proof (rule writes_then [OF writes_none [OF assms(1)]])
  fix a s
  assume m: "m = (Inr a, s)"
  with assms(1) have "same_table w s" by simp
  with assms(2) m show "writes A s (snd (f a s))" by blast
qed

lemma writes_upsert:
  assumes "A (us_UserID x) (us_Key x)"
  shows "writes A w (snd (store_UpsertUserSetting E x w))"
proof -
  have put: "writes A w (w\<lparr>ac_settings := put_setting x (ac_settings w)\<rparr>)" for w
    using assms unfolding writes_def row_put by auto
  have "writes A w (cache_setting x (tick_ac (w\<lparr>ac_settings := put_setting x (ac_settings w)\<rparr>)))" for w
    using writes_trans [OF put writes_none] by simp
  then show ?thesis
    by (auto simp: store_UpsertUserSetting_def convertUserSettingToRaw_def sqlite_UpsertUserSetting_def db_call_def
        convertUserSettingFromRaw_def writes_none split: option.splits)
qed

lemma writes_save: "A i k \<Longrightarrow> writes A w (snd (save_setting E i k v w))"
  unfolding save_setting_def
  by (rule writes_then [OF writes_upsert]) (simp_all add: writes_none)

lemma table_change_cached: "same_table w (change_in_cache i k v w)"
  by (simp add: change_in_cache_def split: option.splits)

lemma writes_lists:
  "A i PERSONAL_ACCESS_TOKENS \<Longrightarrow> writes A w (snd (AddUserPersonalAccessToken E i t w))"
  "A i PERSONAL_ACCESS_TOKENS \<Longrightarrow> writes A w (snd (RemoveUserPersonalAccessToken E i tid w))"
  "A i WEBHOOKS \<Longrightarrow> writes A w (snd (AddUserWebhook E i h w))"
  "A i WEBHOOKS \<Longrightarrow> writes A w (snd (RemoveUserWebhook E i hid w))"
  "A i WEBHOOKS \<Longrightarrow> writes A w (snd (UpdateUserWebhook E i h w))"
proof -
  show "A i PERSONAL_ACCESS_TOKENS \<Longrightarrow> writes A w (snd (AddUserPersonalAccessToken E i t w))"
    unfolding AddUserPersonalAccessToken_def by (rule writes_after [OF table_lists(1) writes_save])
  show "A i PERSONAL_ACCESS_TOKENS \<Longrightarrow> writes A w (snd (RemoveUserPersonalAccessToken E i tid w))"
    unfolding RemoveUserPersonalAccessToken_def by (rule writes_after [OF table_lists(1) writes_save])
  show "A i WEBHOOKS \<Longrightarrow> writes A w (snd (AddUserWebhook E i h w))"
    unfolding AddUserWebhook_def Let_def by (rule writes_after [OF table_lists(2) writes_save])
  show "A i WEBHOOKS \<Longrightarrow> writes A w (snd (RemoveUserWebhook E i hid w))"
    unfolding RemoveUserWebhook_def by (rule writes_after [OF table_lists(2) writes_save])
  show "A i WEBHOOKS \<Longrightarrow> writes A w (snd (UpdateUserWebhook E i h w))"
    unfolding UpdateUserWebhook_def Let_def
    by (rule writes_after [OF table_lists(2)])
      (rule writes_trans [OF writes_none [OF table_change_cached] writes_save])
qed

subsection \<open>Who may change what\<close>

definition may_change :: "ctx \<Rightarrow> accounts \<Rightarrow> int \<Rightarrow> setting_key \<Rightarrow> bool" where
  "may_change c w i k \<longleftrightarrow>
     (k = GENERAL \<and> i = GetUserID c) \<or>
     (k = PERSONAL_ACCESS_TOKENS \<and> (i = GetUserID c \<or> (\<exists>cl. GetUserClaims c = Some cl \<and> uc_UserID cl = i))) \<or>
     (k = WEBHOOKS \<and> (i = GetUserID c \<or> asked_by_admin c w))"

lemma self_passed:
  assumes "user_inv w" "ids_small w" "require_self P i c w = (Inr u, v)"
  shows "i = GetUserID c"
proof -
  from assms(3) have "fetchCurrentUser P c w = (Inr (Some u), v)" "user_ID u = i"
    by (auto simp: require_self_def require_user_def and_then_Inr split: if_splits option.splits)
  with current_row [OF assms(1,2)] show ?thesis by auto
qed

lemma self_or_admin_passed:
  assumes "user_inv w" "ids_small w" "require_self_or_admin P msg i c w = (Inr u, v)"
  shows "i = GetUserID c \<or> asked_by_admin c w"
  using self_or_admin [OF assms] by blast

lemma tokens_passed:
  assumes "user_inv w" "ids_small w" "may_use_tokens P False i c w = (Inr (), v)"
  shows "i = GetUserID c \<or> (\<exists>cl. GetUserClaims c = Some cl \<and> uc_UserID cl = i)"
proof (cases "\<exists>cl. GetUserClaims c = Some cl \<and> uc_UserID cl = i")
  case False
  with assms(3) obtain u where "maybe_user P c w = (Some u, v)" "user_ID u = i"
    by (auto simp: may_use_tokens_def split: option.splits prod.splits if_splits)
  then have "fetchCurrentUser P c w = (Inr (Some u), v)"
    by (auto simp: maybe_user_def split: prod.splits sum.splits)
  with current_row [OF assms(1,2)] \<open>user_ID u = i\<close> show ?thesis by auto
qed blast

lemma table_may_use [table_intros]: "same_table w (snd (may_use_tokens P adm i c w))"
  using table_who(2) [of w P c] by (auto simp: may_use_tokens_def split: option.splits prod.splits)

text \<open>The name is read first; the state is still the one before the request.\<close>

lemma after_argument:
  assumes "\<And>a. r = Inr a \<Longrightarrow> writes A w (snd (f a w))"
  shows "writes A w (snd (and_then (argument msg r w) f))"
  using assms by (cases r) (auto simp: argument_def writes_none)

lemma table_existing: "same_table w (snd (existing_general S i w))"
  using table_get_setting [of w "db_of S" "setting_of i GENERAL"]
  by (auto simp: existing_general_def split: prod.splits sum.splits option.splits)

lemma table_validated: "same_table w (snd (validated S url w))"
  by (auto simp: validated_def ask_def split: option.splits)

lemma table_set_url: "same_table w (snd (set_url S h up w))"
  unfolding set_url_def by (auto intro!: table_then table_validated)

lemma table_webhook_fields: "same_table w (snd (update_webhook_fields S h ps up w))"
  by (induction S h ps up w rule: update_webhook_fields.induct) (auto intro!: table_then table_set_url)

lemma table_found_webhook: "same_table w (snd (found_webhook S i hid w))"
  by (auto simp: found_webhook_def intro!: table_then table_lists split: option.splits)

lemma table_new_token: "same_table w (snd (new_token S req w))"
  by (simp add: new_token_def ask_def Let_def)

lemma table_GetUserSetting: "same_table w (snd (GetUserSetting S c name w))"
  unfolding GetUserSetting_def
  by (auto intro!: table_then table_argument table_who table_get_setting split: prod.splits)

lemma writes_general: "A i GENERAL \<Longrightarrow> writes A w (snd (write_general S i st paths w))"
proof -
  assume A: "A i GENERAL"
  have "writes A u (snd (and_then (argument msg
      (convertUserSettingToStore \<lparr>ps_Name = n, ps_Value = Some (GeneralSetting g)\<rparr> i GENERAL) u)
      (\<lambda>s w. and_then (map_err h (store_UpsertUserSetting (db_of S) s w)) (\<lambda>_ w. (Inr (), w)))))" for u msg n g h
    by (rule after_argument, rule writes_then)
      (auto simp: convertUserSettingToStore_def GetGeneralSetting_def writes_none A intro!: writes_upsert)
  then show ?thesis
    using table_existing [of w S i]
    by (auto simp: write_general_def Let_def split: prod.splits option.splits
        intro: writes_none writes_trans [OF writes_none])
qed

lemma writes_UpdateUserSetting:
  assumes "user_inv w" "ids_small w"
  shows "writes (may_change c w) w (snd (UpdateUserSetting S c req w))"
proof (cases "sr_Setting req")
  case (Some st)
  show ?thesis
    unfolding UpdateUserSetting_def Some option.case
  proof (rule after_argument, clarify, rule writes_after [OF table_who(4)])
    fix i key u s
    assume "require_self (se_api S) i c w = (Inr u, s)"
    with self_passed [OF assms] have i: "may_change c w i GENERAL" by (simp add: may_change_def)
    show "writes (may_change c w) s (snd (if sr_UpdateMask req = []
        then (Inl (Status InvalidArgument ''update mask is empty''), s)
        else and_then (argument ''invalid setting key'' (convertSettingKeyToStore key) s) (\<lambda>k w.
          if k \<noteq> GENERAL
          then (Inl (Status InvalidArgument (''setting type '' @ setting_key_string k @
                  '' should not be updated via UpdateUserSetting'')), w)
          else and_then (write_general S i st (sr_UpdateMask req) w) (\<lambda>_ w. GetUserSetting S c (ps_Name st) w))))"
      by (auto simp: writes_none intro!: after_argument writes_then [OF writes_general]
          writes_none [OF table_GetUserSetting] i)
  qed
qed (simp add: UpdateUserSetting_def writes_none)

lemma writes_tokens:
  assumes "user_inv w" "ids_small w"
  shows "writes (may_change c w) w (snd (CreatePersonalAccessToken S c req w))"
    "writes (may_change c w) w (snd (DeletePersonalAccessToken S c name w))"
proof -
  have allowed: "may_change c w i PERSONAL_ACCESS_TOKENS"
    if "may_use_tokens (se_api S) False i c w = (Inr (), s)" for i s
    using tokens_passed [OF assms that] by (simp add: may_change_def)
  show "writes (may_change c w) w (snd (CreatePersonalAccessToken S c req w))"
    unfolding CreatePersonalAccessToken_def
  proof (rule after_argument, rule writes_after [OF table_may_use])
    fix i a s
    assume ok: "may_use_tokens (se_api S) False i c w = (Inr a, s)"
    obtain tok entry u where n: "new_token S req s = ((tok, entry), u)"
      by (cases "new_token S req s") auto
    then have "same_table s u" using table_new_token [of s S req] by simp
    moreover have "writes (may_change c w) u (snd (and_then (map_err (status_of Internal ''failed to create access token'')
        (AddUserPersonalAccessToken (db_of S) i entry u)) (\<lambda>_ w. (Inr (api_token (ct_Parent req) entry, tok), w))))"
      using allowed ok by (intro writes_then) (auto simp: writes_none intro!: writes_lists)
    ultimately show "writes (may_change c w) s (snd (case new_token S req s of ((tok, entry), w) \<Rightarrow>
        and_then (map_err (status_of Internal ''failed to create access token'')
          (AddUserPersonalAccessToken (db_of S) i entry w)) (\<lambda>_ w. (Inr (api_token (ct_Parent req) entry, tok), w))))"
      using writes_trans [OF writes_none] by (simp add: n)
  qed
  show "writes (may_change c w) w (snd (DeletePersonalAccessToken S c name w))"
    unfolding DeletePersonalAccessToken_def
    by (cases "token_of_name name")
      (auto simp: writes_none intro!: writes_after [OF table_may_use] writes_lists allowed split: prod.splits)
qed

lemma writes_webhooks:
  assumes "user_inv w" "ids_small w"
  shows "writes (may_change c w) w (snd (CreateUserWebhook S c parent h w))"
    "writes (may_change c w) w (snd (UpdateUserWebhook_handler S c rq w))"
    "writes (may_change c w) w (snd (DeleteUserWebhook S c name w))"
proof -
  have allowed: "may_change c w i WEBHOOKS"
    if "require_self_or_admin (se_api S) msg i c w = (Inr u, s)" for msg i u s
    using self_or_admin_passed [OF assms that] by (auto simp: may_change_def)
  show "writes (may_change c w) w (snd (CreateUserWebhook S c parent h w))"
    unfolding CreateUserWebhook_def
    by (rule after_argument, rule writes_after [OF table_who(5)])
      (auto simp: writes_none ask_def Let_def intro!: writes_after [OF table_validated] writes_then
        writes_trans [OF writes_none writes_lists(3)] dest: allowed split: option.splits)
  show "writes (may_change c w) w (snd (UpdateUserWebhook_handler S c rq w))"
  proof (cases "uw_Webhook rq")
    case (Some g)
    show ?thesis
      unfolding UpdateUserWebhook_handler_def Some option.case
      by (rule after_argument, clarify, rule writes_after [OF table_who(5)], rule writes_after [OF table_found_webhook],
          rule writes_after)
        (auto simp: writes_none intro!: table_webhook_fields table_then table_set_url writes_then writes_lists
          dest: allowed split: option.splits)
  qed (simp add: UpdateUserWebhook_handler_def writes_none)
  show "writes (may_change c w) w (snd (DeleteUserWebhook S c name w))"
    unfolding DeleteUserWebhook_def
    by (rule after_argument, clarify, rule writes_after [OF table_who(5)], rule writes_after [OF table_found_webhook])
      (auto intro!: writes_lists dest: allowed)
qed

text \<open>The requests of this file, each with the state it leaves.\<close>

inductive settings_request :: "setting_env \<Rightarrow> ctx \<Rightarrow> accounts \<Rightarrow> accounts \<Rightarrow> bool" for S and c where
  asks_get_setting: "settings_request S c w (snd (GetUserSetting S c name w))"
| asks_update_setting: "settings_request S c w (snd (UpdateUserSetting S c ureq w))"
| asks_list_settings: "settings_request S c w (snd (ListUserSettings S c parent w))"
| asks_list_tokens: "settings_request S c w (snd (ListPersonalAccessTokens S c parent w))"
| asks_create_token: "settings_request S c w (snd (CreatePersonalAccessToken S c treq w))"
| asks_delete_token: "settings_request S c w (snd (DeletePersonalAccessToken S c name w))"
| asks_list_webhooks: "settings_request S c w (snd (ListUserWebhooks S c parent w))"
| asks_create_webhook: "settings_request S c w (snd (CreateUserWebhook S c parent hook w))"
| asks_update_webhook: "settings_request S c w (snd (UpdateUserWebhook_handler S c wreq w))"
| asks_delete_webhook: "settings_request S c w (snd (DeleteUserWebhook S c name w))"

lemma table_readers:
  "same_table w (snd (ListUserSettings S c parent w))"
  "same_table w (snd (ListPersonalAccessTokens S c parent w))"
  "same_table w (snd (ListUserWebhooks S c parent w))"
  unfolding ListUserSettings_def ListPersonalAccessTokens_def ListUserWebhooks_def
  by (auto simp: Let_def intro!: table_then table_intros)

text \<open>
  C36. A request for settings, personal access tokens or webhooks changes only rows of the user
  who asks, by context or by claims; the one exception are webhooks, which administrators may
  change for anyone. Sessions and shortcuts are never changed this way.
\<close>

theorem settings_stay_with_owner:
  assumes "user_inv w" "ids_small w" "settings_request S c w v"
    and "row_of v i k \<noteq> row_of w i k"
  shows "(i = GetUserID c \<and> k \<in> {GENERAL, PERSONAL_ACCESS_TOKENS, WEBHOOKS}) \<or>
    (k = PERSONAL_ACCESS_TOKENS \<and> (\<exists>cl. GetUserClaims c = Some cl \<and> uc_UserID cl = i)) \<or>
    (k = WEBHOOKS \<and> asked_by_admin c w)"
proof -
  from assms(3) have "writes (may_change c w) w v"
    by cases (simp_all add: writes_UpdateUserSetting writes_tokens writes_webhooks writes_none
        table_GetUserSetting table_readers assms(1,2))
  with assms(4) have "may_change c w i k" by (auto simp: writes_def)
  then show ?thesis by (auto simp: may_change_def)
qed

subsection \<open>The life of a personal access token\<close>

definition quiet :: "accounts \<Rightarrow> accounts \<Rightarrow> bool" where
  "quiet w v \<longleftrightarrow> same_settings w v \<and> same_rows w v \<and> (user_inv w \<longrightarrow> user_inv v)"

lemma quiet_trans: "quiet u v \<Longrightarrow> quiet v w \<Longrightarrow> quiet u w"
  by (auto simp: quiet_def intro: same_settings_trans same_rows_trans)

lemma quiet_refl [simp]: "quiet w w"
  by (simp add: quiet_def)

lemma quiet_tick: "quiet w v \<Longrightarrow> quiet w (tick_ac v)"
  by (simp add: quiet_def same_settings_def) (simp add: tick_ac_def user_inv_def users_ok_def)

lemma quiet_fetch: "quiet w (snd (fetchCurrentUser P c w))"
proof -
  have "same_settings w (snd (fetchCurrentUser P c w))"
    unfolding fetchCurrentUser_def Let_def
    using same_settings_get [of w "acc_of P" "user_with_id (GetUserID c)"]
    by (auto simp: and_then_def split: prod.splits sum.splits option.splits)
  then show ?thesis by (simp add: quiet_def rows_fetch inv_fetch)
qed

lemma later_fetch: "later w (snd (fetchCurrentUser P c w))"
  unfolding fetchCurrentUser_def Let_def
  by (auto intro!: later_then later_get_user split: option.splits)

lemma may_use_state:
  "snd (may_use_tokens P adm i c w) = w \<or> snd (may_use_tokens P adm i c w) = snd (fetchCurrentUser P c w)"
proof -
  have m: "snd (maybe_user P c w) = snd (fetchCurrentUser P c w)"
    by (cases "fetchCurrentUser P c w"; cases "fst (fetchCurrentUser P c w)") (simp_all add: maybe_user_def)
  obtain r v where r: "maybe_user P c w = (r, v)" by fastforce
  then show ?thesis using m by (cases r) (simp_all add: may_use_tokens_def)
qed

lemma quiet_may_use: "quiet w (snd (may_use_tokens P adm i c w))"
  using may_use_state [of P adm i c w] quiet_fetch by auto

lemma new_token_state:
  "snd (new_token S req w) = tick_ac (tick_ac (tick_ac (tick_ac w))) \<or>
   snd (new_token S req w) = tick_ac (tick_ac (tick_ac (tick_ac (tick_ac w))))"
  by (simp add: new_token_def ask_def Let_def)

lemma quiet_new_token: "quiet w (snd (new_token S req w))"
  by (rule disjE [OF new_token_state [of S req w]]; simp only:) (intro quiet_tick quiet_refl)+

lemma put_setting_members: "x \<in> set (put_setting s rows) \<Longrightarrow> x = s \<or> x \<in> set rows \<and> \<not> same_row s x"
proof (cases "list_ex (same_row s) rows")
  case True
  assume "x \<in> set (put_setting s rows)"
  with True obtain r where "r \<in> set rows" "x = (if same_row s r then s else r)"
    unfolding put_setting_def by auto
  then show ?thesis by (cases "same_row s r") simp_all
next
  case False
  assume "x \<in> set (put_setting s rows)"
  with False have "x \<in> set rows \<or> x = s" unfolding put_setting_def by auto
  with False show ?thesis unfolding list_ex_iff by blast
qed

lemma find_only:
  assumes "x \<in> set xs" "P x" and only: "\<And>y. y \<in> set xs \<Longrightarrow> P y \<Longrightarrow> y = x"
  shows "find P xs = Some x"
proof (cases "find P xs")
  case None
  with assms(1,2) show ?thesis by (auto simp: find_None_iff)
next
  case (Some y)
  with only [of y] find_SomeD [OF Some] show ?thesis by simp
qed

lemma tokens_of_row: "row_of w i PERSONAL_ACCESS_TOKENS = Some s \<Longrightarrow>
    stored PERSONAL_ACCESS_TOKENS tokens_of_value w i = tokens_of_value (us_Value s)"
  by (simp add: stored_row)

lemma stored_has_hash:
  assumes "t \<in> set (stored PERSONAL_ACCESS_TOKENS tokens_of_value w i)" "pat_TokenHash t = h"
  shows "\<exists>s \<in> set (ac_settings w). has_hash h s \<and> us_UserID s = i"
proof -
  from assms(1) obtain s where s: "row_of w i PERSONAL_ACCESS_TOKENS = Some s" "t \<in> set (tokens_of_value (us_Value s))"
    by (cases "row_of w i PERSONAL_ACCESS_TOKENS") (auto simp: stored_row)
  then have "s \<in> set (ac_settings w)" "us_UserID s = i" "us_Key s = PERSONAL_ACCESS_TOKENS"
    by (auto dest: find_SomeD)
  with s(2) assms(2) show ?thesis by (auto simp: has_hash_def list_ex_iff)
qed

lemma add_token_row:
  assumes "set_inv PERSONAL_ACCESS_TOKENS w" "in_int32 i"
    and "AddUserPersonalAccessToken E i t w = (Inr (), v)"
  shows "ac_settings v = put_setting \<lparr>us_UserID = i, us_Key = PERSONAL_ACCESS_TOKENS,
      us_Value = PersonalAccessTokens (stored PERSONAL_ACCESS_TOKENS tokens_of_value w i @ [t])\<rparr> (ac_settings w) \<and>
    same_users w v"
proof -
  obtain r u where g: "GetUserPersonalAccessTokens E i w = (r, u)" by fastforce
  with assms(3) obtain ts where ts: "r = Inr ts"
    and sv: "save_setting E i PERSONAL_ACCESS_TOKENS (PersonalAccessTokens (ts @ [t])) u = (Inr (), v)"
    by (cases r) (auto simp: AddUserPersonalAccessToken_def)
  have u: "set_inv PERSONAL_ACCESS_TOKENS u" "ac_settings u = ac_settings w" "same_users w u"
    and "ts = stored PERSONAL_ACCESS_TOKENS tokens_of_value w i"
    using pats.get_keeps [OF assms(1,2) g] pats.get_reads [OF assms(1,2) g] ts by auto
  with save_setting_row [OF u(1) _ assms(2) sv] show ?thesis
    by (auto intro: same_users_trans)
qed

lemma token_prefix: "prefix PersonalAccessTokenPrefix (GeneratePersonalAccessToken draws uuid)"
  by (simp add: GeneratePersonalAccessToken_def split: option.splits)

lemma ExtractUserID_int32: "ExtractUserIDFromName name = Inr i \<Longrightarrow> in_int32 i"
  by (auto simp: ExtractUserIDFromName_def id_from_name_def token_id_def dest: parse_int32_range
      split: sum.splits list.splits option.splits if_splits)

text \<open>What a successful creation has done.\<close>

lemma created_token:
  assumes "CreatePersonalAccessToken S c req w = (Inr (rep, tok), v)"
    and "ExtractUserIDFromName (ct_Parent req) = Inr i"
  obtains s t k where "quiet w s" "prefix PersonalAccessTokenPrefix tok"
    "pat_TokenHash t = au_sha (ap_auth (se_api S)) tok" "rep = api_token (ct_Parent req) t"
    "AddUserPersonalAccessToken (db_of S) i t s = (Inr (), v)" "ac_tick w \<le> k"
    "pat_ExpiresAt t = (if 0 < ct_ExpiresInDays req
       then Some (days_later (se_zone S) (ae_now (db_of S) k) (ct_ExpiresInDays req)) else None)"
    "pat_CreatedAt t = ae_now (db_of S) (if 0 < ct_ExpiresInDays req then k + 1 else k)"
proof -
  from assms obtain s0 where p: "may_use_tokens (se_api S) False i c w = (Inr (), s0)"
    and rest: "(case new_token S req s0 of ((tok, t), s) \<Rightarrow>
      and_then (map_err (status_of Internal ''failed to create access token'')
        (AddUserPersonalAccessToken (db_of S) i t s)) (\<lambda>_ w. (Inr (api_token (ct_Parent req) t, tok), w))) = (Inr (rep, tok), v)"
    by (auto simp: CreatePersonalAccessToken_def argument_def and_then_Inr)
  obtain x t s where n: "new_token S req s0 = ((x, t), s)" by (cases "new_token S req s0") auto
  with rest have rep: "x = tok" "rep = api_token (ct_Parent req) t" and a: "AddUserPersonalAccessToken (db_of S) i t s = (Inr (), v)"
    by (auto simp: and_then_Inr)
  have "quiet w s0" "quiet s0 s"
    using quiet_may_use [of w "se_api S" False i c] p quiet_new_token [of s0 S req] n by simp_all
  moreover have "prefix PersonalAccessTokenPrefix tok" "pat_TokenHash t = au_sha (ap_auth (se_api S)) tok"
    using n rep(1) by (auto simp: new_token_def ask_def Let_def token_prefix HashPersonalAccessToken_def split: if_splits)
  moreover have "ac_tick w \<le> ac_tick s0 + 3"
    using may_use_state [of "se_api S" False i c w] later_fetch [of w "se_api S" c] p
    by (auto simp: later_def)
  moreover have "pat_ExpiresAt t = (if 0 < ct_ExpiresInDays req
       then Some (days_later (se_zone S) (ae_now (db_of S) (ac_tick s0 + 3)) (ct_ExpiresInDays req)) else None)"
    "pat_CreatedAt t = ae_now (db_of S) (if 0 < ct_ExpiresInDays req then ac_tick s0 + 3 + 1 else ac_tick s0 + 3)"
    using n by (auto simp: new_token_def ask_def Let_def tick_ac_def numeral_eq_Suc split: if_splits)
  ultimately show ?thesis
    using that rep a quiet_trans by blast
qed

text \<open>In a zone with a fixed offset a day has 24 hours.\<close>

lemma days_later_fixed: "days_later (fixed_zone off) t n = t + n * (86400 * second_ns)"
proof -
  have "unix t * second_ns + t mod second_ns = t" by (simp add: unix_def)
  then show ?thesis by (simp add: days_later_def add_days_fixed algebra_simps)
qed

lemma created_keeps:
  assumes "set_inv PERSONAL_ACCESS_TOKENS w" "CreatePersonalAccessToken S c req w = (Inr (rep, tok), v)"
    and "ExtractUserIDFromName (ct_Parent req) = Inr i"
  shows "set_inv PERSONAL_ACCESS_TOKENS v"
proof -
  obtain s t k where q: "quiet w s" and add: "AddUserPersonalAccessToken (db_of S) i t s = (Inr (), v)"
    using created_token [OF assms(2,3)] .
  have i: "in_int32 i" using ExtractUserID_int32 [OF assms(3)] .
  have "same_settings w s" using q by (simp add: quiet_def)
  then have "set_inv PERSONAL_ACCESS_TOKENS s" using assms(1) by (simp add: set_inv_same)
  from pats.rewrite_keeps [OF this i, of "db_of S" "\<lambda>ts. ts @ [t]"] add show ?thesis
    by (simp add: AddUserPersonalAccessToken_def)
qed

text \<open>
  C37. The token that the creation answers with authenticates its user: always when it was created
  without a lifetime, and otherwise when the check reads the clock at most the requested number of
  days after the clock at the start of the creation. Once more than that has passed since the
  recorded creation time it is refused as expired. This holds while no database call fails, the
  clock does not go back and the server's zone has a fixed offset (so that a day has 24 hours),
  for a user who is not archived, if no token stored before has the hash of the new one.
\<close>

theorem created_token_authenticates:
  assumes "settled (se_api S) w" "set_inv PERSONAL_ACCESS_TOKENS w"
    and "CreatePersonalAccessToken S c req w = (Inr (rep, tok), v)"
    and "ExtractUserIDFromName (ct_Parent req) = Inr i"
    and "find (\<lambda>u. user_ID u = i) (ac_users w) = Some u" "user_RowStatus u \<noteq> RowArchived"
    and "\<forall>s \<in> set (ac_settings w). \<not> has_hash (au_sha (ap_auth (se_api S)) tok) s"
    and "mono (ae_now (db_of S))" "se_zone S = fixed_zone off"
    and "check = AuthenticateByPAT (ap_auth (se_api S)) tok v" "now = read_clock (db_of S) (snd check)"
    and "life = ct_ExpiresInDays req * (86400 * second_ns)"
  shows "(ct_ExpiresInDays req \<le> 0 \<or> now \<le> read_clock (db_of S) w + life \<longrightarrow>
      (\<exists>p. fst check = Inr (u, p) \<and> rep = api_token (ct_Parent req) p)) \<and>
    (0 < ct_ExpiresInDays req \<and> pp_CreatedAt rep + life < now \<longrightarrow> fst check = Inl ''PAT expired'')"
proof -
  let ?P = "se_api S" and ?h = "au_sha (ap_auth (se_api S)) tok"
  obtain s t k where q: "quiet w s" and pre: "prefix PersonalAccessTokenPrefix tok"
    and t: "pat_TokenHash t = ?h" "rep = api_token (ct_Parent req) t"
    and add: "AddUserPersonalAccessToken (db_of S) i t s = (Inr (), v)" and k: "ac_tick w \<le> k"
    and e: "pat_ExpiresAt t = (if 0 < ct_ExpiresInDays req
       then Some (days_later (se_zone S) (ae_now (db_of S) k) (ct_ExpiresInDays req)) else None)"
    and cr: "pat_CreatedAt t = ae_now (db_of S) (if 0 < ct_ExpiresInDays req then k + 1 else k)"
    using created_token [OF assms(3,4)] .
  have s: "same_settings w s" "same_rows w s" "user_inv s"
    using q assms(1) by (simp_all add: quiet_def settled_def)
  have i: "in_int32 i"
    using row_is_small [of w u] settled_found [OF assms(1,5)] assms(1) by (auto simp: settled_def small_user_def)
  have inv: "set_inv PERSONAL_ACCESS_TOKENS s" using assms(2) s(1) by (simp add: set_inv_same)
  let ?old = "stored PERSONAL_ACCESS_TOKENS tokens_of_value s i"
  let ?row = "\<lparr>us_UserID = i, us_Key = PERSONAL_ACCESS_TOKENS, us_Value = PersonalAccessTokens (?old @ [t])\<rparr>"
  have v: "ac_settings v = put_setting ?row (ac_settings w)" "same_users s v"
    using add_token_row [OF inv i add] s(1) by (simp_all add: same_settings_def)
  have none: "\<not> has_hash ?h x" if "x \<in> set (ac_settings s)" for x
    using that assms(7) s(1) by (simp add: same_settings_def)
  have "find (has_hash ?h) (ac_settings v) = Some ?row"
  proof (rule find_only)
    show "?row \<in> set (ac_settings v)" using v(1) put_setting_member by simp
    show "has_hash ?h ?row" by (simp add: has_hash_def t(1))
    fix y assume "y \<in> set (ac_settings v)" "has_hash ?h y"
    with put_setting_members [of y ?row "ac_settings w"] v(1) assms(7) show "y = ?row" by auto
  qed
  moreover have "find (\<lambda>x. pat_TokenHash x = ?h) (?old @ [t]) = Some t"
    using none stored_has_hash [of _ s i ?h] t(1) by (intro find_only) auto
  ultimately have h: "sqlite_GetUserByPATHash (db_of S) ?h v = (Inr (i, t), tick_ac v)"
    using assms(1) by (simp add: sqlite_GetUserByPATHash_def db_call_def settled_def)
  have users: "ac_users v = ac_users w" "ac_next_id v = ac_next_id w"
    using v(2) s(2) by (simp_all add: same_users_def same_rows_def)
  have "settled ?P v"
    using user_inv_same [OF v(2)] s(3) assms(1) users by (simp add: settled_def ids_small_def)
  then have tv: "settled ?P (tick_ac v)"
    using users by (simp add: settled_def ids_small_def) (simp add: tick_ac_def user_inv_def users_ok_def)
  have "find (\<lambda>u. user_ID u = i) (ac_users (tick_ac v)) = Some u"
    using assms(5) users by (simp add: tick_ac_def)
  then obtain z where "store_GetUser (db_of S) (user_with_id i) (tick_ac v) = (Inr (Some u), z)"
    using settled_get [OF tv] by blast
  with h have "GetUserByPATHash (db_of S) ?h v = (Inr (u, t), z)"
    by (simp add: GetUserByPATHash_def)
  then have run: "AuthenticateByPAT (ap_auth ?P) tok v =
      (if expired (pat_ExpiresAt t) (read_clock (db_of S) z) then Inl ''PAT expired'' else Inr (u, t), z)"
    using pre assms(6) by (simp add: AuthenticateByPAT_def HashPersonalAccessToken_def)
  then have now: "now = read_clock (db_of S) z" using assms(10,11) by simp
  have "read_clock (db_of S) w \<le> ae_now (db_of S) k" "ae_now (db_of S) k \<le> ae_now (db_of S) (k + 1)"
    using assms(8) k by (simp_all add: read_clock_def monoD)
  then show ?thesis
    using run now e cr t(2) assms(9,10,12)
    by (auto simp: expired_def days_later_fixed api_token_def)
qed

text \<open>
  C38. After a deletion that reports success, the token is refused in every state with the token
  rows of that moment, provided no other token has its hash.
\<close>

theorem deleted_token_refused:
  assumes "set_inv PERSONAL_ACCESS_TOKENS w"
    and "DeletePersonalAccessToken S c name w = (Inr (), v)" "token_of_name name = Inr (i, tid)"
    and "\<forall>s t. s \<in> set (ac_settings w) \<and> us_Key s = PERSONAL_ACCESS_TOKENS \<and> t \<in> set (tokens_of_value (us_Value s)) \<and>
      pat_TokenHash t = au_sha (ap_auth (se_api S)) tok \<longrightarrow> us_UserID s = i \<and> pat_TokenId t = tid"
    and "ac_settings x = ac_settings v"
  shows "isl (fst (AuthenticateByPAT (ap_auth (se_api S)) tok x))"
proof -
  let ?h = "au_sha (ap_auth (se_api S)) tok"
  from assms(2,3) obtain s where p: "may_use_tokens (se_api S) False i c w = (Inr (), s)"
    and r: "RemoveUserPersonalAccessToken (db_of S) i tid s = (Inr (), v)"
    by (auto simp: DeletePersonalAccessToken_def and_then_Inr)
  have q: "same_settings w s" using quiet_may_use [of w "se_api S" False i c] p by (simp add: quiet_def)
  have inv: "set_inv PERSONAL_ACCESS_TOKENS s" using assms(1) q by (simp add: set_inv_same)
  have i: "in_int32 i"
    using assms(3) by (auto simp: token_of_name_def dest!: parse_int32_range split: list.splits if_splits sum.splits)
  obtain g u where g: "GetUserPersonalAccessTokens (db_of S) i s = (g, u)" by fastforce
  with r obtain ts where ts: "g = Inr ts"
    and sv: "save_setting (db_of S) i PERSONAL_ACCESS_TOKENS
      (PersonalAccessTokens (filter (\<lambda>t. pat_TokenId t \<noteq> tid) ts)) u = (Inr (), v)"
    by (cases g) (auto simp: RemoveUserPersonalAccessToken_def)
  let ?row = "\<lparr>us_UserID = i, us_Key = PERSONAL_ACCESS_TOKENS,
    us_Value = PersonalAccessTokens (filter (\<lambda>t. pat_TokenId t \<noteq> tid) ts)\<rparr>"
  have u: "set_inv PERSONAL_ACCESS_TOKENS u" "ac_settings u = ac_settings w"
    and ts': "ts = stored PERSONAL_ACCESS_TOKENS tokens_of_value s i"
    using pats.get_keeps [OF inv i g] pats.get_reads [OF inv i g] ts q by (auto simp: same_settings_def)
  have v: "ac_settings v = put_setting ?row (ac_settings w)"
    using save_setting_row [OF u(1) _ i sv] u(2) by simp
  have "\<not> has_hash ?h y" if y: "y \<in> set (ac_settings v)" for y
  proof
    assume h: "has_hash ?h y"
    then obtain t where t: "us_Key y = PERSONAL_ACCESS_TOKENS" "t \<in> set (tokens_of_value (us_Value y))" "pat_TokenHash t = ?h"
      by (auto simp: has_hash_def list_ex_iff)
    consider "y = ?row" | "y \<in> set (ac_settings w)" "\<not> same_row ?row y"
      using put_setting_members y v by fastforce
    then show False
    proof cases
      case 1
      then have "t \<in> set ts" "pat_TokenId t \<noteq> tid" using t(2) by auto
      then obtain z where "z \<in> set (ac_settings w)" "us_Key z = PERSONAL_ACCESS_TOKENS" "t \<in> set (tokens_of_value (us_Value z))"
        using ts' q by (cases "row_of s i PERSONAL_ACCESS_TOKENS")
          (auto simp: stored_row same_settings_def dest: find_SomeD)
      with assms(4) t(3) \<open>pat_TokenId t \<noteq> tid\<close> show False by blast
    next
      case 2
      then show False using assms(4) t by (auto simp: same_row_def)
    qed
  qed
  then have "find (has_hash ?h) (ac_settings x) = None" using assms(5) by (simp add: find_None_iff)
  then show ?thesis
    by (auto simp: AuthenticateByPAT_def HashPersonalAccessToken_def GetUserByPATHash_def
        sqlite_GetUserByPATHash_def db_call_def split: option.splits)
qed

subsection \<open>The merge of general settings\<close>

definition merged :: "general_user_setting \<Rightarrow> string list \<Rightarrow> general_user_setting \<Rightarrow> general_user_setting" where
  "merged n paths old =
     \<lparr>gu_Locale = (if ''locale'' \<in> set paths then gu_Locale n else gu_Locale old),
      gu_MemoVisibility = (if ''memo_visibility'' \<in> set paths then gu_MemoVisibility n else gu_MemoVisibility old),
      gu_Theme = (if ''theme'' \<in> set paths then gu_Theme n else gu_Theme old)\<rparr>"

lemma merge_general_merged: "merge_general (Some n) paths old = Some (merged n paths old)"
  by (induction paths arbitrary: old) (simp_all add: merged_def)

definition stored_general :: "accounts \<Rightarrow> int \<Rightarrow> general_user_setting" where
  "stored_general w i =
     (case row_of w i GENERAL of
        None \<Rightarrow> empty_general
      | Some s \<Rightarrow> (case GetGeneral (us_Value s) of Some g \<Rightarrow> g | None \<Rightarrow> empty_general))"

lemma setting_name_read:
  assumes "in_int32 i" "slash \<notin> set key"
  shows "ExtractUserIDAndSettingKeyFromName (setting_name i key) = Inr (i, key)"
proof -
  have "slash \<notin> set (itoa i)" using itoa_token by (simp add: token_def)
  moreover have "setting_name i key = ''users'' @ slash # itoa i @ slash # ''settings'' @ slash # key"
    by (simp add: setting_name_def)
  ultimately have "split_on slash (setting_name i key) = [''users'', itoa i, ''settings'', key]"
    using assms(2) by (simp add: split_on_cons split_on_no_sep del: append_Cons)
  then show ?thesis using parse_int32_itoa [OF assms(1)] by (simp add: ExtractUserIDAndSettingKeyFromName_def)
qed

lemma self_ok:
  assumes "settled P w" "find (\<lambda>u. user_ID u = GetUserID c) (ac_users w) = Some u"
  obtains s where "require_self P (GetUserID c) c w = (Inr u, s)" "quiet w s" "settled P s"
proof -
  obtain s where s: "fetchCurrentUser P c w = (Inr (Some u), s)" "settled P s"
    using settled_fetch [OF assms] by blast
  then have "require_self P (GetUserID c) c w = (Inr u, s)"
    using find_SomeD [OF assms(2)] by (simp add: require_self_def require_user_def)
  with s quiet_fetch [of w P c] that show ?thesis by simp
qed

lemma never_db_error: "settled P w \<Longrightarrow> \<not> db_error (acc_of P) e"
  by (simp add: settled_def db_error_def)

lemma settled_same: "settled P w \<Longrightarrow> same_users w v \<Longrightarrow> settled P v"
  using user_inv_same [of w v] by (simp add: settled_def ids_small_def same_users_def)

lemma read_general:
  assumes "settled P w" "set_inv GENERAL w" "in_int32 i"
  obtains v where "store_GetUserSetting (acc_of P) (setting_of i GENERAL) w = (Inr (row_of w i GENERAL), v)"
    "settled P v" "set_inv GENERAL v" "ac_settings v = ac_settings w" "ac_users v = ac_users w"
proof -
  obtain r v where g: "store_GetUserSetting (acc_of P) (setting_of i GENERAL) w = (r, v)" by fastforce
  have v: "set_inv GENERAL v" "ac_settings v = ac_settings w" "same_users w v"
    and r: "case r of Inl e \<Rightarrow> db_error (acc_of P) e | Inr s \<Rightarrow> s = row_of w i GENERAL"
    using get_setting [OF assms(2) _ assms(3) g] by (auto split: sum.splits)
  from r obtain s where "r = Inr s" "s = row_of w i GENERAL"
    using never_db_error [OF assms(1)] by (cases r) auto
  with that g v settled_same [OF assms(1) v(3)] show ?thesis by (simp add: same_users_def)
qed

lemma write_general_row:
  assumes "settled (se_api S) w" "set_inv GENERAL w" "in_int32 i" "GetGeneralSetting st = Some n"
  obtains v where "write_general S i st paths w = (Inr (), v)" "settled (se_api S) v" "set_inv GENERAL v"
    "row_of v i GENERAL = Some \<lparr>us_UserID = i, us_Key = GENERAL, us_Value = General (merged n paths (stored_general w i))\<rparr>"
    "ac_users v = ac_users w"
proof -
  let ?g = "merged n paths (stored_general w i)"
  let ?row = "\<lparr>us_UserID = i, us_Key = GENERAL, us_Value = General ?g\<rparr>"
  obtain s where g: "store_GetUserSetting (db_of S) (setting_of i GENERAL) w = (Inr (row_of w i GENERAL), s)"
    and s: "settled (se_api S) s" "set_inv GENERAL s" "ac_settings s = ac_settings w" "ac_users s = ac_users w"
    using read_general [OF assms(1-3)] .
  have old: "existing_general S i w = (stored_general w i, s)"
    using g by (simp add: existing_general_def stored_general_def split: option.splits)
  have k: "GENERAL \<noteq> KEY_UNSPECIFIED" by simp
  obtain r v where sv: "save_setting (db_of S) i GENERAL (General ?g) s = (r, v)" by fastforce
  note row = save_setting_row [OF s(2) k assms(3) sv]
  then have r: "r = Inr ()" using never_db_error [OF s(1)] by (cases r) auto
  with row have v: "set_inv GENERAL v" "same_users s v" "ac_settings v = put_setting ?row (ac_settings s)" by simp_all
  from sv r obtain y where "store_UpsertUserSetting (db_of S) ?row s = (Inr y, v)"
    by (auto simp: save_setting_def and_then_Inr)
  then have "write_general S i st paths w = (Inr (), v)"
    using old assms(4)
    by (simp add: write_general_def merge_general_merged argument_def convertUserSettingToStore_def GetGeneralSetting_def)
  moreover have "row_of v i GENERAL = Some ?row"
    using row_put [where w = s and s = ?row and j = i and k = GENERAL] v(3) by simp
  ultimately show ?thesis
    using that settled_same [OF s(1) v(2)] v(1,2) s(4) by (simp add: same_users_def)
qed

text \<open>
  The error of the first read is dropped: when that read fails and the write does not, the fields
  outside the mask are written as empty.
\<close>

lemma failed_read_erases_fields:
  assumes "store_GetUserSetting (db_of S) (setting_of i GENERAL) w = (Inl e, s)"
    and "GetGeneralSetting st = Some n"
    and "save_setting (db_of S) i GENERAL (General (merged n paths empty_general)) s = (Inr (), v)"
  shows "write_general S i st paths w = (Inr (), v)"
  using assms
  by (auto simp: write_general_def existing_general_def merge_general_merged argument_def save_setting_def
      convertUserSettingToStore_def GetGeneralSetting_def and_then_Inr)

text \<open>
  C39. While no database call fails, an update of the general settings by their owner succeeds,
  answers with the fields of the mask from the request and the other fields as they were stored,
  and stores exactly that. When nothing was stored, the other fields are empty, not the defaults
  that a read showed before. (When the first read fails, its error is dropped and the other fields
  are lost: \<open>failed_read_erases_fields\<close>.)
\<close>

theorem general_setting_merges:
  assumes "settled (se_api S) w" "set_inv GENERAL w"
    and "find (\<lambda>u. user_ID u = GetUserID c) (ac_users w) = Some u"
    and "sr_Setting req = Some st" "ps_Name st = setting_name (GetUserID c) ''GENERAL''"
    and "GetGeneralSetting st = Some n" "sr_UpdateMask req \<noteq> []"
  shows "\<exists>v. UpdateUserSetting S c req w =
      (Inr \<lparr>ps_Name = ps_Name st, ps_Value = Some (GeneralSetting
         (merged n (sr_UpdateMask req) (stored_general w (GetUserID c))))\<rparr>, v) \<and>
    stored_general v (GetUserID c) = merged n (sr_UpdateMask req) (stored_general w (GetUserID c))"
proof -
  let ?P = "se_api S" and ?i = "GetUserID c"
  let ?g = "merged n (sr_UpdateMask req) (stored_general w ?i)"
  have i: "in_int32 ?i"
    using row_is_small [of w u] settled_found [OF assms(1,3)] assms(1) by (auto simp: settled_def small_user_def)
  have name: "ExtractUserIDAndSettingKeyFromName (ps_Name st) = Inr (?i, ''GENERAL'')"
    unfolding assms(5) by (rule setting_name_read [OF i]) simp
  have key: "convertSettingKeyToStore ''GENERAL'' = Inr GENERAL" by (simp add: convertSettingKeyToStore_def)
  obtain s1 where s1: "require_self ?P ?i c w = (Inr u, s1)" "quiet w s1" "settled ?P s1"
    using self_ok [OF assms(1,3)] .
  have inv1: "set_inv GENERAL s1" and same1: "ac_settings s1 = ac_settings w" "ac_users s1 = ac_users w"
    using s1(2) assms(2) set_inv_same [of w s1] by (simp_all add: quiet_def same_rows_def same_settings_def)
  then have old: "stored_general s1 ?i = stored_general w ?i" by (simp add: stored_general_def)
  obtain s2 where s2: "write_general S ?i st (sr_UpdateMask req) s1 = (Inr (), s2)" "settled ?P s2" "set_inv GENERAL s2"
    and row: "row_of s2 ?i GENERAL = Some \<lparr>us_UserID = ?i, us_Key = GENERAL, us_Value = General ?g\<rparr>"
    and users: "ac_users s2 = ac_users s1"
    using write_general_row [OF s1(3) inv1 i assms(6)] unfolding old by blast
  have "find (\<lambda>u. user_ID u = ?i) (ac_users s2) = Some u" using users same1 assms(3) by simp
  then obtain s3 where s3: "require_self ?P ?i c s2 = (Inr u, s3)" "quiet s2 s3" "settled ?P s3"
    using self_ok [OF s2(2)] by blast
  have inv3: "set_inv GENERAL s3" and same3: "ac_settings s3 = ac_settings s2"
    using s3(2) s2(3) set_inv_same [of s2 s3] by (simp_all add: quiet_def same_settings_def)
  obtain v where v: "store_GetUserSetting (db_of S) (setting_of ?i GENERAL) s3 = (Inr (row_of s3 ?i GENERAL), v)"
    "ac_settings v = ac_settings s3"
    using read_general [OF s3(3) inv3 i] by blast
  have get: "GetUserSetting S c (ps_Name st) s2 =
      (Inr \<lparr>ps_Name = ps_Name st, ps_Value = Some (GeneralSetting ?g)\<rparr>, v)"
    using name key s3(1) v(1) row same3 assms(5)
    by (simp add: GetUserSetting_def argument_def convertUserSettingFromStore_def convertSettingKeyFromStore_def)
  then have "UpdateUserSetting S c req w = (Inr \<lparr>ps_Name = ps_Name st, ps_Value = Some (GeneralSetting ?g)\<rparr>, v)"
    using name key s1(1) s2(1) assms(4,7) by (simp add: UpdateUserSetting_def argument_def)
  moreover have "stored_general v ?i = ?g"
    using row v(2) same3 by (simp add: stored_general_def)
  ultimately show ?thesis by blast
qed

subsection \<open>Runs\<close>

definition ann_settings :: setting_env where
  "ann_settings = \<lparr>se_api = rotating_api, se_net = rebinding, se_bytes = (\<lambda>_. [0, 255]), se_zone = utc\<rparr>"

definition ann_token :: create_token_request where
  "ann_token = \<lparr>ct_Parent = ''users/7'', ct_Description = ''cli'', ct_ExpiresInDays = 0\<rparr>"

definition ann_theme :: update_setting_request where
  "ann_theme = \<lparr>sr_Setting = Some \<lparr>ps_Name = ''users/7/settings/GENERAL'',
     ps_Value = Some (GeneralSetting \<lparr>gu_Locale = ''fr'', gu_MemoVisibility = ''PUBLIC'', gu_Theme = ''dark''\<rparr>)\<rparr>,
     sr_UpdateMask = [''theme'']\<rparr>"

lemma ann_settled: "settled rotating_api ann_signed_in"
  by (simp add: settled_def user_inv_def users_ok_def ann_signed_in_def two_users_def rotating_api_def steady_def
      ids_small_def)

lemma ann_rows: "k \<noteq> REFRESH_TOKENS \<Longrightarrow> set_inv k ann_signed_in"
  by (simp add: set_inv_def settings_ok_def setting_keys_ok_def coherent_def ann_signed_in_def two_users_def in_int32_def)

lemma ann_creates: "fst (CreatePersonalAccessToken ann_settings ann_ctx ann_token ann_signed_in) =
    Inr (\<lparr>pp_Name = ''users/7/personalAccessTokens/u'', pp_Description = ''cli'', pp_ExpiresAt = None,
      pp_CreatedAt = 0, pp_LastUsedAt = None\<rparr>, ''memos_pat_uuu'')"
  by code_simp

text \<open>The example: ann asks for a token for thirty days; the clock of the example stands still.\<close>

definition ann_month :: create_token_request where
  "ann_month = ann_token\<lparr>ct_ExpiresInDays := 30\<rparr>"

lemma ann_creates_month: "fst (CreatePersonalAccessToken ann_settings ann_ctx ann_month ann_signed_in) =
    Inr (\<lparr>pp_Name = ''users/7/personalAccessTokens/u'', pp_Description = ''cli'',
      pp_ExpiresAt = Some 2592000000000000, pp_CreatedAt = 0, pp_LastUsedAt = None\<rparr>, ''memos_pat_uuu'')"
  by code_simp

lemma still_clock: "ae_now (acc_of rotating_api) = (\<lambda>_. 0)" "read_clock (acc_of rotating_api) w = 0"
  by (simp_all add: rotating_api_def steady_def read_clock_def)

lemma created_token_authenticates_witness:
  "\<exists>u p. fst (AuthenticateByPAT (ap_auth rotating_api) ''memos_pat_uuu''
      (snd (CreatePersonalAccessToken ann_settings ann_ctx ann_month ann_signed_in))) = Inr (u, p) \<and> user_ID u = 7"
proof -
  let ?ann = "SystemBot\<lparr>user_ID := 7, user_Username := ''ann'', user_Role := RoleUser, user_RowStatus := RowNormal\<rparr>"
  let ?v = "snd (CreatePersonalAccessToken ann_settings ann_ctx ann_month ann_signed_in)"
  let ?rep = "\<lparr>pp_Name = ''users/7/personalAccessTokens/u'', pp_Description = ''cli'',
      pp_ExpiresAt = Some 2592000000000000, pp_CreatedAt = 0, pp_LastUsedAt = None\<rparr>"
  have run: "CreatePersonalAccessToken ann_settings ann_ctx ann_month ann_signed_in =
      (Inr (?rep, ''memos_pat_uuu''), ?v)"
    using ann_creates_month by (simp add: prod_eq_iff)
  have parent: "ExtractUserIDFromName (ct_Parent ann_month) = Inr 7" by code_simp
  have found: "find (\<lambda>u. user_ID u = 7) (ac_users ann_signed_in) = Some ?ann"
    and active: "user_RowStatus ?ann \<noteq> RowArchived"
    by (simp_all add: ann_signed_in_def RowNormal_def RowArchived_def)
  have env: "se_api ann_settings = rotating_api" "se_zone ann_settings = fixed_zone 0"
    by (simp_all add: ann_settings_def utc_def)
  have start: "settled (se_api ann_settings) ann_signed_in" "set_inv PERSONAL_ACCESS_TOKENS ann_signed_in"
    and fresh: "\<forall>s \<in> set (ac_settings ann_signed_in).
      \<not> has_hash (au_sha (ap_auth (se_api ann_settings)) ''memos_pat_uuu'') s"
    using ann_settled ann_rows env by (simp_all add: has_hash_def ann_signed_in_def)
  have still: "mono (ae_now (db_of ann_settings))" by (simp add: env still_clock mono_def)
  note created_token_authenticates [OF start run parent found active fresh still env(2) refl refl refl]
  then show ?thesis by (auto simp: still_clock env ann_month_def second_ns_def)
qed

lemma ann_deletes: "fst (DeletePersonalAccessToken ann_settings ann_ctx ''users/7/personalAccessTokens/u''
    (snd (CreatePersonalAccessToken ann_settings ann_ctx ann_token ann_signed_in))) = Inr ()"
  by code_simp

lemma ann_token_rows: "ac_settings (snd (CreatePersonalAccessToken ann_settings ann_ctx ann_token ann_signed_in)) =
    ac_settings ann_signed_in @ [\<lparr>us_UserID = 7, us_Key = PERSONAL_ACCESS_TOKENS, us_Value = PersonalAccessTokens
      [\<lparr>pat_TokenId = ''u'', pat_TokenHash = ''memos_pat_uuu'', pat_Description = ''cli'', pat_ExpiresAt = None,
        pat_CreatedAt = 0, pat_LastUsedAt = None\<rparr>]\<rparr>]"
  by code_simp

lemma ann_general_set: "row_of (snd (UpdateUserSetting ann_settings (ctx_of 7) ann_theme ann_signed_in)) 7 GENERAL =
    Some \<lparr>us_UserID = 7, us_Key = GENERAL,
      us_Value = General \<lparr>gu_Locale = [], gu_MemoVisibility = [], gu_Theme = ''dark''\<rparr>\<rparr>"
  by code_simp

lemma settings_stay_with_owner_witness:
  "row_of (snd (UpdateUserSetting ann_settings (ctx_of 7) ann_theme ann_signed_in)) 7 GENERAL \<noteq> row_of ann_signed_in 7 GENERAL \<and>
   GetUserID (ctx_of 7) = 7"
proof -
  let ?v = "snd (UpdateUserSetting ann_settings (ctx_of 7) ann_theme ann_signed_in)"
  have changed: "row_of ?v 7 GENERAL \<noteq> row_of ann_signed_in 7 GENERAL"
    unfolding ann_general_set by (simp add: ann_signed_in_def)
  have "user_inv ann_signed_in" "ids_small ann_signed_in"
    using ann_settled by (simp_all add: settled_def)
  with settings_stay_with_owner [OF _ _ asks_update_setting changed] changed show ?thesis
    by auto
qed

lemma general_setting_merges_witness:
  "\<exists>v. UpdateUserSetting ann_settings (ctx_of 7) ann_theme ann_signed_in =
     (Inr \<lparr>ps_Name = ''users/7/settings/GENERAL'', ps_Value = Some (GeneralSetting
        \<lparr>gu_Locale = [], gu_MemoVisibility = [], gu_Theme = ''dark''\<rparr>)\<rparr>, v)"
proof -
  have i: "GetUserID (ctx_of 7) = 7"
    by (simp add: ctx_of_def GetUserID_def)
  have name: "''users/7/settings/GENERAL'' = setting_name 7 ''GENERAL''" by (simp add: setting_name_def itoa_7)
  have old: "stored_general ann_signed_in 7 = empty_general"
    by (simp add: stored_general_def ann_signed_in_def)
  show ?thesis
    using general_setting_merges [of ann_settings ann_signed_in "ctx_of 7"
        "SystemBot\<lparr>user_ID := 7, user_Username := ''ann'', user_Role := RoleUser, user_RowStatus := RowNormal\<rparr>" ann_theme
        "\<lparr>ps_Name = ''users/7/settings/GENERAL'', ps_Value = Some (GeneralSetting
           \<lparr>gu_Locale = ''fr'', gu_MemoVisibility = ''PUBLIC'', gu_Theme = ''dark''\<rparr>)\<rparr>"]
      ann_settled ann_rows [of GENERAL] i name old
    by (auto simp: ann_settings_def ann_theme_def GetGeneralSetting_def merged_def empty_general_def ann_signed_in_def)
qed

lemma deleted_token_refused_witness:
  "isl (fst (AuthenticateByPAT (ap_auth rotating_api) ''memos_pat_uuu''
     (snd (DeletePersonalAccessToken ann_settings ann_ctx ''users/7/personalAccessTokens/u''
       (snd (CreatePersonalAccessToken ann_settings ann_ctx ann_token ann_signed_in))))))"
proof -
  let ?w = "snd (CreatePersonalAccessToken ann_settings ann_ctx ann_token ann_signed_in)"
  let ?name = "''users/7/personalAccessTokens/u''"
  let ?v = "snd (DeletePersonalAccessToken ann_settings ann_ctx ?name ?w)"
  have del: "DeletePersonalAccessToken ann_settings ann_ctx ?name ?w = (Inr (), ?v)"
    using ann_deletes by (simp add: prod_eq_iff)
  have name: "token_of_name ?name = Inr (7, ''u'')" by code_simp
  have rows: "s = \<lparr>us_UserID = 7, us_Key = PERSONAL_ACCESS_TOKENS, us_Value = PersonalAccessTokens
      [\<lparr>pat_TokenId = ''u'', pat_TokenHash = ''memos_pat_uuu'', pat_Description = ''cli'', pat_ExpiresAt = None,
        pat_CreatedAt = 0, pat_LastUsedAt = None\<rparr>]\<rparr>"
    if "s \<in> set (ac_settings ?w)" "us_Key s = PERSONAL_ACCESS_TOKENS" for s
    using that unfolding ann_token_rows by (auto simp: ann_signed_in_def)
  have "set_inv PERSONAL_ACCESS_TOKENS ?w"
  proof -
    obtain rep tok where made: "CreatePersonalAccessToken ann_settings ann_ctx ann_token ann_signed_in = (Inr (rep, tok), ?w)"
      using ann_creates by (metis prod.collapse)
    have parent: "ExtractUserIDFromName (ct_Parent ann_token) = Inr 7" by code_simp
    show ?thesis
      by (rule created_keeps [OF _ made parent]) (use ann_rows in simp)
  qed
  from deleted_token_refused [OF this del name _ refl, of "''memos_pat_uuu''"] show ?thesis
    using rows by (fastforce simp: ann_settings_def)
qed

end
