(* ===== verification/MemoRows.thy ===== *)
theory MemoRows
  imports UserHazards SyncStore
begin

section \<open>Memos: rows and messages (store/*.go, api/v1/memo\_service\_converter.go)\<close>

text \<open>
  The rows of memos, relations, attachments, reactions, activities, notifications and
  notebooks, the messages of the memo service, and the conversions between them. Times of rows
  are seconds. The JSON of a payload is identified with the message it encodes.
\<close>

subsection \<open>Rows\<close>

record location =
  lo_Placeholder :: string
  lo_Latitude :: float64
  lo_Longitude :: float64

record memo_property =
  mp_HasLink :: bool
  mp_HasTaskList :: bool
  mp_HasCode :: bool
  mp_HasIncompleteTasks :: bool

record memo_payload =
  pl_Tags :: "string list"
  pl_Property :: "memo_property option"
  pl_Location :: "location option"

definition empty_payload :: memo_payload where
  "empty_payload = \<lparr>pl_Tags = [], pl_Property = None, pl_Location = None\<rparr>"

record memo_row =
  mr_ID :: int
  mr_UID :: string
  mr_RowStatus :: string
  mr_CreatorID :: int
  mr_CreatedTs :: int
  mr_UpdatedTs :: int
  mr_Content :: string
  mr_Visibility :: visibility
  mr_Pinned :: bool
  mr_Payload :: memo_payload
  mr_NotebookID :: "int option"
  mr_ParentUID :: "string option"   \<comment> \<open>filled in by the driver's join\<close>

datatype relation_type = MemoRelationReference | MemoRelationComment

record memo_relation =
  rl_MemoID :: int
  rl_RelatedMemoID :: int
  rl_Type :: relation_type

record reaction =
  rc_ID :: int
  rc_CreatedTs :: int
  rc_CreatorID :: int
  rc_ContentID :: string
  rc_ReactionType :: string

record s3_config =
  s3_AccessKeyId :: string
  s3_AccessKeySecret :: string
  s3_Endpoint :: string
  s3_Region :: string
  s3_Bucket :: string
  s3_UsePathStyle :: bool

datatype storage_type = STORAGE_UNSPECIFIED | LOCAL | S3 | EXTERNAL

record file_row =
  fr_ID :: int
  fr_UID :: string
  fr_CreatorID :: int
  fr_CreatedTs :: int
  fr_UpdatedTs :: int
  fr_Filename :: string
  fr_Blob :: string
  fr_Type :: string
  fr_Size :: int
  fr_StorageType :: storage_type
  fr_Reference :: string
  fr_S3 :: "(string \<times> s3_config option) option"   \<comment> \<open>the S3 object of the payload: key and configuration\<close>
  fr_MemoID :: "int option"
  fr_MemoUID :: "string option"   \<comment> \<open>filled in by the driver's join\<close>

record activity =
  ay_ID :: int
  ay_CreatorID :: int
  ay_CreatedTs :: int
  ay_Comment :: "(int \<times> int) option"   \<comment> \<open>the payload: comment and commented memo\<close>

datatype inbox_status = UNREAD | INBOX_ARCHIVED | Other_status string
datatype inbox_type = MESSAGE_UNSPECIFIED | MEMO_COMMENT

record inbox =
  ib_ID :: int
  ib_CreatedTs :: int
  ib_SenderID :: int
  ib_ReceiverID :: int
  ib_Status :: inbox_status
  ib_Type :: inbox_type
  ib_ActivityId :: "int option"

record notebook_row =
  nr_ID :: int
  nr_UID :: string
  nr_CreatorID :: int
  nr_Title :: string
  nr_Icon :: string
  nr_IsDefault :: bool
  nr_DatasetID :: string
  nr_RowStatus :: string
  nr_CreatedTs :: int
  nr_UpdatedTs :: int

subsection \<open>Messages\<close>

datatype api_visibility =
    Visibility_UNSPECIFIED | Visibility_PRIVATE | Visibility_PROTECTED | Visibility_PUBLIC | Visibility_Other int

datatype api_relation_type = Relation_UNSPECIFIED | Relation_REFERENCE | Relation_COMMENT | Relation_Other int

text \<open>\<open>timestamppb.Timestamp\<close>; a missing one reads as the epoch.\<close>

record timestamp =
  tm_Seconds :: int
  tm_Nanos :: int

definition IsValid :: "timestamp \<Rightarrow> bool" where
  "IsValid t \<longleftrightarrow> -62135596800 \<le> tm_Seconds t \<and> tm_Seconds t \<le> 253402300799 \<and>
     0 \<le> tm_Nanos t \<and> tm_Nanos t < second_ns"

definition as_unix :: "timestamp option \<Rightarrow> int" where
  "as_unix t = (case t of None \<Rightarrow> 0 | Some t \<Rightarrow> tm_Seconds t + tm_Nanos t div second_ns)"

definition from_unix :: "int \<Rightarrow> timestamp" where
  "from_unix s = \<lparr>tm_Seconds = s, tm_Nanos = 0\<rparr>"

record relation_memo =
  rm_Name :: string
  rm_Snippet :: string

record api_relation =
  ar_Memo :: "relation_memo option"
  ar_RelatedMemo :: "relation_memo option"
  ar_Type :: api_relation_type

record api_reaction =
  ax_Name :: string
  ax_Creator :: string
  ax_ContentId :: string
  ax_ReactionType :: string
  ax_CreateTime :: timestamp

record api_attachment =
  aa_Name :: string
  aa_CreateTime :: timestamp
  aa_Filename :: string
  aa_ExternalLink :: string
  aa_Type :: string
  aa_Size :: int
  aa_Memo :: "string option"

record api_memo =
  am_Name :: string
  am_State :: state
  am_Creator :: string
  am_CreateTime :: "timestamp option"
  am_UpdateTime :: "timestamp option"
  am_DisplayTime :: "timestamp option"
  am_Content :: string
  am_Visibility :: api_visibility
  am_Tags :: "string list"
  am_Pinned :: bool
  am_Attachments :: "api_attachment list"
  am_Relations :: "api_relation list"
  am_Reactions :: "api_reaction list"
  am_Property :: "memo_property option"
  am_Parent :: "string option"
  am_Snippet :: string
  am_Location :: "location option"
  am_NotebookId :: int

subsection \<open>Conversions\<close>

definition convertVisibilityFromStore :: "visibility \<Rightarrow> api_visibility" where
  "convertVisibilityFromStore v =
     (case v of Private \<Rightarrow> Visibility_PRIVATE | Protected \<Rightarrow> Visibility_PROTECTED | Public \<Rightarrow> Visibility_PUBLIC)"

definition convertVisibilityToStore :: "api_visibility \<Rightarrow> visibility" where
  "convertVisibilityToStore v =
     (case v of Visibility_PROTECTED \<Rightarrow> Protected | Visibility_PUBLIC \<Rightarrow> Public | _ \<Rightarrow> Private)"

definition convertMemoPropertyFromStore :: "memo_property option \<Rightarrow> memo_property option" where
  "convertMemoPropertyFromStore p = map_option (\<lambda>p. \<lparr>mp_HasLink = mp_HasLink p,
     mp_HasTaskList = mp_HasTaskList p, mp_HasCode = mp_HasCode p,
     mp_HasIncompleteTasks = mp_HasIncompleteTasks p\<rparr>) p"

definition convertLocationFromStore :: "location option \<Rightarrow> location option" where
  "convertLocationFromStore l = map_option (\<lambda>l. \<lparr>lo_Placeholder = lo_Placeholder l,
     lo_Latitude = lo_Latitude l, lo_Longitude = lo_Longitude l\<rparr>) l"

definition convertLocationToStore :: "location option \<Rightarrow> location option" where
  "convertLocationToStore l = map_option (\<lambda>l. \<lparr>lo_Placeholder = lo_Placeholder l,
     lo_Latitude = lo_Latitude l, lo_Longitude = lo_Longitude l\<rparr>) l"

definition memo_name :: "string \<Rightarrow> string" where
  "memo_name uid = MemoNamePrefix @ uid"

definition convertReactionFromStore :: "reaction \<Rightarrow> api_reaction" where
  "convertReactionFromStore r =
     \<lparr>ax_Name = rc_ContentID r @ ''/'' @ ReactionNamePrefix @ itoa (rc_ID r),
      ax_Creator = user_name_of (rc_CreatorID r), ax_ContentId = rc_ContentID r,
      ax_ReactionType = rc_ReactionType r, ax_CreateTime = from_unix (rc_CreatedTs r)\<rparr>"

definition convertAttachmentFromStore :: "file_row \<Rightarrow> api_attachment" where
  "convertAttachmentFromStore a =
     \<lparr>aa_Name = AttachmentNamePrefix @ fr_UID a, aa_CreateTime = from_unix (fr_CreatedTs a),
      aa_Filename = fr_Filename a,
      aa_ExternalLink = (if fr_StorageType a \<in> {EXTERNAL, S3} then fr_Reference a else []),
      aa_Type = fr_Type a, aa_Size = fr_Size a,
      aa_Memo = (case fr_MemoUID a of Some u \<Rightarrow> if u = [] then None else Some (memo_name u) | None \<Rightarrow> None)\<rparr>"

definition convertMemoRelationTypeFromStore :: "relation_type \<Rightarrow> api_relation_type" where
  "convertMemoRelationTypeFromStore t =
     (case t of MemoRelationReference \<Rightarrow> Relation_REFERENCE | MemoRelationComment \<Rightarrow> Relation_COMMENT)"

definition convertMemoRelationTypeToStore :: "api_relation_type \<Rightarrow> relation_type" where
  "convertMemoRelationTypeToStore t = (if t = Relation_COMMENT then MemoRelationComment else MemoRelationReference)"

text \<open>The message of a row without its relations and snippet, which need the store.\<close>

definition memo_message :: "bool \<Rightarrow> memo_row \<Rightarrow> reaction list \<Rightarrow> file_row list \<Rightarrow> api_memo" where
  "memo_message display_updated m reactions attachments =
     \<lparr>am_Name = memo_name (mr_UID m), am_State = convertStateFromStore (mr_RowStatus m),
      am_Creator = user_name_of (mr_CreatorID m),
      am_CreateTime = Some (from_unix (mr_CreatedTs m)), am_UpdateTime = Some (from_unix (mr_UpdatedTs m)),
      am_DisplayTime = Some (from_unix (if display_updated then mr_UpdatedTs m else mr_CreatedTs m)),
      am_Content = mr_Content m, am_Visibility = convertVisibilityFromStore (mr_Visibility m),
      am_Tags = pl_Tags (mr_Payload m), am_Pinned = mr_Pinned m,
      am_Attachments = map convertAttachmentFromStore attachments, am_Relations = [],
      am_Reactions = map convertReactionFromStore reactions,
      am_Property = convertMemoPropertyFromStore (pl_Property (mr_Payload m)),
      am_Parent = map_option memo_name (mr_ParentUID m), am_Snippet = [],
      am_Location = convertLocationFromStore (pl_Location (mr_Payload m)),
      am_NotebookId = (case mr_NotebookID m of Some n \<Rightarrow> n | None \<Rightarrow> 0)\<rparr>"

end
