(* ===== verification/SiteState.thy ===== *)
theory SiteState
  imports MemoRows FilterEngine
begin

section \<open>The state of the services\<close>

text \<open>
  All tables of the services, with the accounts as one component, the caches, the AUTOINCREMENT
  counters, and the log of what leaves the program. Operations on accounts are lifted by
  \<open>on_acc\<close>; the counter of their oracles numbers the calls of the other tables too.
\<close>

subsection \<open>Instance settings\<close>

record basic_setting =
  bs_SecretKey :: string
  bs_SchemaVersion :: string

record custom_profile =
  cp_Title :: string
  cp_Description :: string
  cp_LogoUrl :: string

record instance_general =
  ig_DisallowUserRegistration :: bool
  ig_DisallowPasswordAuth :: bool
  ig_AdditionalScript :: string
  ig_AdditionalStyle :: string
  ig_CustomProfile :: "custom_profile option"
  ig_WeekStartDayOffset :: int
  ig_DisallowChangeUsername :: bool
  ig_DisallowChangeNickname :: bool

datatype instance_storage_type = StorageType_UNSPECIFIED | StorageType_DATABASE | StorageType_LOCAL | StorageType_S3

record instance_storage =
  is_StorageType :: instance_storage_type
  is_FilepathTemplate :: string
  is_UploadSizeLimitMb :: int
  is_S3Config :: "s3_config option"

record memo_related =
  ir_DisallowPublicVisibility :: bool
  ir_DisplayWithUpdateTime :: bool
  ir_ContentLengthLimit :: int
  ir_EnableDoubleClickEdit :: bool
  ir_Reactions :: "string list"

datatype instance_key = INSTANCE_KEY_UNSPECIFIED | INSTANCE_BASIC | INSTANCE_GENERAL | INSTANCE_STORAGE | INSTANCE_MEMO_RELATED

text \<open>The pointer inside a value may be nil.\<close>

datatype instance_value =
    BasicSetting "basic_setting option"
  | InstanceGeneral "instance_general option"
  | StorageSetting "instance_storage option"
  | MemoRelated "memo_related option"

record instance_setting =
  in_Key :: instance_key
  in_Value :: instance_value

text \<open>A row: the JSON text is identified with the value it encodes.\<close>

record instance_row =
  iw_Name :: string
  iw_Value :: instance_value
  iw_Description :: string

subsection \<open>The site\<close>

datatype site_event =
    OnMemoCreated memo_row
  | OnMemoUpdated memo_row
  | OnMemoVisibilityChanged string visibility
  | OnMemoDeleted string
  | OnAttachmentCreated file_row
  | OnAttachmentDeleted string
  | PostAsync string string string api_memo   \<comment> \<open>URL, activity type, creator, memo\<close>
  | DeleteObject s3_config string

record site =
  st_acc :: accounts
  st_memos :: "memo_row list"
  st_relations :: "memo_relation list"
  st_reactions :: "reaction list"
  st_files :: "file_row list"
  st_activities :: "activity list"
  st_inboxes :: "inbox list"
  st_notebooks :: "notebook_row list"
  st_instance :: "instance_row list"
  st_instance_cache :: "string \<Rightarrow> instance_setting option"
  st_next_memo :: int
  st_next_reaction :: int
  st_next_file :: int
  st_next_activity :: int
  st_next_inbox :: int
  st_next_notebook :: int
  st_events :: "site_event list"

text \<open>
  \<open>sv_cel\<close> is the CEL compiler of memo filters, \<open>sv_where\<close> the value SQLite gives a rendered
  condition with its arguments in a row, \<open>sv_extract\<close> and \<open>sv_snippet\<close> the markdown service,
  \<open>sv_remove\<close> the error of removing the file a reference denotes, if any (a missing file is
  none), \<open>sv_pack\<close> and \<open>sv_unpack\<close> the encoding of page tokens, \<open>sv_dataset\<close> the answer of the
  RAGFlow service to the creation of a dataset; \<open>sv_provisioner\<close> tells whether the provisioner is
  configured. Whether the synchroniser is, is told by the environment of the users.
\<close>

record site_env =
  sv_user :: user_env
  sv_cel :: "string \<Rightarrow> expr option"
  sv_where :: "statement \<Rightarrow> memo_row \<Rightarrow> bool"
  sv_file_cel :: "string \<Rightarrow> expr option"
  sv_file_where :: "statement \<Rightarrow> file_row \<Rightarrow> bool"
  sv_filter_text :: "filter_error \<Rightarrow> string"
  sv_dialect :: dialect
  sv_extract :: "string \<Rightarrow> string + (string list \<times> memo_property option)"
  sv_snippet :: "string \<Rightarrow> string + string"
  sv_uid :: "nat \<Rightarrow> string"
  sv_remove :: "nat \<Rightarrow> string \<Rightarrow> string option"
  sv_pack :: "int \<Rightarrow> int \<Rightarrow> string"
  sv_unpack :: "string \<Rightarrow> string + (int \<times> int)"
  sv_dataset :: "nat \<Rightarrow> int \<Rightarrow> string \<Rightarrow> string option"
  sv_mapping :: "nat \<Rightarrow> int \<Rightarrow> string option"
  sv_provisioner :: bool

abbreviation api_of :: "site_env \<Rightarrow> api_env" where
  "api_of E \<equiv> ue_api (sv_user E)"

abbreviation db_env :: "site_env \<Rightarrow> acc_env" where
  "db_env E \<equiv> acc_of (api_of E)"

type_synonym 'a site_call = "(string + 'a) \<times> site"
type_synonym 'a site_reply = "(api_error + 'a) \<times> site"

definition on_acc :: "(accounts \<Rightarrow> 'a \<times> accounts) \<Rightarrow> site \<Rightarrow> 'a \<times> site" where
  "on_acc f s = (fst (f (st_acc s)), s\<lparr>st_acc := snd (f (st_acc s))\<rparr>)"

definition site_tick :: "site \<Rightarrow> nat" where
  "site_tick s = ac_tick (st_acc s)"

definition set_site_tick :: "nat \<Rightarrow> site \<Rightarrow> site" where
  "set_site_tick k s = s\<lparr>st_acc := (st_acc s)\<lparr>ac_tick := k\<rparr>\<rparr>"

definition ask_site :: "(nat \<Rightarrow> 'a) \<Rightarrow> site \<Rightarrow> 'a \<times> site" where
  "ask_site f = on_acc (ask f)"

definition site_db :: "site_env \<Rightarrow> (site \<Rightarrow> 'a site_call) \<Rightarrow> site \<Rightarrow> 'a site_call" where
  "site_db E f s =
     (case ae_db (db_env E) (site_tick s) of
        Some e \<Rightarrow> (Inl e, set_site_tick (site_tick s + 1) s)
      | None \<Rightarrow> (fst (f s), set_site_tick (site_tick s + 1) (snd (f s))))"

definition site_now :: "site_env \<Rightarrow> site \<Rightarrow> int" where
  "site_now E s = unix (read_clock (db_env E) (st_acc s))"

definition log_site_event :: "site_event \<Rightarrow> site \<Rightarrow> site" where
  "log_site_event ev s = s\<lparr>st_events := st_events s @ [ev]\<rparr>"

text \<open>The error of a call becomes a status whose text is a constant, or the error itself.\<close>

definition opaque :: "code \<Rightarrow> string \<Rightarrow> 'a site_call \<Rightarrow> 'a site_reply" where
  "opaque c msg = map_err (\<lambda>_. Status c msg)"

definition site_argument :: "string \<Rightarrow> string + 'a \<Rightarrow> site \<Rightarrow> 'a site_reply" where
  "site_argument msg r s = (case r of Inl e \<Rightarrow> (Inl (status_of InvalidArgument msg e), s) | Inr a \<Rightarrow> (Inr a, s))"

definition unauthenticated :: api_error where
  "unauthenticated = Status Unauthenticated ''user not authenticated''"

definition current_user :: "site_env \<Rightarrow> string \<Rightarrow> ctx \<Rightarrow> site \<Rightarrow> user option site_reply" where
  "current_user E msg c s = opaque Internal msg (on_acc (fetchCurrentUser (api_of E) c) s)"

definition signed_in :: "site_env \<Rightarrow> string \<Rightarrow> ctx \<Rightarrow> site \<Rightarrow> user site_reply" where
  "signed_in E msg c s =
     and_then (current_user E msg c s) (\<lambda>u s.
     case u of None \<Rightarrow> (Inl unauthenticated, s) | Some u \<Rightarrow> (Inr u, s))"

text \<open>The same with the error's text.\<close>

definition site_user :: "site_env \<Rightarrow> string \<Rightarrow> ctx \<Rightarrow> site \<Rightarrow> user site_reply" where
  "site_user E msg c = on_acc (require_user (api_of E) msg c)"

definition owner_or_admin :: "user \<Rightarrow> int \<Rightarrow> bool" where
  "owner_or_admin u creator \<longleftrightarrow> creator = user_ID u \<or> isSuperUser u"

end
