(* ===== verification/InstanceSettings.thy ===== *)
theory InstanceSettings
  imports SiteState
begin

section \<open>Instance settings (store/instance\_setting.go, api/v1/instance\_service.go)\<close>

text \<open>
  The rows of \<open>system_setting\<close> with their cache, the defaults of the readers, and the handlers
  of the instance service.
\<close>

subsection \<open>The driver (store/db/sqlite/instance\_setting.go)\<close>

definition put_instance :: "instance_row \<Rightarrow> instance_row list \<Rightarrow> instance_row list" where
  "put_instance r rs =
     (if list_ex (\<lambda>x. iw_Name x = iw_Name r) rs
      then map (\<lambda>x. if iw_Name x = iw_Name r then r else x) rs else rs @ [r])"

definition sqlite_UpsertInstanceSetting :: "site_env \<Rightarrow> instance_row \<Rightarrow> site \<Rightarrow> instance_row site_call" where
  "sqlite_UpsertInstanceSetting E r = site_db E (\<lambda>s.
     (Inr r, s\<lparr>st_instance := put_instance r (st_instance s)\<rparr>))"

definition sqlite_ListInstanceSettings :: "site_env \<Rightarrow> string \<Rightarrow> site \<Rightarrow> instance_row list site_call" where
  "sqlite_ListInstanceSettings E name = site_db E (\<lambda>s.
     (Inr (filter (\<lambda>r. name = [] \<or> iw_Name r = name) (st_instance s)), s))"

definition sqlite_DeleteInstanceSetting :: "site_env \<Rightarrow> string \<Rightarrow> site \<Rightarrow> unit site_call" where
  "sqlite_DeleteInstanceSetting E name = site_db E (\<lambda>s.
     (Inr (), s\<lparr>st_instance := filter (\<lambda>r. iw_Name r \<noteq> name) (st_instance s)\<rparr>))"

subsection \<open>Keys and values\<close>

definition instance_key_string :: "instance_key \<Rightarrow> string" where
  "instance_key_string k =
     (case k of INSTANCE_KEY_UNSPECIFIED \<Rightarrow> ''INSTANCE_SETTING_KEY_UNSPECIFIED'' | INSTANCE_BASIC \<Rightarrow> ''BASIC''
      | INSTANCE_GENERAL \<Rightarrow> ''GENERAL'' | INSTANCE_STORAGE \<Rightarrow> ''STORAGE'' | INSTANCE_MEMO_RELATED \<Rightarrow> ''MEMO_RELATED'')"

text \<open>The map from names to keys; a missing name gives 0.\<close>

definition instance_key_value :: "string \<Rightarrow> instance_key" where
  "instance_key_value n =
     (if n = ''BASIC'' then INSTANCE_BASIC else if n = ''GENERAL'' then INSTANCE_GENERAL
      else if n = ''STORAGE'' then INSTANCE_STORAGE else if n = ''MEMO_RELATED'' then INSTANCE_MEMO_RELATED
      else INSTANCE_KEY_UNSPECIFIED)"

fun GetBasicSetting :: "instance_value \<Rightarrow> basic_setting option" where
  "GetBasicSetting (BasicSetting b) = b"
| "GetBasicSetting _ = None"

fun GetInstanceGeneral :: "instance_value \<Rightarrow> instance_general option" where
  "GetInstanceGeneral (InstanceGeneral g) = g"
| "GetInstanceGeneral _ = None"

fun GetStorageSetting :: "instance_value \<Rightarrow> instance_storage option" where
  "GetStorageSetting (StorageSetting g) = g"
| "GetStorageSetting _ = None"

fun GetMemoRelatedSetting :: "instance_value \<Rightarrow> memo_related option" where
  "GetMemoRelatedSetting (MemoRelated g) = g"
| "GetMemoRelatedSetting _ = None"

definition no_basic :: basic_setting where
  "no_basic = \<lparr>bs_SecretKey = [], bs_SchemaVersion = []\<rparr>"

definition no_instance_general :: instance_general where
  "no_instance_general = \<lparr>ig_DisallowUserRegistration = False, ig_DisallowPasswordAuth = False,
     ig_AdditionalScript = [], ig_AdditionalStyle = [], ig_CustomProfile = None,
     ig_WeekStartDayOffset = 0, ig_DisallowChangeUsername = False, ig_DisallowChangeNickname = False\<rparr>"

definition no_storage :: instance_storage where
  "no_storage = \<lparr>is_StorageType = StorageType_UNSPECIFIED, is_FilepathTemplate = [],
     is_UploadSizeLimitMb = 0, is_S3Config = None\<rparr>"

definition no_memo_related :: memo_related where
  "no_memo_related = \<lparr>ir_DisallowPublicVisibility = False, ir_DisplayWithUpdateTime = False,
     ir_ContentLengthLimit = 0, ir_EnableDoubleClickEdit = False, ir_Reactions = []\<rparr>"

text \<open>What is marshalled: the value the key asks for, nil and so \<open>{}\<close> when it is of another kind.\<close>

definition instance_bytes :: "instance_setting \<Rightarrow> string + instance_value" where
  "instance_bytes u =
     (case in_Key u of
        INSTANCE_BASIC \<Rightarrow> Inr (BasicSetting (Some (or_else (GetBasicSetting (in_Value u)) no_basic)))
      | INSTANCE_GENERAL \<Rightarrow> Inr (InstanceGeneral (Some (or_else (GetInstanceGeneral (in_Value u)) no_instance_general)))
      | INSTANCE_STORAGE \<Rightarrow> Inr (StorageSetting (Some (or_else (GetStorageSetting (in_Value u)) no_storage)))
      | INSTANCE_MEMO_RELATED \<Rightarrow> Inr (MemoRelated (Some (or_else (GetMemoRelatedSetting (in_Value u)) no_memo_related)))
      | INSTANCE_KEY_UNSPECIFIED \<Rightarrow> Inl ''unsupported instance setting key: INSTANCE_SETTING_KEY_UNSPECIFIED'')"

definition convertInstanceSettingFromRaw :: "instance_row \<Rightarrow> instance_setting option" where
  "convertInstanceSettingFromRaw r =
     (if instance_key_value (iw_Name r) = INSTANCE_KEY_UNSPECIFIED then None
      else Some \<lparr>in_Key = instance_key_value (iw_Name r), in_Value = iw_Value r\<rparr>)"

subsection \<open>The store\<close>

definition cache_instance :: "instance_setting \<Rightarrow> site \<Rightarrow> site" where
  "cache_instance v s = s\<lparr>st_instance_cache := (st_instance_cache s)(instance_key_string (in_Key v) \<mapsto> v)\<rparr>"

definition cached_instance :: "site_env \<Rightarrow> string \<Rightarrow> site \<Rightarrow> instance_setting option \<times> site" where
  "cached_instance E name s =
     (let t = set_site_tick (site_tick s + 1) s in
      if ae_kept (db_env E) (site_tick s) name then (st_instance_cache s name, t)
      else (None, t\<lparr>st_instance_cache := (st_instance_cache s)(name := None)\<rparr>))"

definition UpsertInstanceSetting :: "site_env \<Rightarrow> instance_setting \<Rightarrow> site \<Rightarrow> instance_setting site_call" where
  "UpsertInstanceSetting E u s =
     and_then (instance_bytes u, s) (\<lambda>v s.
     and_then (map_err (wrap_msg ''Failed to upsert instance setting'')
         (sqlite_UpsertInstanceSetting E \<lparr>iw_Name = instance_key_string (in_Key u), iw_Value = v, iw_Description = []\<rparr> s)) (\<lambda>r s.
     case convertInstanceSettingFromRaw r of
       None \<Rightarrow> (Inl ''unsupported'', s)
     | Some v \<Rightarrow> (Inr v, cache_instance v s)))"

definition ListInstanceSettings :: "site_env \<Rightarrow> string \<Rightarrow> site \<Rightarrow> instance_setting list site_call" where
  "ListInstanceSettings E name s =
     and_then (sqlite_ListInstanceSettings E name s) (\<lambda>rs s.
     let vs = List.map_filter convertInstanceSettingFromRaw rs
     in (Inr vs, fold cache_instance vs s))"

definition store_GetInstanceSetting :: "site_env \<Rightarrow> string \<Rightarrow> site \<Rightarrow> instance_setting option site_call" where
  "store_GetInstanceSetting E name s =
     (case cached_instance E name s of
        (Some v, s) \<Rightarrow> (Inr (Some v), s)
      | (None, s) \<Rightarrow>
          and_then (ListInstanceSettings E name s) (\<lambda>vs s.
          case vs of
            [] \<Rightarrow> (Inr None, s)
          | [v] \<Rightarrow> (Inr (Some v), s)
          | _ \<Rightarrow> (Inl (''found multiple instance settings with key '' @ name), s)))"

text \<open>
  The four readers: the value of the key (a value that is read is never nil), completed by the
  defaults and put back into the cache.
\<close>

definition read_instance ::
  "site_env \<Rightarrow> string \<Rightarrow> instance_key \<Rightarrow> (instance_value \<Rightarrow> 'a option) \<Rightarrow> 'a \<Rightarrow> ('a \<Rightarrow> 'a) \<Rightarrow>
   ('a option \<Rightarrow> instance_value) \<Rightarrow> site \<Rightarrow> 'a site_call" where
  "read_instance E msg k get unset complete wrap s =
     and_then (map_err (wrap_msg msg) (store_GetInstanceSetting E (instance_key_string k) s)) (\<lambda>v s.
     let g = complete (case v of None \<Rightarrow> unset | Some v \<Rightarrow> or_else (get (in_Value v)) unset)
     in (Inr g, cache_instance \<lparr>in_Key = k, in_Value = wrap (Some g)\<rparr> s))"

definition GetInstanceBasicSetting :: "site_env \<Rightarrow> site \<Rightarrow> basic_setting site_call" where
  "GetInstanceBasicSetting E =
     read_instance E ''failed to get instance basic setting'' INSTANCE_BASIC GetBasicSetting no_basic id BasicSetting"

definition site_GetInstanceGeneralSetting :: "site_env \<Rightarrow> site \<Rightarrow> instance_general site_call" where
  "site_GetInstanceGeneralSetting E =
     read_instance E ''failed to get instance general setting'' INSTANCE_GENERAL GetInstanceGeneral
       no_instance_general id InstanceGeneral"

definition DefaultContentLengthLimit :: int where "DefaultContentLengthLimit = 8 * 1024"

text \<open>Eight emoji in UTF-8.\<close>

definition DefaultReactions :: "string list" where
  "DefaultReactions = map (map byte)
     [[240, 159, 145, 141], [240, 159, 145, 142], [226, 157, 164, 239, 184, 143], [240, 159, 142, 137],
      [240, 159, 152, 132], [240, 159, 152, 149], [240, 159, 152, 162], [240, 159, 152, 161]]"

definition complete_memo_related :: "memo_related \<Rightarrow> memo_related" where
  "complete_memo_related m = m\<lparr>
     ir_ContentLengthLimit := max (ir_ContentLengthLimit m) DefaultContentLengthLimit,
     ir_Reactions := if ir_Reactions m = [] then DefaultReactions else ir_Reactions m\<rparr>"

definition GetInstanceMemoRelatedSetting :: "site_env \<Rightarrow> site \<Rightarrow> memo_related site_call" where
  "GetInstanceMemoRelatedSetting E =
     read_instance E ''failed to get instance general setting'' INSTANCE_MEMO_RELATED GetMemoRelatedSetting
       no_memo_related complete_memo_related MemoRelated"

definition defaultInstanceFilepathTemplate :: string where
  "defaultInstanceFilepathTemplate = ''assets/{timestamp}_{filename}''"

definition complete_storage :: "instance_storage \<Rightarrow> instance_storage" where
  "complete_storage g = g\<lparr>
     is_StorageType := if is_StorageType g = StorageType_UNSPECIFIED then StorageType_LOCAL else is_StorageType g,
     is_UploadSizeLimitMb := if is_UploadSizeLimitMb g = 0 then 30 else is_UploadSizeLimitMb g,
     is_FilepathTemplate := if is_FilepathTemplate g = [] then defaultInstanceFilepathTemplate else is_FilepathTemplate g\<rparr>"

definition GetInstanceStorageSetting :: "site_env \<Rightarrow> site \<Rightarrow> instance_storage site_call" where
  "GetInstanceStorageSetting E =
     read_instance E ''failed to get instance storage setting'' INSTANCE_STORAGE GetStorageSetting
       no_storage complete_storage StorageSetting"

subsection \<open>The handlers\<close>

datatype api_instance_value =
    ApiGeneral "instance_general option" | ApiStorage "instance_storage option" | ApiMemoRelated "memo_related option"

record api_instance_setting =
  ai_Name :: string
  ai_Value :: "api_instance_value option"

definition convertInstanceGeneralSetting :: "instance_general option \<Rightarrow> instance_general option" where
  "convertInstanceGeneralSetting = map_option (\<lambda>g. \<lparr>
     ig_DisallowUserRegistration = ig_DisallowUserRegistration g,
     ig_DisallowPasswordAuth = ig_DisallowPasswordAuth g,
     ig_AdditionalScript = ig_AdditionalScript g, ig_AdditionalStyle = ig_AdditionalStyle g,
     ig_CustomProfile = map_option (\<lambda>p. \<lparr>cp_Title = cp_Title p, cp_Description = cp_Description p,
       cp_LogoUrl = cp_LogoUrl p\<rparr>) (ig_CustomProfile g),
     ig_WeekStartDayOffset = ig_WeekStartDayOffset g,
     ig_DisallowChangeUsername = ig_DisallowChangeUsername g,
     ig_DisallowChangeNickname = ig_DisallowChangeNickname g\<rparr>)"

definition convertInstanceStorageSetting :: "instance_storage option \<Rightarrow> instance_storage option" where
  "convertInstanceStorageSetting = map_option (\<lambda>g. \<lparr>
     is_StorageType = is_StorageType g, is_FilepathTemplate = is_FilepathTemplate g,
     is_UploadSizeLimitMb = is_UploadSizeLimitMb g,
     is_S3Config = map_option (\<lambda>c. \<lparr>s3_AccessKeyId = s3_AccessKeyId c, s3_AccessKeySecret = s3_AccessKeySecret c,
       s3_Endpoint = s3_Endpoint c, s3_Region = s3_Region c, s3_Bucket = s3_Bucket c,
       s3_UsePathStyle = s3_UsePathStyle c\<rparr>) (is_S3Config g)\<rparr>)"

definition convertInstanceMemoRelatedSetting :: "memo_related option \<Rightarrow> memo_related option" where
  "convertInstanceMemoRelatedSetting = map_option (\<lambda>m. \<lparr>
     ir_DisallowPublicVisibility = ir_DisallowPublicVisibility m,
     ir_DisplayWithUpdateTime = ir_DisplayWithUpdateTime m,
     ir_ContentLengthLimit = ir_ContentLengthLimit m,
     ir_EnableDoubleClickEdit = ir_EnableDoubleClickEdit m, ir_Reactions = ir_Reactions m\<rparr>)"

definition convertInstanceSettingFromStore :: "instance_setting \<Rightarrow> api_instance_setting" where
  "convertInstanceSettingFromStore v =
     \<lparr>ai_Name = ''instance/settings/'' @ instance_key_string (in_Key v),
      ai_Value = (case in_Value v of
          InstanceGeneral g \<Rightarrow> Some (ApiGeneral (convertInstanceGeneralSetting g))
        | StorageSetting g \<Rightarrow> Some (ApiStorage (convertInstanceStorageSetting g))
        | MemoRelated g \<Rightarrow> Some (ApiMemoRelated (convertInstanceMemoRelatedSetting g))
        | BasicSetting _ \<Rightarrow> None)\<rparr>"

definition api_general :: "api_instance_setting \<Rightarrow> instance_general option" where
  "api_general v = (case ai_Value v of Some (ApiGeneral g) \<Rightarrow> g | _ \<Rightarrow> None)"

definition api_storage :: "api_instance_setting \<Rightarrow> instance_storage option" where
  "api_storage v = (case ai_Value v of Some (ApiStorage g) \<Rightarrow> g | _ \<Rightarrow> None)"

definition api_memo_related :: "api_instance_setting \<Rightarrow> memo_related option" where
  "api_memo_related v = (case ai_Value v of Some (ApiMemoRelated g) \<Rightarrow> g | _ \<Rightarrow> None)"

definition convertInstanceSettingToStore :: "api_instance_setting \<Rightarrow> instance_setting" where
  "convertInstanceSettingToStore v =
     (let k = instance_key_value (case ExtractInstanceSettingKeyFromName (ai_Name v) of Inl _ \<Rightarrow> [] | Inr n \<Rightarrow> n) in
      \<lparr>in_Key = k,
       in_Value = (case k of
           INSTANCE_STORAGE \<Rightarrow> StorageSetting (convertInstanceStorageSetting (api_storage v))
         | INSTANCE_MEMO_RELATED \<Rightarrow> MemoRelated (convertInstanceMemoRelatedSetting (api_memo_related v))
         | _ \<Rightarrow> InstanceGeneral (convertInstanceGeneralSetting (api_general v)))\<rparr>)"

text \<open>The read that fills in the defaults; its value is dropped.\<close>

definition touch_instance :: "site_env \<Rightarrow> instance_key \<Rightarrow> site \<Rightarrow> unit site_reply" where
  "touch_instance E k s =
     (let failed = status_of Internal ''failed to get instance setting'' in
      case k of
        INSTANCE_BASIC \<Rightarrow> and_then (map_err failed (GetInstanceBasicSetting E s)) (\<lambda>_ s. (Inr (), s))
      | INSTANCE_GENERAL \<Rightarrow> and_then (map_err failed (site_GetInstanceGeneralSetting E s)) (\<lambda>_ s. (Inr (), s))
      | INSTANCE_MEMO_RELATED \<Rightarrow> and_then (map_err failed (GetInstanceMemoRelatedSetting E s)) (\<lambda>_ s. (Inr (), s))
      | INSTANCE_STORAGE \<Rightarrow> and_then (map_err failed (GetInstanceStorageSetting E s)) (\<lambda>_ s. (Inr (), s))
      | INSTANCE_KEY_UNSPECIFIED \<Rightarrow> (Inl (Status InvalidArgument
          ''unsupported instance setting key: INSTANCE_SETTING_KEY_UNSPECIFIED''), s))"

definition require_admin :: "site_env \<Rightarrow> ctx \<Rightarrow> site \<Rightarrow> unit site_reply" where
  "require_admin E c s =
     and_then (site_user E ''failed to get current user'' c s) (\<lambda>u s.
     if user_Role u \<noteq> RoleAdmin then (Inl permission_denied, s) else (Inr (), s))"

definition GetInstanceSetting :: "site_env \<Rightarrow> ctx \<Rightarrow> string \<Rightarrow> site \<Rightarrow> api_instance_setting site_reply" where
  "GetInstanceSetting E c name s =
     and_then (site_argument ''invalid instance setting name'' (ExtractInstanceSettingKeyFromName name) s) (\<lambda>n s.
     let k = instance_key_value n in
     and_then (touch_instance E k s) (\<lambda>_ s.
     and_then (map_err (status_of Internal ''failed to get instance setting'')
         (store_GetInstanceSetting E (instance_key_string k) s)) (\<lambda>v s.
     case v of
       None \<Rightarrow> (Inl (Status NotFound ''instance setting not found''), s)
     | Some v \<Rightarrow>
         and_then (if in_Key v = INSTANCE_STORAGE then require_admin E c s else (Inr (), s)) (\<lambda>_ s.
         (Inr (convertInstanceSettingFromStore v), s)))))"

definition UpdateInstanceSetting ::
  "site_env \<Rightarrow> ctx \<Rightarrow> api_instance_setting option \<Rightarrow> site \<Rightarrow> api_instance_setting site_reply" where
  "UpdateInstanceSetting E c v s =
     and_then (require_admin E c s) (\<lambda>_ s.
     case v of
       None \<Rightarrow> (Inl nil_dereference, s)
     | Some v \<Rightarrow>
         and_then (map_err (status_of Internal ''failed to upsert instance setting'')
             (UpsertInstanceSetting E (convertInstanceSettingToStore v) s)) (\<lambda>v s.
         (Inr (convertInstanceSettingFromStore v), s)))"

definition GetInstanceAdmin :: "site_env \<Rightarrow> site \<Rightarrow> api_user option site_call" where
  "GetInstanceAdmin E s =
     and_then (map_err (wrap_msg ''failed to find admin'')
         (on_acc (store_GetUser (db_env E) (find_any_user\<lparr>fu_Role := Some RoleAdmin\<rparr>)) s)) (\<lambda>u s.
     (Inr (map_option convertUserFromStore u), s))"

record instance_profile =
  ip_Version :: string
  ip_Demo :: bool
  ip_InstanceUrl :: string
  ip_Admin :: "api_user option"

definition GetInstanceProfile :: "site_env \<Rightarrow> string \<Rightarrow> bool \<Rightarrow> string \<Rightarrow> site \<Rightarrow> instance_profile site_reply" where
  "GetInstanceProfile E version demo url s =
     and_then (map_err (status_of Internal ''failed to get instance admin'') (GetInstanceAdmin E s)) (\<lambda>a s.
     (Inr \<lparr>ip_Version = version, ip_Demo = demo, ip_InstanceUrl = url, ip_Admin = a\<rparr>, s))"

end
