(* ===== verification/SiteStore.thy ===== *)
theory SiteStore
  imports InstanceSettings
begin

section \<open>The tables of memos and what belongs to them (store/*.go, store/db/sqlite/*.go)\<close>

text \<open>
  The SQLite driver and the wrappers of the store for memos, relations, reactions, attachments,
  activities, notifications and notebooks. Foreign keys are switched off by the driver, so the
  schema adds only UNIQUE constraints.
\<close>

subsection \<open>Memos\<close>

record find_memo =
  fm_ID :: "int option"
  fm_UID :: "string option"
  fm_IDList :: "int list"
  fm_UIDList :: "string list"
  fm_RowStatus :: "string option"
  fm_CreatorID :: "int option"
  fm_VisibilityList :: "visibility list"
  fm_NotebookID :: "int option"
  fm_ExcludeContent :: bool
  fm_ExcludeComments :: bool
  fm_Filters :: "string list"
  fm_Limit :: "int option"
  fm_Offset :: "int option"
  fm_OrderByPinned :: bool
  fm_OrderByUpdatedTs :: bool
  fm_OrderByTimeAsc :: bool

definition any_memo :: find_memo where
  "any_memo = \<lparr>fm_ID = None, fm_UID = None, fm_IDList = [], fm_UIDList = [], fm_RowStatus = None,
     fm_CreatorID = None, fm_VisibilityList = [], fm_NotebookID = None, fm_ExcludeContent = False,
     fm_ExcludeComments = False, fm_Filters = [], fm_Limit = None, fm_Offset = None,
     fm_OrderByPinned = False, fm_OrderByUpdatedTs = False, fm_OrderByTimeAsc = False\<rparr>"

record update_memo =
  xm_ID :: int
  xm_CreatedTs :: "int option"
  xm_UpdatedTs :: "int option"
  xm_RowStatus :: "string option"
  xm_Content :: "string option"
  xm_Visibility :: "visibility option"
  xm_Pinned :: "bool option"
  xm_Payload :: "memo_payload option"
  xm_NotebookID :: "int option"

definition no_memo_columns :: "int \<Rightarrow> update_memo" where
  "no_memo_columns i = \<lparr>xm_ID = i, xm_CreatedTs = None, xm_UpdatedTs = None, xm_RowStatus = None,
     xm_Content = None, xm_Visibility = None, xm_Pinned = None, xm_Payload = None, xm_NotebookID = None\<rparr>"

definition sqlite_CreateMemo :: "site_env \<Rightarrow> memo_row \<Rightarrow> site \<Rightarrow> memo_row site_call" where
  "sqlite_CreateMemo E create = site_db E (\<lambda>s.
     if mr_UID create \<in> mr_UID ` set (st_memos s) then (Inl (ae_constraint (db_env E)), s)
     else
       (let now = site_now E s;
            m = create\<lparr>mr_ID := st_next_memo s, mr_RowStatus := RowNormal,
                  mr_CreatedTs := if mr_CreatedTs create = 0 then now else mr_CreatedTs create,
                  mr_UpdatedTs := if mr_UpdatedTs create = 0 then now else mr_UpdatedTs create\<rparr>
        in (Inr m, s\<lparr>st_memos := st_memos s @ [m\<lparr>mr_Pinned := False, mr_ParentUID := None\<rparr>],
                     st_next_memo := st_next_memo s + 1\<rparr>)))"

text \<open>The conditions of \<open>AppendConditions\<close> one by one; \<open>n\<close> arguments are already there.\<close>

fun filter_statements ::
  "(string \<Rightarrow> expr option) \<Rightarrow> now_clock \<Rightarrow> schema \<Rightarrow> dialect \<Rightarrow> string list \<Rightarrow> nat \<Rightarrow> nat \<Rightarrow>
   (filter_error + statement list) \<times> nat" where
  "filter_statements cel clk S d [] n k = (Inr [], k)"
| "filter_statements cel clk S d (src # rest) n k =
     (case CompileToStatement cel clk S src \<lparr>Dialect = d, PlaceholderOffset = int n\<rparr> k of
        (Inl er, k) \<Rightarrow> (Inl er, k)
      | (Inr st, k) \<Rightarrow>
          if SQL st = [] then filter_statements cel clk S d rest n k
          else (case filter_statements cel clk S d rest (n + length (Args st)) k of
              (Inl er, k) \<Rightarrow> (Inl er, k)
            | (Inr sts, k) \<Rightarrow> (Inr (st # sts), k)))"

lemma AppendConditions_statements:
  "fst (filter_statements cel clk S d srcs (length args) k) = Inr sts \<Longrightarrow>
   AppendConditions cel clk S srcs d wh args k =
     (None, wh @ map (\<lambda>st. ''('' @ SQL st @ '')'') sts, args @ concat (map Args sts))"
proof (induction srcs arbitrary: wh args k sts)
  case (Cons src rest)
  obtain r k1 where c: "CompileToStatement cel clk S src \<lparr>Dialect = d, PlaceholderOffset = int (length args)\<rparr> k = (r, k1)"
    by (cases "CompileToStatement cel clk S src \<lparr>Dialect = d, PlaceholderOffset = int (length args)\<rparr> k") auto
  with Cons.prems obtain st where st: "r = Inr st" by (cases r) auto
  show ?case
  proof (cases "SQL st = []")
    case True
    then show ?thesis using Cons.prems Cons.IH [of args k1 sts wh] by (simp add: c st)
  next
    case False
    obtain q k2 where q: "filter_statements cel clk S d rest (length args + length (Args st)) k1 = (q, k2)"
      by (cases "filter_statements cel clk S d rest (length args + length (Args st)) k1") auto
    with Cons.prems c st False obtain ss where "q = Inr ss" "sts = st # ss" by (cases q) auto
    then show ?thesis
      using Cons.IH [of "args @ Args st" k1 ss "wh @ [''('' @ SQL st @ '')'']"] by (simp add: c st False q)
  qed
qed simp

text \<open>The two left joins: a row for every comment relation of the memo, or one without a parent.\<close>

definition with_parents :: "site \<Rightarrow> memo_row \<Rightarrow> memo_row list" where
  "with_parents s m =
     (case filter (\<lambda>r. rl_MemoID r = mr_ID m \<and> rl_Type r = MemoRelationComment) (st_relations s) of
        [] \<Rightarrow> [m\<lparr>mr_ParentUID := None\<rparr>]
      | rs \<Rightarrow> map (\<lambda>r. m\<lparr>mr_ParentUID :=
          map_option mr_UID (find (\<lambda>p. mr_ID p = rl_RelatedMemoID r) (st_memos s))\<rparr>) rs)"

definition memo_matches :: "find_memo \<Rightarrow> memo_row \<Rightarrow> bool" where
  "memo_matches f m \<longleftrightarrow>
     (fm_ID f = None \<or> fm_ID f = Some (mr_ID m)) \<and>
     (fm_IDList f = [] \<or> mr_ID m \<in> set (fm_IDList f)) \<and>
     (fm_UID f = None \<or> fm_UID f = Some (mr_UID m)) \<and>
     (fm_UIDList f = [] \<or> mr_UID m \<in> set (fm_UIDList f)) \<and>
     (fm_CreatorID f = None \<or> fm_CreatorID f = Some (mr_CreatorID m)) \<and>
     (fm_RowStatus f = None \<or> fm_RowStatus f = Some (mr_RowStatus m)) \<and>
     (fm_VisibilityList f = [] \<or> mr_Visibility m \<in> set (fm_VisibilityList f)) \<and>
     (fm_ExcludeComments f \<longrightarrow> mr_ParentUID m = None) \<and>
     (fm_NotebookID f = None \<or> fm_NotebookID f = mr_NotebookID m)"

text \<open>ORDER BY: pinned first if asked for, then the time, then the id downwards.\<close>

definition memo_time :: "find_memo \<Rightarrow> memo_row \<Rightarrow> int" where
  "memo_time f m = (if fm_OrderByUpdatedTs f then mr_UpdatedTs m else mr_CreatedTs m)"

definition order_memos :: "find_memo \<Rightarrow> memo_row list \<Rightarrow> memo_row list" where
  "order_memos f ms =
     sort_key (\<lambda>m. if fm_OrderByPinned f \<and> mr_Pinned m then 0 else (1::int))
       (sort_key (\<lambda>m. if fm_OrderByTimeAsc f then memo_time f m else - memo_time f m)
         (sort_key (\<lambda>m. - mr_ID m) ms))"

text \<open>LIMIT and OFFSET: a negative limit is none, a negative offset is 0, an offset alone is ignored.\<close>

definition page :: "int option \<Rightarrow> int option \<Rightarrow> 'a list \<Rightarrow> 'a list" where
  "page limit offset xs =
     (case limit of None \<Rightarrow> xs
      | Some l \<Rightarrow> (let ys = (case offset of None \<Rightarrow> xs | Some n \<Rightarrow> drop (nat n) xs)
          in if l < 0 then ys else take (nat l) ys))"

definition sqlite_ListMemos :: "site_env \<Rightarrow> find_memo \<Rightarrow> site \<Rightarrow> memo_row list site_call" where
  "sqlite_ListMemos E f s =
     (case filter_statements (sv_cel E) (ae_now (db_env E)) NewSchema DialectSQLite (fm_Filters f) 0 (site_tick s) of
        (Inl er, k) \<Rightarrow> (Inl (sv_filter_text E er), set_site_tick k s)
      | (Inr sts, k) \<Rightarrow> site_db E (\<lambda>s.
          (Inr (map (\<lambda>m. if fm_ExcludeContent f then m\<lparr>mr_Content := []\<rparr> else m)
             (page (fm_Limit f) (fm_Offset f)
               (order_memos f (filter (\<lambda>m. memo_matches f m \<and> list_all (\<lambda>st. sv_where E st m) sts)
                 (concat (map (with_parents s) (st_memos s))))))), s)) (set_site_tick k s))"

definition set_memo_columns :: "update_memo \<Rightarrow> memo_row \<Rightarrow> memo_row" where
  "set_memo_columns up m = m\<lparr>
     mr_CreatedTs := or_else (xm_CreatedTs up) (mr_CreatedTs m),
     mr_UpdatedTs := or_else (xm_UpdatedTs up) (mr_UpdatedTs m),
     mr_RowStatus := or_else (xm_RowStatus up) (mr_RowStatus m),
     mr_Content := or_else (xm_Content up) (mr_Content m),
     mr_Visibility := or_else (xm_Visibility up) (mr_Visibility m),
     mr_Pinned := or_else (xm_Pinned up) (mr_Pinned m),
     mr_Payload := or_else (xm_Payload up) (mr_Payload m),
     mr_NotebookID := (case xm_NotebookID up of None \<Rightarrow> mr_NotebookID m | Some n \<Rightarrow> Some n)\<rparr>"

definition sqlite_UpdateMemo :: "site_env \<Rightarrow> update_memo \<Rightarrow> site \<Rightarrow> unit site_call" where
  "sqlite_UpdateMemo E up s =
     (if up = no_memo_columns (xm_ID up) then (Inr (), s)
      else site_db E (\<lambda>s. (Inr (), s\<lparr>st_memos :=
        map (\<lambda>m. if mr_ID m = xm_ID up then set_memo_columns up m else m) (st_memos s)\<rparr>)) s)"

definition sqlite_DeleteMemo :: "site_env \<Rightarrow> int \<Rightarrow> site \<Rightarrow> unit site_call" where
  "sqlite_DeleteMemo E i = site_db E (\<lambda>s.
     (Inr (), s\<lparr>st_memos := filter (\<lambda>m. mr_ID m \<noteq> i) (st_memos s)\<rparr>))"

definition store_CreateMemo :: "site_env \<Rightarrow> memo_row \<Rightarrow> site \<Rightarrow> memo_row site_call" where
  "store_CreateMemo E create s =
     (if \<not> UIDMatcher (mr_UID create) then (Inl ''invalid uid'', s) else sqlite_CreateMemo E create s)"

definition store_GetMemo :: "site_env \<Rightarrow> find_memo \<Rightarrow> site \<Rightarrow> memo_row option site_call" where
  "store_GetMemo E f s =
     and_then (sqlite_ListMemos E f s) (\<lambda>ms s. (Inr (case ms of [] \<Rightarrow> None | m # _ \<Rightarrow> Some m), s))"

definition memo_with_uid :: "string \<Rightarrow> find_memo" where
  "memo_with_uid u = any_memo\<lparr>fm_UID := Some u\<rparr>"

definition memo_with_id :: "int \<Rightarrow> find_memo" where
  "memo_with_id i = any_memo\<lparr>fm_ID := Some i\<rparr>"

subsection \<open>Relations\<close>

record find_relation =
  fl_MemoID :: "int option"
  fl_RelatedMemoID :: "int option"
  fl_Type :: "relation_type option"
  fl_MemoFilter :: "string option"

definition sqlite_UpsertMemoRelation :: "site_env \<Rightarrow> memo_relation \<Rightarrow> site \<Rightarrow> memo_relation site_call" where
  "sqlite_UpsertMemoRelation E r = site_db E (\<lambda>s.
     (Inr r, if r \<in> set (st_relations s) then s else s\<lparr>st_relations := st_relations s @ [r]\<rparr>))"

definition relation_matches :: "find_relation \<Rightarrow> memo_relation \<Rightarrow> bool" where
  "relation_matches f r \<longleftrightarrow>
     (fl_MemoID f = None \<or> fl_MemoID f = Some (rl_MemoID r)) \<and>
     (fl_RelatedMemoID f = None \<or> fl_RelatedMemoID f = Some (rl_RelatedMemoID r)) \<and>
     (fl_Type f = None \<or> fl_Type f = Some (rl_Type r))"

definition filtered_ids :: "site_env \<Rightarrow> statement \<Rightarrow> site \<Rightarrow> int set" where
  "filtered_ids E st s = mr_ID ` set (filter (sv_where E st) (st_memos s))"

definition sqlite_ListMemoRelations :: "site_env \<Rightarrow> find_relation \<Rightarrow> site \<Rightarrow> memo_relation list site_call" where
  "sqlite_ListMemoRelations E f s =
     (case fl_MemoFilter f of
        None \<Rightarrow> site_db E (\<lambda>s. (Inr (filter (relation_matches f) (st_relations s)), s)) s
      | Some src \<Rightarrow>
          (case CompileToStatement (sv_cel E) (ae_now (db_env E)) NewSchema src
              \<lparr>Dialect = DialectSQLite, PlaceholderOffset = 0\<rparr> (site_tick s) of
             (Inl er, k) \<Rightarrow> (Inl (sv_filter_text E er), set_site_tick k s)
           | (Inr st, k) \<Rightarrow> site_db E (\<lambda>s.
               (Inr (filter (\<lambda>r. relation_matches f r \<and>
                  (SQL st \<noteq> [] \<longrightarrow> rl_MemoID r \<in> filtered_ids E st s \<and> rl_RelatedMemoID r \<in> filtered_ids E st s))
                  (st_relations s)), s)) (set_site_tick k s)))"

definition sqlite_DeleteMemoRelation :: "site_env \<Rightarrow> find_relation \<Rightarrow> site \<Rightarrow> unit site_call" where
  "sqlite_DeleteMemoRelation E f = site_db E (\<lambda>s.
     (Inr (), s\<lparr>st_relations := filter (\<lambda>r. \<not> relation_matches f r) (st_relations s)\<rparr>))"

definition relations_from :: "int \<Rightarrow> find_relation" where
  "relations_from i = \<lparr>fl_MemoID = Some i, fl_RelatedMemoID = None, fl_Type = None, fl_MemoFilter = None\<rparr>"

definition relations_to :: "int \<Rightarrow> find_relation" where
  "relations_to i = \<lparr>fl_MemoID = None, fl_RelatedMemoID = Some i, fl_Type = None, fl_MemoFilter = None\<rparr>"

subsection \<open>Reactions\<close>

record find_reaction =
  fx_ID :: "int option"
  fx_CreatorID :: "int option"
  fx_ContentID :: "string option"
  fx_ContentIDList :: "string list"

definition any_reaction :: find_reaction where
  "any_reaction = \<lparr>fx_ID = None, fx_CreatorID = None, fx_ContentID = None, fx_ContentIDList = []\<rparr>"

text \<open>An INSERT despite its name: the same reaction twice violates the UNIQUE constraint.\<close>

definition sqlite_UpsertReaction :: "site_env \<Rightarrow> reaction \<Rightarrow> site \<Rightarrow> reaction site_call" where
  "sqlite_UpsertReaction E x = site_db E (\<lambda>s.
     if list_ex (\<lambda>y. rc_CreatorID y = rc_CreatorID x \<and> rc_ContentID y = rc_ContentID x \<and>
          rc_ReactionType y = rc_ReactionType x) (st_reactions s)
     then (Inl (ae_constraint (db_env E)), s)
     else let y = x\<lparr>rc_ID := st_next_reaction s, rc_CreatedTs := site_now E s\<rparr>
       in (Inr y, s\<lparr>st_reactions := st_reactions s @ [y], st_next_reaction := st_next_reaction s + 1\<rparr>))"

definition reaction_matches :: "find_reaction \<Rightarrow> reaction \<Rightarrow> bool" where
  "reaction_matches f x \<longleftrightarrow>
     (fx_ID f = None \<or> fx_ID f = Some (rc_ID x)) \<and>
     (fx_CreatorID f = None \<or> fx_CreatorID f = Some (rc_CreatorID x)) \<and>
     (fx_ContentID f = None \<or> fx_ContentID f = Some (rc_ContentID x)) \<and>
     (fx_ContentIDList f = [] \<or> rc_ContentID x \<in> set (fx_ContentIDList f))"

definition sqlite_ListReactions :: "site_env \<Rightarrow> find_reaction \<Rightarrow> site \<Rightarrow> reaction list site_call" where
  "sqlite_ListReactions E f = site_db E (\<lambda>s.
     (Inr (sort_key rc_ID (filter (reaction_matches f) (st_reactions s))), s))"

text \<open>\<open>GetReaction\<close> does not read the list of contents.\<close>

definition sqlite_GetReaction :: "site_env \<Rightarrow> find_reaction \<Rightarrow> site \<Rightarrow> reaction option site_call" where
  "sqlite_GetReaction E f = site_db E (\<lambda>s.
     (Inr (find (reaction_matches (f\<lparr>fx_ContentIDList := []\<rparr>)) (st_reactions s)), s))"

definition sqlite_DeleteReaction :: "site_env \<Rightarrow> int \<Rightarrow> site \<Rightarrow> unit site_call" where
  "sqlite_DeleteReaction E i = site_db E (\<lambda>s.
     (Inr (), s\<lparr>st_reactions := filter (\<lambda>x. rc_ID x \<noteq> i) (st_reactions s)\<rparr>))"

end
