(* ===== verification/SiteTables.thy ===== *)
theory SiteTables
  imports SiteStore
begin

section \<open>Attachments, activities, notifications and notebooks (store/*.go)\<close>

text \<open>
  The other tables of the services, with the deletion of a memo, which goes through three of
  them. Reading a blob from disk or S3 is left out; the removal of a local file is an oracle.
\<close>

subsection \<open>Attachments\<close>

text \<open>The fields of \<open>FindAttachment\<close> without \<open>FilenameSearch\<close> and \<open>HasRelatedMemo\<close>, which nobody sets.\<close>

record find_file =
  ff_GetBlob :: bool
  ff_ID :: "int option"
  ff_UID :: "string option"
  ff_CreatorID :: "int option"
  ff_Filename :: "string option"
  ff_MemoID :: "int option"
  ff_MemoIDList :: "int list"
  ff_StorageType :: "storage_type option"
  ff_Filters :: "string list"
  ff_Limit :: "int option"
  ff_Offset :: "int option"

definition any_file :: find_file where
  "any_file = \<lparr>ff_GetBlob = False, ff_ID = None, ff_UID = None, ff_CreatorID = None, ff_Filename = None,
     ff_MemoID = None, ff_MemoIDList = [], ff_StorageType = None, ff_Filters = [], ff_Limit = None, ff_Offset = None\<rparr>"

record update_file =
  xf_ID :: int
  xf_UID :: "string option"
  xf_UpdatedTs :: "int option"
  xf_Filename :: "string option"
  xf_MemoID :: "int option"
  xf_Reference :: "string option"
  xf_Payload :: "(string \<times> s3_config option) option"

definition sqlite_CreateAttachment :: "site_env \<Rightarrow> file_row \<Rightarrow> site \<Rightarrow> file_row site_call" where
  "sqlite_CreateAttachment E create = site_db E (\<lambda>s.
     if fr_UID create \<in> fr_UID ` set (st_files s) then (Inl (ae_constraint (db_env E)), s)
     else
       (let now = site_now E s;
            a = create\<lparr>fr_ID := st_next_file s, fr_CreatedTs := now, fr_UpdatedTs := now\<rparr>
        in (Inr a, s\<lparr>st_files := st_files s @ [a\<lparr>fr_MemoUID := None\<rparr>], st_next_file := st_next_file s + 1\<rparr>)))"

text \<open>The left join with the memo.\<close>

definition with_memo_uid :: "site \<Rightarrow> file_row \<Rightarrow> file_row" where
  "with_memo_uid s a = a\<lparr>fr_MemoUID := (case fr_MemoID a of None \<Rightarrow> None
     | Some i \<Rightarrow> map_option mr_UID (find (\<lambda>m. mr_ID m = i) (st_memos s)))\<rparr>"

text \<open>The unspecified storage type is stored as the empty string, which no search asks for.\<close>

definition file_matches :: "find_file \<Rightarrow> file_row \<Rightarrow> bool" where
  "file_matches f a \<longleftrightarrow>
     (ff_ID f = None \<or> ff_ID f = Some (fr_ID a)) \<and>
     (ff_UID f = None \<or> ff_UID f = Some (fr_UID a)) \<and>
     (ff_CreatorID f = None \<or> ff_CreatorID f = Some (fr_CreatorID a)) \<and>
     (ff_Filename f = None \<or> ff_Filename f = Some (fr_Filename a)) \<and>
     (ff_MemoID f = None \<or> ff_MemoID f = fr_MemoID a) \<and>
     (ff_MemoIDList f = [] \<or> (\<exists>i \<in> set (ff_MemoIDList f). fr_MemoID a = Some i)) \<and>
     (case ff_StorageType f of None \<Rightarrow> True | Some t \<Rightarrow> t \<noteq> STORAGE_UNSPECIFIED \<and> t = fr_StorageType a)"

definition sqlite_ListAttachments :: "site_env \<Rightarrow> find_file \<Rightarrow> site \<Rightarrow> file_row list site_call" where
  "sqlite_ListAttachments E f s =
     (case filter_statements (sv_file_cel E) (ae_now (db_env E)) NewAttachmentSchema DialectSQLite (ff_Filters f) 0 (site_tick s) of
        (Inl er, k) \<Rightarrow> (Inl (''failed to append filter conditions: '' @ sv_filter_text E er), set_site_tick k s)
      | (Inr sts, k) \<Rightarrow> site_db E (\<lambda>s.
          (Inr (map (\<lambda>a. if ff_GetBlob f then a else a\<lparr>fr_Blob := []\<rparr>)
             (page (ff_Limit f) (ff_Offset f) (sort_key (\<lambda>a. - fr_UpdatedTs a)
               (filter (\<lambda>a. file_matches f a \<and> list_all (\<lambda>st. sv_file_where E st a) sts)
                 (map (with_memo_uid s) (st_files s)))))), s)) (set_site_tick k s))"

definition set_file_columns :: "update_file \<Rightarrow> file_row \<Rightarrow> file_row" where
  "set_file_columns up a = a\<lparr>
     fr_UID := or_else (xf_UID up) (fr_UID a),
     fr_UpdatedTs := or_else (xf_UpdatedTs up) (fr_UpdatedTs a),
     fr_Filename := or_else (xf_Filename up) (fr_Filename a),
     fr_MemoID := (case xf_MemoID up of None \<Rightarrow> fr_MemoID a | Some i \<Rightarrow> Some i),
     fr_Reference := or_else (xf_Reference up) (fr_Reference a),
     fr_S3 := (case xf_Payload up of None \<Rightarrow> fr_S3 a | Some p \<Rightarrow> Some p)\<rparr>"

text \<open>Without a column to set the statement is no SQL.\<close>

definition no_file_columns :: "update_file \<Rightarrow> bool" where
  "no_file_columns up \<longleftrightarrow> xf_UID up = None \<and> xf_UpdatedTs up = None \<and> xf_Filename up = None \<and>
     xf_MemoID up = None \<and> xf_Reference up = None \<and> xf_Payload up = None"

definition sqlite_UpdateAttachment :: "site_env \<Rightarrow> update_file \<Rightarrow> site \<Rightarrow> unit site_call" where
  "sqlite_UpdateAttachment E up s = map_err (wrap_msg ''failed to update attachment'') (site_db E (\<lambda>s.
     if no_file_columns up then (Inl ''SQL logic error: near WHERE: syntax error'', s)
     else if (\<exists>u. xf_UID up = Some u \<and> u \<in> fr_UID ` set (filter (\<lambda>a. fr_ID a \<noteq> xf_ID up) (st_files s)) \<and>
          xf_ID up \<in> fr_ID ` set (st_files s))
     then (Inl (ae_constraint (db_env E)), s)
     else (Inr (), s\<lparr>st_files := map (\<lambda>a. if fr_ID a = xf_ID up then set_file_columns up a else a) (st_files s)\<rparr>)) s)"

definition sqlite_DeleteAttachment :: "site_env \<Rightarrow> int \<Rightarrow> site \<Rightarrow> unit site_call" where
  "sqlite_DeleteAttachment E i = site_db E (\<lambda>s.
     (Inr (), s\<lparr>st_files := filter (\<lambda>a. fr_ID a \<noteq> i) (st_files s)\<rparr>))"

definition store_CreateAttachment :: "site_env \<Rightarrow> file_row \<Rightarrow> site \<Rightarrow> file_row site_call" where
  "store_CreateAttachment E create s =
     (if \<not> UIDMatcher (fr_UID create) then (Inl ''invalid uid'', s) else sqlite_CreateAttachment E create s)"

text \<open>A list without a limit and without a list of memos gets one: 10 with blobs, 100 otherwise.\<close>

definition default_limit :: "find_file \<Rightarrow> find_file" where
  "default_limit f =
     (if ff_Limit f = None \<and> ff_MemoIDList f = []
      then f\<lparr>ff_Limit := Some (if ff_GetBlob f then 10 else 100)\<rparr> else f)"

definition store_ListAttachments :: "site_env \<Rightarrow> find_file \<Rightarrow> site \<Rightarrow> file_row list site_call" where
  "store_ListAttachments E f = sqlite_ListAttachments E (default_limit f)"

definition store_GetAttachment :: "site_env \<Rightarrow> find_file \<Rightarrow> site \<Rightarrow> file_row option site_call" where
  "store_GetAttachment E f s =
     and_then (store_ListAttachments E f s) (\<lambda>as s. (Inr (case as of [] \<Rightarrow> None | a # _ \<Rightarrow> Some a), s))"

definition store_UpdateAttachment :: "site_env \<Rightarrow> update_file \<Rightarrow> site \<Rightarrow> unit site_call" where
  "store_UpdateAttachment E up s =
     (if (case xf_UID up of None \<Rightarrow> False | Some u \<Rightarrow> \<not> UIDMatcher u) then (Inl ''invalid uid'', s)
      else sqlite_UpdateAttachment E up s)"

text \<open>
  The stored object: a local file must go, or the row stays; an object in S3 is asked to be
  deleted, whose errors, like a missing payload or configuration, are only logged.
\<close>

definition delete_local :: "site_env \<Rightarrow> file_row \<Rightarrow> site \<Rightarrow> unit site_call" where
  "delete_local E a s =
     (case ask_site (\<lambda>k. sv_remove E k (fr_Reference a)) s of
        (None, s) \<Rightarrow> (Inr (), s)
      | (Some e, s) \<Rightarrow> (Inl (wrap_msg ''failed to delete local file'' (wrap_msg ''failed to delete local file'' e)), s))"

definition delete_s3 :: "site_env \<Rightarrow> file_row \<Rightarrow> site \<Rightarrow> site" where
  "delete_s3 E a s =
     (case fr_S3 a of
        None \<Rightarrow> s
      | Some (key, own) \<Rightarrow>
          (case GetInstanceStorageSetting E s of
             (Inl _, s) \<Rightarrow> s
           | (Inr g, s) \<Rightarrow>
               (case (case own of Some c \<Rightarrow> Some c | None \<Rightarrow> is_S3Config g) of
                  None \<Rightarrow> s | Some c \<Rightarrow> log_site_event (DeleteObject c key) s)))"

definition store_DeleteAttachment :: "site_env \<Rightarrow> int \<Rightarrow> site \<Rightarrow> unit site_call" where
  "store_DeleteAttachment E i s =
     and_then (map_err (wrap_msg ''failed to get attachment'') (store_GetAttachment E (any_file\<lparr>ff_ID := Some i\<rparr>) s)) (\<lambda>a s.
     case a of
       None \<Rightarrow> (Inl ''attachment not found'', s)
     | Some a \<Rightarrow>
         and_then (case fr_StorageType a of
             LOCAL \<Rightarrow> delete_local E a s
           | S3 \<Rightarrow> (Inr (), delete_s3 E a s)
           | _ \<Rightarrow> (Inr (), s)) (\<lambda>_ s.
         sqlite_DeleteAttachment E i s))"

fun delete_attachments :: "site_env \<Rightarrow> file_row list \<Rightarrow> site \<Rightarrow> unit site_call" where
  "delete_attachments E [] s = (Inr (), s)"
| "delete_attachments E (a # as) s =
     and_then (store_DeleteAttachment E (fr_ID a) s) (\<lambda>_ s. delete_attachments E as s)"

definition store_DeleteMemo :: "site_env \<Rightarrow> int \<Rightarrow> site \<Rightarrow> unit site_call" where
  "store_DeleteMemo E i s =
     and_then (sqlite_DeleteMemoRelation E (relations_from i) s) (\<lambda>_ s.
     and_then (sqlite_DeleteMemoRelation E (relations_to i) s) (\<lambda>_ s.
     and_then (store_ListAttachments E (any_file\<lparr>ff_MemoID := Some i\<rparr>) s) (\<lambda>as s.
     and_then (delete_attachments E as s) (\<lambda>_ s.
     sqlite_DeleteMemo E i s))))"

subsection \<open>Activities\<close>

definition sqlite_CreateActivity :: "site_env \<Rightarrow> activity \<Rightarrow> site \<Rightarrow> activity site_call" where
  "sqlite_CreateActivity E create = site_db E (\<lambda>s.
     let y = create\<lparr>ay_ID := st_next_activity s, ay_CreatedTs := site_now E s\<rparr>
     in (Inr y, s\<lparr>st_activities := st_activities s @ [y], st_next_activity := st_next_activity s + 1\<rparr>))"

definition sqlite_ListActivities :: "site_env \<Rightarrow> int option \<Rightarrow> site \<Rightarrow> activity list site_call" where
  "sqlite_ListActivities E i = site_db E (\<lambda>s.
     (Inr (sort_key (\<lambda>y. - ay_CreatedTs y) (filter (\<lambda>y. i = None \<or> i = Some (ay_ID y)) (st_activities s))), s))"

definition store_GetActivity :: "site_env \<Rightarrow> int \<Rightarrow> site \<Rightarrow> activity option site_call" where
  "store_GetActivity E i s =
     and_then (sqlite_ListActivities E (Some i) s) (\<lambda>ys s. (Inr (case ys of [] \<Rightarrow> None | y # _ \<Rightarrow> Some y), s))"

subsection \<open>Notifications\<close>

record find_inbox =
  fi_ID :: "int option"
  fi_SenderID :: "int option"
  fi_ReceiverID :: "int option"
  fi_Status :: "inbox_status option"
  fi_MessageType :: "inbox_type option"
  fi_Limit :: "int option"
  fi_Offset :: "int option"

definition any_inbox :: find_inbox where
  "any_inbox = \<lparr>fi_ID = None, fi_SenderID = None, fi_ReceiverID = None, fi_Status = None,
     fi_MessageType = None, fi_Limit = None, fi_Offset = None\<rparr>"

definition sqlite_CreateInbox :: "site_env \<Rightarrow> inbox \<Rightarrow> site \<Rightarrow> inbox site_call" where
  "sqlite_CreateInbox E create = site_db E (\<lambda>s.
     let n = create\<lparr>ib_ID := st_next_inbox s, ib_CreatedTs := site_now E s\<rparr>
     in (Inr n, s\<lparr>st_inboxes := st_inboxes s @ [n], st_next_inbox := st_next_inbox s + 1\<rparr>))"

definition inbox_matches :: "find_inbox \<Rightarrow> inbox \<Rightarrow> bool" where
  "inbox_matches f n \<longleftrightarrow>
     (fi_ID f = None \<or> fi_ID f = Some (ib_ID n)) \<and>
     (fi_SenderID f = None \<or> fi_SenderID f = Some (ib_SenderID n)) \<and>
     (fi_ReceiverID f = None \<or> fi_ReceiverID f = Some (ib_ReceiverID n)) \<and>
     (fi_Status f = None \<or> fi_Status f = Some (ib_Status n)) \<and>
     (fi_MessageType f = None \<or> fi_MessageType f = Some (ib_Type n))"

definition sqlite_ListInboxes :: "site_env \<Rightarrow> find_inbox \<Rightarrow> site \<Rightarrow> inbox list site_call" where
  "sqlite_ListInboxes E f = site_db E (\<lambda>s.
     (Inr (page (fi_Limit f) (fi_Offset f) (sort_key (\<lambda>n. - ib_CreatedTs n) (filter (inbox_matches f) (st_inboxes s)))), s))"

text \<open>\<open>RETURNING\<close> has nothing to scan when there is no such row.\<close>

definition sqlite_UpdateInbox :: "site_env \<Rightarrow> int \<Rightarrow> inbox_status \<Rightarrow> site \<Rightarrow> inbox site_call" where
  "sqlite_UpdateInbox E i st = site_db E (\<lambda>s.
     case find (\<lambda>n. ib_ID n = i) (st_inboxes s) of
       None \<Rightarrow> (Inl ''sql: no rows in result set'', s)
     | Some n \<Rightarrow> (Inr (n\<lparr>ib_Status := st\<rparr>), s\<lparr>st_inboxes :=
         map (\<lambda>n. if ib_ID n = i then n\<lparr>ib_Status := st\<rparr> else n) (st_inboxes s)\<rparr>))"

definition sqlite_DeleteInbox :: "site_env \<Rightarrow> int \<Rightarrow> site \<Rightarrow> unit site_call" where
  "sqlite_DeleteInbox E i = site_db E (\<lambda>s.
     (Inr (), s\<lparr>st_inboxes := filter (\<lambda>n. ib_ID n \<noteq> i) (st_inboxes s)\<rparr>))"

subsection \<open>Notebooks\<close>

record find_notebook =
  fn_ID :: "int option"
  fn_UID :: "string option"
  fn_CreatorID :: "int option"
  fn_IsDefault :: "bool option"
  fn_RowStatus :: "string option"

definition any_notebook :: find_notebook where
  "any_notebook = \<lparr>fn_ID = None, fn_UID = None, fn_CreatorID = None, fn_IsDefault = None, fn_RowStatus = None\<rparr>"

record update_notebook =
  xn_ID :: int
  xn_Title :: "string option"
  xn_Icon :: "string option"
  xn_DatasetID :: "string option"
  xn_RowStatus :: "string option"

definition no_notebook_columns :: "int \<Rightarrow> update_notebook" where
  "no_notebook_columns i = \<lparr>xn_ID = i, xn_Title = None, xn_Icon = None, xn_DatasetID = None, xn_RowStatus = None\<rparr>"

text \<open>The unique index allows one default notebook for each creator.\<close>

definition sqlite_CreateNotebook :: "site_env \<Rightarrow> notebook_row \<Rightarrow> site \<Rightarrow> notebook_row site_call" where
  "sqlite_CreateNotebook E create = site_db E (\<lambda>s.
     if list_ex (\<lambda>b. nr_UID b = nr_UID create \<or>
          nr_IsDefault create \<and> nr_IsDefault b \<and> nr_CreatorID b = nr_CreatorID create) (st_notebooks s)
     then (Inl (ae_constraint (db_env E)), s)
     else let b = create\<lparr>nr_ID := st_next_notebook s, nr_RowStatus := RowNormal,
            nr_CreatedTs := site_now E s, nr_UpdatedTs := site_now E s\<rparr>
       in (Inr b, s\<lparr>st_notebooks := st_notebooks s @ [b], st_next_notebook := st_next_notebook s + 1\<rparr>))"

definition notebook_matches :: "find_notebook \<Rightarrow> notebook_row \<Rightarrow> bool" where
  "notebook_matches f b \<longleftrightarrow>
     (fn_ID f = None \<or> fn_ID f = Some (nr_ID b)) \<and>
     (fn_UID f = None \<or> fn_UID f = Some (nr_UID b)) \<and>
     (fn_CreatorID f = None \<or> fn_CreatorID f = Some (nr_CreatorID b)) \<and>
     (fn_IsDefault f = None \<or> fn_IsDefault f = Some (nr_IsDefault b)) \<and>
     (fn_RowStatus f = None \<or> fn_RowStatus f = Some (nr_RowStatus b))"

definition sqlite_ListNotebooks :: "site_env \<Rightarrow> find_notebook \<Rightarrow> site \<Rightarrow> notebook_row list site_call" where
  "sqlite_ListNotebooks E f = site_db E (\<lambda>s.
     (Inr (sort_key (\<lambda>b. if nr_IsDefault b then 0 else (1::int))
        (sort_key (\<lambda>b. - nr_CreatedTs b) (filter (notebook_matches f) (st_notebooks s)))), s))"

definition store_GetNotebook :: "site_env \<Rightarrow> find_notebook \<Rightarrow> site \<Rightarrow> notebook_row option site_call" where
  "store_GetNotebook E f s =
     and_then (sqlite_ListNotebooks E f s) (\<lambda>bs s. (Inr (case bs of [] \<Rightarrow> None | b # _ \<Rightarrow> Some b), s))"

definition set_notebook_columns :: "update_notebook \<Rightarrow> notebook_row \<Rightarrow> notebook_row" where
  "set_notebook_columns up b = b\<lparr>
     nr_Title := or_else (xn_Title up) (nr_Title b), nr_Icon := or_else (xn_Icon up) (nr_Icon b),
     nr_DatasetID := or_else (xn_DatasetID up) (nr_DatasetID b),
     nr_RowStatus := or_else (xn_RowStatus up) (nr_RowStatus b)\<rparr>"

definition sqlite_UpdateNotebook :: "site_env \<Rightarrow> update_notebook \<Rightarrow> site \<Rightarrow> unit site_call" where
  "sqlite_UpdateNotebook E up s =
     (if up = no_notebook_columns (xn_ID up) then (Inr (), s)
      else site_db E (\<lambda>s. (Inr (), s\<lparr>st_notebooks :=
        map (\<lambda>b. if nr_ID b = xn_ID up then set_notebook_columns up b else b) (st_notebooks s)\<rparr>)) s)"

definition sqlite_DeleteNotebook :: "site_env \<Rightarrow> int \<Rightarrow> site \<Rightarrow> unit site_call" where
  "sqlite_DeleteNotebook E i = site_db E (\<lambda>s.
     (Inr (), s\<lparr>st_notebooks := filter (\<lambda>b. nr_ID b \<noteq> i) (st_notebooks s)\<rparr>))"

end
