(* ===== verification/MemoService.thy ===== *)
theory MemoService
  imports SiteTables
begin

section \<open>The memo service (api/v1/memo\_service.go and the files beside it)\<close>

text \<open>
  The handlers for memos, their relations, attachments and reactions, with the webhooks and the
  synchronisation events they cause. The answers carry the relations that the asking user may
  see, so every handler that returns a memo runs the relation queries of the store.
\<close>

subsection \<open>Parts of a message\<close>

text \<open>\<open>errors.Wrap\<close> of an error that may be a status.\<close>

definition wrap_api :: "string \<Rightarrow> api_error \<Rightarrow> api_error" where
  "wrap_api msg e = (case e of Panicked m \<Rightarrow> Panicked m | _ \<Rightarrow> Plain (wrap_msg msg (error_text e)))"

text \<open>A status that drops the error it stands for; a panic stays one.\<close>

definition replace_error :: "code \<Rightarrow> string \<Rightarrow> api_error \<Rightarrow> api_error" where
  "replace_error c msg e = (case e of Panicked m \<Rightarrow> Panicked m | _ \<Rightarrow> Status c msg)"

definition getMemoContentSnippet :: "site_env \<Rightarrow> string \<Rightarrow> string + string" where
  "getMemoContentSnippet E content =
     (case sv_snippet E content of Inl e \<Rightarrow> Inl (wrap_msg ''failed to generate snippet'' e) | Inr t \<Rightarrow> Inr t)"

definition visibility_filter :: "user option \<Rightarrow> string" where
  "visibility_filter u =
     (case u of
        None \<Rightarrow> ''visibility == '' @ in_quotes ''PUBLIC''
      | Some u \<Rightarrow> ''creator_id == '' @ itoa (user_ID u) @ '' || visibility in ['' @ in_quotes ''PUBLIC'' @
          '', '' @ in_quotes ''PROTECTED'' @ '']'')"

definition relation_memo_of :: "site_env \<Rightarrow> string \<Rightarrow> string \<Rightarrow> int \<Rightarrow> site \<Rightarrow> relation_memo site_reply" where
  "relation_memo_of E get_msg snippet_msg i s =
     and_then (map_err (status_of Internal get_msg) (store_GetMemo E (memo_with_id i) s)) (\<lambda>m s.
     case m of
       None \<Rightarrow> (Inl nil_dereference, s)
     | Some m \<Rightarrow>
         (case getMemoContentSnippet E (mr_Content m) of
            Inl e \<Rightarrow> (Inl (Plain (wrap_msg snippet_msg e)), s)
          | Inr t \<Rightarrow> (Inr \<lparr>rm_Name = memo_name (mr_UID m), rm_Snippet = t\<rparr>, s)))"

definition convertMemoRelationFromStore :: "site_env \<Rightarrow> memo_relation \<Rightarrow> site \<Rightarrow> api_relation site_reply" where
  "convertMemoRelationFromStore E r s =
     and_then (relation_memo_of E ''failed to get memo'' ''failed to get memo content snippet'' (rl_MemoID r) s) (\<lambda>m s.
     and_then (relation_memo_of E ''failed to get related memo'' ''failed to get related memo content snippet'' (rl_RelatedMemoID r) s) (\<lambda>n s.
     (Inr \<lparr>ar_Memo = Some m, ar_RelatedMemo = Some n, ar_Type = convertMemoRelationTypeFromStore (rl_Type r)\<rparr>, s)))"

fun convert_relations :: "site_env \<Rightarrow> memo_relation list \<Rightarrow> site \<Rightarrow> api_relation list site_reply" where
  "convert_relations E [] s = (Inr [], s)"
| "convert_relations E (r # rs) s =
     and_then (map_err (replace_error Internal ''failed to convert memo relation'') (convertMemoRelationFromStore E r s)) (\<lambda>x s.
     and_then (convert_relations E rs s) (\<lambda>xs s. (Inr (x # xs), s)))"

definition ListMemoRelations :: "site_env \<Rightarrow> ctx \<Rightarrow> string \<Rightarrow> site \<Rightarrow> api_relation list site_reply" where
  "ListMemoRelations E c name s =
     and_then (site_argument ''invalid memo name'' (ExtractMemoUIDFromName name) s) (\<lambda>uid s.
     and_then (opaque Internal ''failed to get memo'' (store_GetMemo E (memo_with_uid uid) s)) (\<lambda>m s.
     and_then (current_user E ''failed to get user'' c s) (\<lambda>u s.
     case m of
       None \<Rightarrow> (Inl nil_dereference, s)
     | Some m \<Rightarrow>
         and_then (map_err (status_of Internal ''failed to list memo relations'')
             (sqlite_ListMemoRelations E ((relations_from (mr_ID m))\<lparr>fl_MemoFilter := Some (visibility_filter u)\<rparr>) s)) (\<lambda>rs s.
         and_then (convert_relations E rs s) (\<lambda>xs s.
         and_then (map_err (status_of Internal ''failed to list related memo relations'')
             (sqlite_ListMemoRelations E ((relations_to (mr_ID m))\<lparr>fl_MemoFilter := Some (visibility_filter u)\<rparr>) s)) (\<lambda>rs s.
         and_then (convert_relations E rs s) (\<lambda>ys s.
         (Inr (xs @ ys), s))))))))"

definition convertMemoFromStore ::
  "site_env \<Rightarrow> ctx \<Rightarrow> memo_row \<Rightarrow> reaction list \<Rightarrow> file_row list \<Rightarrow> site \<Rightarrow> api_memo site_reply" where
  "convertMemoFromStore E c m reactions attachments s =
     and_then (map_err (\<lambda>e. Plain (wrap_msg ''failed to get instance memo related setting'' e))
         (GetInstanceMemoRelatedSetting E s)) (\<lambda>g s.
     and_then (map_err (wrap_api ''failed to list memo relations'') (ListMemoRelations E c (memo_name (mr_UID m)) s)) (\<lambda>rs s.
     case getMemoContentSnippet E (mr_Content m) of
       Inl e \<Rightarrow> (Inl (Plain (wrap_msg ''failed to get memo content snippet'' e)), s)
     | Inr t \<Rightarrow> (Inr ((memo_message (ir_DisplayWithUpdateTime g) m reactions attachments)
         \<lparr>am_Relations := rs, am_Snippet := t\<rparr>), s)))"

text \<open>\<open>memopayload.RebuildMemoPayload\<close>: tags and properties are replaced, the location stays.\<close>

definition RebuildMemoPayload :: "site_env \<Rightarrow> string \<Rightarrow> memo_payload \<Rightarrow> string + memo_payload" where
  "RebuildMemoPayload E content p =
     (case sv_extract E content of
        Inl e \<Rightarrow> Inl (wrap_msg ''failed to extract markdown metadata'' e)
      | Inr (tags, prop) \<Rightarrow> Inr (p\<lparr>pl_Tags := tags, pl_Property := prop\<rparr>))"

definition getContentLengthLimit :: "site_env \<Rightarrow> site \<Rightarrow> int site_reply" where
  "getContentLengthLimit E s =
     and_then (opaque Internal ''failed to get instance memo related setting'' (GetInstanceMemoRelatedSetting E s)) (\<lambda>g s.
     (Inr (ir_ContentLengthLimit g), s))"

text \<open>The check of both handlers that set a content.\<close>

definition check_content :: "site_env \<Rightarrow> string \<Rightarrow> site \<Rightarrow> unit site_reply" where
  "check_content E content s =
     and_then (map_err (replace_error Internal ''failed to get content length limit'') (getContentLengthLimit E s)) (\<lambda>limit s.
     if limit < int (length content)
     then (Inl (Status InvalidArgument (''content too long (max '' @ itoa limit @ '' characters)'')), s)
     else (Inr (), s))"

definition rebuilt :: "site_env \<Rightarrow> string \<Rightarrow> memo_payload \<Rightarrow> site \<Rightarrow> memo_payload site_reply" where
  "rebuilt E content p s =
     (case RebuildMemoPayload E content p of
        Inl e \<Rightarrow> (Inl (status_of Internal ''failed to rebuild memo payload'' e), s) | Inr p \<Rightarrow> (Inr p, s))"

subsection \<open>Webhooks and synchronisation\<close>

definition convertMemoToWebhookPayload :: "string \<Rightarrow> string \<Rightarrow> api_memo \<Rightarrow> string + site_event" where
  "convertMemoToWebhookPayload url act m =
     (case ExtractUserIDFromName (am_Creator m) of
        Inl e \<Rightarrow> Inl (wrap_msg ''invalid memo creator'' e)
      | Inr i \<Rightarrow> Inr (PostAsync url act (user_name_of i) m))"

fun post_hooks :: "string \<Rightarrow> api_memo \<Rightarrow> webhook list \<Rightarrow> site \<Rightarrow> site" where
  "post_hooks act m [] s = s"
| "post_hooks act m (h # hs) s =
     (case convertMemoToWebhookPayload (wh_Url h) act m of
        Inl _ \<Rightarrow> s | Inr ev \<Rightarrow> post_hooks act m hs (log_site_event ev s))"

definition post_to :: "site_env \<Rightarrow> int \<Rightarrow> string \<Rightarrow> api_memo \<Rightarrow> site \<Rightarrow> site" where
  "post_to E owner act m s =
     (case on_acc (GetUserWebhooks (db_env E) owner) s of (Inl _, s) \<Rightarrow> s | (Inr hs, s) \<Rightarrow> post_hooks act m hs s)"

text \<open>The error of a dispatch is only logged.\<close>

definition dispatchMemoRelatedWebhook :: "site_env \<Rightarrow> api_memo \<Rightarrow> string \<Rightarrow> site \<Rightarrow> site" where
  "dispatchMemoRelatedWebhook E m act s =
     (case ExtractUserIDFromName (am_Creator m) of Inl _ \<Rightarrow> s | Inr i \<Rightarrow> post_to E i act m s)"

definition runner_event :: "site_env \<Rightarrow> site_event \<Rightarrow> site \<Rightarrow> site" where
  "runner_event E ev s = (if ue_runner (sv_user E) then log_site_event ev s else s)"

fun runner_attachments :: "site_env \<Rightarrow> file_row list \<Rightarrow> site \<Rightarrow> site" where
  "runner_attachments E [] s = s"
| "runner_attachments E (a # as) s = runner_attachments E as (runner_event E (OnAttachmentCreated a) s)"

subsection \<open>Attachments and relations of a memo\<close>

text \<open>What \<open>SetMemoAttachments\<close> and \<open>SetMemoRelations\<close> ask first.\<close>

definition own_memo :: "site_env \<Rightarrow> ctx \<Rightarrow> string \<Rightarrow> site \<Rightarrow> memo_row site_reply" where
  "own_memo E c name s =
     and_then (site_user E ''failed to get current user'' c s) (\<lambda>u s.
     and_then (site_argument ''invalid memo name'' (ExtractMemoUIDFromName name) s) (\<lambda>uid s.
     and_then (opaque Internal ''failed to get memo'' (store_GetMemo E (memo_with_uid uid) s)) (\<lambda>m s.
     case m of
       None \<Rightarrow> (Inl (Status NotFound ''memo not found''), s)
     | Some m \<Rightarrow> if owner_or_admin u (mr_CreatorID m) then (Inr m, s) else (Inl permission_denied, s))))"

text \<open>Is the attachment among the requested ones? The names are parsed one by one.\<close>

fun requested :: "string \<Rightarrow> string list \<Rightarrow> string + bool" where
  "requested uid [] = Inr False"
| "requested uid (n # ns) =
     (case ExtractAttachmentUIDFromName n of
        Inl e \<Rightarrow> Inl e | Inr u \<Rightarrow> if uid = u then Inr True else requested uid ns)"

fun drop_attachments :: "site_env \<Rightarrow> string list \<Rightarrow> file_row list \<Rightarrow> site \<Rightarrow> unit site_reply" where
  "drop_attachments E names [] s = (Inr (), s)"
| "drop_attachments E names (a # as) s =
     and_then (site_argument ''invalid attachment name'' (requested (fr_UID a) names) s) (\<lambda>found s.
     and_then (if found then (Inr (), s)
         else opaque Internal ''failed to delete attachment'' (store_DeleteAttachment E (fr_ID a) s)) (\<lambda>_ s.
     drop_attachments E names as s))"

fun link_attachments :: "site_env \<Rightarrow> int \<Rightarrow> string list \<Rightarrow> int \<Rightarrow> site \<Rightarrow> unit site_reply" where
  "link_attachments E memoID [] idx s = (Inr (), s)"
| "link_attachments E memoID (n # ns) idx s =
     and_then (site_argument ''invalid attachment name'' (ExtractAttachmentUIDFromName n) s) (\<lambda>uid s.
     and_then (map_err (status_of Internal ''failed to get attachment'') (store_GetAttachment E (any_file\<lparr>ff_UID := Some uid\<rparr>) s)) (\<lambda>a s.
     case a of
       None \<Rightarrow> (Inl (Status NotFound (''attachment not found: '' @ uid)), s)
     | Some a \<Rightarrow>
         (case ask_site (\<lambda>k. unix (ae_now (db_env E) k)) s of (now, s) \<Rightarrow>
          and_then (map_err (status_of Internal ''failed to update attachment'') (store_UpdateAttachment E
              \<lparr>xf_ID = fr_ID a, xf_UID = None, xf_UpdatedTs = Some (now + idx), xf_Filename = None,
               xf_MemoID = Some memoID, xf_Reference = None, xf_Payload = None\<rparr> s)) (\<lambda>_ s.
          link_attachments E memoID ns (idx + 1) s))))"

text \<open>The names are reversed in place before the second loop.\<close>

definition SetMemoAttachments :: "site_env \<Rightarrow> ctx \<Rightarrow> string \<Rightarrow> string list \<Rightarrow> site \<Rightarrow> unit site_reply" where
  "SetMemoAttachments E c name names s =
     and_then (own_memo E c name s) (\<lambda>m s.
     and_then (opaque Internal ''failed to list attachments''
         (store_ListAttachments E (any_file\<lparr>ff_MemoID := Some (mr_ID m)\<rparr>) s)) (\<lambda>as s.
     and_then (drop_attachments E names as s) (\<lambda>_ s.
     link_attachments E (mr_ID m) (rev names) 0 s)))"

fun set_relations :: "site_env \<Rightarrow> string \<Rightarrow> int \<Rightarrow> api_relation list \<Rightarrow> site \<Rightarrow> unit site_reply" where
  "set_relations E name memoID [] s = (Inr (), s)"
| "set_relations E name memoID (r # rs) s =
     (case ar_RelatedMemo r of
        None \<Rightarrow> (Inl nil_dereference, s)
      | Some n \<Rightarrow>
          if name = rm_Name n \<or> ar_Type r = Relation_COMMENT then set_relations E name memoID rs s
          else
            and_then (site_argument ''invalid related memo name'' (ExtractMemoUIDFromName (rm_Name n)) s) (\<lambda>uid s.
            and_then (opaque Internal ''failed to get related memo'' (store_GetMemo E (memo_with_uid uid) s)) (\<lambda>m s.
            case m of
              None \<Rightarrow> (Inl nil_dereference, s)
            | Some m \<Rightarrow>
                and_then (opaque Internal ''failed to upsert memo relation'' (sqlite_UpsertMemoRelation E
                    \<lparr>rl_MemoID = memoID, rl_RelatedMemoID = mr_ID m, rl_Type = convertMemoRelationTypeToStore (ar_Type r)\<rparr> s)) (\<lambda>_ s.
                set_relations E name memoID rs s))))"

definition SetMemoRelations :: "site_env \<Rightarrow> ctx \<Rightarrow> string \<Rightarrow> api_relation list \<Rightarrow> site \<Rightarrow> unit site_reply" where
  "SetMemoRelations E c name rs s =
     and_then (own_memo E c name s) (\<lambda>m s.
     and_then (opaque Internal ''failed to delete memo relation''
         (sqlite_DeleteMemoRelation E ((relations_from (mr_ID m))\<lparr>fl_Type := Some MemoRelationReference\<rparr>) s)) (\<lambda>_ s.
     set_relations E name (mr_ID m) rs s))"

subsection \<open>Reading\<close>

text \<open>Who may read a memo that is not public; some handlers let administrators in.\<close>

definition may_read :: "site_env \<Rightarrow> (string \<Rightarrow> string \<Rightarrow> api_error) \<Rightarrow> bool \<Rightarrow> ctx \<Rightarrow> memo_row \<Rightarrow> site \<Rightarrow> unit site_reply" where
  "may_read E failed admins_too c m s =
     (if mr_Visibility m = Public then (Inr (), s)
      else and_then (map_err (failed ''failed to get user'') (on_acc (fetchCurrentUser (api_of E) c) s)) (\<lambda>u s.
        case u of
          None \<Rightarrow> (Inl unauthenticated, s)
        | Some u \<Rightarrow>
            if mr_Visibility m = Private \<and> mr_CreatorID m \<noteq> user_ID u \<and> \<not> (admins_too \<and> isSuperUser u)
            then (Inl permission_denied, s) else (Inr (), s)))"

definition found_memo :: "(string \<Rightarrow> api_error) \<Rightarrow> site_env \<Rightarrow> string \<Rightarrow> site \<Rightarrow> memo_row site_reply" where
  "found_memo failed E name s =
     and_then (site_argument ''invalid memo name'' (ExtractMemoUIDFromName name) s) (\<lambda>uid s.
     and_then (map_err failed (store_GetMemo E (memo_with_uid uid) s)) (\<lambda>m s.
     case m of None \<Rightarrow> (Inl (Status NotFound ''memo not found''), s) | Some m \<Rightarrow> (Inr m, s)))"

text \<open>Reactions and attachments of a memo, and the message with them.\<close>

definition reactions_of :: "site_env \<Rightarrow> string \<Rightarrow> site \<Rightarrow> reaction list site_reply" where
  "reactions_of E name s =
     opaque Internal ''failed to list reactions'' (sqlite_ListReactions E (any_reaction\<lparr>fx_ContentID := Some name\<rparr>) s)"

definition attachments_of :: "site_env \<Rightarrow> int \<Rightarrow> site \<Rightarrow> file_row list site_reply" where
  "attachments_of E i s =
     opaque Internal ''failed to list attachments'' (store_ListAttachments E (any_file\<lparr>ff_MemoID := Some i\<rparr>) s)"

definition full_memo :: "site_env \<Rightarrow> ctx \<Rightarrow> string \<Rightarrow> memo_row \<Rightarrow> site \<Rightarrow> api_memo site_reply" where
  "full_memo E c name m s =
     and_then (reactions_of E name s) (\<lambda>xs s.
     and_then (attachments_of E (mr_ID m) s) (\<lambda>as s.
     map_err (wrap_api ''failed to convert memo'') (convertMemoFromStore E c m xs as s)))"

definition GetMemo :: "site_env \<Rightarrow> ctx \<Rightarrow> string \<Rightarrow> site \<Rightarrow> api_memo site_reply" where
  "GetMemo E c name s =
     and_then (found_memo Plain E name s) (\<lambda>m s.
     and_then (may_read E (\<lambda>msg _. Status Internal msg) False c m s) (\<lambda>_ s.
     full_memo E c name m s))"

end
