(* ===== verification/MemoHandlers.thy ===== *)
theory MemoHandlers
  imports MemoService
begin

section \<open>The handlers of memos (api/v1/memo\_service.go, memo\_attachment\_service.go, reaction\_service.go)\<close>

text \<open>
  Listing, creating, changing and deleting memos, comments, and the reactions. A request field
  that may be missing is an option, and using it unchecked is a panic.
\<close>

subsection \<open>Listing\<close>

text \<open>\<open>parseMemoOrderBy\<close>: the loop over the fields with the flag for pinned.\<close>

definition order_direction :: "string list \<Rightarrow> string + string" where
  "order_direction parts =
     (case parts of
        _ # d # _ \<Rightarrow>
          if to_lower d = ''asc'' \<or> to_lower d = ''desc'' then Inr (to_lower d)
          else Inl (''invalid order direction: '' @ d @ '', must be '' @ quote @ ''asc'' @ quote @ '' or '' @ quote @ ''desc'' @ quote)
      | _ \<Rightarrow> Inr ''desc'')"

fun order_fields :: "string list \<Rightarrow> bool \<Rightarrow> find_memo \<Rightarrow> string + (bool \<times> find_memo)" where
  "order_fields [] pinned f = Inr (pinned, f)"
| "order_fields (field # rest) pinned f =
     (case fields_of (trim_space field) of
        [] \<Rightarrow> order_fields rest pinned f
      | name # ps \<Rightarrow>
          (case order_direction (name # ps) of
             Inl e \<Rightarrow> Inl e
           | Inr d \<Rightarrow>
               if name = ''pinned'' then order_fields rest True (f\<lparr>fm_OrderByPinned := True\<rparr>)
               else if name \<in> {''display_time'', ''create_time'', ''name''} then
                 order_fields rest pinned (if fm_OrderByUpdatedTs f then f else f\<lparr>fm_OrderByTimeAsc := d = ''asc''\<rparr>)
               else if name = ''update_time'' then
                 order_fields rest pinned (f\<lparr>fm_OrderByUpdatedTs := True, fm_OrderByTimeAsc := d = ''asc''\<rparr>)
               else Inl (''unsupported order field: '' @ name @
                 '', supported fields are: pinned, display_time, create_time, update_time, name'')))"

definition parseMemoOrderBy :: "string \<Rightarrow> find_memo \<Rightarrow> string + find_memo" where
  "parseMemoOrderBy orderBy f =
     (if trim_space orderBy = [] then Inl ''empty order_by''
      else let fields = split_on (CHR '','') orderBy in
        case order_fields fields False f of
          Inl e \<Rightarrow> Inl e
        | Inr (pinned, f) \<Rightarrow>
            Inr (if pinned \<and> \<not> fm_OrderByUpdatedTs f \<and> length fields = 1 then f\<lparr>fm_OrderByTimeAsc := False\<rparr> else f))"

definition validateFilter :: "site_env \<Rightarrow> string \<Rightarrow> site \<Rightarrow> unit site_call" where
  "validateFilter E src s =
     (if src = [] then (Inl ''filter cannot be empty'', s)
      else case CompileToStatement (sv_cel E) (ae_now (db_env E)) NewSchema src
          \<lparr>Dialect = sv_dialect E, PlaceholderOffset = 0\<rparr> (site_tick s) of
        (Inl er, k) \<Rightarrow> (Inl (wrap_msg ''failed to compile filter'' (sv_filter_text E er)), set_site_tick k s)
      | (Inr _, k) \<Rightarrow> (Inr (), set_site_tick k s))"

record list_memos_request =
  lm_PageSize :: int
  lm_PageToken :: string
  lm_State :: state
  lm_OrderBy :: string
  lm_Filter :: string

definition DefaultPageSize :: int where "DefaultPageSize = 10"

definition getPageToken :: "site_env \<Rightarrow> int \<Rightarrow> int \<Rightarrow> string" where
  "getPageToken E limit offset = sv_pack E (wrap32 limit) (wrap32 offset)"

text \<open>Limit and offset of the request.\<close>

definition page_of :: "site_env \<Rightarrow> list_memos_request \<Rightarrow> api_error + (int \<times> int)" where
  "page_of E req =
     (case (if lm_PageToken req = [] then Inr (lm_PageSize req, 0) else sv_unpack E (lm_PageToken req)) of
        Inl e \<Rightarrow> Inl (status_of InvalidArgument ''invalid page token'' e)
      | Inr (limit, offset) \<Rightarrow> Inr (if limit \<le> 0 then DefaultPageSize else limit, offset))"

text \<open>The search before the user is known, and the restriction to what the user may see.\<close>

definition list_search :: "site_env \<Rightarrow> list_memos_request \<Rightarrow> site \<Rightarrow> find_memo site_reply" where
  "list_search E req s =
     (let f = any_memo\<lparr>fm_ExcludeComments := True,
            fm_RowStatus := Some (if lm_State req = State_ARCHIVED then RowArchived else RowNormal)\<rparr> in
      and_then (if lm_OrderBy req = [] then (Inr f, s)
          else site_argument ''invalid order_by'' (parseMemoOrderBy (lm_OrderBy req) f) s) (\<lambda>f s.
      if lm_Filter req = [] then (Inr f, s)
      else and_then (map_err (status_of InvalidArgument ''invalid filter'') (validateFilter E (lm_Filter req) s)) (\<lambda>_ s.
        (Inr (f\<lparr>fm_Filters := fm_Filters f @ [lm_Filter req]\<rparr>), s))))"

definition restrict_search :: "user option \<Rightarrow> find_memo \<Rightarrow> find_memo" where
  "restrict_search u f =
     (case u of
        None \<Rightarrow> f\<lparr>fm_VisibilityList := [Public]\<rparr>
      | Some u \<Rightarrow>
          (case fm_CreatorID f of
             None \<Rightarrow> f\<lparr>fm_Filters := fm_Filters f @ [visibility_filter (Some u)]\<rparr>
           | Some i \<Rightarrow> if i \<noteq> user_ID u then f\<lparr>fm_VisibilityList := [Public, Protected]\<rparr> else f))"

fun convert_memos ::
  "site_env \<Rightarrow> ctx \<Rightarrow> reaction list \<Rightarrow> file_row list \<Rightarrow> memo_row list \<Rightarrow> site \<Rightarrow> api_memo list site_reply" where
  "convert_memos E c xs as [] s = (Inr [], s)"
| "convert_memos E c xs as (m # ms) s =
     and_then (map_err (wrap_api ''failed to convert memo'')
         (convertMemoFromStore E c m (filter (\<lambda>x. rc_ContentID x = memo_name (mr_UID m)) xs)
           (filter (\<lambda>a. fr_MemoID a = Some (mr_ID m)) as) s)) (\<lambda>a s.
     and_then (convert_memos E c xs as ms s) (\<lambda>ys s. (Inr (a # ys), s)))"

definition full_memos :: "site_env \<Rightarrow> ctx \<Rightarrow> memo_row list \<Rightarrow> site \<Rightarrow> api_memo list site_reply" where
  "full_memos E c ms s =
     and_then (opaque Internal ''failed to list reactions''
         (sqlite_ListReactions E (any_reaction\<lparr>fx_ContentIDList := map (\<lambda>m. memo_name (mr_UID m)) ms\<rparr>) s)) (\<lambda>xs s.
     and_then (opaque Internal ''failed to list attachments''
         (store_ListAttachments E (any_file\<lparr>ff_MemoIDList := map mr_ID ms\<rparr>) s)) (\<lambda>as s.
     convert_memos E c xs as ms s))"

definition ListMemos :: "site_env \<Rightarrow> ctx \<Rightarrow> list_memos_request \<Rightarrow> site \<Rightarrow> (api_memo list \<times> string) site_reply" where
  "ListMemos E c req s =
     and_then (list_search E req s) (\<lambda>f s.
     and_then (current_user E ''failed to get user'' c s) (\<lambda>u s.
     and_then (opaque Internal ''failed to get instance memo related setting'' (GetInstanceMemoRelatedSetting E s)) (\<lambda>g s.
     and_then (page_of E req, s) (\<lambda>(limit, offset) s.
     and_then (map_err (status_of Internal ''failed to list memos'')
         (sqlite_ListMemos E ((restrict_search u f)\<lparr>
             fm_OrderByUpdatedTs := ir_DisplayWithUpdateTime g \<or> fm_OrderByUpdatedTs f,
             fm_Limit := Some (limit + 1), fm_Offset := Some offset\<rparr>) s)) (\<lambda>ms s.
     let more = int (length ms) = limit + 1;
         ms = (if more then take (nat limit) ms else ms);
         next = (if more then getPageToken E limit (offset + limit) else [])
     in if ms = [] then (Inr ([], next), s)
        else and_then (full_memos E c ms s) (\<lambda>as s. (Inr (as, next), s)))))))"

subsection \<open>Creating\<close>

definition memo_uid_for :: "site_env \<Rightarrow> string \<Rightarrow> site \<Rightarrow> string site_reply" where
  "memo_uid_for E wanted s =
     (let uid = trim_space wanted in
      if uid = [] then (case ask_site (sv_uid E) s of (u, s) \<Rightarrow> (Inr u, s))
      else if \<not> UIDMatcher uid then (Inl (Status InvalidArgument (''invalid memo_id format: must be 1-32 characters, '' @
        ''alphanumeric and hyphens only, cannot start or end with hyphen'')), s)
      else (Inr uid, s))"

text \<open>A valid time of the request, if there is one; 0 stands for the database's default.\<close>

definition valid_time :: "timestamp option \<Rightarrow> int \<Rightarrow> int" where
  "valid_time t d = (case t of Some x \<Rightarrow> if IsValid x then as_unix t else d | None \<Rightarrow> d)"

definition new_memo :: "bool \<Rightarrow> string \<Rightarrow> int \<Rightarrow> api_memo \<Rightarrow> memo_row" where
  "new_memo display_updated uid creator m =
     (let display = valid_time (am_DisplayTime m) 0 in
      \<lparr>mr_ID = 0, mr_UID = uid, mr_RowStatus = [], mr_CreatorID = creator,
       mr_CreatedTs = valid_time (am_CreateTime m) (if display_updated then 0 else display),
       mr_UpdatedTs = valid_time (am_UpdateTime m) (if display_updated then display else 0),
       mr_Content = am_Content m, mr_Visibility = convertVisibilityToStore (am_Visibility m),
       mr_Pinned = False, mr_Payload = empty_payload, mr_NotebookID = None, mr_ParentUID = None\<rparr>)"

text \<open>The notebook of the request, whoever owns it, or the default one of the user, if it can be read.\<close>

definition notebook_for :: "site_env \<Rightarrow> int \<Rightarrow> int \<Rightarrow> site \<Rightarrow> int option \<times> site" where
  "notebook_for E userID wanted s =
     (if wanted \<noteq> 0 then (Some wanted, s)
      else case store_GetNotebook E (any_notebook\<lparr>fn_CreatorID := Some userID, fn_IsDefault := Some True\<rparr>) s of
        (Inr (Some b), s) \<Rightarrow> (if nr_ID b = 0 then None else Some (nr_ID b), s)
      | (_, s) \<Rightarrow> (None, s))"

definition insert_error :: "string \<Rightarrow> string \<Rightarrow> api_error" where
  "insert_error uid e =
     (if str_contains e ''UNIQUE constraint failed'' \<or> str_contains e ''duplicate key'' \<or> str_contains e ''Duplicate entry''
      then Status AlreadyExists (''memo with ID '' @ in_quotes uid @ '' already exists'') else Plain e)"

definition insert_memo :: "site_env \<Rightarrow> user \<Rightarrow> string \<Rightarrow> api_memo \<Rightarrow> site \<Rightarrow> memo_row site_reply" where
  "insert_memo E u uid m s =
     and_then (opaque Internal ''failed to get instance memo related setting'' (GetInstanceMemoRelatedSetting E s)) (\<lambda>g s.
     let create = new_memo (ir_DisplayWithUpdateTime g) uid (user_ID u) m in
     if ir_DisallowPublicVisibility g \<and> mr_Visibility create = Public
     then (Inl (Status PermissionDenied ''disable public memos system setting is enabled''), s)
     else
       and_then (check_content E (mr_Content create) s) (\<lambda>_ s.
       and_then (rebuilt E (mr_Content create) (mr_Payload create) s) (\<lambda>p s.
       let p = (case am_Location m of None \<Rightarrow> p | Some l \<Rightarrow> p\<lparr>pl_Location := convertLocationToStore (Some l)\<rparr>) in
       case notebook_for E (user_ID u) (am_NotebookId m) s of (nb, s) \<Rightarrow>
       map_err (insert_error uid) (store_CreateMemo E (create\<lparr>mr_Payload := p, mr_NotebookID := nb\<rparr>) s))))"

definition created_attachments :: "site_env \<Rightarrow> ctx \<Rightarrow> memo_row \<Rightarrow> string list \<Rightarrow> site \<Rightarrow> file_row list site_reply" where
  "created_attachments E c m names s =
     (if names = [] then (Inr [], s)
      else
        and_then (map_err (wrap_api ''failed to set memo attachments'') (SetMemoAttachments E c (memo_name (mr_UID m)) names s)) (\<lambda>_ s.
        and_then (map_err (\<lambda>e. Plain (wrap_msg ''failed to get memo attachments'' e))
            (store_ListAttachments E (any_file\<lparr>ff_MemoID := Some (mr_ID m)\<rparr>) s)) (\<lambda>as s.
        (Inr as, runner_attachments E as s))))"

definition CreateMemo :: "site_env \<Rightarrow> ctx \<Rightarrow> api_memo option \<Rightarrow> string \<Rightarrow> site \<Rightarrow> api_memo site_reply" where
  "CreateMemo E c memo memoId s =
     and_then (signed_in E ''failed to get user'' c s) (\<lambda>u s.
     and_then (memo_uid_for E memoId s) (\<lambda>uid s.
     case memo of
       None \<Rightarrow> (Inl nil_dereference, s)
     | Some r \<Rightarrow>
         and_then (insert_memo E u uid r s) (\<lambda>m s.
         and_then (created_attachments E c m (map aa_Name (am_Attachments r)) s) (\<lambda>as s.
         and_then (if am_Relations r = [] then (Inr (), s)
             else map_err (wrap_api ''failed to set memo relations'')
               (SetMemoRelations E c (memo_name (mr_UID m)) (am_Relations r) s)) (\<lambda>_ s.
         and_then (map_err (wrap_api ''failed to convert memo'') (convertMemoFromStore E c m [] as s)) (\<lambda>msg s.
         (Inr msg, runner_event E (OnMemoCreated m) (dispatchMemoRelatedWebhook E msg ''memos.memo.created'' s))))))))"

subsection \<open>Changing\<close>

record update_memo_request =
  mq_Memo :: "api_memo option"
  mq_UpdateMask :: "string list"   \<comment> \<open>a missing mask has no paths\<close>

text \<open>
  The loop over the mask: the memo, whose content and payload are changed in place, the update,
  and the attachment names, which each use reverses.
\<close>

definition allow_visibility :: "site_env \<Rightarrow> visibility \<Rightarrow> site \<Rightarrow> unit site_reply" where
  "allow_visibility E v s =
     and_then (opaque Internal ''failed to get instance memo related setting'' (GetInstanceMemoRelatedSetting E s)) (\<lambda>g s.
     if ir_DisallowPublicVisibility g \<and> v = Public
     then (Inl (Status PermissionDenied ''disable public memos system setting is enabled''), s) else (Inr (), s))"

definition update_path ::
  "site_env \<Rightarrow> ctx \<Rightarrow> api_memo \<Rightarrow> string \<Rightarrow> memo_row \<times> update_memo \<times> string list \<Rightarrow> site \<Rightarrow>
   (memo_row \<times> update_memo \<times> string list) site_reply" where
  "update_path E c r path = (\<lambda>(m, up, names) s.
     if path = ''content'' then
       and_then (check_content E (am_Content r) s) (\<lambda>_ s.
       and_then (rebuilt E (am_Content r) (mr_Payload m) s) (\<lambda>p s.
       (Inr (m\<lparr>mr_Content := am_Content r, mr_Payload := p\<rparr>,
             up\<lparr>xm_Content := Some (am_Content r), xm_Payload := Some p\<rparr>, names), s)))
     else if path = ''visibility'' then
       (let v = convertVisibilityToStore (am_Visibility r) in
        and_then (allow_visibility E v s) (\<lambda>_ s. (Inr (m, up\<lparr>xm_Visibility := Some v\<rparr>, names), s)))
     else if path = ''pinned'' then (Inr (m, up\<lparr>xm_Pinned := Some (am_Pinned r)\<rparr>, names), s)
     else if path = ''state'' then (Inr (m, up\<lparr>xm_RowStatus := Some (convertStateToStore (am_State r))\<rparr>, names), s)
     else if path = ''create_time'' then (Inr (m, up\<lparr>xm_CreatedTs := Some (as_unix (am_CreateTime r))\<rparr>, names), s)
     else if path = ''update_time'' then
       (case ask_site (\<lambda>k. unix (ae_now (db_env E) k)) s of (now, s) \<Rightarrow>
        (Inr (m, up\<lparr>xm_UpdatedTs := Some (if am_UpdateTime r = None then now else as_unix (am_UpdateTime r))\<rparr>, names), s))
     else if path = ''display_time'' then
       and_then (opaque Internal ''failed to get instance memo related setting'' (GetInstanceMemoRelatedSetting E s)) (\<lambda>g s.
       (Inr (m, if ir_DisplayWithUpdateTime g then up\<lparr>xm_UpdatedTs := Some (as_unix (am_DisplayTime r))\<rparr>
           else up\<lparr>xm_CreatedTs := Some (as_unix (am_DisplayTime r))\<rparr>, names), s))
     else if path = ''location'' then
       (let p = (mr_Payload m)\<lparr>pl_Location := convertLocationToStore (am_Location r)\<rparr> in
        (Inr (m\<lparr>mr_Payload := p\<rparr>, up\<lparr>xm_Payload := Some p\<rparr>, names), s))
     else if path = ''attachments'' then
       and_then (map_err (wrap_api ''failed to set memo attachments'') (SetMemoAttachments E c (am_Name r) names s)) (\<lambda>_ s.
       (Inr (m, up, rev names), s))
     else if path = ''relations'' then
       and_then (map_err (wrap_api ''failed to set memo relations'') (SetMemoRelations E c (am_Name r) (am_Relations r) s)) (\<lambda>_ s.
       (Inr (m, up, names), s))
     else (Inr (m, up, names), s))"

fun update_paths ::
  "site_env \<Rightarrow> ctx \<Rightarrow> api_memo \<Rightarrow> string list \<Rightarrow> memo_row \<times> update_memo \<times> string list \<Rightarrow> site \<Rightarrow>
   update_memo site_reply" where
  "update_paths E c r [] acc s = (Inr (fst (snd acc)), s)"
| "update_paths E c r (p # ps) acc s =
     and_then (update_path E c r p acc s) (\<lambda>acc s. update_paths E c r ps acc s)"

text \<open>The first path that is content or visibility decides which event is sent.\<close>

fun update_event :: "site_env \<Rightarrow> memo_row \<Rightarrow> string list \<Rightarrow> site \<Rightarrow> site" where
  "update_event E m [] s = s"
| "update_event E m (p # ps) s =
     (if p = ''content'' then runner_event E (OnMemoUpdated m) s
      else if p = ''visibility'' then runner_event E (OnMemoVisibilityChanged (mr_UID m) (mr_Visibility m)) s
      else update_event E m ps s)"

definition writable_memo :: "(string \<Rightarrow> api_error) \<Rightarrow> site_env \<Rightarrow> ctx \<Rightarrow> string \<Rightarrow> site \<Rightarrow> memo_row site_reply" where
  "writable_memo failed E c uid s =
     and_then (map_err failed (store_GetMemo E (memo_with_uid uid) s)) (\<lambda>m s.
     case m of
       None \<Rightarrow> (Inl (Status NotFound ''memo not found''), s)
     | Some m \<Rightarrow>
         and_then (signed_in E ''failed to get current user'' c s) (\<lambda>u s.
         if owner_or_admin u (mr_CreatorID m) then (Inr m, s) else (Inl permission_denied, s)))"

definition UpdateMemo :: "site_env \<Rightarrow> ctx \<Rightarrow> update_memo_request \<Rightarrow> site \<Rightarrow> api_memo site_reply" where
  "UpdateMemo E c req s =
     (case mq_Memo req of
        None \<Rightarrow> (Inl nil_dereference, s)
      | Some r \<Rightarrow>
          and_then (site_argument ''invalid memo name'' (ExtractMemoUIDFromName (am_Name r)) s) (\<lambda>uid s.
          if mq_UpdateMask req = [] then (Inl (Status InvalidArgument ''update mask is required''), s)
          else
            and_then (writable_memo (status_of Internal ''failed to get memo'') E c uid s) (\<lambda>m s.
            and_then (update_paths E c r (mq_UpdateMask req)
                (m, no_memo_columns (mr_ID m), map aa_Name (am_Attachments r)) s) (\<lambda>up s.
            and_then (opaque Internal ''failed to update memo'' (sqlite_UpdateMemo E up s)) (\<lambda>_ s.
            and_then (map_err (\<lambda>e. Plain (wrap_msg ''failed to get memo'' e)) (store_GetMemo E (memo_with_id (mr_ID m)) s)) (\<lambda>m s.
            and_then (reactions_of E (am_Name r) s) (\<lambda>xs s.
            case m of
              None \<Rightarrow> (Inl nil_dereference, s)
            | Some m \<Rightarrow>
                and_then (attachments_of E (mr_ID m) s) (\<lambda>as s.
                and_then (map_err (wrap_api ''failed to convert memo'') (convertMemoFromStore E c m xs as s)) (\<lambda>msg s.
                (Inr msg, update_event E m (mq_UpdateMask req)
                   (dispatchMemoRelatedWebhook E msg ''memos.memo.updated'' s)))))))))))"

subsection \<open>Deleting\<close>

fun delete_comments :: "site_env \<Rightarrow> memo_relation list \<Rightarrow> site \<Rightarrow> unit site_reply" where
  "delete_comments E [] s = (Inr (), s)"
| "delete_comments E (r # rs) s =
     and_then (opaque Internal ''failed to delete memo comment'' (store_DeleteMemo E (rl_MemoID r) s)) (\<lambda>_ s.
     delete_comments E rs s)"

text \<open>The webhook of a deletion, when the memo can be converted.\<close>

definition announce_deletion :: "site_env \<Rightarrow> ctx \<Rightarrow> memo_row \<Rightarrow> reaction list \<Rightarrow> file_row list \<Rightarrow> site \<Rightarrow> unit site_reply" where
  "announce_deletion E c m xs as s =
     (case convertMemoFromStore E c m xs as s of
        (Inr msg, s) \<Rightarrow> (Inr (), dispatchMemoRelatedWebhook E msg ''memos.memo.deleted'' s)
      | (Inl (Panicked t), s) \<Rightarrow> (Inl (Panicked t), s)
      | (Inl _, s) \<Rightarrow> (Inr (), s))"

definition DeleteMemo :: "site_env \<Rightarrow> ctx \<Rightarrow> string \<Rightarrow> site \<Rightarrow> unit site_reply" where
  "DeleteMemo E c name s =
     and_then (site_argument ''invalid memo name'' (ExtractMemoUIDFromName name) s) (\<lambda>uid s.
     and_then (writable_memo Plain E c uid s) (\<lambda>m s.
     and_then (reactions_of E name s) (\<lambda>xs s.
     and_then (attachments_of E (mr_ID m) s) (\<lambda>as s.
     and_then (announce_deletion E c m xs as s) (\<lambda>_ s.
     and_then (opaque Internal ''failed to list memo comments''
         (sqlite_ListMemoRelations E ((relations_to (mr_ID m))\<lparr>fl_Type := Some MemoRelationComment\<rparr>) s)) (\<lambda>rs s.
     and_then (delete_comments E rs s) (\<lambda>_ s.
     and_then (opaque Internal ''failed to delete memo'' (store_DeleteMemo E (mr_ID m) s)) (\<lambda>_ s.
     (Inr (), runner_event E (OnMemoDeleted uid) s)))))))))"

subsection \<open>Comments\<close>

text \<open>The activity and the notification of a comment that its receiver may see.\<close>

definition notify_comment :: "site_env \<Rightarrow> int \<Rightarrow> memo_row \<Rightarrow> memo_row \<Rightarrow> site \<Rightarrow> unit site_reply" where
  "notify_comment E creator m related s =
     and_then (opaque Internal ''failed to create activity'' (sqlite_CreateActivity E
         \<lparr>ay_ID = 0, ay_CreatorID = creator, ay_CreatedTs = 0, ay_Comment = Some (mr_ID m, mr_ID related)\<rparr> s)) (\<lambda>y s.
     and_then (opaque Internal ''failed to create inbox'' (sqlite_CreateInbox E
         \<lparr>ib_ID = 0, ib_CreatedTs = 0, ib_SenderID = creator, ib_ReceiverID = mr_CreatorID related,
          ib_Status = UNREAD, ib_Type = MEMO_COMMENT, ib_ActivityId = Some (ay_ID y)\<rparr> s)) (\<lambda>_ s.
     (Inr (), s)))"

definition CreateMemoComment :: "site_env \<Rightarrow> ctx \<Rightarrow> string \<Rightarrow> api_memo option \<Rightarrow> string \<Rightarrow> site \<Rightarrow> api_memo site_reply" where
  "CreateMemoComment E c name comment commentId s =
     and_then (found_memo (\<lambda>_. Status Internal ''failed to get memo'') E name s) (\<lambda>related s.
     and_then (signed_in E ''failed to get user'' c s) (\<lambda>u s.
     if mr_Visibility related = Private \<and> \<not> owner_or_admin u (mr_CreatorID related) then (Inl permission_denied, s)
     else
       and_then (map_err (replace_error Internal ''failed to create memo'') (CreateMemo E c comment commentId s)) (\<lambda>msg s.
       and_then (site_argument ''invalid memo name'' (ExtractMemoUIDFromName (am_Name msg)) s) (\<lambda>uid s.
       and_then (opaque Internal ''failed to get memo'' (store_GetMemo E (memo_with_uid uid) s)) (\<lambda>m s.
       case m of
         None \<Rightarrow> (Inl nil_dereference, s)
       | Some m \<Rightarrow>
           and_then (opaque Internal ''failed to create memo relation'' (sqlite_UpsertMemoRelation E
               \<lparr>rl_MemoID = mr_ID m, rl_RelatedMemoID = mr_ID related, rl_Type = MemoRelationComment\<rparr> s)) (\<lambda>_ s.
           and_then (case ExtractUserIDFromName (am_Creator msg) of
               Inl _ \<Rightarrow> (Inl (Status InvalidArgument ''invalid memo creator''), s) | Inr i \<Rightarrow> (Inr i, s)) (\<lambda>creator s.
           and_then (if am_Visibility msg \<noteq> Visibility_PRIVATE \<and> creator \<noteq> mr_CreatorID related
               then notify_comment E creator m related s else (Inr (), s)) (\<lambda>_ s.
           (Inr msg, post_to E (mr_CreatorID related) ''memos.memo.comment.created'' msg s)))))))))"

definition ListMemoComments :: "site_env \<Rightarrow> ctx \<Rightarrow> string \<Rightarrow> site \<Rightarrow> api_memo list site_reply" where
  "ListMemoComments E c name s =
     and_then (site_argument ''invalid memo name'' (ExtractMemoUIDFromName name) s) (\<lambda>uid s.
     and_then (opaque Internal ''failed to get memo'' (store_GetMemo E (memo_with_uid uid) s)) (\<lambda>m s.
     and_then (current_user E ''failed to get user'' c s) (\<lambda>u s.
     case m of
       None \<Rightarrow> (Inl nil_dereference, s)
     | Some m \<Rightarrow>
         and_then (opaque Internal ''failed to list memo relations'' (sqlite_ListMemoRelations E
             ((relations_to (mr_ID m))\<lparr>fl_Type := Some MemoRelationComment, fl_MemoFilter := Some (visibility_filter u)\<rparr>) s)) (\<lambda>rs s.
         if rs = [] then (Inr [], s)
         else
           and_then (opaque Internal ''failed to list memos''
               (sqlite_ListMemos E (any_memo\<lparr>fm_IDList := map rl_MemoID rs\<rparr>) s)) (\<lambda>ms s.
           full_memos E c ms s)))))"

subsection \<open>Attachments and reactions\<close>

definition ListMemoAttachments :: "site_env \<Rightarrow> ctx \<Rightarrow> string \<Rightarrow> site \<Rightarrow> api_attachment list site_reply" where
  "ListMemoAttachments E c name s =
     and_then (found_memo (status_of Internal ''failed to get memo'') E name s) (\<lambda>m s.
     and_then (may_read E (status_of Internal) True c m s) (\<lambda>_ s.
     and_then (map_err (status_of Internal ''failed to list attachments'')
         (store_ListAttachments E (any_file\<lparr>ff_MemoID := Some (mr_ID m)\<rparr>) s)) (\<lambda>as s.
     (Inr (map convertAttachmentFromStore as), s))))"

definition ListMemoReactions :: "site_env \<Rightarrow> ctx \<Rightarrow> string \<Rightarrow> site \<Rightarrow> api_reaction list site_reply" where
  "ListMemoReactions E c name s =
     and_then (found_memo (status_of Internal ''failed to get memo'') E name s) (\<lambda>m s.
     and_then (may_read E (\<lambda>msg _. Status Internal msg) True c m s) (\<lambda>_ s.
     and_then (reactions_of E name s) (\<lambda>xs s. (Inr (map convertReactionFromStore xs), s))))"

definition UpsertMemoReaction :: "site_env \<Rightarrow> ctx \<Rightarrow> (string \<times> string) option \<Rightarrow> site \<Rightarrow> api_reaction site_reply" where
  "UpsertMemoReaction E c req s =
     and_then (signed_in E ''failed to get current user'' c s) (\<lambda>u s.
     case req of
       None \<Rightarrow> (Inl nil_dereference, s)
     | Some (contentId, reactionType) \<Rightarrow>
         and_then (found_memo (status_of Internal ''failed to get memo'') E contentId s) (\<lambda>m s.
         if mr_Visibility m = Private \<and> \<not> owner_or_admin u (mr_CreatorID m) then (Inl permission_denied, s)
         else
           and_then (opaque Internal ''failed to upsert reaction'' (sqlite_UpsertReaction E
               \<lparr>rc_ID = 0, rc_CreatedTs = 0, rc_CreatorID = user_ID u, rc_ContentID = contentId, rc_ReactionType = reactionType\<rparr> s)) (\<lambda>x s.
           (Inr (convertReactionFromStore x), s))))"

definition DeleteMemoReaction :: "site_env \<Rightarrow> ctx \<Rightarrow> string \<Rightarrow> site \<Rightarrow> unit site_reply" where
  "DeleteMemoReaction E c name s =
     and_then (site_user E ''failed to get current user'' c s) (\<lambda>u s.
     and_then (site_argument ''invalid reaction name'' (ExtractMemoReactionIDFromName name) s) (\<lambda>(_, i) s.
     and_then (opaque Internal ''failed to get reaction'' (sqlite_GetReaction E (any_reaction\<lparr>fx_ID := Some i\<rparr>) s)) (\<lambda>x s.
     case x of
       None \<Rightarrow> (Inl permission_denied, s)
     | Some x \<Rightarrow>
         if \<not> owner_or_admin u (rc_CreatorID x) then (Inl permission_denied, s)
         else opaque Internal ''failed to delete reaction'' (sqlite_DeleteReaction E i s))))"

end
