(* ===== verification/NotebookService.thy ===== *)
theory NotebookService
  imports SiteTables
begin

section \<open>Notebooks, notifications and activities (api/v1)\<close>

text \<open>
  The handlers of notebook\_service.go, of the notifications in user\_service.go, and of
  activity\_service.go. What the RAGFlow provisioner does beyond the dataset it answers with is
  not part of the state.
\<close>

subsection \<open>Notebooks (notebook\_service.go)\<close>

record api_notebook =
  an_Id :: int
  an_Uid :: string
  an_CreatorId :: int
  an_Title :: string
  an_Icon :: string
  an_IsDefault :: bool
  an_DatasetId :: string
  an_CreateTime :: "timestamp option"
  an_UpdateTime :: "timestamp option"

definition convertNotebookToProto :: "notebook_row \<Rightarrow> api_notebook" where
  "convertNotebookToProto b =
     \<lparr>an_Id = nr_ID b, an_Uid = nr_UID b, an_CreatorId = nr_CreatorID b, an_Title = nr_Title b,
      an_Icon = nr_Icon b, an_IsDefault = nr_IsDefault b, an_DatasetId = nr_DatasetID b,
      an_CreateTime = (if nr_CreatedTs b = 0 then None else Some (from_unix (nr_CreatedTs b))),
      an_UpdateTime = (if nr_UpdatedTs b = 0 then None else Some (from_unix (nr_UpdatedTs b)))\<rparr>"

definition user_id_of :: "ctx \<Rightarrow> site \<Rightarrow> int site_reply" where
  "user_id_of c s =
     (if GetUserID c = 0 then (Inl (Status Unauthenticated ''authentication required''), s) else (Inr (GetUserID c), s))"

text \<open>
  The dataset of a new notebook: it is created when there is a provisioner and the user is found;
  every failure leaves the notebook without one.
\<close>

definition createNotebookDataset :: "site_env \<Rightarrow> int \<Rightarrow> string \<Rightarrow> site \<Rightarrow> string option \<times> site" where
  "createNotebookDataset E userID title = ask_site (\<lambda>k. sv_dataset E k userID title)"

definition provisioned_dataset :: "site_env \<Rightarrow> int \<Rightarrow> string \<Rightarrow> site \<Rightarrow> string option \<times> site" where
  "provisioned_dataset E userID title s =
     (if \<not> sv_provisioner E then (None, s)
      else case on_acc (store_GetUser (db_env E) (user_with_id userID)) s of
        (Inr (Some _), s) \<Rightarrow> createNotebookDataset E userID title s
      | (_, s) \<Rightarrow> (None, s))"

definition books_emoji :: string where
  "books_emoji = map byte [240, 159, 147, 154]"

definition bind_dataset :: "site_env \<Rightarrow> notebook_row \<Rightarrow> string option \<Rightarrow> site \<Rightarrow> notebook_row \<times> site" where
  "bind_dataset E b d s =
     (case d of
        None \<Rightarrow> (b, s)
      | Some d \<Rightarrow>
          (case sqlite_UpdateNotebook E ((no_notebook_columns (nr_ID b))\<lparr>xn_DatasetID := Some d\<rparr>) s of
             (Inl _, s) \<Rightarrow> (b, s)
           | (Inr _, s) \<Rightarrow> (b\<lparr>nr_DatasetID := d\<rparr>, s)))"

text \<open>
  The assistant is asked for last, whatever became of the dataset; here it is the look-up of the
  user before \<open>EnsureUserResources\<close>, which works on the mappings of the provisioner.
\<close>

definition ensure_assistant :: "site_env \<Rightarrow> int \<Rightarrow> site \<Rightarrow> site" where
  "ensure_assistant E userID s =
     (if sv_provisioner E then snd (on_acc (store_GetUser (db_env E) (user_with_id userID)) s) else s)"

definition ensureDefaultNotebook :: "site_env \<Rightarrow> int \<Rightarrow> site \<Rightarrow> notebook_row site_call" where
  "ensureDefaultNotebook E userID s =
     (case ask_site (\<lambda>k. sv_mapping E k userID) s of (mapped, s) \<Rightarrow>
      case ask_site (ap_uuid (api_of E)) s of (uid, s) \<Rightarrow>
      and_then (sqlite_CreateNotebook E
          \<lparr>nr_ID = 0, nr_UID = uid, nr_CreatorID = userID, nr_Title = ''Default'', nr_Icon = books_emoji,
           nr_IsDefault = True, nr_DatasetID = or_else mapped [], nr_RowStatus = [], nr_CreatedTs = 0, nr_UpdatedTs = 0\<rparr> s)
        (\<lambda>b s.
        case (if nr_DatasetID b \<noteq> [] then (b, s)
          else case provisioned_dataset E userID ''Default'' s of (d, s) \<Rightarrow> bind_dataset E b d s) of (b, s) \<Rightarrow>
        (Inr b, ensure_assistant E userID s)))"

definition notebooks_of :: "int \<Rightarrow> find_notebook" where
  "notebooks_of i = any_notebook\<lparr>fn_CreatorID := Some i\<rparr>"

definition default_of :: "int \<Rightarrow> find_notebook" where
  "default_of i = any_notebook\<lparr>fn_CreatorID := Some i, fn_IsDefault := Some True\<rparr>"

definition ListNotebooks :: "site_env \<Rightarrow> ctx \<Rightarrow> site \<Rightarrow> api_notebook list site_reply" where
  "ListNotebooks E c s =
     and_then (user_id_of c s) (\<lambda>userID s.
     and_then (map_err (status_of Internal ''failed to list notebooks'') (sqlite_ListNotebooks E (notebooks_of userID) s)) (\<lambda>bs s.
     and_then (if bs = []
         then and_then (map_err (status_of Internal ''failed to create default notebook'')
             (ensureDefaultNotebook E userID s)) (\<lambda>b s. (Inr [b], s))
         else (Inr bs, s)) (\<lambda>bs s.
     (Inr (map convertNotebookToProto bs), s))))"

definition own_notebook :: "site_env \<Rightarrow> int \<Rightarrow> int \<Rightarrow> site \<Rightarrow> notebook_row site_reply" where
  "own_notebook E userID i s =
     and_then (map_err (status_of Internal ''failed to get notebook'') (store_GetNotebook E (any_notebook\<lparr>fn_ID := Some i\<rparr>) s)) (\<lambda>b s.
     case b of
       None \<Rightarrow> (Inl (Status NotFound ''notebook not found''), s)
     | Some b \<Rightarrow> if nr_CreatorID b \<noteq> userID then (Inl permission_denied, s) else (Inr b, s))"

definition api_GetNotebook :: "site_env \<Rightarrow> ctx \<Rightarrow> int \<Rightarrow> site \<Rightarrow> api_notebook site_reply" where
  "api_GetNotebook E c i s =
     and_then (user_id_of c s) (\<lambda>userID s.
     and_then (own_notebook E userID i s) (\<lambda>b s. (Inr (convertNotebookToProto b), s)))"

definition CreateNotebook :: "site_env \<Rightarrow> ctx \<Rightarrow> string \<Rightarrow> string \<Rightarrow> site \<Rightarrow> api_notebook site_reply" where
  "CreateNotebook E c title icon s =
     and_then (user_id_of c s) (\<lambda>userID s.
     if title = [] then (Inl (Status InvalidArgument ''title is required''), s)
     else case provisioned_dataset E userID title s of (d, s) \<Rightarrow>
       case ask_site (ap_uuid (api_of E)) s of (uid, s) \<Rightarrow>
       and_then (map_err (status_of Internal ''failed to create notebook'') (sqlite_CreateNotebook E
           \<lparr>nr_ID = 0, nr_UID = uid, nr_CreatorID = userID, nr_Title = title, nr_Icon = icon, nr_IsDefault = False,
            nr_DatasetID = or_else d [], nr_RowStatus = [], nr_CreatedTs = 0, nr_UpdatedTs = 0\<rparr> s)) (\<lambda>b s.
       (Inr (convertNotebookToProto b), s)))"

fun notebook_fields :: "api_notebook \<Rightarrow> string list \<Rightarrow> update_notebook \<Rightarrow> update_notebook" where
  "notebook_fields b [] up = up"
| "notebook_fields b (p # ps) up = notebook_fields b ps
     (if p = ''title'' then up\<lparr>xn_Title := Some (an_Title b)\<rparr>
      else if p = ''icon'' then up\<lparr>xn_Icon := Some (an_Icon b)\<rparr> else up)"

definition UpdateNotebook :: "site_env \<Rightarrow> ctx \<Rightarrow> api_notebook option \<Rightarrow> string list \<Rightarrow> site \<Rightarrow> api_notebook site_reply" where
  "UpdateNotebook E c nb paths s =
     and_then (user_id_of c s) (\<lambda>userID s.
     case nb of
       None \<Rightarrow> (Inl (Status InvalidArgument ''notebook is required''), s)
     | Some r \<Rightarrow>
         and_then (own_notebook E userID (an_Id r) s) (\<lambda>b s.
         and_then (map_err (status_of Internal ''failed to update notebook'')
             (sqlite_UpdateNotebook E (notebook_fields r paths (no_notebook_columns (nr_ID b))) s)) (\<lambda>_ s.
         and_then (map_err (status_of Internal ''failed to get updated notebook'')
             (store_GetNotebook E (any_notebook\<lparr>fn_ID := Some (nr_ID b)\<rparr>) s)) (\<lambda>b s.
         case b of None \<Rightarrow> (Inl nil_dereference, s) | Some b \<Rightarrow> (Inr (convertNotebookToProto b), s)))))"

text \<open>The memos move to the default notebook; an error of one is logged and the next one is tried.\<close>

fun reassign_memos :: "site_env \<Rightarrow> int \<Rightarrow> memo_row list \<Rightarrow> site \<Rightarrow> site" where
  "reassign_memos E d [] s = s"
| "reassign_memos E d (m # ms) s =
     reassign_memos E d ms (snd (sqlite_UpdateMemo E ((no_memo_columns (mr_ID m))\<lparr>xm_NotebookID := Some d\<rparr>) s))"

definition DeleteNotebook :: "site_env \<Rightarrow> ctx \<Rightarrow> int \<Rightarrow> site \<Rightarrow> unit site_reply" where
  "DeleteNotebook E c i s =
     and_then (user_id_of c s) (\<lambda>userID s.
     and_then (own_notebook E userID i s) (\<lambda>b s.
     if nr_IsDefault b then (Inl (Status FailedPrecondition ''cannot delete default notebook''), s)
     else and_then (map_err (status_of Internal ''failed to find default notebook'')
         (store_GetNotebook E (default_of userID) s)) (\<lambda>d s.
     and_then (case d of
         None \<Rightarrow> (Inr (), s)
       | Some d \<Rightarrow>
           and_then (map_err (status_of Internal ''failed to list memos'')
               (sqlite_ListMemos E (any_memo\<lparr>fm_CreatorID := Some userID, fm_NotebookID := Some (nr_ID b)\<rparr>) s)) (\<lambda>ms s.
           (Inr (), reassign_memos E (nr_ID d) ms s))) (\<lambda>_ s.
     map_err (status_of Internal ''failed to delete notebook'') (sqlite_DeleteNotebook E (nr_ID b) s)))))"

subsection \<open>Notifications (user\_service.go)\<close>

datatype api_inbox_status = Notification_UNSPECIFIED | Notification_UNREAD | Notification_ARCHIVED | Notification_Other int
datatype api_inbox_type = Type_UNSPECIFIED | Type_MEMO_COMMENT

record api_notification =
  nt_Name :: string
  nt_Sender :: string
  nt_Status :: api_inbox_status
  nt_CreateTime :: timestamp
  nt_Type :: api_inbox_type
  nt_ActivityId :: "int option"

definition convertInboxToUserNotification :: "inbox \<Rightarrow> api_notification" where
  "convertInboxToUserNotification n =
     \<lparr>nt_Name = ''users/'' @ itoa (ib_ReceiverID n) @ ''/notifications/'' @ itoa (ib_ID n),
      nt_Sender = user_name_of (ib_SenderID n),
      nt_Status = (case ib_Status n of UNREAD \<Rightarrow> Notification_UNREAD | INBOX_ARCHIVED \<Rightarrow> Notification_ARCHIVED
        | _ \<Rightarrow> Notification_UNSPECIFIED),
      nt_CreateTime = from_unix (ib_CreatedTs n),
      nt_Type = (if ib_Type n = MEMO_COMMENT then Type_MEMO_COMMENT else Type_UNSPECIFIED),
      nt_ActivityId = ib_ActivityId n\<rparr>"

definition ListUserNotifications :: "site_env \<Rightarrow> ctx \<Rightarrow> string \<Rightarrow> site \<Rightarrow> api_notification list site_reply" where
  "ListUserNotifications E c parent s =
     and_then (site_argument ''invalid user name'' (ExtractUserIDFromName parent) s) (\<lambda>userID s.
     and_then (site_user E ''failed to get current user'' c s) (\<lambda>u s.
     if user_ID u \<noteq> userID then (Inl permission_denied, s)
     else and_then (map_err (status_of Internal ''failed to list inboxes'')
         (sqlite_ListInboxes E (any_inbox\<lparr>fi_ReceiverID := Some userID, fi_MessageType := Some MEMO_COMMENT\<rparr>) s)) (\<lambda>ns s.
     (Inr (map convertInboxToUserNotification ns), s))))"

definition own_inbox :: "site_env \<Rightarrow> user \<Rightarrow> int \<Rightarrow> site \<Rightarrow> unit site_reply" where
  "own_inbox E u i s =
     and_then (map_err (status_of Internal ''failed to get inbox'')
         (sqlite_ListInboxes E (any_inbox\<lparr>fi_ID := Some i\<rparr>) s)) (\<lambda>ns s.
     case ns of
       [] \<Rightarrow> (Inl (Status NotFound ''notification not found''), s)
     | n # _ \<Rightarrow> if ib_ReceiverID n \<noteq> user_ID u then (Inl permission_denied, s) else (Inr (), s))"

text \<open>The status after the loop over the mask; without a path it stays the empty string.\<close>

fun notification_status :: "api_inbox_status \<Rightarrow> string list \<Rightarrow> inbox_status \<Rightarrow> api_error + inbox_status" where
  "notification_status st [] acc = Inr acc"
| "notification_status st (p # ps) acc =
     (if p \<noteq> ''status'' then Inl (Status InvalidArgument (''invalid update path: '' @ p))
      else case st of
        Notification_UNREAD \<Rightarrow> notification_status st ps UNREAD
      | Notification_ARCHIVED \<Rightarrow> notification_status st ps INBOX_ARCHIVED
      | _ \<Rightarrow> Inl (Status InvalidArgument ''invalid status''))"

definition UpdateUserNotification ::
  "site_env \<Rightarrow> ctx \<Rightarrow> api_notification option \<Rightarrow> string list option \<Rightarrow> site \<Rightarrow> api_notification site_reply" where
  "UpdateUserNotification E c req msk s =
     (case req of
        None \<Rightarrow> (Inl (Status InvalidArgument ''notification is required''), s)
      | Some r \<Rightarrow>
          and_then (site_argument ''invalid notification name'' (ExtractNotificationIDFromName (nt_Name r)) s) (\<lambda>i s.
          and_then (site_user E ''failed to get current user'' c s) (\<lambda>u s.
          and_then (own_inbox E u i s) (\<lambda>_ s.
          case msk of
            None \<Rightarrow> (Inl nil_dereference, s)
          | Some paths \<Rightarrow>
              and_then (notification_status (nt_Status r) paths (Other_status []), s) (\<lambda>st s.
              and_then (map_err (status_of Internal ''failed to update inbox'') (sqlite_UpdateInbox E i st s)) (\<lambda>n s.
              (Inr (convertInboxToUserNotification n), s)))))))"

definition DeleteUserNotification :: "site_env \<Rightarrow> ctx \<Rightarrow> string \<Rightarrow> site \<Rightarrow> unit site_reply" where
  "DeleteUserNotification E c name s =
     and_then (site_argument ''invalid notification name'' (ExtractNotificationIDFromName name) s) (\<lambda>i s.
     and_then (site_user E ''failed to get current user'' c s) (\<lambda>u s.
     and_then (own_inbox E u i s) (\<lambda>_ s.
     map_err (status_of Internal ''failed to delete inbox'') (sqlite_DeleteInbox E i s))))"

subsection \<open>Activities (activity\_service.go)\<close>

record api_activity =
  aq_Name :: string
  aq_Creator :: string
  aq_CreateTime :: timestamp
  aq_Comment :: "(string \<times> string) option"

text \<open>
  The payload with the names of its memos: \<open>None\<close> when one of them is gone. The type and the
  level of an activity have a single value.
\<close>

definition convertActivityPayloadFromStore ::
  "site_env \<Rightarrow> (int \<times> int) option \<Rightarrow> site \<Rightarrow> (string \<times> string) option option site_reply" where
  "convertActivityPayloadFromStore E p s =
     (case p of
        None \<Rightarrow> (Inr (Some None), s)
      | Some (i, j) \<Rightarrow>
          and_then (map_err (status_of Internal ''failed to get memo'')
              (store_GetMemo E ((memo_with_id i)\<lparr>fm_ExcludeContent := True\<rparr>) s)) (\<lambda>m s.
          case m of None \<Rightarrow> (Inr None, s) | Some m \<Rightarrow>
          and_then (map_err (status_of Internal ''failed to get related memo'')
              (store_GetMemo E ((memo_with_id j)\<lparr>fm_ExcludeContent := True\<rparr>) s)) (\<lambda>n s.
          case n of None \<Rightarrow> (Inr None, s) | Some n \<Rightarrow>
          (Inr (Some (Some (memo_name (mr_UID m), memo_name (mr_UID n)))), s))))"

definition convertActivityFromStore :: "site_env \<Rightarrow> activity \<Rightarrow> site \<Rightarrow> api_activity option site_reply" where
  "convertActivityFromStore E y s =
     and_then (convertActivityPayloadFromStore E (ay_Comment y) s) (\<lambda>p s.
     (Inr (map_option (\<lambda>p. \<lparr>aq_Name = ActivityNamePrefix @ itoa (ay_ID y), aq_Creator = user_name_of (ay_CreatorID y),
        aq_CreateTime = from_unix (ay_CreatedTs y), aq_Comment = p\<rparr>) p), s))"

text \<open>Activities that fail to convert are left out.\<close>

fun convert_activities :: "site_env \<Rightarrow> activity list \<Rightarrow> site \<Rightarrow> api_activity list \<times> site" where
  "convert_activities E [] s = ([], s)"
| "convert_activities E (y # ys) s =
     (case convertActivityFromStore E y s of
        (Inr (Some a), s) \<Rightarrow> (case convert_activities E ys s of (as, s) \<Rightarrow> (a # as, s))
      | (_, s) \<Rightarrow> convert_activities E ys s)"

definition ListActivities :: "site_env \<Rightarrow> site \<Rightarrow> api_activity list site_reply" where
  "ListActivities E s =
     and_then (map_err (status_of Internal ''failed to list activities'') (sqlite_ListActivities E None s)) (\<lambda>ys s.
     case convert_activities E ys s of (as, s) \<Rightarrow> (Inr as, s))"

text \<open>A missing activity is dereferenced.\<close>

definition GetActivity :: "site_env \<Rightarrow> string \<Rightarrow> site \<Rightarrow> api_activity site_reply" where
  "GetActivity E name s =
     and_then (site_argument ''invalid activity name'' (ExtractActivityIDFromName name) s) (\<lambda>i s.
     and_then (map_err (status_of Internal ''failed to get activity'') (store_GetActivity E i s)) (\<lambda>y s.
     case y of
       None \<Rightarrow> (Inl nil_dereference, s)
     | Some y \<Rightarrow>
         and_then (map_err (rewrap Internal ''failed to convert activity from store'') (convertActivityFromStore E y s)) (\<lambda>a s.
         case a of
           None \<Rightarrow> (Inl (Status NotFound ''activity references deleted content''), s)
         | Some a \<Rightarrow> (Inr a, s))))"

end
