(* ===== verification/MemoFrames.thy ===== *)
theory MemoFrames
  imports MemoHandlers NotebookService SettingsSafety
begin

section \<open>What the calls of the services leave alone\<close>

text \<open>
  Two relations between the states before and after a call: \<open>acc_calm\<close> for the accounts and
  \<open>site_calm\<close> for a call that writes no table. The locale \<open>steps\<close> has the rules to chase such a
  relation through a handler; these relations, and those of the later theories, interpret it.
\<close>

named_theorems acc_intros \<open>account calls that write no row\<close>
named_theorems calm_intros \<open>calls that write no table\<close>
named_theorems quiet_intros \<open>calls that write neither memos nor relations\<close>
named_theorems memo_intros \<open>calls that write no memo\<close>

locale steps =
  fixes R :: "'s \<Rightarrow> 's \<Rightarrow> bool"
  assumes R_refl: "R s s" and R_trans: "R s t \<Longrightarrow> R t u \<Longrightarrow> R s u"
begin

lemma then_step:
  assumes "R s (snd m)" and "\<And>a t. m = (Inr a, t) \<Longrightarrow> R t (snd (f a t))"
  shows "R s (snd (and_then m f))"
proof (cases m)
  case (Pair r t)
  with assms show ?thesis by (cases r) (auto intro: R_trans)
qed

text \<open>The same with what is known of the state between.\<close>

lemma then_step_after:
  assumes "R s (snd m)" and "\<And>a t. m = (Inr a, t) \<Longrightarrow> R s t \<Longrightarrow> R t (snd (f a t))"
  shows "R s (snd (and_then m f))"
  using assms by (intro then_step) force+

lemma pair_step:
  assumes "R s (snd m)" and "\<And>a t. m = (a, t) \<Longrightarrow> R t (snd (f a t))"
  shows "R s (snd (case m of (a, t) \<Rightarrow> f a t))"
  using assms by (cases m) (auto intro: R_trans)

lemma if_step:
  assumes "b \<Longrightarrow> R s (snd m)" and "\<not> b \<Longrightarrow> R s (snd n)"
  shows "R s (snd (if b then m else n))"
  using assms by simp

end

subsection \<open>Accounts\<close>

definition acc_calm :: "accounts \<Rightarrow> accounts \<Rightarrow> bool" where
  "acc_calm w v \<longleftrightarrow> same_rows w v \<and> same_table w v \<and> (user_inv w \<longrightarrow> user_inv v)"

interpretation acc: steps acc_calm
  by unfold_locales (auto simp: acc_calm_def intro: same_rows_trans same_table_trans)

lemmas acc_then [acc_intros] = acc.then_step

lemma acc_calm_refl [simp]: "acc_calm w w" by (rule acc.R_refl)

lemma acc_calm_get_user [acc_intros]: "acc_calm w (snd (store_GetUser E f w))"
  by (simp add: acc_calm_def rows_get_user table_get_user user_inv_get)

lemma acc_calm_fetch [acc_intros]: "acc_calm w (snd (fetchCurrentUser P c w))"
  by (simp add: acc_calm_def rows_fetch table_who inv_fetch)

lemma acc_calm_tick [simp]: "acc_calm w (w\<lparr>ac_tick := k\<rparr>)"
  by (simp add: acc_calm_def same_rows_def same_table_def user_inv_def users_ok_def)

lemma acc_calm_ask [acc_intros, simp]: "acc_calm w (snd (ask f w))"
  by (simp add: ask_def tick_ac_def)

lemma acc_calm_require [acc_intros]: "acc_calm w (snd (require_user P msg c w))"
  unfolding require_user_def by (auto intro!: acc_intros split: option.splits)

interpretation users: steps same_users
  by unfold_locales (auto intro: same_users_trans)

lemma same_users_fold: "same_users w (fold cache_setting ss v) = same_users w v"
  by (induction ss arbitrary: v) auto

lemma same_users_db: "same_users w (snd (f w)) \<Longrightarrow> same_users w (snd (db_call E f w))"
  by (simp add: db_call_def split: option.splits)

lemma same_users_only_setting: "same_users w (snd (only_setting E f w))"
  unfolding only_setting_def store_ListUserSettings_def sqlite_ListUserSettings_def
  by (intro users.then_step same_users_db) (auto simp: Let_def same_users_fold split: list.splits)

lemma same_users_get_setting: "same_users w (snd (store_GetUserSetting E f w))"
proof -
  have cached: "same_users w u" if "cached_setting E k w = (r, u)" for k r u
    using that by (auto simp: cached_setting_def split: if_splits)
  show ?thesis
  proof (cases "fs_UserID f")
    case (Some i)
    obtain r u where get: "cached_setting E (setting_cache_key i (fs_Key f)) w = (r, u)" by fastforce
    from same_users_trans [OF cached [OF get] same_users_only_setting] cached [OF get] show ?thesis
      by (cases r) (simp_all add: store_GetUserSetting_def Some get)
  qed (simp add: store_GetUserSetting_def same_users_only_setting)
qed

lemma acc_calm_webhooks [acc_intros]: "acc_calm w (snd (GetUserWebhooks E i w))"
proof -
  have "acc_calm w (snd (store_GetUserSetting E f w))" for f
    using user_inv_same [OF same_users_get_setting [of w E f]]
    by (simp add: acc_calm_def rows_get_setting table_get_setting)
  then show ?thesis unfolding GetUserWebhooks_def by (auto intro!: acc_then)
qed

subsection \<open>Calls that write no table\<close>

definition site_tables :: "site \<Rightarrow> memo_row list \<times> int \<times> memo_relation list \<times> reaction list \<times> file_row list \<times>
    activity list \<times> inbox list \<times> notebook_row list \<times> instance_row list" where
  "site_tables s = (st_memos s, st_next_memo s, st_relations s, st_reactions s, st_files s, st_activities s,
     st_inboxes s, st_notebooks s, st_instance s)"

definition site_calm :: "site \<Rightarrow> site \<Rightarrow> bool" where
  "site_calm s t \<longleftrightarrow> site_tables t = site_tables s \<and> acc_calm (st_acc s) (st_acc t)"

interpretation site_calm: steps site_calm
  by unfold_locales (auto simp: site_calm_def intro: acc.R_trans)

lemmas calm_then [calm_intros] = site_calm.then_step

lemma calm_tables:
  assumes "site_calm s t"
  shows "st_memos t = st_memos s" "st_next_memo t = st_next_memo s" "st_relations t = st_relations s"
    "st_reactions t = st_reactions s" "st_files t = st_files s" "st_activities t = st_activities s"
    "st_inboxes t = st_inboxes s" "st_notebooks t = st_notebooks s" "st_instance t = st_instance s"
  using assms by (simp_all add: site_calm_def site_tables_def)

lemma site_calm_simps [simp]:
  "site_calm s s" "site_calm s (set_site_tick k s)" "site_calm s (log_site_event ev s)" "site_calm s (s\<lparr>st_instance_cache := ic\<rparr>)"
  by (simp_all add: site_calm_def site_tables_def set_site_tick_def log_site_event_def)

lemma calm_ticked: "site_calm s (set_site_tick k t) = site_calm s t"
  by (auto simp: site_calm_def site_tables_def set_site_tick_def acc_calm_def same_rows_def same_table_def user_inv_def users_ok_def)

lemma calm_on_acc [calm_intros]: "(\<And>w. acc_calm w (snd (f w))) \<Longrightarrow> site_calm s (snd (on_acc f s))"
  by (simp add: site_calm_def on_acc_def site_tables_def)

lemma calm_ask [calm_intros, simp]: "site_calm s (snd (ask_site f s))"
  by (simp add: ask_site_def calm_on_acc)

lemma calm_db [calm_intros]: "site_calm s (snd (f s)) \<Longrightarrow> site_calm s (snd (site_db E f s))"
  by (simp add: site_db_def calm_ticked split: option.splits)

lemma calm_db_read [calm_intros, simp]: "site_calm s (snd (site_db E (\<lambda>s. (g s, s)) s))"
  by (rule calm_db) simp

lemma snd_opaque [simp]: "snd (opaque c msg m) = snd m"
  by (simp add: opaque_def)

lemma opaque_Inr [simp]: "opaque c msg m = (Inr b, t) \<longleftrightarrow> m = (Inr b, t)"
  by (simp add: opaque_def)

lemma snd_argument [simp]: "snd (site_argument msg r s) = s"
  by (simp add: site_argument_def split: sum.splits)

lemma site_argument_Inr [simp]: "site_argument msg r s = (Inr b, t) \<longleftrightarrow> r = Inr b \<and> t = s"
  by (auto simp: site_argument_def split: sum.splits)

lemma calm_who [calm_intros]:
  "site_calm s (snd (current_user E msg c s))" "site_calm s (snd (signed_in E msg c s))" "site_calm s (snd (site_user E msg c s))"
proof -
  show who: "site_calm s (snd (current_user E msg c s))" for s
    by (simp add: current_user_def calm_on_acc acc_calm_fetch)
  show "site_calm s (snd (signed_in E msg c s))"
    unfolding signed_in_def by (auto intro!: calm_intros who split: option.splits)
  show "site_calm s (snd (site_user E msg c s))"
    by (simp add: site_user_def calm_on_acc acc_calm_require)
qed

lemma calm_list_memos [calm_intros]: "site_calm s (snd (sqlite_ListMemos E f s))"
  by (auto simp: sqlite_ListMemos_def intro: site_calm.R_trans [OF _ calm_db_read] split: prod.splits sum.splits)

lemma calm_get_memo [calm_intros]: "site_calm s (snd (store_GetMemo E f s))"
  unfolding store_GetMemo_def by (auto intro!: calm_intros)

lemma calm_list_relations [calm_intros]: "site_calm s (snd (sqlite_ListMemoRelations E f s))"
  by (auto simp: sqlite_ListMemoRelations_def intro: site_calm.R_trans [OF _ calm_db_read] split: prod.splits sum.splits option.splits)

lemma calm_lists [calm_intros]:
  "site_calm s (snd (sqlite_ListReactions E fx s))" "site_calm s (snd (sqlite_GetReaction E fx s))"
  "site_calm s (snd (sqlite_ListActivities E i s))" "site_calm s (snd (sqlite_ListInboxes E fi s))"
  "site_calm s (snd (sqlite_ListNotebooks E fn s))" "site_calm s (snd (sqlite_ListInstanceSettings E n s))"
  by (simp_all add: sqlite_ListReactions_def sqlite_GetReaction_def sqlite_ListActivities_def
      sqlite_ListInboxes_def sqlite_ListNotebooks_def sqlite_ListInstanceSettings_def)

lemma calm_list_files [calm_intros]:
  "site_calm s (snd (sqlite_ListAttachments E f s))" "site_calm s (snd (store_ListAttachments E f s))"
  by (auto simp: store_ListAttachments_def sqlite_ListAttachments_def intro: site_calm.R_trans [OF _ calm_db_read]
      split: prod.splits sum.splits)

lemma calm_gets [calm_intros]:
  "site_calm s (snd (store_GetAttachment E f s))" "site_calm s (snd (store_GetNotebook E fn s))"
  "site_calm s (snd (store_GetActivity E i s))"
  unfolding store_GetAttachment_def store_GetNotebook_def store_GetActivity_def by (auto intro!: calm_intros)

lemma calm_cache_instance [simp]: "site_calm s (cache_instance v s)" "site_calm s (fold cache_instance vs t) = site_calm s t"
proof -
  have one: "site_calm s (cache_instance v t) = site_calm s t" for v t
    by (simp add: cache_instance_def site_calm_def site_tables_def)
  then show "site_calm s (cache_instance v s)" by simp
  show "site_calm s (fold cache_instance vs t) = site_calm s t"
    by (induction vs arbitrary: t) (simp_all add: one)
qed

lemma calm_list_instance [calm_intros]: "site_calm s (snd (ListInstanceSettings E n s))"
  unfolding ListInstanceSettings_def by (rule calm_then [OF calm_lists(6)]) (simp add: Let_def)

lemma calm_get_instance [calm_intros]: "site_calm s (snd (store_GetInstanceSetting E n s))"
proof -
  have cached: "site_calm s t" if "cached_instance E n s = (r, t)" for r t
    using that by (auto simp: cached_instance_def Let_def site_calm_def site_tables_def set_site_tick_def split: if_splits)
  have "site_calm t (snd (and_then (ListInstanceSettings E n t) (\<lambda>vs s. case vs of [] \<Rightarrow> (Inr None, s) | [v] \<Rightarrow> (Inr (Some v), s)
      | _ \<Rightarrow> (Inl (''found multiple instance settings with key '' @ n), s))))" for t
    by (rule calm_then [OF calm_list_instance]) (auto split: list.splits)
  with cached show ?thesis
    by (auto simp: store_GetInstanceSetting_def split: prod.splits option.splits intro: site_calm.R_trans)
qed

lemma calm_read_instance [calm_intros]: "site_calm s (snd (read_instance E msg k g u co wr s))"
  unfolding read_instance_def by (auto simp: Let_def intro!: calm_intros)

lemma calm_instance_readers [calm_intros]:
  "site_calm s (snd (GetInstanceBasicSetting E s))" "site_calm s (snd (site_GetInstanceGeneralSetting E s))"
  "site_calm s (snd (GetInstanceMemoRelatedSetting E s))" "site_calm s (snd (GetInstanceStorageSetting E s))"
  by (simp_all add: GetInstanceBasicSetting_def site_GetInstanceGeneralSetting_def GetInstanceMemoRelatedSetting_def
      GetInstanceStorageSetting_def calm_read_instance)

subsection \<open>The memo service\<close>

lemma calm_relation_memo [calm_intros]: "site_calm s (snd (relation_memo_of E a b i s))"
  unfolding relation_memo_of_def by (auto intro!: calm_intros split: option.splits sum.splits)

lemma calm_convert_relation [calm_intros]: "site_calm s (snd (convertMemoRelationFromStore E r s))"
  unfolding convertMemoRelationFromStore_def by (auto intro!: calm_intros)

lemma calm_convert_relations [calm_intros]: "site_calm s (snd (convert_relations E rs s))"
  by (induction rs arbitrary: s) (auto intro!: calm_intros)

lemma calm_ListMemoRelations [calm_intros]: "site_calm s (snd (ListMemoRelations E c name s))"
  unfolding ListMemoRelations_def by (auto intro!: calm_intros split: option.splits)

lemma calm_convert_memo [calm_intros]: "site_calm s (snd (convertMemoFromStore E c m xs as s))"
  unfolding convertMemoFromStore_def by (auto intro!: calm_intros split: sum.splits)

lemma calm_check_content [calm_intros]: "site_calm s (snd (check_content E content s))"
  unfolding check_content_def getContentLengthLimit_def by (auto intro!: calm_intros)

lemma calm_parts [calm_intros]:
  "site_calm s (snd (rebuilt E content p s))" "site_calm s (runner_event E ev s)" "site_calm s (snd (allow_visibility E v s))"
  "site_calm s (snd (memo_uid_for E wanted s))"
  by (auto simp: rebuilt_def runner_event_def allow_visibility_def memo_uid_for_def Let_def split: sum.splits prod.splits
      intro!: calm_intros dest: arg_cong [where f = snd])

lemma calm_post_hooks: "site_calm s (post_hooks act m hs t) = site_calm s t"
proof (induction hs arbitrary: t)
  case (Cons h hs)
  then show ?case
    by (auto simp: log_site_event_def site_calm_def site_tables_def split: sum.splits)
qed simp

lemma calm_post_to [calm_intros]: "site_calm s (post_to E i act m s)"
  using calm_on_acc [of "GetUserWebhooks (db_env E) i" s] acc_calm_webhooks
  by (auto simp: post_to_def calm_post_hooks split: prod.splits sum.splits)

lemma calm_dispatch [calm_intros]: "site_calm s (dispatchMemoRelatedWebhook E m act s)"
  by (auto simp: dispatchMemoRelatedWebhook_def intro: calm_post_to split: sum.splits)

lemma calm_runner_attachments [calm_intros]: "site_calm s (runner_attachments E as s)"
proof (induction as arbitrary: s)
  case (Cons a as)
  then show ?case using calm_parts(2) site_calm.R_trans by fastforce
qed simp

lemma calm_update_event [calm_intros]: "site_calm s (update_event E m ps s)"
  by (induction ps) (auto intro: calm_intros)

lemma calm_own_memo [calm_intros]: "site_calm s (snd (own_memo E c name s))"
  unfolding own_memo_def by (auto intro!: calm_intros split: option.splits)

lemma calm_may_read [calm_intros]: "site_calm s (snd (may_read E failed adm c m s))"
  unfolding may_read_def by (auto intro!: calm_intros acc_intros split: option.splits)

lemma calm_found_memo [calm_intros]: "site_calm s (snd (found_memo failed E name s))"
  unfolding found_memo_def by (auto intro!: calm_intros split: option.splits)

lemma calm_of [calm_intros]: "site_calm s (snd (reactions_of E name s))" "site_calm s (snd (attachments_of E i s))"
  by (simp_all add: reactions_of_def attachments_of_def calm_intros)

lemma calm_full_memo [calm_intros]: "site_calm s (snd (full_memo E c name m s))"
  unfolding full_memo_def by (auto intro!: calm_intros)

lemma calm_convert_memos [calm_intros]: "site_calm s (snd (convert_memos E c xs as ms s))"
  by (induction ms arbitrary: s) (auto intro!: calm_intros)

lemma calm_full_memos [calm_intros]: "site_calm s (snd (full_memos E c ms s))"
  unfolding full_memos_def by (auto intro!: calm_intros)

lemma calm_validate [calm_intros]: "site_calm s (snd (validateFilter E src s))"
  by (auto simp: validateFilter_def split: prod.splits sum.splits)

lemma calm_list_search [calm_intros]: "site_calm s (snd (list_search E req s))"
  unfolding list_search_def by (auto simp: Let_def intro!: calm_intros)

lemma calm_writable [calm_intros]: "site_calm s (snd (writable_memo failed E c uid s))"
  unfolding writable_memo_def by (auto intro!: calm_intros split: option.splits)

lemma calm_announce [calm_intros]: "site_calm s (snd (announce_deletion E c m xs as s))"
  using calm_convert_memo [of s E c m xs as] site_calm.R_trans [OF _ calm_dispatch]
  by (auto simp: announce_deletion_def split: prod.splits sum.splits api_error.splits)

text \<open>The handlers that only read.\<close>

lemma calm_readers:
  "site_calm s (snd (GetMemo E c name s))" "site_calm s (snd (ListMemos E c req s))" "site_calm s (snd (ListMemoComments E c name s))"
  "site_calm s (snd (ListMemoRelations E c name s))" "site_calm s (snd (ListMemoAttachments E c name s))"
  "site_calm s (snd (ListMemoReactions E c name s))"
  unfolding GetMemo_def ListMemos_def ListMemoComments_def ListMemoAttachments_def ListMemoReactions_def
  by (auto simp: Let_def intro!: calm_intros split: option.splits)

end
