(* ===== verification/MemoSafety.thy ===== *)
theory MemoSafety
  imports MemoFrames
begin

section \<open>Calls that write no memo, and moves of memos\<close>

text \<open>
  \<open>site_quiet\<close> is a call that writes neither memos nor relations, \<open>same_memos\<close> one that writes no
  memo, and \<open>memo_moves\<close> a call that changes only memos it may change.
\<close>

subsection \<open>Calls that write neither memos nor relations\<close>

definition site_quiet :: "site \<Rightarrow> site \<Rightarrow> bool" where
  "site_quiet s t \<longleftrightarrow> st_memos t = st_memos s \<and> st_next_memo t = st_next_memo s \<and> st_relations t = st_relations s \<and>
     acc_calm (st_acc s) (st_acc t)"

interpretation site_quiet: steps site_quiet
  by unfold_locales (auto simp: site_quiet_def intro: acc.R_trans)

lemmas quiet_then [quiet_intros] = site_quiet.then_step

lemma quiet_calm: "site_calm s t \<Longrightarrow> site_quiet s t"
  by (simp add: site_quiet_def calm_tables site_calm_def)

lemma calm_notebook_for: "site_calm s (snd (notebook_for E i wanted s))"
proof -
  have "site_calm s t" if "store_GetNotebook E fn s = (r, t)" for fn r t
    using calm_gets(2) [of s E fn] that by simp
  then show ?thesis by (auto simp: notebook_for_def split: prod.splits sum.splits option.splits)
qed

lemmas calm_calls = calm_on_acc calm_ask calm_who calm_list_memos calm_get_memo calm_list_relations calm_lists
  calm_list_files calm_gets calm_list_instance calm_get_instance calm_read_instance calm_instance_readers
  calm_relation_memo calm_convert_relation calm_convert_relations calm_ListMemoRelations calm_convert_memo
  calm_check_content calm_parts calm_post_to calm_dispatch calm_runner_attachments calm_update_event calm_own_memo
  calm_may_read calm_found_memo calm_of calm_full_memo calm_convert_memos calm_full_memos calm_validate
  calm_list_search calm_writable calm_announce calm_notebook_for calm_readers

lemmas quiet_calls [quiet_intros] = calm_calls [THEN quiet_calm]

lemma site_quiet_refl [simp]: "site_quiet s s" by (rule site_quiet.R_refl)

lemma quiet_ticked: "site_quiet s (set_site_tick k t) = site_quiet s t"
  by (auto simp: site_quiet_def set_site_tick_def acc_calm_def same_rows_def same_table_def user_inv_def users_ok_def)

lemma quiet_db [quiet_intros]: "site_quiet s (snd (f s)) \<Longrightarrow> site_quiet s (snd (site_db E f s))"
  by (simp add: site_db_def quiet_ticked split: option.splits)

lemma quiet_simps [simp]:
  "site_quiet s (t\<lparr>st_reactions := xs\<rparr>) = site_quiet s t" "site_quiet s (t\<lparr>st_files := fs\<rparr>) = site_quiet s t"
  "site_quiet s (t\<lparr>st_activities := ys\<rparr>) = site_quiet s t" "site_quiet s (t\<lparr>st_inboxes := ns\<rparr>) = site_quiet s t"
  "site_quiet s (t\<lparr>st_notebooks := bs\<rparr>) = site_quiet s t" "site_quiet s (t\<lparr>st_instance := is\<rparr>) = site_quiet s t"
  "site_quiet s (t\<lparr>st_instance_cache := ic\<rparr>) = site_quiet s t"
  "site_quiet s (t\<lparr>st_next_file := n\<rparr>) = site_quiet s t" "site_quiet s (t\<lparr>st_next_reaction := n\<rparr>) = site_quiet s t"
  "site_quiet s (t\<lparr>st_next_activity := n\<rparr>) = site_quiet s t" "site_quiet s (t\<lparr>st_next_inbox := n\<rparr>) = site_quiet s t"
  "site_quiet s (t\<lparr>st_next_notebook := n\<rparr>) = site_quiet s t" "site_quiet s (log_site_event ev t) = site_quiet s t"
  by (simp_all add: site_quiet_def log_site_event_def)

lemma quiet_tables [quiet_intros]:
  "site_quiet s (snd (sqlite_UpsertReaction E x s))" "site_quiet s (snd (sqlite_DeleteReaction E i s))"
  "site_quiet s (snd (sqlite_UpdateAttachment E up s))" "site_quiet s (snd (sqlite_DeleteAttachment E i s))"
  "site_quiet s (snd (sqlite_CreateActivity E y s))" "site_quiet s (snd (sqlite_CreateInbox E n s))"
  "site_quiet s (snd (sqlite_UpdateInbox E i st s))" "site_quiet s (snd (sqlite_DeleteInbox E i s))"
  "site_quiet s (snd (sqlite_CreateNotebook E b s))" "site_quiet s (snd (sqlite_UpdateNotebook E un s))"
  "site_quiet s (snd (sqlite_DeleteNotebook E i s))" "site_quiet s (snd (sqlite_UpsertInstanceSetting E ir s))"
  by (auto simp: sqlite_UpsertReaction_def sqlite_DeleteReaction_def sqlite_UpdateAttachment_def
      sqlite_DeleteAttachment_def sqlite_CreateActivity_def sqlite_CreateInbox_def sqlite_UpdateInbox_def
      sqlite_DeleteInbox_def sqlite_CreateNotebook_def sqlite_UpdateNotebook_def sqlite_DeleteNotebook_def
      sqlite_UpsertInstanceSetting_def Let_def intro!: quiet_db split: option.splits)

lemma quiet_delete_file [quiet_intros]: "site_quiet s (snd (store_DeleteAttachment E i s))"
proof -
  have local: "site_quiet s (snd (delete_local E a s))" for a s
    unfolding delete_local_def by (rule site_quiet.pair_step) (auto intro!: quiet_intros split: option.split)
  have s3: "site_quiet s (delete_s3 E a s)" for a s
    using quiet_calm [OF calm_instance_readers(4) [of s E]]
    by (auto simp: delete_s3_def split: prod.splits option.splits sum.splits)
  show ?thesis
    unfolding store_DeleteAttachment_def
    by (auto intro!: quiet_intros local intro: site_quiet.R_trans [OF s3 quiet_tables(4)]
        split: option.splits storage_type.splits)
qed

lemma quiet_delete_files [quiet_intros]: "site_quiet s (snd (delete_attachments E as s))"
  by (induction as arbitrary: s) (auto intro!: quiet_intros)

lemma quiet_attachments [quiet_intros]: "site_quiet s (snd (SetMemoAttachments E c name names s))"
proof -
  have drop: "site_quiet s (snd (drop_attachments E names as s))" for as s
    by (induction as arbitrary: s) (auto intro!: quiet_intros)
  have update: "site_quiet s (snd (store_UpdateAttachment E up s))" for up s
    by (auto simp: store_UpdateAttachment_def intro: quiet_intros split: option.splits)
  have link: "site_quiet s (snd (link_attachments E i ns k s))" for i ns k s
    by (induction ns arbitrary: k s)
      (auto intro!: quiet_intros update site_quiet.pair_step split: option.split)
  show ?thesis
    unfolding SetMemoAttachments_def by (auto intro!: quiet_intros drop link)
qed

lemma quiet_comment [quiet_intros]: "site_quiet s (snd (notify_comment E i m n s))"
  unfolding notify_comment_def by (auto intro!: quiet_intros)

lemma quiet_created_attachments [quiet_intros]: "site_quiet s (snd (created_attachments E c m names s))"
  unfolding created_attachments_def by (auto intro!: quiet_intros)

lemma quiet_reactions [quiet_intros]:
  "site_quiet s (snd (UpsertMemoReaction E c x s))" "site_quiet s (snd (DeleteMemoReaction E c name s))"
  unfolding UpsertMemoReaction_def DeleteMemoReaction_def by (auto intro!: quiet_intros split: option.splits)

lemma quiet_user_id [quiet_intros]: "site_quiet s (snd (user_id_of c s))"
  by (simp add: user_id_of_def)

lemma quiet_dataset: "site_quiet s (snd (provisioned_dataset E i title s))"
  unfolding provisioned_dataset_def createNotebookDataset_def
  by (intro site_quiet.if_step site_quiet.pair_step) (auto intro!: quiet_intros acc_intros split: sum.splits option.splits)

lemma quiet_bind: "site_quiet s (snd (bind_dataset E b d s))"
proof -
  have "site_quiet s t" if "sqlite_UpdateNotebook E un s = (r, t)" for un r t
    using quiet_tables(10) [of s E un] that by simp
  then show ?thesis by (auto simp: bind_dataset_def split: option.splits prod.splits sum.splits)
qed

lemma quiet_assistant [quiet_intros]: "site_quiet s (ensure_assistant E i s)"
  by (auto simp: ensure_assistant_def intro!: quiet_intros acc_intros)

lemma quiet_default [quiet_intros]: "site_quiet s (snd (ensureDefaultNotebook E i s))"
  unfolding ensureDefaultNotebook_def
  by (intro site_quiet.pair_step quiet_intros site_quiet.if_step quiet_dataset quiet_bind) (simp_all add: quiet_assistant)

lemma quiet_own_notebook [quiet_intros]: "site_quiet s (snd (own_notebook E i b s))"
  unfolding own_notebook_def by (auto intro!: quiet_intros split: option.splits)

lemma quiet_notebooks [quiet_intros]:
  "site_quiet s (snd (ListNotebooks E c s))" "site_quiet s (snd (api_GetNotebook E c i s))"
  "site_quiet s (snd (CreateNotebook E c title icon s))" "site_quiet s (snd (UpdateNotebook E c nb paths s))"
  unfolding ListNotebooks_def api_GetNotebook_def CreateNotebook_def UpdateNotebook_def
  by (auto intro!: quiet_intros site_quiet.pair_step quiet_dataset split: option.split)

subsection \<open>Calls that write no memo\<close>

definition same_memos :: "site \<Rightarrow> site \<Rightarrow> bool" where
  "same_memos s t \<longleftrightarrow> st_memos t = st_memos s \<and> st_next_memo t = st_next_memo s \<and> acc_calm (st_acc s) (st_acc t)"

interpretation memos: steps same_memos
  by unfold_locales (auto simp: same_memos_def intro: acc.R_trans)

lemmas memos_then [memo_intros] = memos.then_step

lemma same_memos_quiet: "site_quiet s t \<Longrightarrow> same_memos s t"
  by (simp add: same_memos_def site_quiet_def)

lemma same_memos_calm: "site_calm s t \<Longrightarrow> same_memos s t"
  by (simp add: same_memos_quiet quiet_calm)

lemmas quiet_writers = quiet_tables quiet_delete_file quiet_delete_files quiet_attachments quiet_comment
  quiet_created_attachments quiet_reactions quiet_user_id quiet_dataset quiet_default quiet_own_notebook quiet_notebooks

lemmas same_memos_calls [memo_intros] = calm_calls [THEN same_memos_calm] quiet_writers [THEN same_memos_quiet]

lemma same_memos_refl [simp]: "same_memos s s" by (rule memos.R_refl)

lemma same_memos_ticked: "same_memos s (set_site_tick k t) = same_memos s t"
  by (auto simp: same_memos_def set_site_tick_def acc_calm_def same_rows_def same_table_def user_inv_def users_ok_def)

lemma same_memos_db: "same_memos s (snd (f s)) \<Longrightarrow> same_memos s (snd (site_db E f s))"
  by (simp add: site_db_def same_memos_ticked split: option.splits)

lemma same_memos_linked [simp]: "same_memos s (t\<lparr>st_relations := rs\<rparr>) = same_memos s t"
  by (simp add: same_memos_def)

lemma same_memos_tables [memo_intros]:
  "same_memos s (snd (sqlite_UpsertMemoRelation E r s))" "same_memos s (snd (sqlite_DeleteMemoRelation E fl s))"
  unfolding sqlite_UpsertMemoRelation_def sqlite_DeleteMemoRelation_def by (auto intro!: same_memos_db)

lemma same_memos_relations [memo_intros]: "same_memos s (snd (SetMemoRelations E c name rs s))"
proof -
  have "same_memos s (snd (set_relations E name i rs s))" for i s
    by (induction rs arbitrary: s) (auto intro!: memo_intros split: option.splits)
  then show ?thesis
    unfolding SetMemoRelations_def by (auto intro!: memo_intros)
qed

lemma same_memos_paths [memo_intros]: "same_memos s (snd (update_paths E c r ps acc s))"
proof (induction ps arbitrary: acc s)
  case (Cons p ps)
  have step: "same_memos s (snd (update_path E c r p acc s))" for acc s
    unfolding update_path_def Let_def split_def
    by (intro memos.if_step memo_intros) (auto intro!: memos.pair_step memo_intros)
  show ?case unfolding update_paths.simps by (rule memos_then [OF step Cons.IH])
qed simp

subsection \<open>Moves of memos\<close>

definition memo_at :: "site \<Rightarrow> int \<Rightarrow> memo_row option" where
  "memo_at s i = find (\<lambda>m. mr_ID m = i) (st_memos s)"

definition memos_ok :: "site \<Rightarrow> bool" where
  "memos_ok s \<longleftrightarrow> distinct (map mr_ID (st_memos s)) \<and> distinct (map mr_UID (st_memos s)) \<and>
     (\<forall>m \<in> set (st_memos s). mr_ID m < st_next_memo s)"

text \<open>
  \<open>A i k\<close>: memo \<open>i\<close> of creator \<open>k\<close> may be changed; new memos belong to \<open>g\<close> and get a fresh id.
\<close>

definition memo_move :: "(int \<Rightarrow> int \<Rightarrow> bool) \<Rightarrow> int \<Rightarrow> int \<Rightarrow> int \<Rightarrow> memo_row option \<Rightarrow> memo_row option \<Rightarrow> bool" where
  "memo_move A g next i x y \<longleftrightarrow>
     (case x of
        None \<Rightarrow> (case y of None \<Rightarrow> True | Some n \<Rightarrow> mr_CreatorID n = g \<and> next \<le> i)
      | Some m \<Rightarrow> (case y of None \<Rightarrow> A i (mr_CreatorID m)
          | Some n \<Rightarrow> n = m \<or> mr_CreatorID n = mr_CreatorID m \<and> A i (mr_CreatorID m)))"

definition memo_moves :: "(int \<Rightarrow> int \<Rightarrow> bool) \<Rightarrow> int \<Rightarrow> site \<Rightarrow> site \<Rightarrow> bool" where
  "memo_moves A g s t \<longleftrightarrow> (memos_ok s \<longrightarrow> memos_ok t) \<and> st_next_memo s \<le> st_next_memo t \<and>
     acc_calm (st_acc s) (st_acc t) \<and> (memos_ok s \<longrightarrow> (\<forall>i. memo_move A g (st_next_memo s) i (memo_at s i) (memo_at t i)))"

lemma memo_at_Some: "memo_at s i = Some m \<Longrightarrow> m \<in> set (st_memos s) \<and> mr_ID m = i"
  by (auto simp: memo_at_def find_Some_iff)

lemma find_unique:
  "distinct (map f xs) \<Longrightarrow> x \<in> set xs \<Longrightarrow> find (\<lambda>y. f y = f x) xs = Some x"
  by (induction xs) force+

lemma memo_at_id: "memos_ok s \<Longrightarrow> m \<in> set (st_memos s) \<Longrightarrow> memo_at s (mr_ID m) = Some m"
  by (simp add: memo_at_def memos_ok_def find_unique)

lemma memo_at_fresh:
  assumes "memos_ok s" "st_next_memo s \<le> i"
  shows "memo_at s i = None"
proof (cases "memo_at s i")
  case (Some m)
  with assms show ?thesis using memo_at_Some [OF Some] by (auto simp: memos_ok_def)
qed

lemma memo_move_trans:
  assumes "memo_move A g n i x y" "memo_move A g n' i y z" "n \<le> n'" "x \<noteq> None \<Longrightarrow> i < n"
  shows "memo_move A g n i x z"
  using assms by (cases x; cases y; cases z) (auto simp: memo_move_def)

lemma memo_moves_trans:
  assumes "memo_moves A g s t" "memo_moves A g t u"
  shows "memo_moves A g s u"
proof -
  have "memo_move A g (st_next_memo s) i (memo_at s i) (memo_at u i)" if ok: "memos_ok s" for i
  proof (rule memo_move_trans)
    show "memo_move A g (st_next_memo s) i (memo_at s i) (memo_at t i)"
      "memo_move A g (st_next_memo t) i (memo_at t i) (memo_at u i)" "st_next_memo s \<le> st_next_memo t"
      using assms ok by (auto simp: memo_moves_def)
    show "i < st_next_memo s" if "memo_at s i \<noteq> None"
      using memo_at_fresh [OF ok, of i] that by force
  qed
  with assms show ?thesis by (auto simp: memo_moves_def intro: acc.R_trans)
qed

interpretation moves: steps "memo_moves A g"
proof
  show "memo_moves A g s s" for s
    by (auto simp: memo_moves_def memo_move_def split: option.splits)
qed (rule memo_moves_trans)

lemma moves_same: "same_memos s t \<Longrightarrow> memo_moves A g s t"
  by (auto simp: same_memos_def memo_moves_def memos_ok_def memo_at_def memo_move_def split: option.splits)

lemma moves_calm: "site_calm s t \<Longrightarrow> memo_moves A g s t"
  by (simp add: moves_same same_memos_calm)

lemma moves_ticked: "memo_moves A g s (set_site_tick k t) = memo_moves A g s t"
  by (auto simp: memo_moves_def memos_ok_def memo_at_def set_site_tick_def acc_calm_def same_rows_def same_table_def
      user_inv_def users_ok_def)

lemma moves_db: "memo_moves A g s (snd (f s)) \<Longrightarrow> memo_moves A g s (snd (site_db E f s))"
  by (simp add: site_db_def moves_ticked moves_calm split: option.splits)

lemma find_append: "find P (xs @ ys) = (case find P xs of None \<Rightarrow> find P ys | Some x \<Rightarrow> Some x)"
  by (induction xs) auto

lemma moves_added:
  assumes "mr_ID m = st_next_memo s" "mr_CreatorID m = g" "mr_UID m \<notin> mr_UID ` set (st_memos s)"
  shows "memo_moves A g s (s\<lparr>st_memos := st_memos s @ [m], st_next_memo := st_next_memo s + 1\<rparr>)"
    (is "memo_moves A g s ?t")
  unfolding memo_moves_def
proof (intro conjI impI allI)
  show "memos_ok ?t" if "memos_ok s"
    using that assms by (auto simp: memos_ok_def image_iff)
  show "memo_move A g (st_next_memo s) i (memo_at s i) (memo_at ?t i)" for i
    using assms by (auto simp: memo_at_def memo_move_def find_append split: option.splits)
qed simp_all

lemma moves_create:
  assumes "mr_CreatorID m = g"
  shows "memo_moves A g s (snd (store_CreateMemo E m s))"
proof -
  have "memo_moves A g s (snd (sqlite_CreateMemo E m s))"
    unfolding sqlite_CreateMemo_def by (rule moves_db) (auto simp: Let_def assms intro!: moves_added moves.R_refl)
  then show ?thesis by (auto simp: store_CreateMemo_def moves.R_refl)
qed

lemma find_map_same:
  "(\<And>x. P (f x) = P x) \<Longrightarrow> find P (map f xs) = map_option f (find P xs)"
  by (induction xs) auto

lemma find_filter_other:
  "find (\<lambda>x. f x = j) (filter (\<lambda>x. f x \<noteq> i) xs) = (if j = i then None else find (\<lambda>x. f x = j) xs)"
  by (induction xs) auto

lemma set_memo_columns_keeps [simp]:
  "mr_ID (set_memo_columns up m) = mr_ID m" "mr_UID (set_memo_columns up m) = mr_UID m"
  "mr_CreatorID (set_memo_columns up m) = mr_CreatorID m"
  by (simp_all add: set_memo_columns_def)

lemma moves_update:
  assumes "\<And>m. memo_at s (xm_ID up) = Some m \<Longrightarrow> A (xm_ID up) (mr_CreatorID m)"
  shows "memo_moves A g s (snd (sqlite_UpdateMemo E up s))"
proof -
  let ?f = "\<lambda>m. if mr_ID m = xm_ID up then set_memo_columns up m else m"
  have keep: "mr_ID (?f m) = mr_ID m" "mr_UID (?f m) = mr_UID m" "mr_CreatorID (?f m) = mr_CreatorID m" for m
    by simp_all
  have ids: "map mr_ID (map ?f ms) = map mr_ID ms" "map mr_UID (map ?f ms) = map mr_UID ms" for ms
    by (induction ms) simp_all
  have "memo_moves A g s (s\<lparr>st_memos := map ?f (st_memos s)\<rparr>)"
    unfolding memo_moves_def
  proof (intro conjI impI allI)
    show "memos_ok (s\<lparr>st_memos := map ?f (st_memos s)\<rparr>)" if "memos_ok s"
      using that by (auto simp: memos_ok_def ids keep simp del: map_map)
    fix i
    have "memo_at (s\<lparr>st_memos := map ?f (st_memos s)\<rparr>) i = map_option ?f (memo_at s i)"
      using find_map_same [of "\<lambda>m. mr_ID m = i" ?f] by (simp add: memo_at_def keep)
    then show "memo_move A g (st_next_memo s) i (memo_at s i) (memo_at (s\<lparr>st_memos := map ?f (st_memos s)\<rparr>) i)"
      using assms by (cases "memo_at s i") (use memo_at_Some [of s i] in \<open>auto simp: memo_move_def keep\<close>)
  qed simp_all
  then show ?thesis
    unfolding sqlite_UpdateMemo_def by (auto intro!: moves_db moves.R_refl)
qed

lemma moves_delete:
  assumes "\<And>m. memo_at s i = Some m \<Longrightarrow> A i (mr_CreatorID m)"
  shows "memo_moves A g s (snd (sqlite_DeleteMemo E i s))"
proof -
  let ?t = "s\<lparr>st_memos := filter (\<lambda>m. mr_ID m \<noteq> i) (st_memos s)\<rparr>"
  have at: "memo_at ?t j = (if j = i then None else memo_at s j)" for j
    by (simp add: memo_at_def find_filter_other)
  have "memo_moves A g s ?t"
    unfolding memo_moves_def
  proof (intro conjI impI allI)
    show "memos_ok ?t" if "memos_ok s"
      using that by (auto simp: memos_ok_def distinct_map inj_on_def)
    show "memo_move A g (st_next_memo s) j (memo_at s j) (memo_at ?t j)" for j
      using assms by (auto simp: at memo_move_def split: option.splits)
  qed simp_all
  then show ?thesis unfolding sqlite_DeleteMemo_def by (auto intro!: moves_db)
qed

lemma moves_store_delete:
  assumes "\<And>m. memo_at s i = Some m \<Longrightarrow> A i (mr_CreatorID m)"
  shows "memo_moves A g s (snd (store_DeleteMemo E i s))"
proof -
  have del: "memo_moves A g t (snd (sqlite_DeleteMemo E i t))" if "same_memos s t" for t
    using that assms by (intro moves_delete) (simp add: same_memos_def memo_at_def)
  let ?q = "\<lambda>s. and_then (sqlite_DeleteMemoRelation E (relations_from i) s) (\<lambda>_ s.
     and_then (sqlite_DeleteMemoRelation E (relations_to i) s) (\<lambda>_ s.
     and_then (store_ListAttachments E (any_file\<lparr>ff_MemoID := Some i\<rparr>) s) (\<lambda>as s. delete_attachments E as s)))"
  have split: "store_DeleteMemo E i s = and_then (?q s) (\<lambda>_ s. sqlite_DeleteMemo E i s)"
    by (simp add: store_DeleteMemo_def and_then_def split: prod.splits sum.splits)
  have q: "same_memos s (snd (?q s))"
    by (auto intro!: memo_intros)
  show ?thesis
    unfolding split by (rule moves.then_step) (use q del in \<open>auto intro: moves_same\<close>)
qed

end
