(* ===== verification/MemoRuns.thy ===== *)
theory MemoRuns
  imports MemoSafety
begin

section \<open>A small site\<close>

text \<open>
  The site the theorems on memos are tried on: ann (7) and bob (9) are users, root (1) is an
  administrator. Ann has a private memo with a comment of bob, bob a private memo that refers to
  a public one of root. CEL and SQLite are given by what they make of the two filters the memo
  service writes itself.
\<close>

definition visible_expr :: "int \<Rightarrow> expr" where
  "visible_expr i = CallExpr None ''_||_'' [
     CallExpr None ''_==_'' [IdentExpr ''creator_id'', ConstExpr (Int64Value i)],
     CallExpr None ''@in'' [IdentExpr ''visibility'',
       ListExpr [ConstExpr (StringValue ''PUBLIC''), ConstExpr (StringValue ''PROTECTED'')]]]"

definition public_expr :: expr where
  "public_expr = CallExpr None ''_==_'' [IdentExpr ''visibility'', ConstExpr (StringValue ''PUBLIC'')]"

definition person :: "int \<Rightarrow> string \<Rightarrow> string \<Rightarrow> user" where
  "person i name r = SystemBot\<lparr>user_ID := i, user_Username := name, user_Role := r, user_RowStatus := RowNormal\<rparr>"

definition three_users :: accounts where
  "three_users = \<lparr>ac_users = [person 1 ''root'' RoleAdmin, person 7 ''ann'' RoleUser, person 9 ''bob'' RoleUser],
     ac_next_id = 10, ac_settings = [], ac_user_cache = (\<lambda>_. None), ac_setting_cache = (\<lambda>_. None), ac_tick = 1\<rparr>"

definition slip :: "int \<Rightarrow> string \<Rightarrow> int \<Rightarrow> visibility \<Rightarrow> memo_row" where
  "slip i uid creator v = \<lparr>mr_ID = i, mr_UID = uid, mr_RowStatus = RowNormal, mr_CreatorID = creator, mr_CreatedTs = 0,
     mr_UpdatedTs = 0, mr_Content = [], mr_Visibility = v, mr_Pinned = False, mr_Payload = empty_payload,
     mr_NotebookID = None, mr_ParentUID = None\<rparr>"

definition demo_site :: site where
  "demo_site = \<lparr>st_acc = three_users,
     st_memos = [slip 1 ''d'' 7 Private, slip 2 ''r'' 9 Public, slip 3 ''s'' 9 Private, slip 4 ''n'' 1 Public],
     st_relations = [\<lparr>rl_MemoID = 2, rl_RelatedMemoID = 1, rl_Type = MemoRelationComment\<rparr>,
       \<lparr>rl_MemoID = 3, rl_RelatedMemoID = 4, rl_Type = MemoRelationReference\<rparr>],
     st_reactions = [], st_files = [], st_activities = [], st_inboxes = [], st_notebooks = [],
     st_instance = [], st_instance_cache = (\<lambda>_. None), st_next_memo = 5, st_next_reaction = 1, st_next_file = 1,
     st_next_activity = 1, st_next_inbox = 1, st_next_notebook = 1, st_events = []\<rparr>"

definition demo_users :: "(nat \<Rightarrow> string option) \<Rightarrow> user_env" where
  "demo_users db = \<lparr>ue_api = \<lparr>
     ap_auth = \<lparr>au_acc = \<lparr>ae_db = db, ae_kept = (\<lambda>_ _. True), ae_now = (\<lambda>_. 0), ae_constraint = ''UNIQUE''\<rparr>,
       au_jwt = table_lib [], au_secret = ''key'', au_sha = id\<rparr>,
     ap_uuid = (\<lambda>k. replicate k CHR ''u''), ap_random = (\<lambda>_. []), ap_general = (\<lambda>_. Inl []),
     ap_idp = (\<lambda>_ _. Inr None), ap_oauth = (\<lambda>_ _. Inl (Plain [])), ap_regexp = (\<lambda>_. Inl []),
     ap_hash_password = (\<lambda>_. Inr), ap_password_matches = (=), ap_header_error = (\<lambda>_. None)\<rparr>,
     ue_cel = (\<lambda>_. Inl []), ue_runner = True\<rparr>"

definition demo_env :: site_env where
  "demo_env = \<lparr>sv_user = demo_users (\<lambda>_. None),
     sv_cel = (\<lambda>src. if src = visibility_filter None then Some public_expr
       else map_option (\<lambda>i. visible_expr i) (find (\<lambda>i. src = visibility_filter (Some (person i [] RoleUser))) [1, 7, 9])),
     sv_where = (\<lambda>st m. case Args st of
         [ArgInt i, _, _] \<Rightarrow> mr_CreatorID m = i \<or> mr_Visibility m \<in> {Public, Protected}
       | _ \<Rightarrow> mr_Visibility m = Public),
     sv_file_cel = (\<lambda>_. None), sv_file_where = (\<lambda>_ _. False), sv_filter_text = (\<lambda>_. ''filter''),
     sv_dialect = DialectSQLite, sv_extract = (\<lambda>_. Inr ([], None)), sv_snippet = Inr, sv_uid = (\<lambda>k. replicate k CHR ''m''),
     sv_remove = (\<lambda>_ _. None), sv_pack = (\<lambda>_ _. ''next''), sv_unpack = (\<lambda>_. Inl []), sv_dataset = (\<lambda>_ _ _. None),
     sv_mapping = (\<lambda>_ _. None), sv_provisioner = False\<rparr>"

lemma demo_ok:
  "user_inv (st_acc demo_site)" "ids_small (st_acc demo_site)" "memos_ok demo_site" "ae_db (db_env demo_env) n = None"
  by (simp_all add: demo_site_def three_users_def user_inv_def users_ok_def
      ids_small_def memos_ok_def slip_def person_def demo_env_def demo_users_def)

end
