(* ===== verification/MemoOwners.thy ===== *)
theory MemoOwners
  imports MemoRuns
begin

section \<open>Who changes a memo\<close>

text \<open>
  Every request of the memo and notebook services as a step, and the theorem that it changes or
  deletes only memos of the user who asks, unless an administrator asks or the memo is a comment
  on a memo of that user.
\<close>

subsection \<open>The requests\<close>

inductive memo_request :: "site_env \<Rightarrow> ctx \<Rightarrow> site \<Rightarrow> site \<Rightarrow> bool" for E c s where
  create: "memo_request E c s (snd (CreateMemo E c r memoId s))"
| list: "memo_request E c s (snd (ListMemos E c lreq s))"
| get: "memo_request E c s (snd (GetMemo E c name s))"
| update: "memo_request E c s (snd (UpdateMemo E c req s))"
| delete: "memo_request E c s (snd (DeleteMemo E c name s))"
| comment: "memo_request E c s (snd (CreateMemoComment E c name r memoId s))"
| comments: "memo_request E c s (snd (ListMemoComments E c name s))"
| set_attachments: "memo_request E c s (snd (SetMemoAttachments E c name names s))"
| attachments: "memo_request E c s (snd (ListMemoAttachments E c name s))"
| set_relations: "memo_request E c s (snd (SetMemoRelations E c name rs s))"
| relations: "memo_request E c s (snd (ListMemoRelations E c name s))"
| reactions: "memo_request E c s (snd (ListMemoReactions E c name s))"
| react: "memo_request E c s (snd (UpsertMemoReaction E c x s))"
| unreact: "memo_request E c s (snd (DeleteMemoReaction E c name s))"
| notebooks: "memo_request E c s (snd (ListNotebooks E c s))"
| notebook: "memo_request E c s (snd (api_GetNotebook E c i s))"
| create_notebook: "memo_request E c s (snd (CreateNotebook E c title icon s))"
| update_notebook: "memo_request E c s (snd (UpdateNotebook E c nb paths s))"
| delete_notebook: "memo_request E c s (snd (DeleteNotebook E c i s))"

subsection \<open>What the checks establish\<close>

text \<open>The row a memo of an answer was read from: only the content and the parent may differ.\<close>

definition memo_row_of :: "memo_row \<Rightarrow> memo_row \<Rightarrow> bool" where
  "memo_row_of n m \<longleftrightarrow> n = m\<lparr>mr_Content := mr_Content n, mr_ParentUID := mr_ParentUID n\<rparr>"

lemma row_of_fields:
  assumes "memo_row_of n m"
  shows "mr_ID n = mr_ID m" "mr_UID n = mr_UID m" "mr_CreatorID n = mr_CreatorID m" "mr_Visibility n = mr_Visibility m"
    "mr_RowStatus n = mr_RowStatus m" "mr_NotebookID n = mr_NotebookID m"
proof -
  from assms have n: "n = m\<lparr>mr_Content := mr_Content n, mr_ParentUID := mr_ParentUID n\<rparr>" by (simp add: memo_row_of_def)
  show "mr_ID n = mr_ID m" "mr_UID n = mr_UID m" "mr_CreatorID n = mr_CreatorID m" "mr_Visibility n = mr_Visibility m"
    "mr_RowStatus n = mr_RowStatus m" "mr_NotebookID n = mr_NotebookID m"
    by (subst n, simp)+
qed

lemma row_of_parent: "n \<in> set (with_parents s m) \<Longrightarrow> memo_row_of n m"
  by (auto simp: with_parents_def memo_row_of_def split: list.splits)

lemma row_of_no_content: "memo_row_of n m \<Longrightarrow> memo_row_of (n\<lparr>mr_Content := []\<rparr>) m"
proof -
  assume "memo_row_of n m"
  then have "n\<lparr>mr_Content := []\<rparr> = m\<lparr>mr_Content := mr_Content n, mr_ParentUID := mr_ParentUID n\<rparr>\<lparr>mr_Content := []\<rparr>"
    by (metis memo_row_of_def)
  then show ?thesis by (simp add: memo_row_of_def)
qed

lemma set_page: "x \<in> set (page l off xs) \<Longrightarrow> x \<in> set xs"
  by (auto simp: page_def Let_def split: option.splits if_splits dest: in_set_takeD in_set_dropD)

lemma ticked_tables [simp]:
  "st_memos (set_site_tick k s) = st_memos s" "st_relations (set_site_tick k s) = st_relations s"
  "st_files (set_site_tick k s) = st_files s" "st_reactions (set_site_tick k s) = st_reactions s"
  by (simp_all add: set_site_tick_def)

lemma with_parents_ticked [simp]: "with_parents (set_site_tick k s) = with_parents s"
  by (rule ext) (simp add: with_parents_def split: list.split)

text \<open>What a list is made of: the conditions of the filters and the rows they leave.\<close>

lemma list_memos_result:
  assumes "sqlite_ListMemos E f s = (Inr ms, t)"
  obtains sts where
    "fst (filter_statements (sv_cel E) (ae_now (db_env E)) NewSchema DialectSQLite (fm_Filters f) 0 (site_tick s)) = Inr sts"
    "ms = map (\<lambda>m. if fm_ExcludeContent f then m\<lparr>mr_Content := []\<rparr> else m)
       (page (fm_Limit f) (fm_Offset f)
         (order_memos f (filter (\<lambda>m. memo_matches f m \<and> list_all (\<lambda>st. sv_where E st m) sts)
           (concat (map (with_parents s) (st_memos s))))))"
proof -
  obtain r k where r: "filter_statements (sv_cel E) (ae_now (db_env E)) NewSchema DialectSQLite (fm_Filters f) 0 (site_tick s) = (r, k)"
    by fastforce
  show ?thesis
  proof (cases r)
    case (Inr sts)
    then show ?thesis
      using assms that [of sts] r by (simp add: sqlite_ListMemos_def site_db_def split: option.splits)
  qed (use assms r in \<open>simp add: sqlite_ListMemos_def\<close>)
qed

lemma listed_memo:
  assumes "sqlite_ListMemos E f s = (Inr ms, t)" "n \<in> set ms"
  obtains m where "m \<in> set (st_memos s)" "memo_row_of n m" "memo_matches f n"
proof -
  obtain sts where ms: "ms = map (\<lambda>m. if fm_ExcludeContent f then m\<lparr>mr_Content := []\<rparr> else m)
       (page (fm_Limit f) (fm_Offset f)
         (order_memos f (filter (\<lambda>m. memo_matches f m \<and> list_all (\<lambda>st. sv_where E st m) sts)
           (concat (map (with_parents s) (st_memos s))))))" (is "_ = map ?g (page _ _ (order_memos f ?rows))")
    using list_memos_result [OF assms(1)] by blast
  have "set (order_memos f xs) = set xs" for xs by (simp add: order_memos_def)
  then have "set ms \<subseteq> ?g ` set ?rows" unfolding ms by (auto dest!: set_page)
  with assms(2) obtain x where x: "n = ?g x" "x \<in> set ?rows" by blast
  then obtain m where "m \<in> set (st_memos s)" "memo_row_of x m" "memo_matches f x"
    using row_of_parent by auto
  moreover have "memo_matches f n = memo_matches f x" by (simp add: x(1) memo_matches_def)
  moreover have "memo_row_of n m" using \<open>memo_row_of x m\<close> row_of_no_content by (simp add: x(1))
  ultimately show ?thesis using that by blast
qed

lemma got_memo:
  assumes "store_GetMemo E f s = (Inr (Some n), t)"
  obtains m where "m \<in> set (st_memos s)" "memo_row_of n m" "memo_matches f n"
proof -
  from assms obtain ms where ms: "sqlite_ListMemos E f s = (Inr ms, t)" "Some n = (case ms of [] \<Rightarrow> None | m # _ \<Rightarrow> Some m)"
    by (auto simp: store_GetMemo_def and_then_Inr)
  then have "n \<in> set ms" by (cases ms) auto
  then show ?thesis using listed_memo [OF ms(1)] that by blast
qed

definition users_known :: "site \<Rightarrow> bool" where
  "users_known s \<longleftrightarrow> user_inv (st_acc s) \<and> ids_small (st_acc s)"

lemma acc_calm_admin: "acc_calm w v \<Longrightarrow> asked_by_admin c v = asked_by_admin c w"
  unfolding acc_calm_def asked_by_admin_def using admins_same by blast

lemma users_known_same: "same_memos s t \<Longrightarrow> users_known s \<Longrightarrow> users_known t"
  by (simp add: users_known_def same_memos_def acc_calm_def same_rows_def ids_small_def)

lemma users_known_calm: "site_calm s t \<Longrightarrow> users_known s \<Longrightarrow> users_known t"
  by (rule users_known_same [OF same_memos_calm])

lemma fetched_user:
  assumes "users_known s" "on_acc (fetchCurrentUser P c) s = (Inr (Some u), t)"
  shows "user_ID u = GetUserID c" "isSuperUser u \<Longrightarrow> asked_by_admin c (st_acc s)"
proof -
  from assms(2) obtain v where "fetchCurrentUser P c (st_acc s) = (Inr (Some u), v)"
    by (metis on_acc_def prod.collapse prod.inject)
  with assms(1) have u: "u \<in> set (ac_users (st_acc s)) \<and> user_ID u = GetUserID c"
    using current_row unfolding users_known_def by blast
  then show "user_ID u = GetUserID c" by simp
  show "asked_by_admin c (st_acc s)" if "isSuperUser u"
    using that u by (force simp: asked_by_admin_def admins_def isSuperUser_def)
qed

lemma signed_in_user:
  assumes "users_known s" "signed_in E msg c s = (Inr u, t)"
  shows "user_ID u = GetUserID c" "isSuperUser u \<Longrightarrow> asked_by_admin c (st_acc s)"
proof -
  from assms(2) have "on_acc (fetchCurrentUser (api_of E) c) s = (Inr (Some u), t)"
    by (auto simp: signed_in_def current_user_def opaque_Inr and_then_Inr split: option.splits)
  with fetched_user [OF assms(1)] show "user_ID u = GetUserID c" "isSuperUser u \<Longrightarrow> asked_by_admin c (st_acc s)"
    by blast+
qed

lemma site_user_row:
  assumes "users_known s" "site_user E msg c s = (Inr u, t)"
  shows "user_ID u = GetUserID c" "isSuperUser u \<Longrightarrow> asked_by_admin c (st_acc s)"
proof -
  have "fst (require_user P msg c w) = Inr u \<Longrightarrow> fst (fetchCurrentUser P c w) = Inr (Some u)" for P w
    by (cases "fetchCurrentUser P c w"; cases "fst (fetchCurrentUser P c w)")
      (auto simp: require_user_def and_then_def map_err_def split: option.splits)
  moreover have "fst (require_user (api_of E) msg c (st_acc s)) = Inr u"
    using assms(2) by (auto simp: site_user_def on_acc_def)
  ultimately have "on_acc (fetchCurrentUser (api_of E) c) s = (Inr (Some u), snd (on_acc (fetchCurrentUser (api_of E) c) s))"
    by (simp add: on_acc_def)
  with fetched_user [OF assms(1)] show "user_ID u = GetUserID c" "isSuperUser u \<Longrightarrow> asked_by_admin c (st_acc s)"
    by blast+
qed

text \<open>The memo a handler may write.\<close>

definition may_change_memo :: "ctx \<Rightarrow> site \<Rightarrow> int \<Rightarrow> int \<Rightarrow> bool" where
  "may_change_memo c s i k \<longleftrightarrow> k = GetUserID c \<or> asked_by_admin c (st_acc s) \<or>
     (\<exists>j m. memo_at s j = Some m \<and> mr_CreatorID m = GetUserID c \<and>
        \<lparr>rl_MemoID = i, rl_RelatedMemoID = j, rl_Type = MemoRelationComment\<rparr> \<in> set (st_relations s))"

lemma writable_owner:
  assumes "users_known s" "memos_ok s" "writable_memo failed E c uid s = (Inr n, t)"
  obtains m where "memo_at s (mr_ID n) = Some m" "memo_row_of n m" "mr_UID m = uid"
    "mr_CreatorID m = GetUserID c \<or> asked_by_admin c (st_acc s)"
proof -
  from assms(3) obtain s1 u where n: "store_GetMemo E (memo_with_uid uid) s = (Inr (Some n), s1)"
    and u: "signed_in E ''failed to get current user'' c s1 = (Inr u, t)" "owner_or_admin u (mr_CreatorID n)"
    by (auto simp: writable_memo_def and_then_Inr split: option.splits if_splits)
  obtain m where m: "m \<in> set (st_memos s)" "memo_row_of n m" "memo_matches (memo_with_uid uid) n"
    using got_memo [OF n] .
  have site_calm: "site_calm s s1" using calm_get_memo [of s E "memo_with_uid uid"] n by simp
  note signed = signed_in_user [OF users_known_calm [OF site_calm assms(1)] u(1)]
  have "mr_CreatorID m = GetUserID c \<or> asked_by_admin c (st_acc s)"
    using signed u(2) row_of_fields [OF m(2)] acc_calm_admin [of "st_acc s" "st_acc s1" c] site_calm
    by (auto simp: owner_or_admin_def site_calm_def)
  moreover have "mr_UID m = uid" using m(3) row_of_fields [OF m(2)] by (simp add: memo_matches_def memo_with_uid_def any_memo_def)
  ultimately show ?thesis
    using that m(2) memo_at_id [OF assms(2) m(1)] row_of_fields [OF m(2)] by simp
qed

subsection \<open>Handlers that write memos\<close>

text \<open>A call after others that left the memos alone.\<close>

lemma moves_after:
  assumes "same_memos s (snd m)" and "\<And>a t. m = (Inr a, t) \<Longrightarrow> same_memos s t \<Longrightarrow> memo_moves A g t (snd (f a t))"
  shows "memo_moves A g s (snd (and_then m f))"
  using assms by (intro moves.then_step) (force intro: moves_same)+

lemma same_memo_at: "same_memos s t \<Longrightarrow> memo_at t = memo_at s"
  by (rule ext) (simp add: memo_at_def same_memos_def)

lemma same_memos_ok: "same_memos s t \<Longrightarrow> memos_ok t = memos_ok s"
  by (simp add: memos_ok_def same_memos_def)

lemma moves_insert:
  assumes "user_ID u = g"
  shows "memo_moves A g s (snd (insert_memo E u uid r s))"
proof -
  have new: "mr_CreatorID ((new_memo d uid g r)\<lparr>mr_Payload := p, mr_NotebookID := nb\<rparr>) = g" for d p nb
    by (simp add: new_memo_def Let_def)
  show ?thesis
    unfolding insert_memo_def Let_def assms
    by (intro moves_after moves.if_step moves.pair_step memo_intros)
      (auto intro!: memo_intros moves_create new moves.R_refl moves_calm [OF calm_notebook_for])
qed

lemma moves_CreateMemo:
  assumes "users_known s"
  shows "memo_moves A (GetUserID c) s (snd (CreateMemo E c r memoId s))"
  unfolding CreateMemo_def
proof (rule moves_after, goal_cases)
  case (2 u t)
  note g = signed_in_user(1) [OF assms 2(1)]
  have rest: "memo_moves A g t (snd (m, runner_event E ev (dispatchMemoRelatedWebhook E msg act t)))" for m ev msg act g t
    by (intro moves_same) (simp add: memos.R_trans [OF same_memos_calm [OF calm_dispatch] same_memos_calm [OF calm_parts(2)]])
  show ?case
    by (cases r) (auto intro!: moves_after memo_intros moves.R_refl moves.then_step [OF moves_insert [OF g]] rest)
qed (intro memo_intros)

lemma updated_id:
  assumes "update_paths E c r ps (m, up, names) s = (Inr up', t)"
  shows "xm_ID up' = xm_ID up"
  using assms
proof (induction ps arbitrary: m up names s)
  case (Cons p ps)
  from Cons.prems obtain acc s1 where p: "update_path E c r p (m, up, names) s = (Inr acc, s1)"
    and ps: "update_paths E c r ps acc s1 = (Inr up', t)"
    by (auto simp: and_then_Inr)
  have "xm_ID (fst (snd acc)) = xm_ID up"
    using p unfolding update_path_def Let_def
    by (simp add: and_then_Inr split: if_splits prod.splits) (auto simp: and_then_Inr)
  with Cons.IH [of "fst acc" "fst (snd acc)" "snd (snd acc)" s1] ps show ?case by simp
qed simp

lemma moves_UpdateMemo:
  assumes "users_known s" "memos_ok s"
  shows "memo_moves (may_change_memo c s) g s (snd (UpdateMemo E c req s))"
proof (cases "mq_Memo req")
  case (Some r)
  let ?failed = "status_of Internal ''failed to get memo''"
  have wrote: "memo_moves (may_change_memo c s) g t (snd (sqlite_UpdateMemo E up t))"
    if m: "writable_memo ?failed E c uid s = (Inr n, s1)" and s1: "same_memos s s1"
      and up: "update_paths E c r ps (n, no_memo_columns (mr_ID n), ns) s1 = (Inr up, t)" and t: "same_memos s1 t"
    for uid n s1 ps ns up t
  proof (rule moves_update)
    have id: "xm_ID up = mr_ID n" using updated_id [OF up] by (simp add: no_memo_columns_def)
    obtain m where "memo_at s (mr_ID n) = Some m" "mr_CreatorID m = GetUserID c \<or> asked_by_admin c (st_acc s)"
      using writable_owner [OF assms m] by blast
    then show "may_change_memo c s (xm_ID up) (mr_CreatorID k)" if "memo_at t (xm_ID up) = Some k" for k
      using that same_memo_at [OF s1] same_memo_at [OF t] by (auto simp: id may_change_memo_def)
  qed
  have last: "memo_moves (may_change_memo c s) g t (snd (m, update_event E n ps (dispatchMemoRelatedWebhook E msg act t)))"
    for m n ps msg act t
    by (intro moves_same) (simp add: memos.R_trans [OF same_memos_calm [OF calm_dispatch] same_memos_calm [OF calm_update_event]])
  show ?thesis
    unfolding UpdateMemo_def Some option.case
  proof (rule moves_after, goal_cases)
    case (2 uid t)
    then have t: "t = s" by simp
    show ?case
      unfolding t
    proof (intro moves.if_step, goal_cases)
      case 2
      show ?case
      proof (rule moves_after, goal_cases)
        case (2 n s1)
        note n = this
        show ?case
        proof (rule moves_after, goal_cases)
          case (2 up t)
          show ?case
            by (rule moves.then_step)
              (auto intro!: wrote [OF n 2] moves_after memo_intros moves.R_refl last split: option.split)
        qed (intro memo_intros)
      qed (intro memo_intros)
    qed (simp add: moves.R_refl)
  qed simp
qed (simp add: UpdateMemo_def moves.R_refl)

text \<open>Steps before a deletion keep the creators.\<close>

lemma moved_creator:
  assumes "memo_moves A g s t" "memos_ok s" "memo_at s i = Some m" "memo_at t i = Some n"
  shows "mr_CreatorID n = mr_CreatorID m"
  using assms unfolding memo_moves_def memo_move_def by (auto dest!: spec [where x = i])

lemma moves_comments:
  assumes "\<And>r k. r \<in> set rs \<Longrightarrow> A (rl_MemoID r) k"
  shows "memo_moves A g s (snd (delete_comments E rs s))"
  using assms
proof (induction rs arbitrary: s)
  case (Cons r rs)
  then show ?case by (auto intro!: moves.then_step moves_store_delete)
qed (simp add: moves.R_refl)

lemma listed_comments:
  assumes "sqlite_ListMemoRelations E ((relations_to j)\<lparr>fl_Type := Some MemoRelationComment\<rparr>) s = (Inr rs, t)" "r \<in> set rs"
  shows "\<lparr>rl_MemoID = rl_MemoID r, rl_RelatedMemoID = j, rl_Type = MemoRelationComment\<rparr> \<in> set (st_relations s)"
proof -
  have "r \<in> set (st_relations s)" "rl_RelatedMemoID r = j" "rl_Type r = MemoRelationComment"
    using assms by (auto simp: sqlite_ListMemoRelations_def site_db_def relation_matches_def relations_to_def split: option.splits)
  then show ?thesis by (metis memo_relation.surjective old.unit.exhaust)
qed

lemma moves_after_calm:
  assumes "site_calm s0 s" "site_calm s (snd m)"
    and "\<And>a t. m = (Inr a, t) \<Longrightarrow> site_calm s0 t \<Longrightarrow> memo_moves A g t (snd (f a t))"
  shows "memo_moves A g s (snd (and_then m f))"
proof (rule moves.then_step)
  show "memo_moves A g s (snd m)" by (rule moves_calm [OF assms(2)])
  show "memo_moves A g t (snd (f a t))" if "m = (Inr a, t)" for a t
    using assms that site_calm.R_trans by fastforce
qed

lemma moves_DeleteMemo:
  assumes "users_known s" "memos_ok s"
  shows "memo_moves (may_change_memo c s) g s (snd (DeleteMemo E c name s))"
proof -
  have delete: "memo_moves (may_change_memo c s) g t
      (snd (and_then (delete_comments E rs t) (\<lambda>_ s.
        and_then (opaque Internal msg (store_DeleteMemo E (mr_ID n) s)) (\<lambda>_ s. (Inr (), runner_event E ev s)))))"
    if n: "writable_memo Plain E c uid s = (Inr n, s1)"
      and rs: "sqlite_ListMemoRelations E ((relations_to (mr_ID n))\<lparr>fl_Type := Some MemoRelationComment\<rparr>) s2 = (Inr rs, t)"
      and site_calm: "site_calm s s2" "site_calm s t" for uid n s1 s2 rs t msg ev
  proof -
    obtain m where m: "memo_at s (mr_ID n) = Some m" "mr_CreatorID m = GetUserID c \<or> asked_by_admin c (st_acc s)"
      using writable_owner [OF assms n] by blast
    have comment: "may_change_memo c s (rl_MemoID r) k" if "r \<in> set rs" for r k
      using listed_comments [OF rs that] m calm_tables(3) [OF site_calm(1)] by (auto simp: may_change_memo_def)
    have comments: "memo_moves (may_change_memo c s) g t (snd (delete_comments E rs t))" for g
      using comment by (rule moves_comments)
    have last: "memo_moves (may_change_memo c s) g u (snd (and_then (opaque Internal msg (store_DeleteMemo E (mr_ID n) u))
        (\<lambda>_ s. (Inr (), runner_event E ev s))))" if u: "delete_comments E rs t = (Inr (), u)" for u
    proof (rule moves.then_step)
      have "may_change_memo c s (mr_ID n) (mr_CreatorID k)" if "memo_at u (mr_ID n) = Some k" for k
        using m u that assms(2) comments [of g] moved_creator [of "may_change_memo c s" g t u "mr_ID n" m k]
          same_memo_at [OF same_memos_calm [OF site_calm(2)]] same_memos_ok [OF same_memos_calm [OF site_calm(2)]]
        by (auto simp: may_change_memo_def)
      then show "memo_moves (may_change_memo c s) g u (snd (opaque Internal msg (store_DeleteMemo E (mr_ID n) u)))"
        by (simp add: moves_store_delete)
    qed (simp add: moves_calm calm_parts)
    show ?thesis by (rule moves.then_step [OF comments]) (simp add: last)
  qed
  show ?thesis
    unfolding DeleteMemo_def
    apply (rule moves_after_calm [OF site_calm.R_refl], simp)
    apply (rule moves_after_calm, assumption, (simp add: calm_intros; fail))+
    apply (auto intro!: delete)
    done
qed

lemma moves_CreateMemoComment:
  assumes "users_known s"
  shows "memo_moves A (GetUserID c) s (snd (CreateMemoComment E c name r memoId s))"
  unfolding CreateMemoComment_def
proof (rule moves_after, goal_cases)
  case (2 related s1)
  note known1 = users_known_same [OF 2(2) assms]
  show ?case
  proof (rule moves_after, goal_cases)
    case (2 u s2)
    note created = moves_CreateMemo [OF users_known_same [OF 2(2) known1]]
    have last: "same_memos t (snd (m, post_to E i act msg t))" for m i act msg t
      by (simp add: same_memos_calm [OF calm_post_to])
    have notify: "same_memos t (snd (if b then notify_comment E i m related t else (Inr (), t)))" for b i m t
      by (auto intro: memo_intros)
    show ?case
      apply (rule moves.if_step, simp add: moves.R_refl)
      apply (rule moves.then_step, simp add: created)
      apply (rule moves_same)
      apply (auto intro!: memo_intros last notify split: option.split sum.split)
      done
  qed (intro memo_intros)
qed (intro memo_intros)

lemma listed_owner:
  assumes "sqlite_ListMemos E (any_memo\<lparr>fm_CreatorID := Some i, fm_NotebookID := nb\<rparr>) s = (Inr ms, t)" "n \<in> set ms" "memos_ok s"
  obtains m where "memo_at s (mr_ID n) = Some m" "mr_CreatorID m = i"
proof -
  obtain m where m: "m \<in> set (st_memos s)" "memo_row_of n m" "mr_CreatorID n = i"
    using listed_memo [OF assms(1,2)] by (auto simp: memo_matches_def any_memo_def)
  with that memo_at_id [OF assms(3) m(1)] row_of_fields [OF m(2)] show ?thesis by simp
qed

lemma moves_reassign:
  assumes "\<And>n m. n \<in> set ms \<Longrightarrow> memo_at s (mr_ID n) = Some m \<Longrightarrow> mr_CreatorID m = g" "memos_ok s"
    and "\<And>i. A i g"
  shows "memo_moves A g s (reassign_memos E d ms s)"
  using assms(1,2)
proof (induction ms arbitrary: s)
  case (Cons n ms)
  let ?t = "snd (sqlite_UpdateMemo E ((no_memo_columns (mr_ID n))\<lparr>xm_NotebookID := Some d\<rparr>) s)"
  have step: "memo_moves A g s ?t"
    using Cons.prems(1) [of n] assms(3) by (intro moves_update) (simp add: no_memo_columns_def)
  then have ok: "memos_ok ?t" using Cons.prems(2) by (simp add: memo_moves_def)
  have creators: "mr_CreatorID m = g" if "k \<in> set (n # ms)" "memo_at ?t (mr_ID k) = Some m" for k m
  proof (cases "memo_at s (mr_ID k)")
    case None
    then show ?thesis
      using step that(2) Cons.prems(2) unfolding memo_moves_def memo_move_def by (auto dest!: spec [where x = "mr_ID k"])
  next
    case (Some o')
    then show ?thesis
      using moved_creator [OF step Cons.prems(2) Some that(2)] Cons.prems(1) [OF that(1) Some] by simp
  qed
  have "memo_moves A g ?t (reassign_memos E d ms ?t)"
    by (rule Cons.IH [OF creators ok]) simp_all
  with step show ?case using memo_moves_trans by simp
qed (simp add: moves.R_refl)

lemma moves_DeleteNotebook:
  assumes "memos_ok s"
  shows "memo_moves (may_change_memo c s) (GetUserID c) s (snd (DeleteNotebook E c i s))"
  unfolding DeleteNotebook_def
proof (rule moves_after, goal_cases)
  case (2 userID t)
  then have t: "t = s" "userID = GetUserID c" by (auto simp: user_id_of_def split: if_splits)
  have mine: "may_change_memo c s i (GetUserID c)" for i by (simp add: may_change_memo_def)
  have move: "memo_moves (may_change_memo c s) (GetUserID c) t (snd (and_then (map_err failed
      (sqlite_ListMemos E (any_memo\<lparr>fm_CreatorID := Some (GetUserID c), fm_NotebookID := nb\<rparr>) t))
      (\<lambda>ms s. (Inr (), reassign_memos E d ms s))))" if "memos_ok t" for failed nb d t
  proof (rule moves_after, goal_cases)
    case (2 ms u)
    then have ms: "sqlite_ListMemos E (any_memo\<lparr>fm_CreatorID := Some (GetUserID c), fm_NotebookID := nb\<rparr>) t = (Inr ms, u)"
      by (simp add: map_err_def split: prod.splits sum.splits)
    have ok: "memos_ok t" "memos_ok u" using same_memos_ok that 2(2) by auto
    have "mr_CreatorID m = GetUserID c" if "n \<in> set ms" "memo_at u (mr_ID n) = Some m" for n m
      using listed_owner [OF ms that(1) ok(1)] that(2) same_memo_at [OF 2(2)] by auto
    with ok mine show ?case by (simp add: moves_reassign)
  qed (simp add: memo_intros)
  show ?case
    unfolding t
    apply (rule moves_after, simp add: memo_intros)
    apply (rule moves.if_step, simp add: moves.R_refl)
    apply (rule moves_after, simp add: memo_intros)
    apply (rule moves.then_step)
     apply (auto simp: same_memos_ok assms intro!: move moves.R_refl split: option.split)[1]
    apply (simp add: moves_same memo_intros)
    done
qed (intro memo_intros)

subsection \<open>The theorem\<close>

lemma memo_request_moves:
  assumes "users_known s" "memos_ok s" "memo_request E c s t"
  shows "memo_moves (may_change_memo c s) (GetUserID c) s t"
  using assms(3)
  by cases (auto simp: assms(1,2) moves_CreateMemo moves_UpdateMemo moves_DeleteMemo moves_CreateMemoComment moves_DeleteNotebook
      intro!: moves_same intro: memo_intros)

text \<open>
  C40. Whatever a request to the memo or notebook service does, and whichever calls of the database
  fail, a memo that is changed or gone afterwards belonged to the user who asks, unless that user
  is an administrator or the memo was a comment on a memo of that user; a memo keeps its creator,
  and a memo that is new belongs to the user. The ids and uids of memos are assumed to be unique and
  the ids below the next one, which stays so; the rows of users are assumed to be unique, with ids
  below the surrogates, where the user cache is right.
\<close>

theorem memo_changes_need_owner:
  assumes "users_known s" "memos_ok s" "memo_request E c s t"
  shows "(memo_at s i = Some m \<and> memo_at t i \<noteq> Some m \<longrightarrow> may_change_memo c s i (mr_CreatorID m)) \<and>
    (memo_at s i = Some m \<and> memo_at t i = Some n \<longrightarrow> mr_CreatorID n = mr_CreatorID m) \<and>
    (memo_at s i = None \<and> memo_at t i = Some m \<longrightarrow> mr_CreatorID m = GetUserID c) \<and> memos_ok t"
  using memo_request_moves [OF assms] assms(2) unfolding memo_moves_def memo_move_def
  by (auto dest!: spec [where x = i] split: option.splits)

lemma memo_changes_need_owner_witness:
  "memos_ok (snd (DeleteMemo demo_env (ctx_of 7) ''memos/d'' demo_site)) \<and>
   memo_at (snd (DeleteMemo demo_env (ctx_of 7) ''memos/d'' demo_site)) 3 = Some (slip 3 ''s'' 9 Private)"
proof -
  have "users_known demo_site" by (simp add: users_known_def demo_ok)
  note needs = memo_changes_need_owner [OF this demo_ok(3) memo_request.delete,
      of 3 "slip 3 ''s'' 9 Private" demo_env "ctx_of 7" "''memos/d''"]
  have "memo_at demo_site 3 = Some (slip 3 ''s'' 9 Private)" by (simp add: memo_at_def demo_site_def slip_def)
  moreover have "\<not> may_change_memo (ctx_of 7) demo_site 3 9"
    by (simp add: may_change_memo_def memo_at_def demo_site_def slip_def ctx_of_def GetUserID_def no_ctx_def
        asked_by_admin_def admins_def three_users_def person_def RoleUser_def RoleAdmin_def) auto
  ultimately show ?thesis using needs by (auto simp: slip_def)
qed

end
