(* ===== verification/Spec2Isabelle.thy ===== *)
theory Spec2Isabelle
  imports Orchestrator FilterEngine CronRunner SchedulerRunner MemCache SettingsSafety MemoOwners
begin

text \<open>
  Verification library of Knowledge-Tree, a note taking server written in Go (a memos
  fork that synchronises notes and attachments with a RAGFlow knowledge base). It models
  the parts of the server that decide something: the synchronisation subsystem, the filter
  compiler, the two cron packages, the cache, accounts and sessions, the user service, and the
  services for memos, notebooks, notifications and instance settings.
  The rest is listed under "Not modelled".

  How the parts fit together. Clients reach the API services; a list request carries a
  filter expression, which the filter engine turns into the SQL condition that the store
  runs. Every change of a memo or an attachment is an event for the synchroniser, which
  uploads it into the RAGFlow dataset of its notebook, records the outcome in the table
  \<open>content_sync_state\<close> and retries what failed. The cron runner and the job scheduler
  wake background work up, and the cache keeps rows of the store in memory.

  Conventions. A Go string is a byte string, hence a char list; \<open>int\<close>, \<open>int32\<close> and
  \<open>int64\<close> are integers brought back into range where the code can overflow; the cron bit
  sets are \<open>64 word\<close>. Counters of type \<open>int\<close> that only count calls (entry ids of the cron runner,
  consecutive failures of the health checker, row ids) are unbounded, since no run gets to their
  wrap; the cache of users, which reads an id as a rune, is modelled with the truncation. A struct
  is a record, an enumeration or an interface with a fixed set of implementations is a datatype.
  A Go \<open>(T, error)\<close> is a sum with the error on the left; a panic is a constructor or a step of
  its own. Clocks, stored rows and answers of services the program only calls are arguments: an
  oracle maps the number of the request, or the time, to its answer, so that a theorem about
  every oracle covers every failure and every order of answers. No hypothesis is made about them
  unless a theorem names it.
\<close>

section \<open>Synchronisation with RAGFlow (src/plugin/sync)\<close>

text \<open>
  \<^item> SyncStore: the table \<open>content_sync_state\<close> with the upsert, list and delete operations of
    store/content\_sync\_state.go and the SQLite driver.
  \<^item> StateTracker: the world of the subsystem (tables, log of calls, clock, oracles) and the
    state machine of one item, from state\_tracker.go: pending, syncing, synced, failed with
    exponential back-off, and skipped.
  \<^item> MemoSyncer and AttachmentSyncer: upload, parse and delete of the documents of one item,
    from memo\_syncer.go and attachment\_syncer.go, with each error return.
  \<^item> VisibilityHandler: the metadata that follows a change of visibility, and the filter of
    retrieved chunks by who may read them.
  \<^item> DatasetResolver: how the client of a user and the dataset of an item are found, with the
    dataset that a notebook gets on its first use.
  \<^item> HealthChecker: the probe of the service and the circuit breaker.
  \<^item> Orchestrator: events, the periodic batch, visibility changes, the deletion of a user.

  Lemmas: the operations keep the invariant of the table (one row per item, retry counts and
  times in range); every operation has its result on each branch; the orchestrator's steps are
  the relation \<open>orch_step\<close>, whose reachable worlds keep the invariants by rule induction.
  The locale of the breaker, those of the table and of the tracker are interpreted on the
  model's own operations. Loops over rows are structural recursions, so none needs fuel.
\<close>

section \<open>Filters (src/plugin/filter)\<close>

text \<open>
  \<^item> FilterSchema: the fields of memos and attachments and the condition tree (schema.go,
    ir.go).
  \<^item> FilterParser: from the CEL expression tree to conditions (parser.go).
  \<^item> FilterRender: from conditions to SQL text and arguments, for the three dialects (render.go).
  \<^item> FilterSafety: literals never reach the text, placeholders and arguments stay in step, and
    the folding of constants keeps the value of the condition.
  \<^item> FilterEngine: compilation, the rewriting of the legacy syntax and the appended conditions
    (engine.go, helpers.go).

  The CEL compiler (github.com/google/cel-go) is a parameter: a function from the source text to
  an expression or an error.
\<close>

section \<open>Cron and scheduler (src/plugin/cron, src/plugin/scheduler)\<close>

text \<open>
  \<^item> CivilTime: the Gregorian calendar and zones with changing offsets, as far as Go's \<open>time\<close>
    is used here.
  \<^item> CronSchedule and CronSearch: the bit set schedules, the search of \<open>Next\<close> step by step
    (spec.go, constantdelay.go), and the proof that it returns the first activation.
    The search is a \<open>while_option\<close>; the locale \<open>period_search\<close> proves that it ends, since every
    round advances the time and the search stops after five years.
  \<^item> CronParser: the parser of crontab entries (parser.go), with its panics.
  \<^item> CronRunner: the entries of a \<open>Cron\<close>, its scheduler goroutine as a step relation, and the
    job wrappers (cron.go, chain.go).
  \<^item> SchedulerParser: the second cron syntax, of the job scheduler (parser.go). Its search tries
    minutes for four years, so the recursion is bounded by that number.
  \<^item> SchedulerRunner: registration, start, stop and the middleware (scheduler.go, job.go,
    middleware.go). Jobs are kept by pointer, in a heap, so a caller that changes a job after
    \<open>Register\<close> changes what runs; \<open>Stop\<close> returns when the goroutines have ended or when its
    context ends first, and then leaves the goroutines that still run.

  \<open>time.LoadLocation\<close> and \<open>time.ParseDuration\<close> are parameters.
\<close>

section \<open>Cache (src/store/cache)\<close>

text \<open>
  MemCache models cache.go: a map with expiration times, its counter and its bound. The
  order in which \<open>sync.Map.Range\<close> visits the keys is a parameter. A cache used by one goroutine
  at a time refines a map whose entries expire; two overlapping calls of \<open>Set\<close> do not.
\<close>

section \<open>Accounts and sessions (src/store, src/server/auth, src/server/router/api/v1)\<close>

text \<open>
  \<^item> AccountStore: the table of users with its operations and the cache before it
    (store/user.go, store/db/sqlite/user.go). The cache key is the id as a rune; below the
    surrogates the cached store refines the table, above them users are confused.
  \<^item> SettingStore: the rows of refresh tokens, personal access tokens and webhooks
    (store/user\_setting.go, store/db/sqlite/user\_setting.go), read and written as a whole.
  \<^item> AuthTokens: making and checking the two kinds of tokens and reading them from requests
    (auth/token.go, auth/extract.go). The JWT library is a parameter, and the hypothesis
    \<open>jwt_documented\<close> states what its documentation promises.
  \<^item> Authenticator: the ways to authenticate, the context of a request, the public methods and
    the chain of interceptors (auth/authenticator.go, auth/context.go, acl\_config.go,
    connect\_interceptors.go).
  \<^item> ClientInfo and AuthService: what is kept of the client, the cookie, and the handlers of
    auth\_service.go.
  \<^item> SessionSafety: every request as a step of the relation \<open>auth_step\<close>; a refresh token that was
    exchanged or signed out is refused in every state that is reached later.

  All of it runs on the state \<open>accounts\<close>: both tables, both caches and a counter that numbers
  the calls of clocks, random numbers and the database, whose answers are oracles.
\<close>

section \<open>User service (src/server/router/api/v1/user\_service.go)\<close>

text \<open>
  \<^item> ResourceNames: the parsers of names such as \<open>users/7\<close> (resource\_name.go), and which names
    each of them accepts and what it reads from them.
  \<^item> UserApi: listing, reading, registering, changing and deleting users.
  \<^item> UserRoles: every request as a step of \<open>user_request\<close>, and that only administrators change who
    else is one.
  \<^item> UserHazards: requests that do what they should not, each with a run of the handlers.
  \<^item> WebhookGuard: the check of webhook URLs against reserved networks (plugin/webhook), with the
    parsing of addresses that the standard library does.
  \<^item> UserSettings: the handlers of settings, personal access tokens and webhooks.
  \<^item> SettingsSafety: whose rows these handlers change (\<open>settings_request\<close>, \<open>writes\<close>), that a created
    token authenticates and a deleted one is refused, and what an update of the settings stores.
\<close>

section \<open>Memos, notebooks and instance settings (src/server/router/api/v1, src/store)\<close>

text \<open>
  \<^item> MemoRows: rows and messages of memos and what belongs to them, and their conversions
    (store/*.go, memo\_service\_converter.go).
  \<^item> SiteState: the state \<open>site\<close> of these services: the accounts as one component, the other
    tables, the cache of instance settings, and the log of webhooks and synchronisation events.
  \<^item> InstanceSettings: the settings of the instance with their defaults and cache
    (store/instance\_setting.go, instance\_service.go).
  \<^item> SiteStore and SiteTables: the statements of the SQLite driver for memos, relations,
    reactions, attachments, activities, notifications and notebooks. Filters of a search go through
    the compiler of the section on filters; what SQLite makes of the condition is a parameter.
  \<^item> MemoService and MemoHandlers: every handler of memo\_service.go and of the files for
    relations, attachments and reactions.
  \<^item> NotebookService: notebooks, notifications and activities (notebook\_service.go,
    activity\_service.go, user\_service.go).
  \<^item> MemoFrames: the locale \<open>steps\<close>, a reflexive and transitive relation between the states before
    and after a call, with the rules to chase it through a handler. Its interpretations say which
    calls leave the accounts, all tables, memos and relations, or the memos alone.
  \<^item> MemoSafety: the relation \<open>memo_moves\<close>, of the memos that a call may change, and the handlers
    that keep it.
  \<^item> MemoRuns: a small site on which the theorems are tried.
  \<^item> MemoOwners: every request as a step of \<open>memo_request\<close>, and that it changes only memos of
    the user who asks, comments on them, or any if an administrator asks.

  The oracle of the accounts also says which calls on these tables fail, so every call of a
  handler may. Loops over rows, paths and attachments are structural recursions.
\<close>

section \<open>Not modelled\<close>

text \<open>
  \<^item> The handlers of the other services (attachments, shortcuts, identity providers, the AI chat,
    the statistics of a user): they decode a request, call the store or an external service and
    convert the answer. Of user\_service.go the subscriptions.
  \<^item> The clients of RAGFlow, DashScope, S3, OAuth2 and SMTP, and the runners that call them:
    they talk to services; the synchroniser uses RAGFlow as an oracle.
  \<^item> The MySQL and PostgreSQL drivers, which run the statements of the SQLite driver in their
    dialect, and the migrations.
  \<^item> Markdown, which is a set of extensions of the Goldmark library; RSS, the file server and the
    front end, which are glue; flags and profiles.
  \<^item> Code generated from the protocol buffers, except for messages and enumerations that the
    models of the services use.
\<close>

end
